(* ===== verification/Ubt_Prelude.thy ===== *)
theory Ubt_Prelude
  imports Main "HOL-Library.Word" "HOL-Library.Monad_Syntax" "HOL-Library.Signed_Division"
begin

text \<open>
  Shared vocabulary of the development: the C integer types, the conversions between them,
  little- and big-endian byte access, in-place list updates that stand for \<open>memcpy\<close>, and the
  generic lemmas about them that the component theories rely on.

  Unsigned C integers are words of their width, so arithmetic wraps as the code's does. Signed
  \<open>int8_t\<close>, \<open>int16_t\<close> and \<open>int32_t\<close> values are \<^typ>\<open>int\<close>, and every conversion to a signed type
  is written out with the casts \<open>s8\<close>, \<open>s16\<close>, \<open>s32\<close>. Signed division is \<open>sdiv\<close>, which truncates
  towards zero as C does.
\<close>

unbundle bit_operations_syntax

type_synonym u8 = "8 word"
type_synonym u16 = "16 word"
type_synonym u32 = "32 word"
type_synonym u64 = "64 word"

named_theorems hist_simps \<open>what a step appends to the radio's operation history\<close>
named_theorems frame_simps \<open>the parts of the firmware state a step leaves alone\<close>

subsection \<open>Casts to signed C integers\<close>

definition s8 :: "int \<Rightarrow> int" where
  "s8 x = signed_take_bit 7 x"

definition s16 :: "int \<Rightarrow> int" where
  "s16 x = signed_take_bit 15 x"

definition s32 :: "int \<Rightarrow> int" where
  "s32 x = signed_take_bit 31 x"

lemma signed_take_bit_id:
  assumes "- (2 ^ n) \<le> (x::int)" and "x < 2 ^ n"
  shows "signed_take_bit n x = x"
  using assms by (simp add: signed_take_bit_int_eq_self)

lemma s8_id: "-128 \<le> x \<Longrightarrow> x < 128 \<Longrightarrow> s8 x = x"
  unfolding s8_def by (rule signed_take_bit_id) simp_all

lemma s16_id: "-32768 \<le> x \<Longrightarrow> x < 32768 \<Longrightarrow> s16 x = x"
  unfolding s16_def by (rule signed_take_bit_id) simp_all

lemma s32_id: "-2147483648 \<le> x \<Longrightarrow> x < 2147483648 \<Longrightarrow> s32 x = x"
  unfolding s32_def by (rule signed_take_bit_id) simp_all

lemma s8_range: "-128 \<le> s8 x \<and> s8 x < 128"
  unfolding s8_def
  using signed_take_bit_int_greater_eq_minus_exp [of 7 x] signed_take_bit_int_less_exp [of 7 x]
  by simp

lemma s16_range: "-32768 \<le> s16 x \<and> s16 x < 32768"
  unfolding s16_def
  using signed_take_bit_int_greater_eq_minus_exp [of 15 x] signed_take_bit_int_less_exp [of 15 x]
  by simp

subsection \<open>Truncating division\<close>

lemma sdiv_pos:
  "0 < (d::int) \<Longrightarrow> a sdiv d = (if 0 \<le> a then a div d else - ((- a) div d))"
  by (auto simp: signed_divide_int_def sgn_if)

lemma sdiv_bounds:
  assumes "0 < (d::int)" and "l * d \<le> a" and "a < (u + 1) * d" and "l \<le> 0" and "0 \<le> u"
  shows "l \<le> a sdiv d \<and> a sdiv d \<le> u"
proof (cases "0 \<le> a")
  case True
  have "a div d < u + 1"
  proof (rule ccontr)
    assume "\<not> a div d < u + 1"
    then have "(u + 1) * d \<le> a div d * d" using assms(1) by (intro mult_right_mono) simp_all
    also have "\<dots> \<le> a" using assms(1) div_mult_mod_eq [of a d] pos_mod_sign [of d a] by linarith
    finally show False using assms(3) by simp
  qed
  moreover have "0 \<le> a div d" using True assms(1) by (simp add: pos_imp_zdiv_nonneg_iff)
  ultimately show ?thesis using True assms by (simp add: sdiv_pos)
next
  case False
  have "(- a) div d \<le> (- l * d) div d"
    using assms(1,2) by (intro zdiv_mono1) simp_all
  moreover have "(- l * d) div d = - l" using assms(1) by (intro nonzero_mult_div_cancel_right) simp
  ultimately have "(- a) div d \<le> - l" by simp
  moreover have "0 \<le> (- a) div d" using False assms(1) by (simp add: pos_imp_zdiv_nonneg_iff)
  ultimately show ?thesis using False assms by (simp add: sdiv_pos)
qed

subsection \<open>Words\<close>

lemma not_bit_of_nat:
  assumes "k < 2 ^ m" and "m \<le> n"
  shows "\<not> bit (of_nat k :: 'a::len word) n"
proof -
  have "take_bit m k = k" using assms(1) by (simp add: take_bit_nat_eq_self)
  then have "\<not> bit k n" using assms(2) bit_take_bit_iff [of m k n] by auto
  then show ?thesis by (simp add: bit_of_nat_iff)
qed

lemma not_bit_ge: "LENGTH('a) \<le> n \<Longrightarrow> \<not> bit (w::'a::len word) n"
  using bit_imp_le_length [of w n] by linarith

lemma xor_cancel_right: "(a::'a::len word) XOR c = b XOR c \<longleftrightarrow> a = b"
  by (metis xor.assoc xor.right_neutral xor_self_eq)

lemma xor_left_cancel: "(a::'a::len word) XOR (a XOR b) = b"
  by (metis xor.assoc xor.left_neutral xor_self_eq)

subsection \<open>Bytes of integers\<close>

text \<open>\<open>(w >> (8 * i)) & 0xff\<close>, for any width.\<close>

definition byte_at :: "nat \<Rightarrow> 'a::len word \<Rightarrow> u8" where
  "byte_at i w = ucast (drop_bit (8 * i) w)"

definition le_bytes :: "nat \<Rightarrow> 'a::len word \<Rightarrow> u8 list" where
  "le_bytes n w = map (\<lambda>i. byte_at i w) [0..<n]"

text \<open>\<open>b[0] | b[1] << 8 | ...\<close>: a byte list read as a little-endian integer.\<close>

primrec from_le :: "u8 list \<Rightarrow> 'a::len word" where
  "from_le [] = 0"
| "from_le (b # bs) = ucast b OR push_bit 8 (from_le bs)"

lemma length_le_bytes [simp]: "length (le_bytes n w) = n"
  by (simp add: le_bytes_def)

lemma nth_le_bytes [simp]: "i < n \<Longrightarrow> le_bytes n w ! i = byte_at i w"
  by (simp add: le_bytes_def)

lemma bit_byte_at: "bit (byte_at i (w::'a::len word)) k \<longleftrightarrow> k < 8 \<and> bit w (8 * i + k)"
  by (auto simp: byte_at_def bit_simps)

lemma bit_from_le:
  "bit (from_le bs :: 'a::len word) n \<longleftrightarrow>
     n < LENGTH('a) \<and> n div 8 < length bs \<and> bit (bs ! (n div 8)) (n mod 8)"
proof (induction bs arbitrary: n)
  case Nil
  then show ?case by simp
next
  case (Cons b bs)
  show ?case
  proof (cases "n < 8")
    case True
    then show ?thesis by (auto simp: bit_simps)
  next
    case False
    then obtain m where n: "n = m + 8" by (metis add.commute le_Suc_ex linorder_not_less)
    have "\<not> bit b (m + 8)"
      using bit_imp_le_length [of b "m + 8"] by auto
    moreover have "m < LENGTH('a) \<Longrightarrow> bit (from_le bs :: 'a word) m \<longleftrightarrow> m div 8 < length bs \<and> bit (bs ! (m div 8)) (m mod 8)"
      using Cons.IH by auto
    moreover have "(m + 8) div 8 = Suc (m div 8)" and "(m + 8) mod 8 = m mod 8"
      by simp_all
    ultimately show ?thesis
      using n by (auto simp: bit_simps Cons.IH)
  qed
qed

lemma from_le_le_bytes:
  assumes "LENGTH('a::len) \<le> 8 * n"
  shows "from_le (le_bytes n (w::'a word)) = w"
proof (rule bit_word_eqI)
  fix k assume "k < LENGTH('a)"
  with assms have "k div 8 < n" by auto
  then show "bit (from_le (le_bytes n w) :: 'a word) k \<longleftrightarrow> bit w k"
    using \<open>k < LENGTH('a)\<close> by (simp add: bit_from_le bit_byte_at)
qed

subsection \<open>Loops that collect bits\<close>

lemma bit_foldl_or:
  "bit (foldl (\<lambda>r i. r OR f i) r0 xs :: 'a::len word) k \<longleftrightarrow> bit r0 k \<or> (\<exists>i\<in>set xs. bit (f i) k)"
  by (induction xs arbitrary: r0) (auto simp: bit_simps)

text \<open>\<open>for (i = 0; i < n; ++i) ret |= ((w >> i) & 1) << (n - 1 - i)\<close>\<close>

definition rev_bits :: "nat \<Rightarrow> 'a::len word \<Rightarrow> 'a word" where
  "rev_bits n w = foldl (\<lambda>r i. r OR push_bit (n - 1 - i) (drop_bit i w AND 1)) 0 [0..<n]"

lemma bit_rev_bits:
  assumes "n \<le> LENGTH('a)"
  shows "bit (rev_bits n (w::'a::len word)) k \<longleftrightarrow> k < n \<and> bit w (n - 1 - k)"
proof -
  have "(\<exists>i\<in>{0..<n}. n - Suc i \<le> k \<and> k - (n - Suc i) = 0 \<and> bit w i) \<longleftrightarrow> k < n \<and> bit w (n - Suc k)"
    (is "?l \<longleftrightarrow> ?r")
  proof
    assume ?r
    then have "n - Suc k \<in> {0..<n}" "n - Suc (n - Suc k) = k" by auto
    with \<open>?r\<close> show ?l by (intro bexI [of _ "n - Suc k"]) auto
  next
    assume ?l
    then obtain i where i: "i < n" "n - Suc i \<le> k" "k - (n - Suc i) = 0" "bit w i" by auto
    then have "n - Suc k = i" and "k < n" by simp_all
    with i show ?r by simp
  qed
  with assms show ?thesis
    by (auto simp: rev_bits_def bit_foldl_or bit_simps)
qed

lemma rev_bits_rev_bits:
  assumes "n \<le> LENGTH('a)"
  shows "rev_bits n (rev_bits n (w::'a::len word)) = take_bit n w"
  by (rule bit_word_eqI) (auto simp: bit_rev_bits [OF assms] bit_simps)

subsection \<open>Index ranges\<close>

lemma upt_40: "[0..<40] = [0, 1, 2, 3, 4, 5, 6, 7, 8, 9, 10, 11, 12, 13, 14, 15, 16, 17, 18, 19, 20,
     21, 22, 23, 24, 25, 26, 27, 28, 29, 30, 31, 32, 33, 34, 35, 36, 37, 38, 39]"
  by (simp add: upt_conv_Cons)

subsection \<open>Copies into arrays\<close>

text \<open>\<open>memcpy(dst + i, src, length src)\<close> on a list \<open>dst\<close> that is long enough.\<close>

definition put_at :: "nat \<Rightarrow> 'a list \<Rightarrow> 'a list \<Rightarrow> 'a list" where
  "put_at i src dst = take i dst @ src @ drop (i + length src) dst"

lemma length_put_at [simp]:
  "i + length src \<le> length dst \<Longrightarrow> length (put_at i src dst) = length dst"
  by (simp add: put_at_def)

lemma nth_put_at:
  "i + length src \<le> length dst \<Longrightarrow> k < length dst \<Longrightarrow>
   put_at i src dst ! k = (if i \<le> k \<and> k < i + length src then src ! (k - i) else dst ! k)"
  by (auto simp: put_at_def nth_append)

lemma take_put_at_same [simp]: "length src \<le> length dst \<Longrightarrow> take (length src) (put_at 0 src dst) = src"
  by (simp add: put_at_def)

end
