(* ===== verification/Bounded_Fifo.thy ===== *)
theory Bounded_Fifo
  imports Ubt_Prelude
begin

text \<open>
  The contract of a bounded first-in first-out queue, as the clients of the two ring buffers of
  the firmware use it: an insertion succeeds until the capacity is reached and fails afterwards
  without touching the queue, a removal yields the oldest element or fails on an empty queue. The
  locale states the laws over an abstraction to lists; the lemmas proved in it say what a client
  sees over whole sequences of operations.
\<close>

datatype 'a fifo_op = Put 'a | Get
datatype 'a fifo_res = Stored | Dropped | Got 'a | Nothing

text \<open>The operations of a queue run one after the other, with what each of them returns.\<close>

fun fifo_run ::
  "('a \<Rightarrow> 's \<Rightarrow> 's option) \<Rightarrow> ('s \<Rightarrow> ('a \<times> 's) option) \<Rightarrow> 'a fifo_op list \<Rightarrow> 's \<Rightarrow> 'a fifo_res list \<times> 's"
where
  "fifo_run put get [] s = ([], s)"
| "fifo_run put get (Put x # ops) s =
     (case put x s of
        None \<Rightarrow> apfst ((#) Dropped) (fifo_run put get ops s)
      | Some s' \<Rightarrow> apfst ((#) Stored) (fifo_run put get ops s'))"
| "fifo_run put get (Get # ops) s =
     (case get s of
        None \<Rightarrow> apfst ((#) Nothing) (fifo_run put get ops s)
      | Some (x, s') \<Rightarrow> apfst ((#) (Got x)) (fifo_run put get ops s'))"

text \<open>The specification: a list of at most \<open>cap\<close> elements.\<close>

definition list_put :: "nat \<Rightarrow> 'a \<Rightarrow> 'a list \<Rightarrow> 'a list option" where
  "list_put cap x xs = (if length xs < cap then Some (xs @ [x]) else None)"

fun list_get :: "'a list \<Rightarrow> ('a \<times> 'a list) option" where
  "list_get [] = None"
| "list_get (x # xs) = Some (x, xs)"

locale bounded_fifo =
  fixes abs :: "'s \<Rightarrow> 'a list"
    and inv :: "'s \<Rightarrow> bool"
    and put :: "'a \<Rightarrow> 's \<Rightarrow> 's option"
    and get :: "'s \<Rightarrow> ('a \<times> 's) option"
    and cap :: nat
  assumes length_abs: "inv s \<Longrightarrow> length (abs s) \<le> cap"
    and put_full: "inv s \<Longrightarrow> length (abs s) = cap \<Longrightarrow> put x s = None"
    and put_room: "inv s \<Longrightarrow> length (abs s) < cap \<Longrightarrow> \<exists>s'. put x s = Some s' \<and> inv s' \<and> abs s' = abs s @ [x]"
    and get_empty: "inv s \<Longrightarrow> abs s = [] \<Longrightarrow> get s = None"
    and get_first: "inv s \<Longrightarrow> abs s = x # xs \<Longrightarrow> \<exists>s'. get s = Some (x, s') \<and> inv s' \<and> abs s' = xs"
begin

lemma put_list: "inv s \<Longrightarrow> map_option abs (put x s) = list_put cap x (abs s)"
  using put_full [of s x] put_room [of s x] length_abs [of s]
  by (auto simp: list_put_def le_less)

lemma put_inv: "inv s \<Longrightarrow> put x s = Some s' \<Longrightarrow> inv s'"
  using put_full [of s x] put_room [of s x] length_abs [of s] by (auto simp: le_less)

lemma get_list: "inv s \<Longrightarrow> map_option (apsnd abs) (get s) = list_get (abs s)"
  using get_empty [of s] get_first [of s] by (cases "abs s") fastforce+

lemma get_inv: "inv s \<Longrightarrow> get s = Some (x, s') \<Longrightarrow> inv s'"
  using get_empty [of s] get_first [of s] by (cases "abs s") fastforce+

text \<open>Every sequence of operations returns what the bounded list returns.\<close>

lemma run_refines:
  "inv s \<Longrightarrow> apsnd abs (fifo_run put get ops s) = fifo_run (list_put cap) list_get ops (abs s)
     \<and> inv (snd (fifo_run put get ops s))"
proof (induction ops arbitrary: s)
  case Nil
  then show ?case by simp
next
  case (Cons op ops)
  show ?case
  proof (cases op)
    case (Put x)
    show ?thesis
    proof (cases "put x s")
      case None
      with put_list [OF Cons.prems, of x] have "list_put cap x (abs s) = None" by simp
      with None Put Cons show ?thesis
        by (simp add: apfst_def apsnd_def map_prod_def split_beta prod_eq_iff)
    next
      case (Some s')
      with put_list [OF Cons.prems, of x] have "list_put cap x (abs s) = Some (abs s')" by simp
      with Some Put Cons.IH [OF put_inv [OF Cons.prems Some]] show ?thesis
        by (simp add: apfst_def apsnd_def map_prod_def split_beta prod_eq_iff)
    qed
  next
    case Get
    show ?thesis
    proof (cases "get s")
      case None
      with get_list [OF Cons.prems] have "list_get (abs s) = None" by simp
      with None Get Cons show ?thesis
        by (simp add: apfst_def apsnd_def map_prod_def split_beta prod_eq_iff)
    next
      case (Some r)
      then obtain x s' where r: "get s = Some (x, s')" by (cases r) auto
      with get_list [OF Cons.prems] have "list_get (abs s) = Some (x, abs s')" by simp
      with r Get Cons.IH [OF get_inv [OF Cons.prems r]] show ?thesis
        by (simp add: apfst_def apsnd_def map_prod_def split_beta prod_eq_iff)
    qed
  qed
qed

end

text \<open>What the bounded list does with a burst of insertions: it keeps the first that fit.\<close>

lemma list_puts:
  "snd (fifo_run (list_put cap) list_get (map Put xs) ys) = ys @ take (cap - length ys) xs"
proof (induction xs arbitrary: ys)
  case Nil
  then show ?case by simp
next
  case (Cons x xs)
  show ?case
  proof (cases "length ys < cap")
    case True
    then have "cap - length ys = Suc (cap - Suc (length ys))" by simp
    with True Cons [of "ys @ [x]"] show ?thesis by (simp add: list_put_def)
  next
    case False
    with Cons [of ys] show ?thesis by (simp add: list_put_def)
  qed
qed

lemma list_puts_stored:
  "length (filter (\<lambda>r. r = Stored) (fst (fifo_run (list_put cap) list_get (map Put xs) ys)))
   = min (length xs) (cap - length ys)"
proof (induction xs arbitrary: ys)
  case Nil
  then show ?case by simp
next
  case (Cons x xs)
  show ?case
  proof (cases "length ys < cap")
    case True
    then have "cap - length ys = Suc (cap - Suc (length ys))" by simp
    with True Cons [of "ys @ [x]"] show ?thesis by (simp add: list_put_def)
  next
    case False
    with Cons [of ys] show ?thesis by (simp add: list_put_def)
  qed
qed

subsection \<open>Rings\<close>

text \<open>The elements of a ring buffer of size \<open>N\<close>: \<open>n\<close> slots from slot \<open>t\<close> on.\<close>

definition ring :: "nat \<Rightarrow> 'a list \<Rightarrow> nat \<Rightarrow> nat \<Rightarrow> 'a list" where
  "ring N buf t n = map (\<lambda>i. buf ! ((t + i) mod N)) [0..<n]"

lemma length_ring [simp]: "length (ring N buf t n) = n"
  by (simp add: ring_def)

lemma ring_0 [simp]: "ring N buf t 0 = []"
  by (simp add: ring_def)

lemma ring_slot_le: "j < N \<Longrightarrow> i \<le> j \<Longrightarrow> (t + i) mod N = (t + j) mod N \<Longrightarrow> i = (j::nat)"
proof -
  assume j: "j < N" and ij: "i \<le> j" and "(t + i) mod N = (t + j) mod N"
  then have "N dvd (t + j) - (t + i)"
    using mod_eq_dvd_iff_nat [of "t + i" "t + j" N] by simp
  then have "N dvd j - i" by simp
  with j have "j - i = 0" using dvd_imp_le [of N "j - i"] by (cases "j - i = 0") auto
  with ij show "i = j" by simp
qed

lemma ring_slot_inj: "i < N \<Longrightarrow> j < N \<Longrightarrow> (t + i) mod N = (t + j) mod N \<Longrightarrow> i = (j::nat)"
  using ring_slot_le [of j N i t] ring_slot_le [of i N j t] by (cases "i \<le> j") auto

lemma ring_append:
  assumes "n < N" and "length buf = N"
  shows "ring N (buf[(t + n) mod N := c]) t (Suc n) = ring N buf t n @ [c]"
proof -
  have "(t + n) mod N \<noteq> (t + i) mod N" if "i < n" for i
    using ring_slot_inj [of i N n t] that assms(1) by auto
  moreover have "(t + n) mod N < length buf"
    using assms by auto
  ultimately show ?thesis
    by (auto simp: ring_def)
qed

lemma ring_Cons: "ring N buf t (Suc n) = buf ! (t mod N) # ring N buf (Suc t mod N) n"
  by (simp add: ring_def upt_conv_Cons map_Suc_upt [symmetric] mod_simps del: upt_Suc)

lemma ring_mod [simp]: "ring N buf (t mod N) n = ring N buf t n"
  by (simp add: ring_def mod_simps)

end
