(* ===== verification/Serial_Fifo.thy ===== *)
theory Serial_Fifo
  imports Bounded_Fifo
begin

text \<open>
  The character queue of the virtual serial port, \<^verbatim>\<open>firmware/common/serial_fifo.c\<close>: a ring of
  \<open>VCOM_FIFO_SIZE\<close> bytes of which one always stays free. The indices are C integers; the
  remainder is C's, which truncates.
\<close>

record fifo_t =
  ff_head :: int
  ff_tail :: int
  ff_buf :: "u8 list"

abbreviation (input) VCOM_FIFO_SIZE :: int where "VCOM_FIFO_SIZE \<equiv> 128"

definition fifo_init :: "fifo_t \<Rightarrow> u8 list \<Rightarrow> fifo_t" where
  "fifo_init f buf = f\<lparr>ff_head := 0, ff_tail := 0, ff_buf := buf\<rparr>"

definition fifo_put :: "fifo_t \<Rightarrow> u8 \<Rightarrow> bool \<times> fifo_t" where
  "fifo_put f c =
     (let nxt = (ff_head f + 1) smod VCOM_FIFO_SIZE in
      if nxt = ff_tail f then (False, f)
      else (True, f\<lparr>ff_buf := (ff_buf f)[nat (ff_head f) := c], ff_head := nxt\<rparr>))"

definition fifo_get :: "fifo_t \<Rightarrow> (u8 \<times> fifo_t) option" where
  "fifo_get f =
     (if ff_head f = ff_tail f then None
      else let nxt = (ff_tail f + 1) smod VCOM_FIFO_SIZE
           in Some (ff_buf f ! nat (ff_tail f), f\<lparr>ff_tail := nxt\<rparr>))"

definition fifo_avail :: "fifo_t \<Rightarrow> int" where
  "fifo_avail f = (VCOM_FIFO_SIZE + ff_head f - ff_tail f) smod VCOM_FIFO_SIZE"

definition fifo_free :: "fifo_t \<Rightarrow> int" where
  "fifo_free f = VCOM_FIFO_SIZE - 1 - fifo_avail f"

subsection \<open>The queue is a bounded list\<close>

definition fifo_wf :: "fifo_t \<Rightarrow> bool" where
  "fifo_wf f \<longleftrightarrow> 0 \<le> ff_head f \<and> ff_head f < 128 \<and> 0 \<le> ff_tail f \<and> ff_tail f < 128 \<and> length (ff_buf f) = 128"

definition fifo_used :: "fifo_t \<Rightarrow> nat" where
  "fifo_used f = nat ((ff_head f - ff_tail f) mod 128)"

definition fifo_list :: "fifo_t \<Rightarrow> u8 list" where
  "fifo_list f = ring 128 (ff_buf f) (nat (ff_tail f)) (fifo_used f)"

definition serial_put :: "u8 \<Rightarrow> fifo_t \<Rightarrow> fifo_t option" where
  "serial_put c f = (case fifo_put f c of (ok, f') \<Rightarrow> if ok then Some f' else None)"

lemma smod_128: "0 \<le> a \<Longrightarrow> a smod 128 = a mod (128::int)"
  by (rule smod_mod_positive) simp_all

lemma fifo_used_less: "fifo_used f < 128"
  by (simp add: fifo_used_def nat_less_iff)

lemma fifo_avail_used: "fifo_wf f \<Longrightarrow> fifo_avail f = int (fifo_used f)"
proof -
  assume "fifo_wf f"
  then have "0 \<le> 128 + ff_head f - ff_tail f" by (simp add: fifo_wf_def)
  moreover have "(128 + ff_head f - ff_tail f) mod 128 = (ff_head f - ff_tail f) mod 128"
    by (metis add_diff_eq mod_add_self1)
  ultimately show ?thesis by (simp add: fifo_avail_def fifo_used_def smod_128)
qed

lemma ring_diff:
  "0 \<le> h \<Longrightarrow> h < 128 \<Longrightarrow> 0 \<le> t \<Longrightarrow> t < 128 \<Longrightarrow> (h - t) mod (128::int) = (if t \<le> h then h - t else h - t + 128)"
proof -
  assume bounds: "0 \<le> h" "h < 128" "0 \<le> t" "t < 128"
  show ?thesis
  proof (cases "t \<le> h")
    case True
    with bounds show ?thesis by (simp add: mod_pos_pos_trivial)
  next
    case False
    have "(h - t) mod 128 = (h - t + 128) mod 128" by (rule mod_add_self2 [symmetric])
    also have "\<dots> = h - t + 128" using False bounds by (intro mod_pos_pos_trivial) simp_all
    finally show ?thesis using False by simp
  qed
qed

lemma ring_Suc: "0 \<le> h \<Longrightarrow> h < 128 \<Longrightarrow> (h + 1) mod (128::int) = (if h = 127 then 0 else h + 1)"
  by auto

lemma fifo_full_iff:
  "fifo_wf f \<Longrightarrow> (ff_head f + 1) mod 128 = ff_tail f \<longleftrightarrow> fifo_used f = 127"
  by (auto simp: fifo_wf_def fifo_used_def ring_diff ring_Suc)

lemma fifo_empty_iff: "fifo_wf f \<Longrightarrow> ff_head f = ff_tail f \<longleftrightarrow> fifo_used f = 0"
  by (auto simp: fifo_wf_def fifo_used_def ring_diff)

lemma fifo_head_slot:
  "fifo_wf f \<Longrightarrow> nat (ff_head f) = (nat (ff_tail f) + fifo_used f) mod 128"
proof -
  assume wf: "fifo_wf f"
  then have "nat (ff_tail f) + fifo_used f = (if ff_tail f \<le> ff_head f then nat (ff_head f) else nat (ff_head f) + 128)"
    by (auto simp: fifo_wf_def fifo_used_def ring_diff)
  then show ?thesis using wf by (auto simp: fifo_wf_def)
qed

lemma fifo_used_put:
  "fifo_wf f \<Longrightarrow> fifo_used f < 127 \<Longrightarrow>
   fifo_used (f\<lparr>ff_buf := b, ff_head := (ff_head f + 1) mod 128\<rparr>) = Suc (fifo_used f)"
  by (auto simp: fifo_wf_def fifo_used_def ring_diff ring_Suc split: if_splits)

lemma fifo_used_get:
  "fifo_wf f \<Longrightarrow> fifo_used f = Suc n \<Longrightarrow> fifo_used (f\<lparr>ff_tail := (ff_tail f + 1) mod 128\<rparr>) = n"
  by (auto simp: fifo_wf_def fifo_used_def ring_diff ring_Suc split: if_splits)

interpretation serial: bounded_fifo fifo_list fifo_wf serial_put fifo_get 127
proof unfold_locales
  fix f x
  assume wf: "fifo_wf f"
  then have nonneg: "0 \<le> ff_head f + 1" "0 \<le> ff_tail f + 1" by (auto simp: fifo_wf_def)
  show "length (fifo_list f) \<le> 127"
    using fifo_used_less [of f] by (simp add: fifo_list_def)
  show "serial_put x f = None" if "length (fifo_list f) = 127"
    using that wf nonneg by (simp add: serial_put_def fifo_put_def smod_128 fifo_full_iff fifo_list_def)
  show "\<exists>f'. serial_put x f = Some f' \<and> fifo_wf f' \<and> fifo_list f' = fifo_list f @ [x]"
    if "length (fifo_list f) < 127"
  proof -
    let ?f' = "f\<lparr>ff_buf := (ff_buf f)[nat (ff_head f) := x], ff_head := (ff_head f + 1) mod 128\<rparr>"
    have room: "fifo_used f < 127" using that by (simp add: fifo_list_def)
    then have "serial_put x f = Some ?f'"
      using wf nonneg by (simp add: serial_put_def fifo_put_def smod_128 fifo_full_iff Let_def)
    moreover have "fifo_wf ?f'" using wf by (simp add: fifo_wf_def)
    moreover have "fifo_list ?f' = fifo_list f @ [x]"
      using ring_append [of "fifo_used f" 128 "ff_buf f" "nat (ff_tail f)" x] room wf
      by (simp add: fifo_list_def fifo_used_put fifo_head_slot [OF wf] fifo_wf_def)
    ultimately show ?thesis by blast
  qed
  show "fifo_get f = None" if "fifo_list f = []"
    using that wf by (simp add: fifo_get_def fifo_empty_iff flip: length_0_conv) (simp add: fifo_list_def)
next
  fix f x xs
  assume wf: "fifo_wf f" and first: "fifo_list f = x # xs"
  let ?f' = "f\<lparr>ff_tail := (ff_tail f + 1) mod 128\<rparr>"
  obtain n where n: "fifo_used f = Suc n"
    using first by (cases "fifo_used f") (auto simp: fifo_list_def)
  have tail: "nat ((ff_tail f + 1) mod 128) = Suc (nat (ff_tail f)) mod 128"
    using wf by (auto simp: fifo_wf_def ring_Suc)
  have "x = ff_buf f ! nat (ff_tail f)" and "xs = fifo_list ?f'"
    using first wf ring_Cons [of 128 "ff_buf f" "nat (ff_tail f)" n]
    by (auto simp: fifo_list_def n fifo_used_get [OF wf n] tail fifo_wf_def)
  moreover have "fifo_get f = Some (ff_buf f ! nat (ff_tail f), ?f')"
    using wf n by (simp add: fifo_get_def fifo_empty_iff smod_128 fifo_wf_def)
  moreover have "fifo_wf ?f'" using wf by (simp add: fifo_wf_def)
  ultimately show "\<exists>f'. fifo_get f = Some (x, f') \<and> fifo_wf f' \<and> fifo_list f' = xs" by blast
qed

lemma fifo_wf_init: "length buf = 128 \<Longrightarrow> fifo_wf (fifo_init f buf) \<and> fifo_list (fifo_init f buf) = []"
  by (simp add: fifo_wf_def fifo_init_def fifo_list_def fifo_used_def)

text \<open>From any well-formed state, every sequence of \<open>fifo_put\<close> and \<open>fifo_get\<close> calls on the
  serial ring buffer returns what a list bounded to 127 characters returns, and leaves the ring
  holding that list.\<close>

theorem serial_fifo_refines:
  assumes "fifo_wf f"
  shows "apsnd fifo_list (fifo_run serial_put fifo_get ops f)
         = fifo_run (list_put 127) list_get ops (fifo_list f)"
  using serial.run_refines [OF assms] by blast

lemma serial_fifo_refines_witness:
  "apsnd fifo_list (fifo_run serial_put fifo_get [Put 7, Get, Get]
     (fifo_init \<lparr>ff_head = 5, ff_tail = 9, ff_buf = []\<rparr> (replicate 128 0)))
   = ([Stored, Got 7, Nothing], [])"
  using serial_fifo_refines [of "fifo_init \<lparr>ff_head = 5, ff_tail = 9, ff_buf = []\<rparr> (replicate 128 0)"
      "[Put 7, Get, Get]"] fifo_wf_init [of "replicate 128 0"]
  by (simp add: list_put_def)

text \<open>The two size queries agree with the contents: \<open>fifo_avail\<close> is the number of characters
  held and \<open>fifo_free\<close> the number of further \<open>fifo_put\<close> calls that will succeed.\<close>

theorem serial_fifo_sizes:
  assumes "fifo_wf f"
  shows "fifo_avail f = int (length (fifo_list f)) \<and>
    fifo_free f = int (length (filter (\<lambda>r. r = Stored)
      (fst (fifo_run serial_put fifo_get (map Put (replicate 128 c)) f))))"
proof -
  let ?ops = "map Put (replicate 128 c)"
  have "fst (fifo_run serial_put fifo_get ?ops f) = fst (fifo_run (list_put 127) list_get ?ops (fifo_list f))"
    using serial.run_refines [OF assms, of ?ops] by (metis fst_apsnd)
  moreover have "fifo_used f \<le> 127" using fifo_used_less [of f] by simp
  ultimately show ?thesis
    using fifo_avail_used [OF assms]
    by (simp only: list_puts_stored) (simp add: fifo_free_def fifo_list_def of_nat_diff)
qed

lemma serial_fifo_sizes_witness:
  "fifo_avail (fifo_init \<lparr>ff_head = 5, ff_tail = 9, ff_buf = []\<rparr> (replicate 128 0)) = 0"
  using serial_fifo_sizes [of "fifo_init \<lparr>ff_head = 5, ff_tail = 9, ff_buf = []\<rparr> (replicate 128 0)" 0]
    fifo_wf_init [of "replicate 128 0"]
  by (simp del: map_replicate)

end
