(* ===== verification/Le_Tables.thy ===== *)
theory Le_Tables
  imports Ubt_Prelude
begin

text \<open>
  The constant tables of the Low Energy code, transcribed from
  \<^verbatim>\<open>firmware/bluetooth_rxtx/bluetooth_le.h\<close> (whitening sequence, its start index per channel,
  the pre-packed whitening words, the inverse hop table) and from
  \<^verbatim>\<open>firmware/bluetooth_rxtx/bluetooth_le.c\<close> (the CRC table).
\<close>

definition whitening :: "u8 list" where
  "whitening = [
     1, 1, 1, 1, 0, 1, 0, 1, 0, 1, 0, 0, 0, 0, 1, 0, 1, 1, 0, 1, 1, 1,
     1, 0, 0, 1, 1, 1, 0, 0, 1, 0, 1, 0, 1, 1, 0, 0, 1, 1, 0, 0, 0, 0,
     0, 1, 1, 0, 1, 1, 0, 1, 0, 1, 1, 1, 0, 1, 0, 0, 0, 1, 1, 0, 0, 1,
     0, 0, 0, 1, 0, 0, 0, 0, 0, 0, 1, 0, 0, 1, 0, 0, 1, 1, 0, 1, 0, 0,
     1, 1, 1, 1, 0, 1, 1, 1, 0, 0, 0, 0, 1, 1, 1, 1, 1, 1, 1, 0, 0, 0,
     1, 1, 1, 0, 1, 1, 0, 0, 0, 1, 0, 1, 0, 0, 1, 0, 1]"

definition whitening_index :: "u8 list" where
  "whitening_index = [
     70, 62, 120, 111, 77, 46, 15, 101, 66, 39, 31, 26, 80,
     83, 125, 89, 10, 35, 8, 54, 122, 17, 33, 0, 58, 115,
     6, 94, 86, 49, 52, 20, 40, 27, 84, 90, 63, 112, 47,
     102]"

definition hop_interval_lut :: "u8 list" where
  "hop_interval_lut = [
     0, 1, 19, 25, 28, 15, 31, 16, 14, 33, 26, 27, 34, 20, 8,
     5, 7, 24, 35, 2, 13, 30, 32, 29, 17, 3, 10, 11, 4, 23,
     21, 6, 22, 9, 12, 18, 36]"

definition whitening_word :: "u32 list list" where
  "whitening_word = [
    [0xC3BCB240, 0x5F4A371F, 0x9A9CF685, 0x44C5D6C1, 0xE1DE5920, 0xAFA51B8F,
     0xCD4E7B42, 0x2262EB60, 0xF0EF2C90, 0x57D28DC7, 0x66A73DA1, 0x113175B0],
    [0xBCB24089, 0x4A371FC3, 0x9CF6855F, 0xC5D6C19A, 0xDE592044, 0xA51B8FE1,
     0x4E7B42AF, 0x62EB60CD, 0xEF2C9022, 0xD28DC7F0, 0xA73DA157, 0x3175B066],
    [0x3DA157D2, 0x75B066A7, 0x96481131, 0x46E3F877, 0x9ED0ABE9, 0xBAD83353,
     0xCB240898, 0xA371FC3B, 0xCF6855F4, 0x5D6C19A9, 0xE592044C, 0x51B8FE1D],
    [0x42AFA51B, 0x60CD4E7B, 0x902262EB, 0xC7F0EF2C, 0xA157D28D, 0xB066A73D,
     0x48113175, 0xE3F87796, 0xD0ABE946, 0xD833539E, 0x240898BA, 0x71FC3BCB],
    [0x3F877964, 0x0ABE946E, 0x833539ED, 0x40898BAD, 0x1FC3BCB2, 0x855F4A37,
     0xC19A9CF6, 0x2044C5D6, 0x8FE1DE59, 0x42AFA51B, 0x60CD4E7B, 0x902262EB],
    [0x40898BAD, 0x1FC3BCB2, 0x855F4A37, 0xC19A9CF6, 0x2044C5D6, 0x8FE1DE59,
     0x42AFA51B, 0x60CD4E7B, 0x902262EB, 0xC7F0EF2C, 0xA157D28D, 0xB066A73D],
    [0xC19A9CF6, 0x2044C5D6, 0x8FE1DE59, 0x42AFA51B, 0x60CD4E7B, 0x902262EB,
     0xC7F0EF2C, 0xA157D28D, 0xB066A73D, 0x48113175, 0xE3F87796, 0xD0ABE946],
    [0xBE946E3F, 0x3539ED0A, 0x898BAD83, 0xC3BCB240, 0x5F4A371F, 0x9A9CF685,
     0x44C5D6C1, 0xE1DE5920, 0xAFA51B8F, 0xCD4E7B42, 0x2262EB60, 0xF0EF2C90],
    [0x3BCB2408, 0xF4A371FC, 0xA9CF6855, 0x4C5D6C19, 0x1DE59204, 0xFA51B8FE,
     0xD4E7B42A, 0x262EB60C, 0x0EF2C902, 0x7D28DC7F, 0x6A73DA15, 0x13175B06],
    [0x44C5D6C1, 0xE1DE5920, 0xAFA51B8F, 0xCD4E7B42, 0x2262EB60, 0xF0EF2C90,
     0x57D28DC7, 0x66A73DA1, 0x113175B0, 0xF8779648, 0xABE946E3, 0x33539ED0],
    [0xC5D6C19A, 0xDE592044, 0xA51B8FE1, 0x4E7B42AF, 0x62EB60CD, 0xEF2C9022,
     0xD28DC7F0, 0xA73DA157, 0x3175B066, 0x77964811, 0xE946E3F8, 0x539ED0AB],
    [0xBAD83353, 0xCB240898, 0xA371FC3B, 0xCF6855F4, 0x5D6C19A9, 0xE592044C,
     0x51B8FE1D, 0xE7B42AFA, 0x2EB60CD4, 0xF2C90226, 0x28DC7F0E, 0x73DA157D],
    [0xC7F0EF2C, 0xA157D28D, 0xB066A73D, 0x48113175, 0xE3F87796, 0xD0ABE946,
     0xD833539E, 0x240898BA, 0x71FC3BCB, 0x6855F4A3, 0x6C19A9CF, 0x92044C5D],
    [0xB8FE1DE5, 0xB42AFA51, 0xB60CD4E7, 0xC902262E, 0xDC7F0EF2, 0xDA157D28,
     0x5B066A73, 0x64811317, 0x6E3F8779, 0xED0ABE94, 0xAD833539, 0xB240898B],
    [0x39ED0ABE, 0x8BAD8335, 0xBCB24089, 0x4A371FC3, 0x9CF6855F, 0xC5D6C19A,
     0xDE592044, 0xA51B8FE1, 0x4E7B42AF, 0x62EB60CD, 0xEF2C9022, 0xD28DC7F0],
    [0x46E3F877, 0x9ED0ABE9, 0xBAD83353, 0xCB240898, 0xA371FC3B, 0xCF6855F4,
     0x5D6C19A9, 0xE592044C, 0x51B8FE1D, 0xE7B42AFA, 0x2EB60CD4, 0xF2C90226],
    [0x33539ED0, 0x0898BAD8, 0xFC3BCB24, 0x55F4A371, 0x19A9CF68, 0x044C5D6C,
     0xFE1DE592, 0x2AFA51B8, 0x0CD4E7B4, 0x02262EB6, 0x7F0EF2C9, 0x157D28DC],
    [0x4C5D6C19, 0x1DE59204, 0xFA51B8FE, 0xD4E7B42A, 0x262EB60C, 0x0EF2C902,
     0x7D28DC7F, 0x6A73DA15, 0x13175B06, 0x87796481, 0xBE946E3F, 0x3539ED0A],
    [0xCD4E7B42, 0x2262EB60, 0xF0EF2C90, 0x57D28DC7, 0x66A73DA1, 0x113175B0,
     0xF8779648, 0xABE946E3, 0x33539ED0, 0x0898BAD8, 0xFC3BCB24, 0x55F4A371],
    [0xB240898B, 0x371FC3BC, 0xF6855F4A, 0xD6C19A9C, 0x592044C5, 0x1B8FE1DE,
     0x7B42AFA5, 0xEB60CD4E, 0x2C902262, 0x8DC7F0EF, 0x3DA157D2, 0x75B066A7],
    [0xCF6855F4, 0x5D6C19A9, 0xE592044C, 0x51B8FE1D, 0xE7B42AFA, 0x2EB60CD4,
     0xF2C90226, 0x28DC7F0E, 0x73DA157D, 0x175B066A, 0x79648113, 0x946E3F87],
    [0xB066A73D, 0x48113175, 0xE3F87796, 0xD0ABE946, 0xD833539E, 0x240898BA,
     0x71FC3BCB, 0x6855F4A3, 0x6C19A9CF, 0x92044C5D, 0xB8FE1DE5, 0xB42AFA51],
    [0x3175B066, 0x77964811, 0xE946E3F8, 0x539ED0AB, 0x98BAD833, 0x3BCB2408,
     0xF4A371FC, 0xA9CF6855, 0x4C5D6C19, 0x1DE59204, 0xFA51B8FE, 0xD4E7B42A],
    [0x4E7B42AF, 0x62EB60CD, 0xEF2C9022, 0xD28DC7F0, 0xA73DA157, 0x3175B066,
     0x77964811, 0xE946E3F8, 0x539ED0AB, 0x98BAD833, 0x3BCB2408, 0xF4A371FC],
    [0xCB240898, 0xA371FC3B, 0xCF6855F4, 0x5D6C19A9, 0xE592044C, 0x51B8FE1D,
     0xE7B42AFA, 0x2EB60CD4, 0xF2C90226, 0x28DC7F0E, 0x73DA157D, 0x175B066A],
    [0xB42AFA51, 0xB60CD4E7, 0xC902262E, 0xDC7F0EF2, 0xDA157D28, 0x5B066A73,
     0x64811317, 0x6E3F8779, 0xED0ABE94, 0xAD833539, 0xB240898B, 0x371FC3BC],
    [0x3539ED0A, 0x898BAD83, 0xC3BCB240, 0x5F4A371F, 0x9A9CF685, 0x44C5D6C1,
     0xE1DE5920, 0xAFA51B8F, 0xCD4E7B42, 0x2262EB60, 0xF0EF2C90, 0x57D28DC7],
    [0x4A371FC3, 0x9CF6855F, 0xC5D6C19A, 0xDE592044, 0xA51B8FE1, 0x4E7B42AF,
     0x62EB60CD, 0xEF2C9022, 0xD28DC7F0, 0xA73DA157, 0x3175B066, 0x77964811],
    [0x371FC3BC, 0xF6855F4A, 0xD6C19A9C, 0x592044C5, 0x1B8FE1DE, 0x7B42AFA5,
     0xEB60CD4E, 0x2C902262, 0x8DC7F0EF, 0x3DA157D2, 0x75B066A7, 0x96481131],
    [0x48113175, 0xE3F87796, 0xD0ABE946, 0xD833539E, 0x240898BA, 0x71FC3BCB,
     0x6855F4A3, 0x6C19A9CF, 0x92044C5D, 0xB8FE1DE5, 0xB42AFA51, 0xB60CD4E7],
    [0xC902262E, 0xDC7F0EF2, 0xDA157D28, 0x5B066A73, 0x64811317, 0x6E3F8779,
     0xED0ABE94, 0xAD833539, 0xB240898B, 0x371FC3BC, 0xF6855F4A, 0xD6C19A9C],
    [0xB60CD4E7, 0xC902262E, 0xDC7F0EF2, 0xDA157D28, 0x5B066A73, 0x64811317,
     0x6E3F8779, 0xED0ABE94, 0xAD833539, 0xB240898B, 0x371FC3BC, 0xF6855F4A],
    [0x2262EB60, 0xF0EF2C90, 0x57D28DC7, 0x66A73DA1, 0x113175B0, 0xF8779648,
     0xABE946E3, 0x33539ED0, 0x0898BAD8, 0xFC3BCB24, 0x55F4A371, 0x19A9CF68],
    [0x5D6C19A9, 0xE592044C, 0x51B8FE1D, 0xE7B42AFA, 0x2EB60CD4, 0xF2C90226,
     0x28DC7F0E, 0x73DA157D, 0x175B066A, 0x79648113, 0x946E3F87, 0x39ED0ABE],
    [0xDC7F0EF2, 0xDA157D28, 0x5B066A73, 0x64811317, 0x6E3F8779, 0xED0ABE94,
     0xAD833539, 0xB240898B, 0x371FC3BC, 0xF6855F4A, 0xD6C19A9C, 0x592044C5],
    [0xA371FC3B, 0xCF6855F4, 0x5D6C19A9, 0xE592044C, 0x51B8FE1D, 0xE7B42AFA,
     0x2EB60CD4, 0xF2C90226, 0x28DC7F0E, 0x73DA157D, 0x175B066A, 0x79648113],
    [0xDE592044, 0xA51B8FE1, 0x4E7B42AF, 0x62EB60CD, 0xEF2C9022, 0xD28DC7F0,
     0xA73DA157, 0x3175B066, 0x77964811, 0xE946E3F8, 0x539ED0AB, 0x98BAD833],
    [0xA157D28D, 0xB066A73D, 0x48113175, 0xE3F87796, 0xD0ABE946, 0xD833539E,
     0x240898BA, 0x71FC3BCB, 0x6855F4A3, 0x6C19A9CF, 0x92044C5D, 0xB8FE1DE5],
    [0x2044C5D6, 0x8FE1DE59, 0x42AFA51B, 0x60CD4E7B, 0x902262EB, 0xC7F0EF2C,
     0xA157D28D, 0xB066A73D, 0x48113175, 0xE3F87796, 0xD0ABE946, 0xD833539E],
    [0x5F4A371F, 0x9A9CF685, 0x44C5D6C1, 0xE1DE5920, 0xAFA51B8F, 0xCD4E7B42,
     0x2262EB60, 0xF0EF2C90, 0x57D28DC7, 0x66A73DA1, 0x113175B0, 0xF8779648]]"

definition btle_crc_lut :: "u32 list" where
  "btle_crc_lut = [
     0x000000, 0x01B4C0, 0x036980, 0x02DD40, 0x06D300, 0x0767C0, 0x05BA80, 0x040E40,
     0x0DA600, 0x0C12C0, 0x0ECF80, 0x0F7B40, 0x0B7500, 0x0AC1C0, 0x081C80, 0x09A840,
     0x1B4C00, 0x1AF8C0, 0x182580, 0x199140, 0x1D9F00, 0x1C2BC0, 0x1EF680, 0x1F4240,
     0x16EA00, 0x175EC0, 0x158380, 0x143740, 0x103900, 0x118DC0, 0x135080, 0x12E440,
     0x369800, 0x372CC0, 0x35F180, 0x344540, 0x304B00, 0x31FFC0, 0x332280, 0x329640,
     0x3B3E00, 0x3A8AC0, 0x385780, 0x39E340, 0x3DED00, 0x3C59C0, 0x3E8480, 0x3F3040,
     0x2DD400, 0x2C60C0, 0x2EBD80, 0x2F0940, 0x2B0700, 0x2AB3C0, 0x286E80, 0x29DA40,
     0x207200, 0x21C6C0, 0x231B80, 0x22AF40, 0x26A100, 0x2715C0, 0x25C880, 0x247C40,
     0x6D3000, 0x6C84C0, 0x6E5980, 0x6FED40, 0x6BE300, 0x6A57C0, 0x688A80, 0x693E40,
     0x609600, 0x6122C0, 0x63FF80, 0x624B40, 0x664500, 0x67F1C0, 0x652C80, 0x649840,
     0x767C00, 0x77C8C0, 0x751580, 0x74A140, 0x70AF00, 0x711BC0, 0x73C680, 0x727240,
     0x7BDA00, 0x7A6EC0, 0x78B380, 0x790740, 0x7D0900, 0x7CBDC0, 0x7E6080, 0x7FD440,
     0x5BA800, 0x5A1CC0, 0x58C180, 0x597540, 0x5D7B00, 0x5CCFC0, 0x5E1280, 0x5FA640,
     0x560E00, 0x57BAC0, 0x556780, 0x54D340, 0x50DD00, 0x5169C0, 0x53B480, 0x520040,
     0x40E400, 0x4150C0, 0x438D80, 0x423940, 0x463700, 0x4783C0, 0x455E80, 0x44EA40,
     0x4D4200, 0x4CF6C0, 0x4E2B80, 0x4F9F40, 0x4B9100, 0x4A25C0, 0x48F880, 0x494C40,
     0xDA6000, 0xDBD4C0, 0xD90980, 0xD8BD40, 0xDCB300, 0xDD07C0, 0xDFDA80, 0xDE6E40,
     0xD7C600, 0xD672C0, 0xD4AF80, 0xD51B40, 0xD11500, 0xD0A1C0, 0xD27C80, 0xD3C840,
     0xC12C00, 0xC098C0, 0xC24580, 0xC3F140, 0xC7FF00, 0xC64BC0, 0xC49680, 0xC52240,
     0xCC8A00, 0xCD3EC0, 0xCFE380, 0xCE5740, 0xCA5900, 0xCBEDC0, 0xC93080, 0xC88440,
     0xECF800, 0xED4CC0, 0xEF9180, 0xEE2540, 0xEA2B00, 0xEB9FC0, 0xE94280, 0xE8F640,
     0xE15E00, 0xE0EAC0, 0xE23780, 0xE38340, 0xE78D00, 0xE639C0, 0xE4E480, 0xE55040,
     0xF7B400, 0xF600C0, 0xF4DD80, 0xF56940, 0xF16700, 0xF0D3C0, 0xF20E80, 0xF3BA40,
     0xFA1200, 0xFBA6C0, 0xF97B80, 0xF8CF40, 0xFCC100, 0xFD75C0, 0xFFA880, 0xFE1C40,
     0xB75000, 0xB6E4C0, 0xB43980, 0xB58D40, 0xB18300, 0xB037C0, 0xB2EA80, 0xB35E40,
     0xBAF600, 0xBB42C0, 0xB99F80, 0xB82B40, 0xBC2500, 0xBD91C0, 0xBF4C80, 0xBEF840,
     0xAC1C00, 0xADA8C0, 0xAF7580, 0xAEC140, 0xAACF00, 0xAB7BC0, 0xA9A680, 0xA81240,
     0xA1BA00, 0xA00EC0, 0xA2D380, 0xA36740, 0xA76900, 0xA6DDC0, 0xA40080, 0xA5B440,
     0x81C800, 0x807CC0, 0x82A180, 0x831540, 0x871B00, 0x86AFC0, 0x847280, 0x85C640,
     0x8C6E00, 0x8DDAC0, 0x8F0780, 0x8EB340, 0x8ABD00, 0x8B09C0, 0x89D480, 0x886040,
     0x9A8400, 0x9B30C0, 0x99ED80, 0x985940, 0x9C5700, 0x9DE3C0, 0x9F3E80, 0x9E8A40,
     0x972200, 0x9696C0, 0x944B80, 0x95FF40, 0x91F100, 0x9045C0, 0x929880, 0x932C40]"

end
