(* ===== verification/Le_Whitening.thy ===== *)
theory Le_Whitening
  imports Le_Tables
begin

text \<open>
  The whitening tables of \<^verbatim>\<open>bluetooth_le.h\<close> against the shift register they were computed from.
  The register is the one of the Bluetooth specification: seven positions, position 0 set to one,
  positions 1 to 6 loaded with the channel index most significant bit first, output taken from
  position 6, which is fed back into positions 0 and 4.
\<close>

definition white_reg :: "nat \<Rightarrow> bool list" where
  "white_reg ch = [True, bit ch 5, bit ch 4, bit ch 3, bit ch 2, bit ch 1, bit ch 0]"

definition white_step :: "bool list \<Rightarrow> bool list" where
  "white_step r = [r ! 6, r ! 0, r ! 1, r ! 2, r ! 3 \<noteq> r ! 6, r ! 4, r ! 5]"

definition white_out :: "nat \<Rightarrow> nat \<Rightarrow> bool" where
  "white_out ch n = ((white_step ^^ n) (white_reg ch)) ! 6"

subsection \<open>The output satisfies the recurrence of x^7 + x^4 + 1\<close>

lemma length_white_step_pow: "length ((white_step ^^ n) (white_reg ch)) = 7"
  by (cases n) (simp_all add: white_reg_def white_step_def)

lemma list_7: "length r = 7 \<Longrightarrow> r = [r ! 0, r ! 1, r ! 2, r ! 3, r ! 4, r ! 5, r ! 6]"
  by (rule nth_equalityI) (auto simp: less_Suc_eq numeral_eq_Suc nth_Cons')

lemma white_step_7:
  assumes "length r = 7"
  shows "(white_step ^^ 7) r ! 6 = (r ! 6 \<noteq> (white_step ^^ 4) r ! 6)"
  by (subst (2 3) list_7 [OF assms]) (simp add: numeral_eq_Suc white_step_def)

lemma white_out_rec: "white_out ch (n + 7) = (white_out ch n \<noteq> white_out ch (n + 4))"
proof -
  let ?r = "(white_step ^^ n) (white_reg ch)"
  have "(white_step ^^ (n + k)) (white_reg ch) = (white_step ^^ k) ?r" for k
    by (metis add.commute funpow_add comp_apply)
  then show ?thesis
    using white_step_7 [OF length_white_step_pow] by (simp add: white_out_def)
qed

lemma recurrence_unique:
  assumes s: "\<And>n. n + 7 < N \<Longrightarrow> s (n + 7) = (s n \<noteq> s (n + 4))"
    and init: "\<And>n. n < 7 \<Longrightarrow> s n = white_out ch n"
    and "n < N"
  shows "s n = white_out ch n"
  using \<open>n < N\<close>
proof (induction n rule: less_induct)
  case (less n)
  show ?case
  proof (cases "n < 7")
    case False
    then obtain m where n: "n = m + 7" by (metis add.commute le_Suc_ex linorder_not_less)
    with less show ?thesis by (simp add: s white_out_rec)
  qed (simp add: init)
qed

lemma white_out_init:
  "map (white_out ch) [0, 1, 2, 3, 4, 5, 6] =
   [bit ch 0, bit ch 1, bit ch 2, bit ch 3 \<noteq> bit ch 0, bit ch 4 \<noteq> bit ch 1, bit ch 5 \<noteq> bit ch 2, \<not> (bit ch 3 \<noteq> bit ch 0)]"
  by (simp add: white_out_def white_reg_def white_step_def numeral_eq_Suc)

subsection \<open>The bit table\<close>

fun rec_ok :: "u8 list \<Rightarrow> bool" where
  "rec_ok (a # b # c # d # e # f # g # h # xs) \<longleftrightarrow> h = a XOR e \<and> rec_ok (b # c # d # e # f # g # h # xs)"
| "rec_ok xs \<longleftrightarrow> True"

lemma rec_ok_nth: "rec_ok xs \<Longrightarrow> k + 7 < length xs \<Longrightarrow> xs ! (k + 7) = xs ! k XOR xs ! (k + 4)"
proof (induction xs arbitrary: k rule: rec_ok.induct)
  case (1 a b c d e f g h xs)
  show ?case
  proof (cases k)
    case 0
    then show ?thesis using 1 by (simp add: numeral_eq_Suc)
  next
    case (Suc j)
    have "rec_ok (b # c # d # e # f # g # h # xs)" using 1(2) by auto
    then show ?thesis using 1(1) [of j] 1(3) by (simp add: Suc)
  qed
qed simp_all

lemma whitening_rec_ok: "rec_ok (whitening @ take 7 whitening)"
  by (simp add: whitening_def)

lemma length_whitening [simp]: "length whitening = 127"
  by (simp add: whitening_def)

lemma whitening_wrap: "k < 134 \<Longrightarrow> (whitening @ take 7 whitening) ! k = whitening ! (k mod 127)"
proof (cases "k < 127")
  case True
  then show ?thesis by (simp add: nth_append)
next
  case False
  moreover assume "k < 134"
  ultimately have "k mod 127 = k - 127" by (simp add: le_mod_geq)
  with False \<open>k < 134\<close> show ?thesis by (simp add: nth_append)
qed

lemma whitening_rec: "whitening ! ((k + 7) mod 127) = whitening ! (k mod 127) XOR whitening ! ((k + 4) mod 127)"
proof -
  have "(whitening @ take 7 whitening) ! (k mod 127 + 7) =
        (whitening @ take 7 whitening) ! (k mod 127) XOR (whitening @ take 7 whitening) ! (k mod 127 + 4)"
    by (rule rec_ok_nth [OF whitening_rec_ok]) simp
  moreover have "k mod 127 + 7 < 134" and "k mod 127 < 134" and "k mod 127 + 4 < 134"
    using mod_less_divisor [of 127 k] by simp_all
  ultimately show ?thesis
    by (simp add: whitening_wrap mod_add_left_eq)
qed

lemma whitening_bit: "whitening ! (k mod 127) \<in> {0, 1}"
proof -
  have "list_all (\<lambda>b. b \<in> {0, 1}) whitening" by (simp add: whitening_def)
  then show ?thesis by (simp add: list_all_length)
qed

definition whitening_start_ok :: "nat \<Rightarrow> bool" where
  "whitening_start_ok ch \<longleftrightarrow>
     map (\<lambda>k. whitening ! ((unat (whitening_index ! ch) + k) mod 127)) [0, 1, 2, 3, 4, 5, 6]
     = map of_bool (map (white_out ch) [0, 1, 2, 3, 4, 5, 6])"

lemma whitening_start: "list_all whitening_start_ok [0..<40]"
  unfolding upt_40 list.pred_inject whitening_start_ok_def white_out_init
  by (simp add: whitening_def whitening_index_def bit_Suc_0_iff)

lemma of_bool_xor: "of_bool a XOR of_bool b = (of_bool (a \<noteq> b) :: u8)"
  by simp

lemma whitening_at:
  assumes "ch < 40"
  shows "whitening ! ((unat (whitening_index ! ch) + n) mod 127) = of_bool (white_out ch n)"
proof -
  let ?w = "\<lambda>n. whitening ! ((unat (whitening_index ! ch) + n) mod 127)"
  have rep: "?w n = of_bool (?w n = 1)" for n
    using whitening_bit [of "unat (whitening_index ! ch) + n"] by auto
  have "(?w n = 1) = white_out ch n"
  proof (rule recurrence_unique [of "Suc n + 7"])
    fix m
    have "?w (m + 7) = ?w m XOR ?w (m + 4)"
      using whitening_rec [of "unat (whitening_index ! ch) + m"] by (simp add: add.assoc)
    also have "\<dots> = of_bool ((?w m = 1) \<noteq> (?w (m + 4) = 1))"
      by (subst (1 2) rep) (rule of_bool_xor)
    finally show "(?w (m + 7) = 1) = ((?w m = 1) \<noteq> (?w (m + 4) = 1))"
      by simp
  next
    fix m :: nat assume "m < 7"
    then have "m \<in> {0, 1, 2, 3, 4, 5, 6}" by auto
    moreover have "whitening_start_ok ch"
      using whitening_start assms by (simp add: list_all_iff)
    ultimately show "(?w m = 1) = white_out ch m"
      by (auto simp: whitening_start_ok_def)
  qed simp
  with rep [of n] show ?thesis by simp
qed

text \<open>Starting at the channel's entry of \<open>whitening_index\<close> and wrapping at 127, the byte table
  \<open>whitening\<close> yields the output of the whitening register seeded with that channel, at every
  position.\<close>

theorem whitening_table:
  assumes "ch < 40"
  shows "whitening ! ((unat (whitening_index ! ch) + n) mod 127) = of_bool (white_out ch n)"
  by (rule whitening_at [OF assms])

lemma whitening_table_witness:
  "whitening ! ((unat (whitening_index ! 37) + 300) mod 127) = of_bool (white_out 37 300)"
  by (rule whitening_table) simp

subsection \<open>The word table\<close>

fun words_ok :: "u32 list \<Rightarrow> bool" where
  "words_ok (a # b # ws) \<longleftrightarrow>
     drop_bit 7 a OR push_bit 25 b = a XOR (drop_bit 4 a OR push_bit 28 b) \<and> words_ok (b # ws)"
| "words_ok [a] \<longleftrightarrow> take_bit 25 (drop_bit 7 a XOR a XOR drop_bit 4 a) = 0"
| "words_ok [] \<longleftrightarrow> True"

definition words_bit :: "u32 list \<Rightarrow> nat \<Rightarrow> bool" where
  "words_bit ws n = bit (ws ! (n div 32)) (n mod 32)"

lemma words_bit_Cons: "words_bit (a # ws) n = (if n < 32 then bit a n else words_bit ws (n - 32))"
proof (cases "n < 32")
  case False
  then have "n div 32 = Suc ((n - 32) div 32)" and "n mod 32 = (n - 32) mod 32"
    by (simp_all add: le_div_geq le_mod_geq)
  with False show ?thesis by (simp add: words_bit_def)
qed (simp add: words_bit_def)

lemma words_ok_bit:
  "words_ok ws \<Longrightarrow> n + 7 < 32 * length ws \<Longrightarrow>
   words_bit ws (n + 7) = (words_bit ws n \<noteq> words_bit ws (n + 4))"
proof (induction ws arbitrary: n rule: words_ok.induct)
  case (1 a b ws)
  show ?case
  proof (cases "n < 32")
    case True
    from 1(2) have "drop_bit 7 a OR push_bit 25 b = a XOR (drop_bit 4 a OR push_bit 28 b)" by auto
    then have "bit (drop_bit 7 a OR push_bit 25 b) n = bit (a XOR (drop_bit 4 a OR push_bit 28 b)) n"
      by simp
    with True show ?thesis
      by (cases "n < 25"; cases "n < 28") (auto simp: bit_simps words_bit_Cons not_bit_ge add.commute [of n])
  next
    case False
    then obtain m where n: "n = m + 32" by (metis add.commute le_Suc_ex linorder_not_less)
    then show ?thesis using 1(1) [of m] 1(2,3) by (auto simp: words_bit_Cons [of a] add.commute [of m])
  qed
next
  case (2 a)
  then have "take_bit 25 (drop_bit 7 a XOR a XOR drop_bit 4 a) = 0" by (simp only: words_ok.simps)
  then have "\<not> bit (take_bit 25 (drop_bit 7 a XOR a XOR drop_bit 4 a)) n" by simp
  moreover have "n < 25" using 2(2) by simp
  ultimately show ?case
    by (simp only: bit_take_bit_iff bit_xor_iff bit_drop_bit_eq comp_def words_bit_Cons)
      (simp add: add.commute)
qed simp

definition words_start_ok :: "nat \<Rightarrow> bool" where
  "words_start_ok ch \<longleftrightarrow>
     map (bit (whitening_word ! ch ! 0)) [0, 1, 2, 3, 4, 5, 6] = map (white_out ch) [0, 1, 2, 3, 4, 5, 6]"

lemma words_start: "list_all words_start_ok [0..<40]"
  unfolding upt_40 list.pred_inject words_start_ok_def white_out_init
  by (simp add: whitening_word_def bit_Suc_0_iff)

lemma words_length: "list_all (\<lambda>ws. length ws = 12) whitening_word" and
  length_whitening_word: "length whitening_word = 40"
  by (simp_all add: whitening_word_def)

lemma words_ok_list: "list_all words_ok whitening_word"
  by (simp add: whitening_word_def)

lemma words_ok_table: "ch < 40 \<Longrightarrow> words_ok (whitening_word ! ch) \<and> length (whitening_word ! ch) = 12"
  using words_ok_list words_length by (simp add: list_all_length length_whitening_word)

lemma whitening_word_at:
  assumes "ch < 40" and "n < 384"
  shows "words_bit (whitening_word ! ch) n = white_out ch n"
proof -
  let ?s = "words_bit (whitening_word ! ch)"
  note ok = words_ok_table [OF assms(1)]
  show ?thesis
  proof (rule recurrence_unique [of 384 ?s ch n])
    fix m :: nat assume "m + 7 < 384"
    with ok show "?s (m + 7) = (?s m \<noteq> ?s (m + 4))"
      by (intro words_ok_bit) simp_all
  next
    fix m :: nat assume "m < 7"
    then have "m \<in> {0, 1, 2, 3, 4, 5, 6}" by auto
    moreover have "words_start_ok ch"
      using words_start assms by (simp add: list_all_iff)
    ultimately have "bit (whitening_word ! ch ! 0) m = white_out ch m"
      by (auto simp: words_start_ok_def)
    with \<open>m < 7\<close> show "?s m = white_out ch m"
      by (simp add: words_bit_def)
  qed (rule assms(2))
qed

text \<open>Bit \<open>n\<close> of the pre-packed whitening words of a channel is output \<open>n\<close> of the whitening
  register of the Bluetooth specification seeded with that channel, for all 40 channels and all
  384 bits of a row.\<close>

theorem whitening_word_table:
  assumes "ch < 40" and "n < 384"
  shows "words_bit (whitening_word ! ch) n = white_out ch n"
  by (rule whitening_word_at [OF assms])

lemma whitening_word_table_witness: "words_bit (whitening_word ! 39) 383 = white_out 39 383"
  by (rule whitening_word_table) simp_all

end
