(* ===== verification/Crc_Table.thy ===== *)
theory Crc_Table
  imports Ubt_Prelude
begin

text \<open>
  Checksums of a shift register that shifts to the right, and tables of 256 entries that take eight
  steps at once. The locale \<open>table_crc\<close> states what a table has to satisfy, by recurrences that are
  checked entry by entry, and proves that a look-up is eight steps of the register and that a message
  with one byte changed never has the same checksum. It is interpreted by the table of the Low Energy
  checksum (\<open>Bluetooth_LE\<close>) and by that of the firmware files (\<open>Dfu_File\<close>).
\<close>

definition lfsr_step :: "u32 \<Rightarrow> u32 \<Rightarrow> u32" where
  "lfsr_step poly s = drop_bit 1 s XOR (if bit s 0 then poly else 0)"

text \<open>A message byte is folded into the register and shifted through.\<close>

definition crc_absorb :: "u32 \<Rightarrow> u32 \<Rightarrow> u8 \<Rightarrow> u32" where
  "crc_absorb poly s d = (lfsr_step poly ^^ 8) (s XOR ucast d)"

definition fits :: "nat \<Rightarrow> u32 \<Rightarrow> bool" where
  "fits n s \<longleftrightarrow> (\<forall>k\<ge>n. \<not> bit s k)"

lemma fitsD: "fits n s \<Longrightarrow> n \<le> k \<Longrightarrow> \<not> bit s k"
  by (simp add: fits_def)

lemma fits_xor: "fits n a \<Longrightarrow> fits n b \<Longrightarrow> fits n (a XOR b)"
  by (simp add: fits_def bit_simps)

lemma fits_0 [simp]: "fits n 0"
  by (simp add: fits_def)

lemma fits_32 [simp]: "fits 32 s"
  by (auto simp: fits_def dest: bit_imp_le_length)

lemma fits_byte: "8 \<le> n \<Longrightarrow> fits n (ucast (d::u8))"
  by (auto simp: fits_def bit_simps dest: bit_imp_le_length)

lemma fits_take_bit: "fits n s \<longleftrightarrow> take_bit n s = s"
proof
  assume "take_bit n s = s"
  then show "fits n s" by (metis fits_def bit_take_bit_iff linorder_not_less)
next
  assume "fits n s"
  then show "take_bit n s = s" by (intro bit_word_eqI) (metis fitsD bit_take_bit_iff linorder_not_less)
qed

subsection \<open>The register is linear\<close>

lemma lfsr_step_0 [simp]: "lfsr_step poly 0 = 0"
  by (simp add: lfsr_step_def)

lemma lfsr_step_xor: "lfsr_step poly (a XOR b) = lfsr_step poly a XOR lfsr_step poly b"
  by (rule bit_word_eqI) (auto simp: lfsr_step_def bit_simps)

lemma lfsr_pow_xor: "(lfsr_step poly ^^ n) (a XOR b) = (lfsr_step poly ^^ n) a XOR (lfsr_step poly ^^ n) b"
  by (induction n) (simp_all add: lfsr_step_xor)

text \<open>Shifting out zero bits only moves the register.\<close>

lemma lfsr_push_1: "\<not> bit t 31 \<Longrightarrow> lfsr_step poly (push_bit (Suc 0) t) = t"
proof -
  assume "\<not> bit t 31"
  then have "n < 31" if "n < 32" and "bit t n" for n
    using that by (cases "n = 31") auto
  then have "drop_bit (Suc 0) (push_bit (Suc 0) t) = t"
    by (intro bit_word_eqI) (auto simp: bit_simps less_Suc_eq simp del: push_bit_Suc)
  moreover have "\<not> bit (push_bit (Suc 0) t) 0"
    by (simp add: bit_simps del: push_bit_Suc)
  ultimately show ?thesis by (simp only: lfsr_step_def One_nat_def) simp
qed

lemma lfsr_pow_push: "(\<forall>k. bit t k \<longrightarrow> k + n < 32) \<Longrightarrow> (lfsr_step poly ^^ n) (push_bit n t) = t"
proof (induction n)
  case 0
  then show ?case by simp
next
  case (Suc n)
  have "\<not> bit (push_bit n t) 31"
    using Suc.prems by (auto simp: bit_simps)
  then have "lfsr_step poly (push_bit (Suc n) t) = push_bit n t"
    using lfsr_push_1 [of "push_bit n t"] by (simp add: push_bit_push_bit del: push_bit_Suc)
  moreover have "\<forall>k. bit t k \<longrightarrow> k + n < 32"
    using Suc.prems by fastforce
  then have "(lfsr_step poly ^^ n) (push_bit n t) = t"
    by (rule Suc.IH)
  ultimately show ?case
    by (simp add: funpow_Suc_right del: funpow.simps push_bit_Suc)
qed

lemma lfsr_double: "k < 128 \<Longrightarrow> lfsr_step poly (of_nat (2 * k)) = of_nat k"
proof -
  assume "k < 128"
  then have "\<not> bit (of_nat k :: u32) 31"
    by (intro not_bit_of_nat [of _ 7]) simp_all
  then have "lfsr_step poly (push_bit (Suc 0) (of_nat k)) = of_nat k"
    by (rule lfsr_push_1)
  then show ?thesis by (simp add: mult.commute)
qed

text \<open>Bit by bit, the lowest bit of a byte first.\<close>

definition crc_shift :: "u32 \<Rightarrow> u32 \<Rightarrow> bool \<Rightarrow> u32" where
  "crc_shift poly s b = drop_bit 1 s XOR (if bit s 0 \<noteq> b then poly else 0)"

lemma crc_shift_lfsr: "crc_shift poly s b = lfsr_step poly (s XOR of_bool b)"
proof -
  have "drop_bit 1 (s XOR of_bool b) = drop_bit 1 s" by (rule bit_word_eqI) (simp add: bit_simps)
  then show ?thesis by (simp add: crc_shift_def lfsr_step_def bit_simps)
qed

lemma crc_shift_bits:
  "n \<le> 8 \<Longrightarrow> foldl (crc_shift poly) s (map (bit (d::u8)) [0..<n]) = (lfsr_step poly ^^ n) (s XOR ucast (take_bit n d))"
proof (induction n)
  case (Suc n)
  have "take_bit (Suc n) d = take_bit n d XOR (if bit d n then push_bit n 1 else 0)"
    by (rule bit_word_eqI) (auto simp: bit_simps less_Suc_eq)
  then have split: "(ucast (take_bit (Suc n) d) :: u32) = ucast (take_bit n d) XOR push_bit n (of_bool (bit d n))"
    using Suc.prems by (intro bit_word_eqI) (auto simp: bit_simps less_Suc_eq)
  have "(lfsr_step poly ^^ n) (push_bit n (of_bool (bit d n))) = of_bool (bit d n)"
    using Suc.prems by (intro lfsr_pow_push) (auto simp: bit_simps)
  then have "(lfsr_step poly ^^ n) (s XOR ucast (take_bit (Suc n) d))
      = (lfsr_step poly ^^ n) (s XOR ucast (take_bit n d)) XOR of_bool (bit d n)"
    by (simp only: split lfsr_pow_xor xor.assoc)
  with Suc show ?case by (simp add: crc_shift_lfsr)
qed simp

lemma crc_absorb_bits: "crc_absorb poly s d = foldl (crc_shift poly) s (map (bit d) [0..<8])"
proof -
  have "take_bit 8 d = d" by (rule bit_word_eqI) (auto simp: bit_simps)
  then show ?thesis using crc_shift_bits [of 8 poly s d] by (simp add: crc_absorb_def)
qed

subsection \<open>Tables\<close>

fun evens :: "'a list \<Rightarrow> 'a list" where
  "evens (a # b # xs) = a # evens xs"
| "evens xs = xs"

fun odds :: "'a list \<Rightarrow> 'a list" where
  "odds (a # b # xs) = b # odds xs"
| "odds xs = []"

lemma nth_evens: "2 * k + 1 < length xs \<Longrightarrow> evens xs ! k = xs ! (2 * k)"
proof (induction xs arbitrary: k rule: evens.induct)
  case (1 a b xs)
  then show ?case by (cases k) auto
qed auto

lemma nth_odds: "2 * k + 1 < length xs \<Longrightarrow> odds xs ! k = xs ! (2 * k + 1)"
proof (induction xs arbitrary: k rule: odds.induct)
  case (1 a b xs)
  then show ?case by (cases k) auto
qed auto

text \<open>An even entry is shifted onto the entry of half the index, an odd entry differs from the one
  before by entry 1.\<close>

locale table_crc =
  fixes width :: nat and poly :: u32 and lut :: "u32 list"
  assumes width: "8 < width" "width \<le> 32"
    and poly: "fits width poly" "bit poly (width - 1)"
    and size: "length lut = 256"
    and entries: "list_all (fits width) lut"
    and first: "lut ! 0 = 0" "lut ! 1 = (lfsr_step poly ^^ 8) 1"
    and even: "map (lfsr_step poly) (evens lut) = take 128 lut"
    and odd: "odds lut = map (\<lambda>x. x XOR lut ! 1) (evens lut)"
begin

lemma fits_step: "fits width s \<Longrightarrow> fits width (lfsr_step poly s)"
  unfolding lfsr_step_def using poly(1) by (intro fits_xor) (auto simp: fits_def bit_simps)

lemma fits_pow: "fits width s \<Longrightarrow> fits width ((lfsr_step poly ^^ n) s)"
  by (induction n) (simp_all add: fits_step)

lemma fits_absorb: "fits width s \<Longrightarrow> fits width (crc_absorb poly s d)"
  unfolding crc_absorb_def using width(1) by (intro fits_pow fits_xor fits_byte) simp_all

lemma fits_absorbed: "fits width s \<Longrightarrow> fits width (foldl (crc_absorb poly) s ds)"
  by (induction ds arbitrary: s) (simp_all add: fits_absorb)

lemma step_inj:
  assumes "fits width a" and "fits width b" and "lfsr_step poly a = lfsr_step poly b"
  shows "a = b"
proof (rule bit_word_eqI)
  have top: "bit (lfsr_step poly s) (width - 1) = bit s 0" if "fits width s" for s
    using fitsD [OF that, of width] width poly(2) by (simp add: lfsr_step_def bit_simps)
  then have low: "bit a 0 = bit b 0" using assms by metis
  then have "drop_bit 1 a = drop_bit 1 b"
    using assms(3) by (simp add: lfsr_step_def xor_cancel_right split: if_splits)
  then have "bit a (Suc n) = bit b (Suc n)" for n
    by (metis bit_drop_bit_eq comp_apply plus_1_eq_Suc)
  with low show "bit a n = bit b n" for n by (cases n) auto
qed

lemma pow_inj:
  "fits width a \<Longrightarrow> fits width b \<Longrightarrow> (lfsr_step poly ^^ n) a = (lfsr_step poly ^^ n) b \<Longrightarrow> a = b"
proof (induction n arbitrary: a b)
  case (Suc n)
  have "(lfsr_step poly ^^ n) (lfsr_step poly a) = (lfsr_step poly ^^ n) (lfsr_step poly b)"
    using Suc.prems(3) by (simp only: funpow_Suc_right comp_apply)
  then have "lfsr_step poly a = lfsr_step poly b"
    by (intro Suc.IH [of "lfsr_step poly a" "lfsr_step poly b"] fits_step Suc.prems)
  then show ?case by (rule step_inj [OF Suc.prems(1,2)])
qed simp

lemma even_step:
  assumes "k < 128"
  shows "lfsr_step poly (lut ! (2 * k)) = lut ! k"
proof -
  have len: "length (evens lut) = 128"
    by (metis even length_map length_take size min_def numeral_le_iff semiring_norm(69,71))
  have "map (lfsr_step poly) (evens lut) ! k = take 128 lut ! k"
    by (simp only: even)
  then show ?thesis using assms by (simp add: len nth_evens size)
qed

lemma odd_step:
  assumes "k < 128"
  shows "lut ! (2 * k + 1) = lut ! (2 * k) XOR lut ! 1"
proof -
  have len: "length (evens lut) = 128"
    by (metis even length_map length_take size min_def numeral_le_iff semiring_norm(69,71))
  have "odds lut ! k = map (\<lambda>x. x XOR lut ! 1) (evens lut) ! k"
    by (simp only: odd)
  then show ?thesis using assms by (simp add: len nth_odds nth_evens size)
qed

lemma table_nth: "k < 256 \<Longrightarrow> lut ! k = (lfsr_step poly ^^ 8) (of_nat k)"
proof (induction k rule: less_induct)
  case (less k)
  have 0: "(lfsr_step poly ^^ n) 0 = 0" for n by (induction n) simp_all
  obtain j where j: "k = 2 * j \<or> k = 2 * j + 1" by (metis oddE evenE)
  with less.prems have jb: "j < 128" by auto
  have even: "lut ! (2 * j) = (lfsr_step poly ^^ 8) (of_nat (2 * j))" (is "?a = ?b")
  proof (cases "j = 0")
    case True
    then show ?thesis by (simp add: first(1) 0 del: funpow.simps)
  next
    case False
    show ?thesis
    proof (rule step_inj)
      show "fits width ?a" using entries jb by (simp add: list_all_length size)
      have "fits width (of_nat (2 * j))"
        unfolding fits_def using width(1) jb not_bit_of_nat [of "2 * j" 8, where 'a = 32] by auto
      then show "fits width ?b" by (rule fits_pow)
      have "lfsr_step poly ?b = (lfsr_step poly ^^ 8) (lfsr_step poly (of_nat (2 * j)))"
        by (simp only: funpow_swap1)
      also have "\<dots> = (lfsr_step poly ^^ 8) (of_nat j)" using jb by (simp only: lfsr_double)
      also have "\<dots> = lut ! j" using False j less.IH [of j] jb by auto
      finally show "lfsr_step poly ?a = lfsr_step poly ?b" using jb by (simp add: even_step)
    qed
  qed
  show ?case
  proof (cases "k = 2 * j")
    case True
    with even show ?thesis by simp
  next
    case False
    with j have k: "k = 2 * j + 1" by simp
    have "even (of_nat (2 * j) :: u32)" by simp
    then have "of_nat k = (of_nat (2 * j) XOR 1 :: u32)"
      by (simp add: k xor_one_eq)
    then show ?thesis
      using odd_step [OF jb] even by (simp only: lfsr_pow_xor first(2) k [symmetric])
  qed
qed

lemma pow_8: "(lfsr_step poly ^^ 8) s = drop_bit 8 s XOR lut ! unat (s AND 0xff)"
proof -
  have low: "s AND 0xff = take_bit 8 s"
    by (simp add: take_bit_eq_mask mask_eq_decr_exp)
  have split: "s = take_bit 8 s XOR push_bit 8 (drop_bit 8 s)"
    by (rule bit_word_eqI) (auto simp: bit_simps)
  have "\<forall>k. bit (drop_bit 8 s) k \<longrightarrow> k + 8 < 32"
    by (auto simp: bit_simps dest: bit_imp_le_length)
  then have high: "(lfsr_step poly ^^ 8) (push_bit 8 (drop_bit 8 s)) = drop_bit 8 s"
    by (rule lfsr_pow_push)
  have "unat (take_bit 8 s) < 256"
    using take_bit_nat_less_exp [of 8 "unat s"] by (simp add: unsigned_take_bit_eq)
  then have "(lfsr_step poly ^^ 8) (take_bit 8 s) = lut ! unat (take_bit 8 s)"
    by (simp add: table_nth)
  then have "(lfsr_step poly ^^ 8) (take_bit 8 s XOR push_bit 8 (drop_bit 8 s))
             = lut ! unat (take_bit 8 s) XOR drop_bit 8 s"
    by (simp only: lfsr_pow_xor high)
  with split low show ?thesis by (simp add: xor.commute)
qed

lemma absorb_table: "crc_absorb poly s d = drop_bit 8 s XOR lut ! unat ((s XOR ucast d) AND 0xff)"
proof -
  have "drop_bit 8 (s XOR ucast d) = drop_bit 8 s"
    by (rule bit_word_eqI) (auto simp: bit_simps dest: bit_imp_le_length)
  then show ?thesis by (simp add: crc_absorb_def pow_8)
qed

subsection \<open>One changed byte\<close>

lemma absorb_inj:
  assumes "fits width a" and "fits width b" and "crc_absorb poly a c = crc_absorb poly b d"
  shows "a XOR ucast c = b XOR ucast d"
proof (rule pow_inj)
  show "(lfsr_step poly ^^ 8) (a XOR ucast c) = (lfsr_step poly ^^ 8) (b XOR ucast d)"
    using assms(3) by (simp only: crc_absorb_def)
qed (use assms(1,2) width(1) in \<open>simp_all add: fits_xor fits_byte\<close>)

lemma fold_inj:
  "fits width a \<Longrightarrow> fits width b \<Longrightarrow> foldl (crc_absorb poly) a ds = foldl (crc_absorb poly) b ds \<Longrightarrow> a = b"
proof (induction ds arbitrary: a b)
  case (Cons d ds)
  then have "crc_absorb poly a d = crc_absorb poly b d" by (simp add: fits_absorb)
  with Cons.prems show ?case using absorb_inj [of a b d d] by (simp add: xor_cancel_right)
qed simp

lemma fold_update:
  assumes "fits width s" and "i < length ds"
    and "foldl (crc_absorb poly) s (ds[i := b]) = foldl (crc_absorb poly) s ds"
  shows "b = ds ! i"
proof -
  let ?s = "foldl (crc_absorb poly) s (take i ds)"
  have s: "fits width ?s" by (rule fits_absorbed [OF assms(1)])
  have "foldl (crc_absorb poly) (crc_absorb poly ?s b) (drop (Suc i) ds)
      = foldl (crc_absorb poly) (crc_absorb poly ?s (ds ! i)) (drop (Suc i) ds)"
    using assms(2,3) by (subst (asm) (2) id_take_nth_drop [OF assms(2)]) (simp add: upd_conv_take_nth_drop)
  then have "crc_absorb poly ?s b = crc_absorb poly ?s (ds ! i)"
    by (rule fold_inj [rotated 2]) (simp_all add: s fits_absorb)
  then have "?s XOR ucast b = ?s XOR ucast (ds ! i)" by (rule absorb_inj [OF s s])
  then have eq: "ucast b = (ucast (ds ! i) :: u32)" by (metis xor_left_cancel)
  show ?thesis
  proof (rule bit_word_eqI)
    fix n assume "n < LENGTH(8)"
    then show "bit b n = bit (ds ! i) n"
      using arg_cong [OF eq, of "\<lambda>x. bit x n"] by (simp add: bit_simps)
  qed
qed

end

end
