(* ===== verification/Bluetooth_LE.thy ===== *)
theory Bluetooth_LE
  imports Le_Tables Crc_Table
begin

text \<open>
  The Low Energy arithmetic of \<^verbatim>\<open>firmware/bluetooth_rxtx/bluetooth_le.c\<close>: channel numbering,
  connection hopping, and the three CRC routines, with the state record \<open>le_state_t\<close> of
  \<^verbatim>\<open>bluetooth_le.h\<close>. The lemmas show that the table-driven CRC equals the bitwise one, that the
  reverse CRC inverts it, that the tables are what they stand for, and that a hop sequence visits
  every data channel.
\<close>

subsection \<open>Link-layer state\<close>

datatype link_state_t = LINK_INACTIVE | LINK_LISTENING | LINK_CONN_PENDING | LINK_CONNECTED

record le_state =
  access_address :: u32
  synch :: u16
  syncl :: u16
  crc_init :: u32
  crc_init_reversed :: u32
  crc_verify :: bool
  link_state :: link_state_t
  channel_idx :: u8
  channel_increment :: u8
  conn_epoch :: u32
  interval_timer :: u16
  conn_interval :: u16
  conn_count :: u16
  win_size :: u8
  win_offset :: u16
  update_pending :: bool
  update_instant :: u16
  interval_update :: u16
  new_win_size :: u8
  new_win_offset :: u16
  le_target :: "u8 list"
  target_set :: bool
  last_packet :: u32

text \<open>The static initialiser of the global \<open>le\<close> in \<^verbatim>\<open>bluetooth_rxtx.c\<close>; fields it leaves out are zero.\<close>

definition le_initial :: le_state where
  "le_initial = \<lparr>
     access_address = 0x8e89bed6, synch = 0x6b7d, syncl = 0x9171,
     crc_init = 0x555555, crc_init_reversed = 0xAAAAAA, crc_verify = True,
     link_state = LINK_INACTIVE, channel_idx = 0, channel_increment = 0, conn_epoch = 0,
     interval_timer = 0, conn_interval = 0, conn_count = 0, win_size = 0, win_offset = 0,
     update_pending = False, update_instant = 0, interval_update = 0,
     new_win_size = 0, new_win_offset = 0,
     le_target = [0, 0, 0, 0, 0, 0], target_set = False, last_packet = 0\<rparr>"

subsection \<open>Channels\<close>

definition btle_channel_index :: "u8 \<Rightarrow> u8" where
  "btle_channel_index ch =
     (let channel = ch div 2 in
      if channel = 0 then 37
      else if channel < 12 then channel - 1
      else if channel = 12 then 38
      else if channel < 39 then channel - 2
      else 39)"

definition btle_channel_index_to_phys :: "u8 \<Rightarrow> u16" where
  "btle_channel_index_to_phys idx =
     (if idx < 11 then 2404 + 2 * ucast idx
      else if idx < 37 then 2428 + 2 * (ucast idx - 11)
      else if idx = 37 then 2402
      else if idx = 38 then 2426
      else 2480)"

definition btle_next_hop :: "le_state \<Rightarrow> u16 \<times> le_state" where
  "btle_next_hop le =
     (btle_channel_index_to_phys (channel_idx le),
      le\<lparr>channel_idx := of_nat ((unat (channel_idx le) + unat (channel_increment le)) mod 37)\<rparr>)"

subsection \<open>CRC\<close>

text \<open>One step of the inner loop of \<open>btle_calc_crc\<close>, on the pair \<open>(state, cur)\<close>.\<close>

definition crc_bit :: "u32 \<times> u8 \<Rightarrow> u32 \<times> u8" where
  "crc_bit = (\<lambda>(state, cur).
     let next_bit = (state XOR ucast cur) AND 1;
         cur = drop_bit 1 cur;
         state = drop_bit 1 state
     in (if next_bit \<noteq> 0 then (state OR push_bit 23 1) XOR 0x5a6000 else state, cur))"

definition crc_byte :: "u32 \<Rightarrow> u8 \<Rightarrow> u32" where
  "crc_byte state cur = fst ((crc_bit ^^ 8) (state, cur))"

definition btle_calc_crc :: "u32 \<Rightarrow> u8 list \<Rightarrow> nat \<Rightarrow> u32" where
  "btle_calc_crc init data len = foldl crc_byte (init AND 0xffffff) (take len data)"

text \<open>One step of the inner loop of \<open>btle_reverse_crc\<close> for the bit index \<open>j\<close>.\<close>

definition rcrc_bit :: "u8 \<Rightarrow> u32 \<Rightarrow> nat \<Rightarrow> u32" where
  "rcrc_bit cur state j =
     (let top_bit = drop_bit 23 state;
          state = push_bit 1 state AND 0xffffff;
          state = state OR (top_bit XOR (ucast (drop_bit (7 - j) cur) AND 1))
      in if top_bit \<noteq> 0 then state XOR 0xb4c000 else state)"

definition rcrc_byte :: "u8 \<Rightarrow> u32 \<Rightarrow> u32" where
  "rcrc_byte cur state = foldl (rcrc_bit cur) state [0..<8]"

definition btle_reverse_crc :: "u32 \<Rightarrow> u8 list \<Rightarrow> nat \<Rightarrow> u32" where
  "btle_reverse_crc crc data len = rev_bits 24 (foldr rcrc_byte (take len data) crc)"

definition crc_lut_byte :: "u32 \<Rightarrow> u8 \<Rightarrow> u32" where
  "crc_lut_byte state d =
     (let key = d XOR ucast (state AND 0xff)
      in drop_bit 8 state XOR (btle_crc_lut ! unat key))"

definition btle_crcgen_lut :: "u32 \<Rightarrow> u8 list \<Rightarrow> nat \<Rightarrow> u32" where
  "btle_crcgen_lut init data len = foldl crc_lut_byte (init AND 0xffffff) (take len data)"

subsection \<open>The table-driven CRC is the bitwise one\<close>

text \<open>
  With the message byte folded into the register, a step of the loop is the linear map \<open>lfsr\<close>.
\<close>

definition lfsr :: "u32 \<Rightarrow> u32" where
  "lfsr s = drop_bit 1 s XOR (if bit s 0 then 0xda6000 else 0)"

definition crc24 :: "u32 \<Rightarrow> bool" where
  "crc24 s \<longleftrightarrow> (\<forall>n\<ge>24. \<not> bit s n)"

lemma crc24D: "crc24 s \<Longrightarrow> 24 \<le> n \<Longrightarrow> \<not> bit s n"
  by (simp add: crc24_def)

lemma and_ffffff: "(s::u32) AND 0xffffff = take_bit 24 s"
  by (simp add: take_bit_eq_mask mask_eq_decr_exp)

lemma crc24_take_bit [simp]: "crc24 (take_bit 24 s)"
  by (simp add: crc24_def bit_simps)

lemma crc24_id: "crc24 s \<Longrightarrow> take_bit 24 s = s"
  by (rule bit_word_eqI) (metis crc24D bit_take_bit_iff linorder_not_less)

lemma crc24_numeral: "crc24 (numeral k) \<longleftrightarrow> take_bit 24 (numeral k :: u32) = numeral k"
  by (metis crc24_id crc24_take_bit)

lemma crc24_xor: "crc24 a \<Longrightarrow> crc24 b \<Longrightarrow> crc24 (a XOR b)"
  by (simp add: crc24_def bit_simps)

lemma crc24_ucast [simp]: "crc24 (ucast (c::u8))"
  by (auto simp: crc24_def bit_simps dest: bit_imp_le_length)

lemma or_as_xor: "\<not> bit x n \<Longrightarrow> (x::u32) OR push_bit n 1 = x XOR push_bit n 1"
  by (rule bit_word_eqI) (auto simp: bit_simps)

lemma bit_xor_and_1: "(x::u32) AND 1 \<noteq> 0 \<longleftrightarrow> bit x 0"
  by (simp add: and_one_eq bit_0 odd_iff_mod_2_eq_one)

lemma lfsr_xor: "lfsr (a XOR b) = lfsr a XOR lfsr b"
  by (rule bit_word_eqI) (auto simp: lfsr_def bit_simps)

lemma crc24_lfsr: "crc24 s \<Longrightarrow> crc24 (lfsr s)"
  unfolding lfsr_def
  by (rule crc24_xor) (auto simp: crc24_numeral, auto simp: crc24_def bit_simps)

lemma crc_bit_lfsr:
  assumes "crc24 s"
  shows "crc_bit (s, c) = (lfsr (s XOR ucast c) XOR ucast (drop_bit 1 c), drop_bit 1 c)"
proof -
  have "\<not> bit (drop_bit 1 s) 23"
    using crc24D [OF assms, of 24] by (simp add: bit_simps)
  then have or_top: "drop_bit 1 s OR push_bit 23 1 = drop_bit 1 s XOR push_bit 23 1"
    by (rule or_as_xor)
  have "push_bit 23 1 XOR 0x5a6000 = (0xda6000::u32)"
    by simp
  then have *: "(drop_bit 1 s OR push_bit 23 1) XOR 0x5a6000 = drop_bit 1 s XOR 0xda6000"
    unfolding or_top xor.assoc by (rule arg_cong)
  have ucast_drop: "ucast (drop_bit (Suc 0) c) = (drop_bit (Suc 0) (ucast c) :: u32)"
    by (rule bit_word_eqI) (auto simp: bit_simps dest: bit_imp_le_length)
  show ?thesis
    unfolding crc_bit_def Let_def case_prod_conv bit_xor_and_1 *
    by (simp add: lfsr_def ucast_drop drop_bit_xor xor.assoc xor.left_commute xor.commute)
qed

lemma crc_bit_lfsr_pow:
  assumes "crc24 s"
  shows "(crc_bit ^^ n) (s, c) = ((lfsr ^^ n) (s XOR ucast c) XOR ucast (drop_bit n c), drop_bit n c)
         \<and> crc24 ((lfsr ^^ n) (s XOR ucast c))"
proof (induction n)
  case 0
  then show ?case using assms by (simp add: crc24_xor xor.assoc)
next
  case (Suc n)
  let ?t = "(lfsr ^^ n) (s XOR ucast c)"
  from Suc have t: "crc24 ?t" and step: "(crc_bit ^^ n) (s, c) = (?t XOR ucast (drop_bit n c), drop_bit n c)"
    by auto
  have "crc24 (?t XOR ucast (drop_bit n c))"
    using t by (simp add: crc24_xor)
  then show ?case
    by (simp add: step crc_bit_lfsr crc24_lfsr [OF t] xor.assoc)
qed

lemma crc_byte_lfsr: "crc24 s \<Longrightarrow> crc_byte s c = (lfsr ^^ 8) (s XOR ucast c)"
proof -
  have "drop_bit 8 c = 0" by (rule bit_word_eqI) (auto simp: bit_simps dest: bit_imp_le_length)
  then show "crc24 s \<Longrightarrow> ?thesis"
    by (simp add: crc_byte_def crc_bit_lfsr_pow)
qed

lemma crc24_crc_byte: "crc24 s \<Longrightarrow> crc24 (crc_byte s c)"
  by (simp add: crc_byte_lfsr crc_bit_lfsr_pow)

text \<open>The table of the source is one of \<open>table_crc\<close>.\<close>

lemma lfsr_step_eq: "lfsr_step 0xda6000 = lfsr"
  by (rule ext) (simp add: lfsr_step_def lfsr_def)

lemma fits_crc24: "fits 24 = crc24"
  by (rule ext) (simp add: fits_def crc24_def)

interpretation le_crc: table_crc 24 "0xda6000" btle_crc_lut
  rewrites "lfsr_step 0xda6000 = lfsr" and "fits 24 = crc24"
proof -
  show "table_crc 24 0xda6000 btle_crc_lut"
  proof unfold_locales
    show "btle_crc_lut ! 1 = (lfsr_step 0xda6000 ^^ 8) 1" by code_simp
    show "map (lfsr_step 0xda6000) (evens btle_crc_lut) = take 128 btle_crc_lut"
      by (simp add: btle_crc_lut_def lfsr_step_def)
    show "list_all (fits 24) btle_crc_lut" by (simp add: btle_crc_lut_def fits_take_bit)
  qed (simp_all add: btle_crc_lut_def fits_take_bit bit_numeral_rec)
qed (simp_all add: lfsr_step_eq fits_crc24)

lemma crc_absorb_byte: "crc24 s \<Longrightarrow> crc_absorb 0xda6000 s c = crc_byte s c"
  by (simp only: crc_absorb_def lfsr_step_eq crc_byte_lfsr)

lemma crc_absorb_bytes: "crc24 s \<Longrightarrow> foldl (crc_absorb 0xda6000) s ds = foldl crc_byte s ds"
  by (induction ds arbitrary: s) (simp_all add: crc_absorb_byte crc24_crc_byte)

lemma crc_lut_byte_eq:
  assumes "crc24 s"
  shows "crc_lut_byte s d = crc_byte s d"
proof -
  have "take_bit 8 (s XOR ucast d) = ucast (d XOR ucast (take_bit 8 s))"
    by (rule bit_word_eqI) (auto simp: bit_simps dest: bit_imp_le_length)
  then have "(s XOR ucast d) AND 0xff = ucast (d XOR ucast (s AND 0xff))"
    by (simp add: take_bit_eq_mask mask_eq_decr_exp)
  moreover have "unat (ucast (k::u8) :: u32) = unat k" for k
    by (simp add: unsigned_ucast_eq take_bit_nat_eq_self unsigned_less [THEN order_less_trans])
  ultimately show ?thesis
    using le_crc.absorb_table [of s d] assms by (simp add: crc_lut_byte_def crc_absorb_byte)
qed

lemma foldl_crc_lut: "crc24 s \<Longrightarrow> foldl crc_lut_byte s ds = foldl crc_byte s ds"
  by (induction ds arbitrary: s) (simp_all add: crc_lut_byte_eq crc24_crc_byte)

text \<open>C17: The table-driven CRC of \<open>btle_crcgen_lut\<close> computes the same checksum as the bit-serial
  \<open>btle_calc_crc\<close>, for every CRCInit, every buffer and every length.\<close>

theorem btle_crcgen_lut_correct: "btle_crcgen_lut init data len = btle_calc_crc init data len"
  by (simp add: btle_crcgen_lut_def btle_calc_crc_def and_ffffff foldl_crc_lut)

subsection \<open>The reverse CRC inverts the CRC\<close>

definition crc_in :: "u32 \<Rightarrow> bool \<Rightarrow> u32" where
  "crc_in s b = lfsr (s XOR of_bool b)"

lemma lfsr_ucast_split:
  "lfsr (ucast (d::u8)) = ucast (drop_bit 1 d) XOR lfsr (of_bool (bit d 0))"
proof -
  have "drop_bit (Suc 0) (ucast d) = (ucast (drop_bit (Suc 0) d) :: u32)"
    by (rule bit_word_eqI) (auto simp: bit_simps dest: bit_imp_le_length)
  then show ?thesis by (simp add: lfsr_def bit_simps)
qed

lemma crc_bit_pow_crc_in:
  assumes "crc24 s"
  shows "(crc_bit ^^ n) (s, c) = (foldl (\<lambda>s i. crc_in s (bit c i)) s [0..<n], drop_bit n c)
         \<and> crc24 (foldl (\<lambda>s i. crc_in s (bit c i)) s [0..<n])"
proof (induction n)
  case 0
  then show ?case using assms by simp
next
  case (Suc n)
  let ?t = "foldl (\<lambda>s i. crc_in s (bit c i)) s [0..<n]"
  from Suc have t: "crc24 ?t" and step: "(crc_bit ^^ n) (s, c) = (?t, drop_bit n c)" by auto
  have "lfsr (?t XOR ucast (drop_bit n c)) XOR ucast (drop_bit (Suc 0) (drop_bit n c)) = crc_in ?t (bit c n)"
    by (simp only: crc_in_def lfsr_xor lfsr_ucast_split)
      (auto intro!: bit_word_eqI simp: bit_simps)
  moreover have "crc24 (crc_in ?t (bit c n))"
    unfolding crc_in_def [of _ "bit c n"]
    by (intro crc24_lfsr crc24_xor t) (auto simp: crc24_def bit_simps)
  ultimately show ?case
    by (simp add: step crc_bit_lfsr t)
qed

lemma even_ucast_iff: "even (ucast (c::u8) :: u32) \<longleftrightarrow> even c"
  using bit_0 [of c] bit_0 [of "ucast c :: u32"] by (simp add: bit_simps)

lemma rcrc_bit_crc_in:
  assumes s: "crc24 s" and "i < 8"
  shows "rcrc_bit cur (crc_in s (bit cur i)) (7 - i) = s"
proof -
  let ?b = "bit cur i" and ?s' = "crc_in s (bit cur i)" and ?t = "bit s 0 \<noteq> bit cur i"
  let ?u = "take_bit 24 (push_bit 1 (drop_bit 1 s))"
  have s': "?s' = drop_bit 1 s XOR (if ?t then 0xda6000 else 0)"
    by (simp add: crc_in_def lfsr_def bit_simps drop_bit_xor)
  have crc24_s': "crc24 ?s'"
    unfolding crc_in_def using s by (intro crc24_lfsr crc24_xor) (auto simp: crc24_def bit_simps)
  have top: "drop_bit 23 ?s' = of_bool ?t"
  proof (rule bit_word_eqI)
    fix n
    show "bit (drop_bit 23 ?s') n \<longleftrightarrow> bit (of_bool ?t :: u32) n"
    proof (cases n)
      case 0
      then show ?thesis using crc24D [OF s, of 24] by (simp add: s' bit_simps)
    next
      case (Suc m)
      then show ?thesis using crc24D [OF crc24_s', of "23 + n"] by (simp add: bit_simps)
    qed
  qed
  have shift: "push_bit 1 ?s' AND 0xffffff = ?u XOR (if ?t then 0xb4c000 else 0)"
    unfolding s' and_ffffff push_bit_xor take_bit_xor by simp
  have low: "ucast (drop_bit (7 - (7 - i)) cur) AND 1 = (of_bool ?b :: u32)"
    using assms(2) by (simp add: and_one_eq mod2_eq_if bit_iff_odd_drop_bit even_ucast_iff)
  have or_low: "(?u XOR c) OR of_bool d = (?u OR of_bool d) XOR c" if "\<not> bit c 0" for c d
    using that by (intro bit_word_eqI) (auto simp: bit_simps bit_1_iff)
  have restored: "?u OR of_bool (bit s 0) = s"
  proof (rule bit_word_eqI)
    fix n
    show "bit (?u OR of_bool (bit s 0)) n \<longleftrightarrow> bit s n"
      using crc24D [OF s, of n]
      by (cases n; cases "n < 24") (auto simp: bit_simps simp del: push_bit_Suc)
  qed
  have mix: "of_bool ?t XOR of_bool ?b = (of_bool (bit s 0) :: u32)"
    by simp
  have "rcrc_bit cur ?s' (7 - i) =
      (let st = (?u XOR (if ?t then 0xb4c000 else 0)) OR of_bool (bit s 0)
       in if ?t then st XOR 0xb4c000 else st)"
    unfolding rcrc_bit_def Let_def top shift low mix by simp
  also have "\<dots> = s"
    using or_low [of "if ?t then 0xb4c000 else 0" "bit s 0", unfolded restored]
    by (auto simp: Let_def xor.assoc)
  finally show ?thesis .
qed

lemma rcrc_byte_crc_byte:
  assumes s: "crc24 s"
  shows "rcrc_byte c (crc_byte s c) = s"
proof -
  let ?F = "\<lambda>n. foldl (\<lambda>s i. crc_in s (bit c i)) s [0..<n]"
  have "n \<le> 8 \<Longrightarrow> foldl (rcrc_bit c) (?F n) [8 - n..<8] = s" for n
  proof (induction n)
    case (Suc n)
    have "Suc (7 - n) = 8 - n" using Suc.prems by simp
    then have up: "[8 - Suc n..<8] = (7 - n) # [8 - n..<8]"
      using upt_conv_Cons [of "7 - n" 8] by simp
    have "rcrc_bit c (?F (Suc n)) (7 - n) = ?F n"
      using rcrc_bit_crc_in [of "?F n" n c] crc_bit_pow_crc_in [OF s, of n c] Suc.prems by simp
    with Suc up show ?case by simp
  qed simp
  from this [of 8] show ?thesis
    using crc_bit_pow_crc_in [OF s, of 8 c] by (simp add: rcrc_byte_def crc_byte_def)
qed

lemma rcrc_fold:
  "crc24 s \<Longrightarrow> foldr rcrc_byte ds (foldl crc_byte s ds) = s"
  by (induction ds arbitrary: s) (simp_all add: crc24_crc_byte rcrc_byte_crc_byte)

text \<open>C28: Running \<open>btle_reverse_crc\<close> over a packet from its checksum recovers the CRCInit the
  checksum was computed with, in reversed bit order. This is what promiscuous mode relies on to
  learn the CRCInit of a connection it did not see being set up.\<close>

theorem btle_reverse_crc_inverts:
  "btle_reverse_crc (btle_calc_crc init data len) data len = rev_bits 24 (init AND 0xffffff)"
  by (simp add: btle_reverse_crc_def btle_calc_crc_def rcrc_fold and_ffffff)

subsection \<open>Channels and hopping\<close>

lemma byte_below_40:
  fixes i :: u8
  assumes "i < 40" and "\<And>k. k < 40 \<Longrightarrow> P (of_nat k)"
  shows "P i"
proof -
  have "unat i < 40" using assms(1) by (simp add: word_less_nat_alt)
  then have "P (of_nat (unat i))" by (rule assms(2))
  then show ?thesis by simp
qed

lemma channel_round_trip_list:
  "list_all (\<lambda>k. btle_channel_index (ucast (btle_channel_index_to_phys (of_nat k) - 2402)) = of_nat k) [0..<40]"
  by code_simp

text \<open>\<open>btle_channel_index\<close>, given the offset of a frequency from 2402 MHz, inverts
  \<open>btle_channel_index_to_phys\<close> on all 40 LE channels.\<close>

theorem btle_channel_round_trip:
  assumes "idx < 40"
  shows "btle_channel_index (ucast (btle_channel_index_to_phys idx - 2402)) = idx"
  using assms channel_round_trip_list by (rule_tac byte_below_40) (simp_all add: list_all_iff)

lemma btle_channel_round_trip_witness:
  "(17::u8) < 40 \<and> btle_channel_index (ucast (btle_channel_index_to_phys 17 - 2402)) = 17"
  using btle_channel_round_trip [of 17] by simp

definition le_hop_step :: "le_state \<Rightarrow> le_state" where
  "le_hop_step le = snd (btle_next_hop le)"

lemma channel_after_hops:
  assumes "unat (channel_idx le) < 37"
  shows "unat (channel_idx ((le_hop_step ^^ n) le))
         = (unat (channel_idx le) + n * unat (channel_increment le)) mod 37
         \<and> channel_increment ((le_hop_step ^^ n) le) = channel_increment le"
proof (induction n)
  case 0
  then show ?case using assms by simp
next
  case (Suc n)
  have "unat (of_nat (k mod 37) :: u8) = k mod 37" for k
    by (simp add: unsigned_of_nat take_bit_nat_eq_self mod_less_divisor [THEN order_less_trans])
  with Suc show ?case
    by (simp add: le_hop_step_def btle_next_hop_def mod_add_left_eq) (simp add: algebra_simps)
qed

lemma dvd_37:
  fixes d :: nat
  assumes "d dvd 37"
  shows "d = 1 \<or> d = 37"
proof -
  have divisors: "list_all (\<lambda>d. 37 mod d = 0 \<longrightarrow> d = 1 \<or> d = (37::nat)) [1..<38]" by code_simp
  have "d \<noteq> 0" using assms by (intro notI) simp
  moreover have "d \<le> 37" using assms by (rule dvd_imp_le) simp
  ultimately have d: "d \<in> set [1..<38]" by simp
  have "37 mod d = 0" using assms by simp
  show ?thesis
    by (rule divisors [unfolded list_all_iff, rule_format, of d, OF d \<open>37 mod d = 0\<close>])
qed

lemma coprime_37: "\<not> 37 dvd k \<Longrightarrow> coprime k (37::nat)"
  using dvd_37 [of "gcd k 37"] by (auto simp: coprime_iff_gcd_eq_1) (metis gcd_dvd1)

lemma mult_mod_37_le:
  assumes "\<not> 37 dvd (k::nat)" and "a < 37" and "b \<le> a" and "(c + a * k) mod 37 = (c + b * k) mod 37"
  shows "a = b"
proof -
  have "b * k \<le> a * k" using assms(3) by simp
  with assms(4) have "37 dvd a * k - b * k"
    using mod_eq_dvd_iff_nat [of "c + b * k" "c + a * k" 37] by simp
  then have "37 dvd k * (a - b)"
    by (simp add: diff_mult_distrib2 mult.commute)
  then have "37 dvd a - b"
    using coprime_37 [OF assms(1)] by (simp add: coprime_dvd_mult_right_iff coprime_commute)
  with assms(2,3) show ?thesis
    by (metis diff_is_0_eq dvd_imp_le le_antisym less_imp_diff_less linorder_not_less not_gr_zero)
qed

lemma mult_mod_37_cancel:
  assumes "\<not> 37 dvd (k::nat)" and "a < 37" "b < 37" and "(c + a * k) mod 37 = (c + b * k) mod 37"
  shows "a = b"
  using mult_mod_37_le [of k a b c] mult_mod_37_le [of k b a c] assms by (cases "b \<le> a") auto

text \<open>With a hop increment that is not a multiple of 37, 37 consecutive calls of
  \<open>btle_next_hop\<close> visit each of the 37 data channels exactly once.\<close>

theorem hop_visits_all_channels:
  assumes "unat (channel_idx le) < 37" and "\<not> 37 dvd unat (channel_increment le)"
  shows "(\<lambda>n. unat (channel_idx ((le_hop_step ^^ n) le))) ` {..<37} = {..<37}"
proof (rule endo_inj_surj)
  let ?f = "\<lambda>n. unat (channel_idx ((le_hop_step ^^ n) le))"
  show "?f ` {..<37} \<subseteq> {..<37}"
    using channel_after_hops [OF assms(1)] by auto
  show "inj_on ?f {..<37}"
    using channel_after_hops [OF assms(1)] mult_mod_37_cancel [OF assms(2)]
    by (auto intro!: inj_onI)
qed simp

lemma hop_visits_all_channels_witness:
  "(\<lambda>n. unat (channel_idx ((le_hop_step ^^ n) (le_initial\<lparr>channel_increment := 7\<rparr>)))) ` {..<37} = {..<37}"
  by (rule hop_visits_all_channels) (simp_all add: le_initial_def)

text \<open>\<open>hop_interval_lut\<close> holds the inverses modulo 37.\<close>

lemma hop_interval_inverse:
  assumes "0 < k" and "k < 37"
  shows "(k * unat (hop_interval_lut ! k)) mod 37 = 1"
proof -
  have "list_all (\<lambda>k. (k * unat (hop_interval_lut ! k)) mod 37 = 1) [1..<37]" by code_simp
  with assms show ?thesis by (simp add: list_all_iff)
qed

lemma hop_interval_lut_less: "k < 37 \<Longrightarrow> unat (hop_interval_lut ! k) < 37"
proof -
  have "list_all (\<lambda>b. unat b < 37) hop_interval_lut" by code_simp
  moreover have "length hop_interval_lut = 37" by code_simp
  ultimately show "k < 37 \<Longrightarrow> ?thesis" by (simp add: list_all_length)
qed

text \<open>If a connection starting on data channel 0 reaches data channel 1 after \<open>k\<close> hops, then
  entry \<open>k\<close> of \<open>hop_interval_lut\<close> is the connection's hop increment, which is how
  \<open>promisc_recover_hop_increment\<close> recovers it from two timestamps.\<close>

theorem hop_interval_recovers:
  assumes "channel_idx le = 0" and "unat (channel_increment le) < 37"
    and "k < 37" and "channel_idx ((le_hop_step ^^ k) le) = 1"
  shows "hop_interval_lut ! k = channel_increment le"
proof -
  let ?i = "unat (channel_increment le)" and ?l = "unat (hop_interval_lut ! k)"
  have hop: "(k * ?i) mod 37 = 1"
    using channel_after_hops [of le k] assms by simp
  have "k \<noteq> 0" using hop by (intro notI) simp
  then have k: "0 < k" by simp
  have "?i = ?l"
  proof (rule mult_mod_37_cancel)
    show "\<not> 37 dvd k" using k assms(3) dvd_imp_le [of 37 k] by (intro notI) simp
    show "?i < 37" by (rule assms(2))
    show "?l < 37" by (rule hop_interval_lut_less [OF assms(3)])
    show "(0 + ?i * k) mod 37 = (0 + ?l * k) mod 37"
      by (simp only: add_0 mult.commute [of _ k] hop hop_interval_inverse [OF k assms(3)])
  qed
  then show ?thesis by (simp add: word_unat_eq_iff)
qed

lemma hop_interval_recovers_witness:
  "hop_interval_lut ! 16 = channel_increment (le_initial\<lparr>channel_increment := 7\<rparr>)"
  using channel_after_hops [of "le_initial\<lparr>channel_increment := 7\<rparr>" 16]
  by (intro hop_interval_recovers) (simp_all add: le_initial_def word_unat_eq_iff)

end
