(* ===== verification/Interface.thy ===== *)
theory Interface
  imports Ubt_Prelude
begin

text \<open>
  The interface shared by firmware and host: the USB commands, operating modes, hop modes, packet
  types and status bits of \<^verbatim>\<open>ubertooth_interface.h\<close> and \<^verbatim>\<open>firmware/common/ubertooth.h\<close>, and the
  64-byte packet \<open>usb_pkt_rx\<close> with its layout in memory. Enumerations are datatypes with their
  numeric codes; a packet converts to and from the bytes that cross the bus.
\<close>

subsection \<open>Enumerations\<close>

datatype usb_cmd =
    UBERTOOTH_PING | UBERTOOTH_RX_SYMBOLS | UBERTOOTH_TX_SYMBOLS
  | UBERTOOTH_GET_USRLED | UBERTOOTH_SET_USRLED | UBERTOOTH_GET_RXLED
  | UBERTOOTH_SET_RXLED | UBERTOOTH_GET_TXLED | UBERTOOTH_SET_TXLED
  | UBERTOOTH_GET_1V8 | UBERTOOTH_SET_1V8 | UBERTOOTH_GET_CHANNEL
  | UBERTOOTH_SET_CHANNEL | UBERTOOTH_RESET | UBERTOOTH_GET_SERIAL
  | UBERTOOTH_GET_PARTNUM | UBERTOOTH_GET_PAEN | UBERTOOTH_SET_PAEN
  | UBERTOOTH_GET_HGM | UBERTOOTH_SET_HGM | UBERTOOTH_TX_TEST
  | UBERTOOTH_STOP | UBERTOOTH_GET_MOD | UBERTOOTH_SET_MOD
  | UBERTOOTH_SET_ISP | UBERTOOTH_FLASH | BOOTLOADER_FLASH
  | UBERTOOTH_SPECAN | UBERTOOTH_GET_PALEVEL | UBERTOOTH_SET_PALEVEL
  | UBERTOOTH_REPEATER | UBERTOOTH_RANGE_TEST | UBERTOOTH_RANGE_CHECK
  | UBERTOOTH_GET_REV_NUM | UBERTOOTH_LED_SPECAN | UBERTOOTH_GET_BOARD_ID
  | UBERTOOTH_SET_SQUELCH | UBERTOOTH_GET_SQUELCH | UBERTOOTH_SET_BDADDR
  | UBERTOOTH_START_HOPPING | UBERTOOTH_SET_CLOCK | UBERTOOTH_GET_CLOCK
  | UBERTOOTH_BTLE_SNIFFING | UBERTOOTH_GET_ACCESS_ADDRESS | UBERTOOTH_SET_ACCESS_ADDRESS
  | UBERTOOTH_DO_SOMETHING | UBERTOOTH_DO_SOMETHING_REPLY | UBERTOOTH_GET_CRC_VERIFY
  | UBERTOOTH_SET_CRC_VERIFY | UBERTOOTH_POLL | UBERTOOTH_BTLE_PROMISC
  | UBERTOOTH_SET_AFHMAP | UBERTOOTH_CLEAR_AFHMAP | UBERTOOTH_READ_REGISTER
  | UBERTOOTH_BTLE_SLAVE | UBERTOOTH_GET_COMPILE_INFO | UBERTOOTH_BTLE_SET_TARGET
  | UBERTOOTH_BTLE_PHY | UBERTOOTH_WRITE_REGISTER | UBERTOOTH_JAM_MODE
  | UBERTOOTH_EGO | UBERTOOTH_AFH | UBERTOOTH_HOP
  | UBERTOOTH_TRIM_CLOCK

primrec cmd_code :: "usb_cmd \<Rightarrow> u8" where
  "cmd_code UBERTOOTH_PING = 0"
| "cmd_code UBERTOOTH_RX_SYMBOLS = 1"
| "cmd_code UBERTOOTH_TX_SYMBOLS = 2"
| "cmd_code UBERTOOTH_GET_USRLED = 3"
| "cmd_code UBERTOOTH_SET_USRLED = 4"
| "cmd_code UBERTOOTH_GET_RXLED = 5"
| "cmd_code UBERTOOTH_SET_RXLED = 6"
| "cmd_code UBERTOOTH_GET_TXLED = 7"
| "cmd_code UBERTOOTH_SET_TXLED = 8"
| "cmd_code UBERTOOTH_GET_1V8 = 9"
| "cmd_code UBERTOOTH_SET_1V8 = 10"
| "cmd_code UBERTOOTH_GET_CHANNEL = 11"
| "cmd_code UBERTOOTH_SET_CHANNEL = 12"
| "cmd_code UBERTOOTH_RESET = 13"
| "cmd_code UBERTOOTH_GET_SERIAL = 14"
| "cmd_code UBERTOOTH_GET_PARTNUM = 15"
| "cmd_code UBERTOOTH_GET_PAEN = 16"
| "cmd_code UBERTOOTH_SET_PAEN = 17"
| "cmd_code UBERTOOTH_GET_HGM = 18"
| "cmd_code UBERTOOTH_SET_HGM = 19"
| "cmd_code UBERTOOTH_TX_TEST = 20"
| "cmd_code UBERTOOTH_STOP = 21"
| "cmd_code UBERTOOTH_GET_MOD = 22"
| "cmd_code UBERTOOTH_SET_MOD = 23"
| "cmd_code UBERTOOTH_SET_ISP = 24"
| "cmd_code UBERTOOTH_FLASH = 25"
| "cmd_code BOOTLOADER_FLASH = 26"
| "cmd_code UBERTOOTH_SPECAN = 27"
| "cmd_code UBERTOOTH_GET_PALEVEL = 28"
| "cmd_code UBERTOOTH_SET_PALEVEL = 29"
| "cmd_code UBERTOOTH_REPEATER = 30"
| "cmd_code UBERTOOTH_RANGE_TEST = 31"
| "cmd_code UBERTOOTH_RANGE_CHECK = 32"
| "cmd_code UBERTOOTH_GET_REV_NUM = 33"
| "cmd_code UBERTOOTH_LED_SPECAN = 34"
| "cmd_code UBERTOOTH_GET_BOARD_ID = 35"
| "cmd_code UBERTOOTH_SET_SQUELCH = 36"
| "cmd_code UBERTOOTH_GET_SQUELCH = 37"
| "cmd_code UBERTOOTH_SET_BDADDR = 38"
| "cmd_code UBERTOOTH_START_HOPPING = 39"
| "cmd_code UBERTOOTH_SET_CLOCK = 40"
| "cmd_code UBERTOOTH_GET_CLOCK = 41"
| "cmd_code UBERTOOTH_BTLE_SNIFFING = 42"
| "cmd_code UBERTOOTH_GET_ACCESS_ADDRESS = 43"
| "cmd_code UBERTOOTH_SET_ACCESS_ADDRESS = 44"
| "cmd_code UBERTOOTH_DO_SOMETHING = 45"
| "cmd_code UBERTOOTH_DO_SOMETHING_REPLY = 46"
| "cmd_code UBERTOOTH_GET_CRC_VERIFY = 47"
| "cmd_code UBERTOOTH_SET_CRC_VERIFY = 48"
| "cmd_code UBERTOOTH_POLL = 49"
| "cmd_code UBERTOOTH_BTLE_PROMISC = 50"
| "cmd_code UBERTOOTH_SET_AFHMAP = 51"
| "cmd_code UBERTOOTH_CLEAR_AFHMAP = 52"
| "cmd_code UBERTOOTH_READ_REGISTER = 53"
| "cmd_code UBERTOOTH_BTLE_SLAVE = 54"
| "cmd_code UBERTOOTH_GET_COMPILE_INFO = 55"
| "cmd_code UBERTOOTH_BTLE_SET_TARGET = 56"
| "cmd_code UBERTOOTH_BTLE_PHY = 57"
| "cmd_code UBERTOOTH_WRITE_REGISTER = 58"
| "cmd_code UBERTOOTH_JAM_MODE = 59"
| "cmd_code UBERTOOTH_EGO = 60"
| "cmd_code UBERTOOTH_AFH = 61"
| "cmd_code UBERTOOTH_HOP = 62"
| "cmd_code UBERTOOTH_TRIM_CLOCK = 63"

definition all_cmds :: "usb_cmd list" where
  "all_cmds = [UBERTOOTH_PING, UBERTOOTH_RX_SYMBOLS, UBERTOOTH_TX_SYMBOLS,
     UBERTOOTH_GET_USRLED, UBERTOOTH_SET_USRLED, UBERTOOTH_GET_RXLED,
     UBERTOOTH_SET_RXLED, UBERTOOTH_GET_TXLED, UBERTOOTH_SET_TXLED,
     UBERTOOTH_GET_1V8, UBERTOOTH_SET_1V8, UBERTOOTH_GET_CHANNEL,
     UBERTOOTH_SET_CHANNEL, UBERTOOTH_RESET, UBERTOOTH_GET_SERIAL,
     UBERTOOTH_GET_PARTNUM, UBERTOOTH_GET_PAEN, UBERTOOTH_SET_PAEN,
     UBERTOOTH_GET_HGM, UBERTOOTH_SET_HGM, UBERTOOTH_TX_TEST,
     UBERTOOTH_STOP, UBERTOOTH_GET_MOD, UBERTOOTH_SET_MOD,
     UBERTOOTH_SET_ISP, UBERTOOTH_FLASH, BOOTLOADER_FLASH,
     UBERTOOTH_SPECAN, UBERTOOTH_GET_PALEVEL, UBERTOOTH_SET_PALEVEL,
     UBERTOOTH_REPEATER, UBERTOOTH_RANGE_TEST, UBERTOOTH_RANGE_CHECK,
     UBERTOOTH_GET_REV_NUM, UBERTOOTH_LED_SPECAN, UBERTOOTH_GET_BOARD_ID,
     UBERTOOTH_SET_SQUELCH, UBERTOOTH_GET_SQUELCH, UBERTOOTH_SET_BDADDR,
     UBERTOOTH_START_HOPPING, UBERTOOTH_SET_CLOCK, UBERTOOTH_GET_CLOCK,
     UBERTOOTH_BTLE_SNIFFING, UBERTOOTH_GET_ACCESS_ADDRESS, UBERTOOTH_SET_ACCESS_ADDRESS,
     UBERTOOTH_DO_SOMETHING, UBERTOOTH_DO_SOMETHING_REPLY, UBERTOOTH_GET_CRC_VERIFY,
     UBERTOOTH_SET_CRC_VERIFY, UBERTOOTH_POLL, UBERTOOTH_BTLE_PROMISC,
     UBERTOOTH_SET_AFHMAP, UBERTOOTH_CLEAR_AFHMAP, UBERTOOTH_READ_REGISTER,
     UBERTOOTH_BTLE_SLAVE, UBERTOOTH_GET_COMPILE_INFO, UBERTOOTH_BTLE_SET_TARGET,
     UBERTOOTH_BTLE_PHY, UBERTOOTH_WRITE_REGISTER, UBERTOOTH_JAM_MODE,
     UBERTOOTH_EGO, UBERTOOTH_AFH, UBERTOOTH_HOP,
     UBERTOOTH_TRIM_CLOCK]"

definition cmd_of :: "u8 \<Rightarrow> usb_cmd option" where
  "cmd_of r = (if unat r < length all_cmds then Some (all_cmds ! unat r) else None)"

datatype operating_mode =
    MODE_IDLE | MODE_RX_SYMBOLS | MODE_TX_SYMBOLS
  | MODE_TX_TEST | MODE_SPECAN | MODE_RANGE_TEST
  | MODE_REPEATER | MODE_LED_SPECAN | MODE_BT_FOLLOW
  | MODE_BT_FOLLOW_LE | MODE_BT_PROMISC_LE | MODE_RESET
  | MODE_BT_SLAVE_LE | MODE_EGO | MODE_AFH

primrec mode_code :: "operating_mode \<Rightarrow> u8" where
  "mode_code MODE_IDLE = 0"
| "mode_code MODE_RX_SYMBOLS = 1"
| "mode_code MODE_TX_SYMBOLS = 2"
| "mode_code MODE_TX_TEST = 3"
| "mode_code MODE_SPECAN = 4"
| "mode_code MODE_RANGE_TEST = 5"
| "mode_code MODE_REPEATER = 6"
| "mode_code MODE_LED_SPECAN = 7"
| "mode_code MODE_BT_FOLLOW = 8"
| "mode_code MODE_BT_FOLLOW_LE = 9"
| "mode_code MODE_BT_PROMISC_LE = 10"
| "mode_code MODE_RESET = 11"
| "mode_code MODE_BT_SLAVE_LE = 12"
| "mode_code MODE_EGO = 13"
| "mode_code MODE_AFH = 14"

datatype hop_mode_t =
    HOP_NONE | HOP_SWEEP | HOP_BLUETOOTH | HOP_BTLE | HOP_DIRECT | HOP_AFH

primrec hop_code :: "hop_mode_t \<Rightarrow> u8" where
  "hop_code HOP_NONE = 0"
| "hop_code HOP_SWEEP = 1"
| "hop_code HOP_BLUETOOTH = 2"
| "hop_code HOP_BTLE = 3"
| "hop_code HOP_DIRECT = 4"
| "hop_code HOP_AFH = 5"

datatype usb_pkt_type =
    BR_PACKET | LE_PACKET | MESSAGE | KEEP_ALIVE | SPECAN | LE_PROMISC | EGO_PACKET

primrec pkt_type_code :: "usb_pkt_type \<Rightarrow> u8" where
  "pkt_type_code BR_PACKET = 0"
| "pkt_type_code LE_PACKET = 1"
| "pkt_type_code MESSAGE = 2"
| "pkt_type_code KEEP_ALIVE = 3"
| "pkt_type_code SPECAN = 4"
| "pkt_type_code LE_PROMISC = 5"
| "pkt_type_code EGO_PACKET = 6"

text \<open>Jam modes and modulations are kept as the bytes the host sends: the firmware stores them
  unchecked.\<close>

abbreviation (input) JAM_NONE :: u8 where "JAM_NONE \<equiv> 0"
abbreviation (input) JAM_ONCE :: u8 where "JAM_ONCE \<equiv> 1"
abbreviation (input) JAM_CONTINUOUS :: u8 where "JAM_CONTINUOUS \<equiv> 2"

abbreviation (input) MOD_BT_BASIC_RATE :: u8 where "MOD_BT_BASIC_RATE \<equiv> 0"
abbreviation (input) MOD_BT_LOW_ENERGY :: u8 where "MOD_BT_LOW_ENERGY \<equiv> 1"
abbreviation (input) MOD_80211_FHSS :: u8 where "MOD_80211_FHSS \<equiv> 2"

abbreviation (input) DMA_OVERFLOW :: u8 where "DMA_OVERFLOW \<equiv> 0x01"
abbreviation (input) DMA_ERROR :: u8 where "DMA_ERROR \<equiv> 0x02"
abbreviation (input) FIFO_OVERFLOW :: u8 where "FIFO_OVERFLOW \<equiv> 0x04"
abbreviation (input) CS_TRIGGER :: u8 where "CS_TRIGGER \<equiv> 0x08"
abbreviation (input) RSSI_TRIGGER :: u8 where "RSSI_TRIGGER \<equiv> 0x10"
abbreviation (input) DISCARD :: u8 where "DISCARD \<equiv> 0x20"

abbreviation (input) DMA_SIZE :: nat where "DMA_SIZE \<equiv> 50"
abbreviation (input) NUM_BREDR_CHANNELS :: nat where "NUM_BREDR_CHANNELS \<equiv> 79"

lemma length_all_cmds [simp]: "length all_cmds = 64"
  by (simp add: all_cmds_def)

lemma all_cmds_codes: "map cmd_code all_cmds = map of_nat [0..<64]"
  by (simp add: all_cmds_def upt_conv_Cons)

lemma cmd_of_code [simp]: "cmd_of (cmd_code c) = Some c"
  by (cases c) (simp_all add: cmd_of_def all_cmds_def)

lemma cmd_code_of: "cmd_of r = Some c \<Longrightarrow> cmd_code c = r"
proof -
  assume "cmd_of r = Some c"
  then have r: "unat r < 64" and c: "c = all_cmds ! unat r"
    by (auto simp: cmd_of_def split: if_splits)
  have "map cmd_code all_cmds ! unat r = map of_nat [0..<64] ! unat r"
    by (simp only: all_cmds_codes)
  with r show "cmd_code c = r" by (simp add: c)
qed

lemma cmd_of_None: "cmd_of r = None \<longleftrightarrow> 64 \<le> r"
  by (auto simp: cmd_of_def word_le_nat_alt)

lemma mode_code_inj: "mode_code a = mode_code b \<longleftrightarrow> a = b"
  by (cases a; cases b) simp_all

subsection \<open>The receive packet\<close>

record usb_pkt_rx =
  pkt_type :: u8
  pkt_status :: u8
  pkt_channel :: u8
  pkt_clkn_high :: u8
  pkt_clk100ns :: u32
  pkt_rssi_max :: u8
  pkt_rssi_min :: u8
  pkt_rssi_avg :: u8
  pkt_rssi_count :: u8
  pkt_reserved :: "u8 list"
  pkt_data :: "u8 list"

definition pkt_zero :: usb_pkt_rx where
  "pkt_zero = \<lparr>pkt_type = 0, pkt_status = 0, pkt_channel = 0, pkt_clkn_high = 0, pkt_clk100ns = 0,
     pkt_rssi_max = 0, pkt_rssi_min = 0, pkt_rssi_avg = 0, pkt_rssi_count = 0,
     pkt_reserved = [0, 0], pkt_data = replicate DMA_SIZE 0\<rparr>"

definition pkt_wf :: "usb_pkt_rx \<Rightarrow> bool" where
  "pkt_wf p \<longleftrightarrow> length (pkt_reserved p) = 2 \<and> length (pkt_data p) = DMA_SIZE"

text \<open>The layout of the structure in memory: both sides are little endian and the structure has no
  padding.\<close>

definition pkt_bytes :: "usb_pkt_rx \<Rightarrow> u8 list" where
  "pkt_bytes p = [pkt_type p, pkt_status p, pkt_channel p, pkt_clkn_high p]
     @ le_bytes 4 (pkt_clk100ns p)
     @ [pkt_rssi_max p, pkt_rssi_min p, pkt_rssi_avg p, pkt_rssi_count p]
     @ pkt_reserved p @ pkt_data p"

definition pkt_of_bytes :: "u8 list \<Rightarrow> usb_pkt_rx" where
  "pkt_of_bytes bs = \<lparr>pkt_type = bs ! 0, pkt_status = bs ! 1, pkt_channel = bs ! 2,
     pkt_clkn_high = bs ! 3, pkt_clk100ns = from_le (take 4 (drop 4 bs)),
     pkt_rssi_max = bs ! 8, pkt_rssi_min = bs ! 9, pkt_rssi_avg = bs ! 10, pkt_rssi_count = bs ! 11,
     pkt_reserved = take 2 (drop 12 bs), pkt_data = take DMA_SIZE (drop 14 bs)\<rparr>"

lemma length_pkt_bytes: "pkt_wf p \<Longrightarrow> length (pkt_bytes p) = 64"
  by (simp add: pkt_bytes_def pkt_wf_def)

lemma pkt_wf_zero [simp]: "pkt_wf pkt_zero"
  by (simp add: pkt_wf_def pkt_zero_def)

lemma le_bytes_4: "le_bytes 4 w = [byte_at 0 w, byte_at 1 w, byte_at 2 w, byte_at 3 w]"
  by (simp add: le_bytes_def upt_conv_Cons numeral_2_eq_2 numeral_3_eq_3)

lemma pkt_of_bytes_of_pkt: "pkt_wf p \<Longrightarrow> pkt_of_bytes (pkt_bytes p) = p"
proof -
  have "from_le [byte_at 0 w, byte_at 1 w, byte_at 2 w, byte_at 3 w] = w" for w :: u32
    using from_le_le_bytes [of 4 w] by (simp add: le_bytes_4)
  then show "pkt_wf p \<Longrightarrow> ?thesis"
    by (simp add: pkt_bytes_def pkt_of_bytes_def pkt_wf_def le_bytes_4)
qed

end
