(* ===== verification/Usb_Queue.thy ===== *)
theory Usb_Queue
  imports Interface Bounded_Fifo
begin

text \<open>
  The packet queue between the radio code and the USB bulk endpoint,
  \<^verbatim>\<open>firmware/bluetooth_rxtx/ubertooth_usb.c\<close>: 128 packets, two free-running 32-bit counters masked
  to seven bits, and the keep-alive logic of \<open>dequeue_send\<close>. \<open>usb_enqueue\<close> and \<open>dequeue\<close> return
  pointers into the array; here they return the slot. What \<open>USBHwEPWrite\<close> puts on the bulk
  endpoint is collected in \<open>uq_sent\<close>.
\<close>

record usbq =
  uq_fifo :: "usb_pkt_rx list"
  uq_head :: u32
  uq_tail :: u32
  uq_last_usb_pkt :: u32
  uq_sent :: "u8 list list"

definition usbq_initial :: usbq where
  "usbq_initial = \<lparr>uq_fifo = replicate 128 pkt_zero, uq_head = 0, uq_tail = 0,
     uq_last_usb_pkt = 0, uq_sent = []\<rparr>"

definition queue_init :: "usbq \<Rightarrow> usbq" where
  "queue_init q = q\<lparr>uq_head := 0, uq_tail := 0, uq_fifo := replicate 128 pkt_zero\<rparr>"

definition usb_enqueue :: "usbq \<Rightarrow> (nat \<times> usbq) option" where
  "usb_enqueue q =
     (let h = ucast (uq_head q AND 0x7F) :: u8;
          t = ucast (uq_tail q AND 0x7F) :: u8;
          n = (t + 1) AND 0x7F
      in if h = n then None
         else Some (unat t, q\<lparr>uq_tail := uq_tail q + 1\<rparr>))"

definition dequeue :: "usbq \<Rightarrow> (nat \<times> usbq) option" where
  "dequeue q =
     (let h = ucast (uq_head q AND 0x7F) :: u8;
          t = ucast (uq_tail q AND 0x7F) :: u8
      in if h = t then None
         else Some (unat h, q\<lparr>uq_head := uq_head q + 1\<rparr>))"

abbreviation (input) USB_KEEP_ALIVE :: u32 where "USB_KEEP_ALIVE \<equiv> 400000"

definition ep_write :: "u8 list \<Rightarrow> usbq \<Rightarrow> usbq" where
  "ep_write bs q = q\<lparr>uq_sent := uq_sent q @ [bs]\<rparr>"

definition dequeue_send :: "u32 \<Rightarrow> usbq \<Rightarrow> int \<times> usbq" where
  "dequeue_send clkn q =
     (case dequeue q of
        Some (i, q) \<Rightarrow>
          (1, ep_write (pkt_bytes (uq_fifo q ! i)) (q\<lparr>uq_last_usb_pkt := clkn\<rparr>))
      | None \<Rightarrow>
          (if clkn - uq_last_usb_pkt q > USB_KEEP_ALIVE
           then (0, ep_write [pkt_type_code KEEP_ALIVE] (q\<lparr>uq_last_usb_pkt := clkn\<rparr>))
           else (0, q)))"

text \<open>The part of \<open>handle_usb\<close> that precedes the polled interrupt; \<open>epstat\<close> is the status of the
  bulk endpoint, whose bits 5 and 6 say that a buffer is full.\<close>

definition send_queued :: "u8 \<Rightarrow> u32 \<Rightarrow> usbq \<Rightarrow> usbq" where
  "send_queued epstat clkn q =
     (let q = (if \<not> bit epstat 5 then snd (dequeue_send clkn q) else q)
      in if \<not> bit epstat 6 then snd (dequeue_send clkn q) else q)"

subsection \<open>The queue is a bounded list\<close>

text \<open>A caller of \<open>usb_enqueue\<close> fills the slot it gets before anything can be dequeued.\<close>

definition usb_put :: "usb_pkt_rx \<Rightarrow> usbq \<Rightarrow> usbq option" where
  "usb_put p q = map_option (\<lambda>(t, q). q\<lparr>uq_fifo := (uq_fifo q)[t := p]\<rparr>) (usb_enqueue q)"

definition usb_get :: "usbq \<Rightarrow> (usb_pkt_rx \<times> usbq) option" where
  "usb_get q = map_option (\<lambda>(h, q). (uq_fifo q ! h, q)) (dequeue q)"

definition usbq_used :: "usbq \<Rightarrow> nat" where
  "usbq_used q = unat (uq_tail q - uq_head q)"

definition usbq_wf :: "usbq \<Rightarrow> bool" where
  "usbq_wf q \<longleftrightarrow> length (uq_fifo q) = 128 \<and> usbq_used q \<le> 127"

definition usbq_list :: "usbq \<Rightarrow> usb_pkt_rx list" where
  "usbq_list q = ring 128 (uq_fifo q) (unat (uq_head q)) (usbq_used q)"

lemma mask_7f: "unat (ucast (w AND 0x7F) :: u8) = unat (w::u32) mod 128"
proof -
  have "w AND 0x7F = take_bit 7 w"
    by (simp add: take_bit_eq_mask mask_eq_decr_exp)
  then show ?thesis
    by (simp add: unsigned_ucast_eq unsigned_take_bit_eq) (simp add: take_bit_eq_mod)
qed

lemma next_7f: "unat ((ucast (w AND 0x7F) + 1) AND 0x7F :: u8) = Suc (unat (w::u32)) mod 128"
proof -
  let ?t = "ucast (w AND 0x7F) :: u8"
  have "unat (?t + 1) = unat ?t + 1"
    by (subst unat_word_ariths) (simp add: mask_7f mod_less_divisor [THEN order_less_trans])
  moreover have "(?t + 1) AND 0x7F = take_bit 7 (?t + 1)"
    by (simp add: take_bit_eq_mask mask_eq_decr_exp)
  ultimately show ?thesis
    by (simp add: unsigned_take_bit_eq mask_7f) (simp add: take_bit_eq_mod mod_simps)
qed

lemma tail_mod: "unat (uq_tail q) mod 128 = (unat (uq_head q) + usbq_used q) mod 128"
proof -
  have "unat (uq_tail q) = unat (uq_head q + (uq_tail q - uq_head q))" by simp
  also have "\<dots> = (unat (uq_head q) + usbq_used q) mod 2 ^ 32"
    by (subst unat_word_ariths) (simp add: usbq_used_def)
  also have "\<dots> mod 128 = (unat (uq_head q) + usbq_used q) mod 128"
    by (rule mod_mod_cancel) simp
  finally show ?thesis .
qed

lemma used_Suc_tail:
  "usbq_used q < 127 \<Longrightarrow> usbq_used (q\<lparr>uq_tail := uq_tail q + 1, uq_fifo := b\<rparr>) = Suc (usbq_used q)"
proof -
  assume room: "usbq_used q < 127"
  have "unat (uq_tail q + 1 - uq_head q) = unat ((uq_tail q - uq_head q) + 1)"
    by (rule arg_cong [of _ _ unat]) simp
  also have "\<dots> = Suc (unat (uq_tail q - uq_head q))"
    using room unat_word_ariths(1) [of "uq_tail q - uq_head q" 1] by (simp add: usbq_used_def)
  finally show ?thesis by (simp add: usbq_used_def)
qed

lemma used_Suc_head:
  "usbq_used q = Suc n \<Longrightarrow> usbq_used (q\<lparr>uq_head := uq_head q + 1\<rparr>) = n"
proof -
  assume n: "usbq_used q = Suc n"
  have "unat (uq_tail q - (uq_head q + 1)) = unat ((uq_tail q - uq_head q) - 1)"
    by (rule arg_cong [of _ _ unat]) simp
  also have "\<dots> = unat (uq_tail q - uq_head q) - unat (1::u32)"
    using n by (intro unat_sub) (simp add: usbq_used_def word_le_nat_alt)
  finally show ?thesis using n by (simp add: usbq_used_def)
qed

lemma head_Suc_mod: "unat (uq_head q + 1) mod 128 = Suc (unat (uq_head q)) mod 128"
proof -
  have "unat (uq_head q + 1) mod 128 = ((unat (uq_head q) + 1) mod 2 ^ 32) mod 128"
    by (subst unat_word_ariths) simp
  also have "\<dots> = (unat (uq_head q) + 1) mod 128"
    by (rule mod_mod_cancel) simp
  finally show ?thesis by simp
qed

lemma ring_full_iff: "n \<le> 127 \<Longrightarrow> h mod 128 = Suc (h + n) mod 128 \<longleftrightarrow> n = (127::nat)"
  using ring_slot_inj [of "0" 128 "Suc n" h] by (cases "n = 127") auto

lemma ring_empty_iff: "n \<le> 127 \<Longrightarrow> h mod 128 = (h + n) mod 128 \<longleftrightarrow> n = (0::nat)"
  using ring_slot_inj [of "0" 128 n h] by auto

lemma usb_enqueue_eq:
  assumes "usbq_wf q"
  shows "usb_enqueue q = (if usbq_used q = 127 then None
           else Some ((unat (uq_head q) + usbq_used q) mod 128, q\<lparr>uq_tail := uq_tail q + 1\<rparr>))"
proof -
  have "ucast (uq_head q AND 0x7F) = (ucast (uq_tail q AND 0x7F) + 1) AND (0x7F :: u8)
        \<longleftrightarrow> unat (uq_head q) mod 128 = Suc (unat (uq_tail q)) mod 128"
    by (simp only: word_unat_eq_iff mask_7f next_7f)
  also have "Suc (unat (uq_tail q)) mod 128 = Suc (unat (uq_head q) + usbq_used q) mod 128"
    using tail_mod [of q] by (metis mod_Suc_eq)
  also have "unat (uq_head q) mod 128 = \<dots> \<longleftrightarrow> usbq_used q = 127"
    using assms by (intro ring_full_iff) (simp add: usbq_wf_def)
  finally show ?thesis
    by (simp add: usb_enqueue_def Let_def mask_7f tail_mod)
qed

lemma dequeue_eq:
  assumes "usbq_wf q"
  shows "dequeue q = (if usbq_used q = 0 then None
           else Some (unat (uq_head q) mod 128, q\<lparr>uq_head := uq_head q + 1\<rparr>))"
proof -
  have "ucast (uq_head q AND 0x7F) = (ucast (uq_tail q AND 0x7F) :: u8)
        \<longleftrightarrow> unat (uq_head q) mod 128 = (unat (uq_head q) + usbq_used q) mod 128"
    by (simp only: word_unat_eq_iff mask_7f tail_mod)
  also have "\<dots> \<longleftrightarrow> usbq_used q = 0"
    using assms by (intro ring_empty_iff) (simp add: usbq_wf_def)
  finally show ?thesis
    by (simp add: dequeue_def Let_def mask_7f)
qed

interpretation usbq: bounded_fifo usbq_list usbq_wf usb_put usb_get 127
proof unfold_locales
  fix q x
  assume wf: "usbq_wf q"
  show "length (usbq_list q) \<le> 127"
    using wf by (simp add: usbq_list_def usbq_wf_def)
  show "usb_put x q = None" if "length (usbq_list q) = 127"
    using that wf by (simp add: usb_put_def usb_enqueue_eq usbq_list_def)
  show "\<exists>q'. usb_put x q = Some q' \<and> usbq_wf q' \<and> usbq_list q' = usbq_list q @ [x]"
    if "length (usbq_list q) < 127"
  proof -
    let ?t = "(unat (uq_head q) + usbq_used q) mod 128"
    let ?q' = "q\<lparr>uq_tail := uq_tail q + 1, uq_fifo := (uq_fifo q)[?t := x]\<rparr>"
    have room: "usbq_used q < 127" using that by (simp add: usbq_list_def)
    then have "usb_put x q = Some ?q'"
      using wf by (simp add: usb_put_def usb_enqueue_eq)
    moreover have "usbq_wf ?q'" using wf room by (simp add: usbq_wf_def used_Suc_tail)
    moreover have "usbq_list ?q' = usbq_list q @ [x]"
      using ring_append [of "usbq_used q" 128 "uq_fifo q" "unat (uq_head q)" x] room wf
      by (simp add: usbq_list_def used_Suc_tail usbq_wf_def)
    ultimately show ?thesis by blast
  qed
  show "usb_get q = None" if "usbq_list q = []"
    using that wf length_ring [of 128 "uq_fifo q" "unat (uq_head q)" "usbq_used q"]
    by (simp add: usb_get_def dequeue_eq usbq_list_def)
next
  fix q x xs
  assume wf: "usbq_wf q" and first: "usbq_list q = x # xs"
  let ?q' = "q\<lparr>uq_head := uq_head q + 1\<rparr>"
  obtain n where n: "usbq_used q = Suc n"
    using first by (cases "usbq_used q") (auto simp: usbq_list_def)
  have "ring 128 (uq_fifo q) (unat (uq_head q + 1)) n = ring 128 (uq_fifo q) (Suc (unat (uq_head q)) mod 128) n"
    by (metis head_Suc_mod ring_mod)
  then have "x = uq_fifo q ! (unat (uq_head q) mod 128)" and "xs = usbq_list ?q'"
    using first ring_Cons [of 128 "uq_fifo q" "unat (uq_head q)" n]
    by (auto simp: usbq_list_def n used_Suc_head)
  moreover have "usb_get q = Some (uq_fifo q ! (unat (uq_head q) mod 128), ?q')"
    using wf n by (simp add: usb_get_def dequeue_eq)
  moreover have "usbq_wf ?q'" using wf n by (simp add: usbq_wf_def used_Suc_head)
  ultimately show "\<exists>q'. usb_get q = Some (x, q') \<and> usbq_wf q' \<and> usbq_list q' = xs" by blast
qed

lemma usbq_wf_initial: "usbq_wf usbq_initial" and usbq_list_initial: "usbq_list usbq_initial = []"
  by (simp_all add: usbq_wf_def usbq_initial_def usbq_used_def usbq_list_def)

lemma queue_init_empty: "usbq_wf (queue_init q) \<and> usbq_list (queue_init q) = []"
  by (simp add: usbq_wf_def queue_init_def usbq_used_def usbq_list_def)

text \<open>C9: Whatever the two 32-bit counters have wrapped to, every interleaving of enqueues and
  dequeues on the USB packet queue returns what a list bounded to 127 packets returns, in order
  and without loss or duplication of an accepted packet.\<close>

theorem usb_queue_refines:
  assumes "usbq_wf q"
  shows "apsnd usbq_list (fifo_run usb_put usb_get ops q)
         = fifo_run (list_put 127) list_get ops (usbq_list q)"
  using usbq.run_refines [OF assms] by blast

lemma usb_queue_refines_witness:
  "apsnd usbq_list (fifo_run usb_put usb_get [Get, Put pkt_zero, Get]
     (usbq_initial\<lparr>uq_head := 0xFFFFFFFF, uq_tail := 0xFFFFFFFF\<rparr>))
   = ([Nothing, Stored, Got pkt_zero], [])"
proof -
  let ?q = "usbq_initial\<lparr>uq_head := 0xFFFFFFFF, uq_tail := 0xFFFFFFFF\<rparr>"
  have "usbq_wf ?q" and "usbq_list ?q = []"
    by (simp_all add: usbq_wf_def usbq_initial_def usbq_used_def usbq_list_def)
  with usb_queue_refines [of ?q "[Get, Put pkt_zero, Get]"] show ?thesis
    by (simp add: list_put_def)
qed

text \<open>What is sent: the packets of the queue, oldest first, each as its 64 bytes.\<close>

lemma dequeue_send_packet:
  assumes "usbq_wf q" and "usbq_list q = p # ps"
  shows "fst (dequeue_send clkn q) = 1
       \<and> uq_sent (snd (dequeue_send clkn q)) = uq_sent q @ [pkt_bytes p]
       \<and> usbq_list (snd (dequeue_send clkn q)) = ps
       \<and> usbq_wf (snd (dequeue_send clkn q))
       \<and> uq_last_usb_pkt (snd (dequeue_send clkn q)) = clkn"
proof -
  obtain q' where q': "usb_get q = Some (p, q')" "usbq_wf q'" "usbq_list q' = ps"
    using usbq.get_first [OF assms] by blast
  then obtain h where "dequeue q = Some (h, q')" and "uq_fifo q' ! h = p"
    by (auto simp: usb_get_def)
  moreover from this have "uq_fifo q' = uq_fifo q" and "uq_sent q' = uq_sent q"
    by (auto simp: dequeue_def Let_def split: if_splits)
  ultimately show ?thesis
    using q' by (simp add: dequeue_send_def ep_write_def usbq_list_def usbq_wf_def usbq_used_def)
qed

lemma dequeue_send_empty:
  assumes "usbq_wf q" and "usbq_list q = []"
  shows "dequeue_send clkn q =
    (0, if clkn - uq_last_usb_pkt q > USB_KEEP_ALIVE
        then q\<lparr>uq_last_usb_pkt := clkn, uq_sent := uq_sent q @ [[3]]\<rparr> else q)"
proof -
  have "dequeue q = None"
    using usbq.get_empty [OF assms] by (simp add: usb_get_def)
  then show ?thesis by (simp add: dequeue_send_def ep_write_def)
qed

end
