(* ===== verification/Bluetooth.thy ===== *)
theory Bluetooth
  imports Interface
begin

text \<open>
  The basic-rate hop selection kernel, \<^verbatim>\<open>firmware/bluetooth_rxtx/bluetooth.c\<close>: the values
  precalculated from the target address, the five-bit permutation, \<open>next_hop\<close> and the access code
  search. The global variables of the file and of \<^verbatim>\<open>bluetooth.h\<close> are the record \<open>bt_state\<close>. A
  remainder by a zero \<open>used_channels\<close>, which the code does not guard against, is the result \<open>None\<close>.
\<close>

abbreviation (input) CHANNELS :: nat where "CHANNELS \<equiv> 79"
abbreviation (input) MAX_SYNCWORD_ERRS :: u8 where "MAX_SYNCWORD_ERRS \<equiv> 5"

record bt_state =
  bt_address :: u64
  bt_access_code :: u64
  syncword :: u64
  afh_enabled :: bool
  afh_map :: "u8 list"
  used_channels :: u8
  bt_a1 :: u8
  bt_b :: u8
  bt_c1 :: u8
  bt_e :: u8
  bt_d1 :: u16
  bank :: "u8 list"
  afh_bank :: "u8 list"

definition bt_initial :: bt_state where
  "bt_initial = \<lparr>bt_address = 0, bt_access_code = 0, syncword = 0, afh_enabled = False,
     afh_map = replicate 10 0, used_channels = 0, bt_a1 = 0, bt_b = 0, bt_c1 = 0, bt_e = 0, bt_d1 = 0,
     bank = replicate CHANNELS 0, afh_bank = replicate CHANNELS 0\<rparr>"

subsection \<open>Counting bits\<close>

text \<open>Clearing the lowest set bit of a word.\<close>

lemma clear_lowest:
  fixes n :: "'a::len word"
  assumes low: "bit n k" "\<And>j. j < k \<Longrightarrow> \<not> bit n j"
  shows "bit (n AND (n - 1)) i \<longleftrightarrow> bit n i \<and> i \<noteq> k"
proof -
  let ?h = "push_bit (Suc k) (drop_bit (Suc k) n)"
  have k: "k < LENGTH('a)" using low(1) by (rule bit_imp_le_length)
  have "n = ?h OR push_bit k 1"
  proof (rule bit_word_eqI)
    fix j assume "j < LENGTH('a)"
    show "bit n j = bit (?h OR push_bit k 1) j"
      using low k \<open>j < LENGTH('a)\<close> by (cases "j < k"; cases "j = k") (auto simp: bit_simps simp del: push_bit_Suc)
  qed
  also have "\<dots> = ?h + push_bit k 1"
    by (rule disjunctive_add_eq_or [symmetric], rule bit_word_eqI) (auto simp: bit_simps simp del: push_bit_Suc)
  finally have "n - 1 = ?h + mask k"
    by (metis add_diff_eq mask_eq_exp_minus_1 push_bit_of_1)
  also have "\<dots> = ?h OR mask k"
    by (rule disjunctive_add_eq_or, rule bit_word_eqI) (auto simp: bit_simps simp del: push_bit_Suc)
  finally show ?thesis
    using low k by (cases "i < k"; cases "i = k") (auto simp: bit_simps simp del: push_bit_Suc dest: bit_imp_le_length)
qed

lemma lowest_bit:
  assumes "(n::'a::len word) \<noteq> 0"
  obtains k where "bit n k" and "\<And>j. j < k \<Longrightarrow> \<not> bit n j"
proof -
  obtain j where "bit n j" using assms by (metis bit_word_eqI bit_0_eq bot_apply bot_bool_def)
  then have "bit n (LEAST j. bit n j)" by (rule LeastI)
  then show ?thesis using that not_less_Least [of _ "bit n"] by blast
qed

lemma card_clear_lowest:
  assumes "(n::'a::len word) \<noteq> 0"
  shows "card {i. bit n i} = Suc (card {i. bit (n AND (n - 1)) i})"
proof -
  obtain k where k: "bit n k" "\<And>j. j < k \<Longrightarrow> \<not> bit n j" by (rule lowest_bit [OF assms]) blast
  then have "{i. bit (n AND (n - 1)) i} = {i. bit n i} - {k}"
    by (auto simp: clear_lowest [OF k])
  moreover have "finite {i. bit n i}"
    by (rule finite_subset [of _ "{..<LENGTH('a)}"]) (auto dest: bit_imp_le_length)
  ultimately show ?thesis using k(1) card.remove [of "{i. bit n i}" k] by simp
qed

text \<open>\<open>for (i = 0; n != 0; i++) n &= n - 1;\<close>\<close>

function count_bits_loop :: "u8 \<Rightarrow> u64 \<Rightarrow> u8" where
  "count_bits_loop i n = (if n = 0 then i else count_bits_loop (i + 1) (n AND (n - 1)))"
  by auto
termination
  by (relation "measure (\<lambda>(i, n). card {k. bit n k})") (auto simp: card_clear_lowest)

declare count_bits_loop.simps [simp del]

definition count_bits :: "u64 \<Rightarrow> u8" where
  "count_bits n = count_bits_loop 0 n"

lemma count_bits_loop: "count_bits_loop i n = i + of_nat (card {k. bit n k})"
proof (induction i n rule: count_bits_loop.induct)
  case (1 i n)
  show ?case
  proof (cases "n = 0")
    case True
    then show ?thesis by (simp add: count_bits_loop.simps)
  next
    case False
    with 1 show ?thesis
      by (subst count_bits_loop.simps) (simp add: card_clear_lowest add.assoc)
  qed
qed

text \<open>\<open>count_bits\<close> terminates and returns the number of one bits of its 64-bit argument,
  without its 8-bit counter wrapping.\<close>

theorem count_bits_card: "unat (count_bits n) = card {k. bit n k}"
proof -
  have "{k. bit n k} \<subseteq> {..<64}" by (auto dest: bit_imp_le_length)
  then have "card {k. bit n k} \<le> 64" using card_mono [of "{..<64}" "{k. bit n k}"] by simp
  then show ?thesis
    by (simp add: count_bits_def count_bits_loop unsigned_of_nat take_bit_nat_eq_self)
qed

subsection \<open>The permutation\<close>

definition perm5_index1 :: "nat list" where
  "perm5_index1 = [0, 2, 1, 3, 0, 1, 0, 3, 1, 0, 2, 1, 0, 1]"

definition perm5_index2 :: "nat list" where
  "perm5_index2 = [1, 3, 2, 4, 4, 3, 2, 4, 4, 3, 4, 3, 3, 2]"

definition perm5_swap :: "bool list \<Rightarrow> u8 list \<Rightarrow> nat \<Rightarrow> u8 list" where
  "perm5_swap p z_bit i =
     (if p ! i
      then let tmp = z_bit ! (perm5_index1 ! i);
               z_bit = z_bit[perm5_index1 ! i := z_bit ! (perm5_index2 ! i)]
           in z_bit[perm5_index2 ! i := tmp]
      else z_bit)"

definition perm5_controls :: "u8 \<Rightarrow> u16 \<Rightarrow> bool list" where
  "perm5_controls p_high p_low =
     map (\<lambda>i. drop_bit i p_low AND 1 \<noteq> 0) [0..<9] @ map (\<lambda>i. drop_bit i p_high AND 1 \<noteq> 0) [0..<5]"

definition perm5 :: "u8 \<Rightarrow> u8 \<Rightarrow> u16 \<Rightarrow> u8" where
  "perm5 z p_high p_low =
     (let z = z AND 0x1f;
          p = perm5_controls (p_high AND 0x1f) (p_low AND 0x1ff);
          z_bit = map (\<lambda>i. drop_bit i z AND 1) [0..<5];
          z_bit = foldl (perm5_swap p) z_bit (rev [0..<14])
      in foldl (\<lambda>output i. output + push_bit i (z_bit ! i)) 0 [0..<5])"

subsection \<open>Precalculation and hop selection\<close>

definition precalc_afh :: "bt_state \<Rightarrow> bt_state" where
  "precalc_afh s =
     (let s = s\<lparr>used_channels := foldl (\<lambda>u i. u + count_bits (ucast (afh_map s ! i))) 0 [0..<10]\<rparr>;
          chan = ((CHANNELS - 1) * 2) mod CHANNELS
      in if bit (afh_map s ! (chan div 8)) (chan mod 8)
         then s\<lparr>bank := (bank s)[0 := of_nat chan]\<rparr> else s)"

definition precalc :: "bt_state \<Rightarrow> bt_state" where
  "precalc s =
     (let address = ucast (bt_address s AND 0xffffffff) :: u32;
          s = s\<lparr>syncword := 0,
               bank := map (\<lambda>i. of_nat ((i * 2) mod CHANNELS)) [0..<CHANNELS],
               bt_a1 := ucast (drop_bit 23 address AND 0x1f),
               bt_b := ucast (drop_bit 19 address AND 0x0f),
               bt_c1 := ucast ((drop_bit 4 address AND 0x10) + (drop_bit 3 address AND 0x08)
                  + (drop_bit 2 address AND 0x04) + (drop_bit 1 address AND 0x02) + (address AND 0x01)),
               bt_d1 := ucast (drop_bit 10 address AND 0x1ff),
               bt_e := ucast ((drop_bit 7 address AND 0x40) + (drop_bit 6 address AND 0x20)
                  + (drop_bit 5 address AND 0x10) + (drop_bit 4 address AND 0x08)
                  + (drop_bit 3 address AND 0x04) + (drop_bit 2 address AND 0x02)
                  + (drop_bit 1 address AND 0x01))\<rparr>
      in if afh_enabled s then precalc_afh s else s)"

definition next_hop :: "bt_state \<Rightarrow> u32 \<Rightarrow> u16 option" where
  "next_hop s clock =
     (let x = ucast (drop_bit 2 clock AND 0x1f) :: u8;
          y1 = ucast (drop_bit 1 clock AND 0x01) :: u8;
          y2 = push_bit 5 (ucast y1) :: u32;
          a = ucast ((ucast (bt_a1 s) XOR drop_bit 21 clock) AND 0x1f) :: u8;
          c = ucast ((ucast (bt_c1 s) XOR drop_bit 16 clock) AND 0x1f) :: u8;
          d = ucast ((ucast (bt_d1 s) XOR drop_bit 7 clock) AND 0x1ff) :: u16;
          base_f = drop_bit 3 clock AND 0x1fffff0;
          f = base_f mod 79;
          perm = perm5 (((x + a) mod 32) XOR bt_b s) ((y1 * 0x1f) XOR c) d;
          pe = ucast perm + ucast (bt_e s) :: u32;
          next_channel = bank s ! unat ((pe + f + y2) mod 79)
      in if afh_enabled s
         then if used_channels s = 0 then None
              else let f_dash = base_f mod ucast (used_channels s);
                       i = unat ((pe + f_dash + y2) mod ucast (used_channels s))
                   in if i < CHANNELS then Some (2402 + ucast (afh_bank s ! i)) else None
         else Some (2402 + ucast next_channel))"

subsection \<open>Access code search\<close>

fun fac_loop :: "nat \<Rightarrow> u8 list \<Rightarrow> u64 \<Rightarrow> nat \<Rightarrow> nat \<Rightarrow> u64 \<Rightarrow> u8 \<Rightarrow> int \<times> u64" where
  "fac_loop 0 buf ac i count sw cur = (-1, sw)"
| "fac_loop (Suc n) buf ac i count sw cur =
     (if count_bits (sw XOR ac) < MAX_SYNCWORD_ERRS then (int count, sw)
      else let (i, cur) = (if count mod 8 = 0 then (Suc i, buf ! Suc i) else (i, cur));
               sw = push_bit 1 sw;
               sw = (sw AND 0xfffffffffffffffe) OR ucast (drop_bit 7 (cur AND 0x80))
           in fac_loop n buf ac i (Suc count) sw (push_bit 1 cur))"

definition find_access_code :: "u8 list \<Rightarrow> bt_state \<Rightarrow> int \<times> bt_state" where
  "find_access_code buf s =
     (let (i, count, sw) =
            (if syncword s = 0
             then (8, 64, foldl (\<lambda>sw i. (push_bit 8 sw AND 0xffffffffffffff00) OR ucast (buf ! i))
                            (syncword s) [0..<8])
             else (0, 0, syncword s));
          (r, sw) = fac_loop (8 * DMA_SIZE - 64 - count) buf (bt_access_code s) i count sw (buf ! i)
      in (r, s\<lparr>syncword := sw\<rparr>))"

subsection \<open>Properties\<close>

lemma perm5_swap_length [simp]: "length (perm5_swap p zs i) = length zs"
  by (simp add: perm5_swap_def Let_def)

lemma perm5_fold_length [simp]: "length (foldl (perm5_swap p) zs is) = length zs"
  by (induction "is" arbitrary: zs) simp_all

lemma perm5_swap_swap:
  assumes "length zs = 5" and "i < 14"
  shows "perm5_swap p (perm5_swap p zs i) i = zs"
proof -
  have "list_all (\<lambda>i. perm5_index1 ! i < 5 \<and> perm5_index2 ! i < 5 \<and> perm5_index1 ! i \<noteq> perm5_index2 ! i) [0..<14]"
    by code_simp
  with assms have "perm5_index1 ! i < length zs" "perm5_index2 ! i < length zs"
      "perm5_index1 ! i \<noteq> perm5_index2 ! i"
    by (simp_all add: list_all_iff)
  then show ?thesis
    by (auto simp: perm5_swap_def Let_def list_update_swap intro!: nth_equalityI simp: nth_list_update)
qed

lemma perm5_fold_inj:
  assumes "length xs = 5" "length ys = 5" "set is \<subseteq> {..<14}"
    and "foldl (perm5_swap p) xs is = foldl (perm5_swap p) ys is"
  shows "xs = ys"
  using assms
proof (induction "is" arbitrary: xs ys)
  case (Cons i "is")
  have "perm5_swap p xs i = perm5_swap p ys i"
    by (rule Cons.IH) (use Cons.prems in simp_all)
  then have "perm5_swap p (perm5_swap p xs i) i = perm5_swap p (perm5_swap p ys i) i" by simp
  with Cons.prems show ?case by (simp add: perm5_swap_swap)
qed simp

definition bits5 :: "u8 list \<Rightarrow> u8" where
  "bits5 zs = foldl (\<lambda>output i. output + push_bit i (zs ! i)) 0 [0..<5]"

lemma set_update_bits: "set zs \<subseteq> B \<Longrightarrow> x \<in> B \<Longrightarrow> set (zs[i := x]) \<subseteq> B"
  using set_update_subset_insert [of zs i x] by auto

lemma perm5_swap_bits:
  assumes "set zs \<subseteq> {0, 1}" "length zs = 5" "i < 14"
  shows "set (perm5_swap p zs i) \<subseteq> {0, 1}"
proof -
  have "list_all (\<lambda>i. perm5_index1 ! i < 5 \<and> perm5_index2 ! i < 5) [0..<14]" by code_simp
  then have "zs ! (perm5_index1 ! i) \<in> {0, 1}" and "zs ! (perm5_index2 ! i) \<in> {0, 1}"
    using assms nth_mem [of _ zs] by (auto simp: list_all_iff subset_iff)
  then show ?thesis
    using assms(1) unfolding perm5_swap_def Let_def by (auto intro!: set_update_bits simp: subset_iff split: if_splits dest!: set_update_subset_insert [THEN subsetD])
qed

lemma perm5_fold_bits:
  "set zs \<subseteq> {0, 1} \<Longrightarrow> length zs = 5 \<Longrightarrow> set is \<subseteq> {..<14} \<Longrightarrow> set (foldl (perm5_swap p) zs is) \<subseteq> {0, 1}"
proof (induction "is" arbitrary: zs)
  case (Cons i "is")
  then show ?case using perm5_swap_bits [of zs i p] by simp
qed simp

lemma bits5_back:
  assumes "length zs = 5" and "set zs \<subseteq> {0, 1}"
  shows "map (\<lambda>i. drop_bit i (bits5 zs) AND 1) [0..<5] = zs \<and> bits5 zs < 32"
proof -
  obtain a b c d e where zs: "zs = [a, b, c, d, e]"
    using assms(1) by (auto simp: length_Suc_conv numeral_eq_Suc)
  with assms(2) have "a = 0 \<or> a = 1" "b = 0 \<or> b = 1" "c = 0 \<or> c = 1" "d = 0 \<or> d = 1" "e = 0 \<or> e = 1"
    by auto
  then show ?thesis
    unfolding zs bits5_def by (elim disjE) (simp_all add: upt_conv_Cons numeral_2_eq_2 [symmetric])
qed

lemma bits5_of_word: "bits5 (map (\<lambda>i. drop_bit i z AND 1) [0..<5]) = z AND 0x1f"
proof -
  let ?zs = "map (\<lambda>i. drop_bit i z AND 1) [0..<5]"
  have "set ?zs \<subseteq> {0, 1}" by (auto simp: and_one_eq mod2_eq_if)
  then have inv: "map (\<lambda>i. drop_bit i (bits5 ?zs) AND 1) [0..<5] = ?zs" and small: "bits5 ?zs < 32"
    using bits5_back [of ?zs] by auto
  have low: "bit (bits5 ?zs) i = bit z i" if "i < 5" for i
  proof -
    have "map (\<lambda>i. drop_bit i (bits5 ?zs) AND 1) [0..<5] ! i = ?zs ! i" by (simp only: inv)
    then have "drop_bit i (bits5 ?zs) AND 1 = drop_bit i z AND 1" using that by simp
    then have "odd (drop_bit i (bits5 ?zs)) = odd (drop_bit i z)"
      by (metis even_and_iff odd_one)
    then show ?thesis by (simp add: bit_iff_odd_drop_bit)
  qed
  have "bits5 ?zs = take_bit 5 (bits5 ?zs)"
    using small by (simp only: word_unat_eq_iff unsigned_take_bit_eq) (simp add: take_bit_nat_eq_self word_less_nat_alt)
  also have "\<dots> = take_bit 5 z"
    by (rule bit_word_eqI) (auto simp: bit_take_bit_iff low)
  finally show ?thesis by (simp add: take_bit_eq_mask mask_eq_decr_exp)
qed

text \<open>For fixed control inputs \<open>perm5\<close> is a permutation of the five-bit values: the result
  stays below 32 and two inputs give the same result exactly when they agree on their low five
  bits.\<close>

theorem perm5_permutes:
  "perm5 z p_high p_low < 32 \<and> (perm5 z p_high p_low = perm5 z' p_high p_low \<longleftrightarrow> z AND 0x1f = z' AND 0x1f)"
proof -
  let ?p = "perm5_controls (p_high AND 0x1f) (p_low AND 0x1ff)"
  let ?in = "\<lambda>z. map (\<lambda>i. drop_bit i (z AND 0x1f) AND 1) [0..<5] :: u8 list"
  let ?out = "\<lambda>z. foldl (perm5_swap ?p) (?in z) (rev [0..<14])"
  have perm5: "perm5 z p_high p_low = bits5 (?out z)" for z
    by (simp add: perm5_def bits5_def Let_def)
  have bits: "set (?in z) \<subseteq> {0, 1}" for z
    by (auto simp: and_one_eq mod2_eq_if)
  have out: "length (?out z) = 5 \<and> set (?out z) \<subseteq> {0, 1}" for z
  proof -
    have "set (rev [0..<14]) \<subseteq> {..<14}" by auto
    from perm5_fold_bits [OF bits _ this, of z ?p] show ?thesis by simp
  qed
  have "z AND 0x1f = z' AND 0x1f" if "perm5 z p_high p_low = perm5 z' p_high p_low"
  proof -
    have "?out z = ?out z'"
      using that bits5_back out unfolding perm5 by metis
    then have "?in z = ?in z'"
      by (rule perm5_fold_inj [rotated 3]) auto
    then have "bits5 (?in z) = bits5 (?in z')" by (rule arg_cong)
    then show ?thesis by (simp only: bits5_of_word and.assoc and.idem)
  qed
  moreover have "perm5 z p_high p_low < 32"
    unfolding perm5 using bits5_back out by blast
  moreover have "perm5 z p_high p_low = perm5 z' p_high p_low" if "z AND 0x1f = z' AND 0x1f"
    unfolding perm5_def that ..
  ultimately show ?thesis by blast
qed

lemma bank_precalc: "\<not> afh_enabled s \<Longrightarrow> i < 79 \<Longrightarrow> bank (precalc s) ! i = of_nat ((i * 2) mod 79)"
  by (simp add: precalc_def Let_def)

lemma afh_precalc [simp]: "afh_enabled (precalc s) = afh_enabled s" "afh_bank (precalc s) = afh_bank s"
  by (simp_all add: precalc_def precalc_afh_def Let_def)

lemma unat_mod_79: "unat (w mod (79::u32)) < 79"
  by (simp add: unat_mod)

lemma band_add:
  assumes "unat (k::u8) < 79"
  shows "(2402::u16) \<le> 2402 + ucast k \<and> 2402 + ucast k \<le> (2480::u16)"
proof -
  have "take_bit 16 (unat k) = unat k" using assms by (simp add: take_bit_nat_eq_self)
  then show ?thesis using assms by (simp add: word_le_nat_alt unat_word_ariths unsigned_ucast_eq)
qed

lemma next_hop_slot:
  "\<not> afh_enabled s \<Longrightarrow> \<exists>i<79. next_hop s clock = Some (2402 + ucast (bank s ! i))"
  using unat_mod_79 unfolding next_hop_def Let_def by simp blast

text \<open>Without adaptive hopping, after \<open>precalc\<close> the hop kernel returns for every clock value a
  channel of the 79 Bluetooth channels, 2402 to 2480 MHz.\<close>

theorem next_hop_in_band:
  assumes "\<not> afh_enabled s"
  shows "\<exists>ch. next_hop (precalc s) clock = Some ch \<and> 2402 \<le> ch \<and> ch \<le> 2480"
proof -
  obtain i where i: "i < 79" and hop: "next_hop (precalc s) clock = Some (2402 + ucast (bank (precalc s) ! i))"
    using next_hop_slot [of "precalc s" clock] assms by auto
  have "unat (of_nat ((i * 2) mod 79) :: u8) < 79"
    by (simp add: unsigned_of_nat take_bit_nat_eq_self mod_less_divisor [THEN order_less_trans])
  then show ?thesis
    using hop band_add assms by (simp add: bank_precalc i)
qed

lemma next_hop_in_band_witness:
  "\<exists>ch. next_hop (precalc (bt_initial\<lparr>bt_address := 0x123456\<rparr>)) 0x1234567 = Some ch \<and> 2402 \<le> ch \<and> ch \<le> 2480"
  by (rule next_hop_in_band) (simp add: bt_initial_def)

text \<open>With adaptive hopping enabled the kernel never leaves 2402 MHz: the loop of \<open>precalc\<close> that
  should fill \<open>afh_bank\<close> has no braces and stores to \<open>bank\<close>, so the table \<open>next_hop\<close> reads keeps
  its initial zeros, for every address, clock and (non-empty) channel map.\<close>

theorem next_hop_afh_stuck:
  assumes "afh_enabled s" and "afh_bank s = replicate 79 0"
    and "used_channels (precalc s) \<noteq> 0" and "unat (used_channels (precalc s)) \<le> 79"
  shows "next_hop (precalc s) clock = Some 2402"
proof -
  let ?u = "ucast (used_channels (precalc s)) :: u32"
  have u: "unat ?u = unat (used_channels (precalc s))"
    by (simp add: unsigned_ucast_eq take_bit_nat_eq_self unsigned_less [THEN order_less_trans])
  moreover have "unat (used_channels (precalc s)) \<noteq> 0"
    using assms(3) by (simp add: unat_eq_0)
  ultimately have "unat (w mod ?u) < 79" for w
    unfolding unat_mod
    by (metis assms(4) mod_less_divisor not_gr_zero order_less_le_trans)
  then show ?thesis
    using assms(1-3) unfolding next_hop_def Let_def by simp
qed

lemma next_hop_afh_stuck_witness:
  "next_hop (precalc (bt_initial\<lparr>afh_enabled := True, afh_map := 5 # replicate 9 0\<rparr>)) 0x1234567 = Some 2402"
proof (rule next_hop_afh_stuck)
  let ?s = "bt_initial\<lparr>afh_enabled := True, afh_map := 5 # replicate 9 0\<rparr>"
  have "used_channels (precalc ?s) = 2" by code_simp
  then show "used_channels (precalc ?s) \<noteq> 0" and "unat (used_channels (precalc ?s)) \<le> 79" by simp_all
qed (simp_all add: bt_initial_def)

end
