(* ===== verification/Cc2400.thy ===== *)
theory Cc2400
  imports Ubt_Prelude
begin

text \<open>
  The radio driver of \<^verbatim>\<open>firmware/common/ubertooth.c\<close>: the bit-banged SPI transaction, the register
  and strobe operations on top of it, the retuning sequences and the start-up delay. The chip is
  not part of the repository; what it answers is a parameter, the level of its MISO output at each
  clock of each transaction as a function of everything it was sent before. Every SPI
  transaction is recorded in a history, reads and status polls included, so a register may answer
  differently each time it is read. A busy wait that never ends is the result \<open>None\<close>.
\<close>

subsection \<open>Register and strobe numbers\<close>

abbreviation (input) MAIN :: u8 where "MAIN \<equiv> 0x00"
abbreviation (input) FSDIV :: u8 where "FSDIV \<equiv> 0x02"
abbreviation (input) MDMCTRL :: u8 where "MDMCTRL \<equiv> 0x03"
abbreviation (input) FREND :: u8 where "FREND \<equiv> 0x05"
abbreviation (input) RSSI :: u8 where "RSSI \<equiv> 0x06"
abbreviation (input) IOCFG :: u8 where "IOCFG \<equiv> 0x08"
abbreviation (input) MANAND :: u8 where "MANAND \<equiv> 0x0D"
abbreviation (input) FSMSTATE :: u8 where "FSMSTATE \<equiv> 0x0E"
abbreviation (input) LMTST :: u8 where "LMTST \<equiv> 0x12"
abbreviation (input) MDMTST0 :: u8 where "MDMTST0 \<equiv> 0x14"
abbreviation (input) GRMDM :: u8 where "GRMDM \<equiv> 0x20"
abbreviation (input) GRDEC :: u8 where "GRDEC \<equiv> 0x21"
abbreviation (input) INTREG :: u8 where "INTREG \<equiv> 0x23"
abbreviation (input) SYNCL :: u8 where "SYNCL \<equiv> 0x2C"
abbreviation (input) SYNCH :: u8 where "SYNCH \<equiv> 0x2D"
abbreviation (input) SXOSCON :: u8 where "SXOSCON \<equiv> 0x60"
abbreviation (input) SFSON :: u8 where "SFSON \<equiv> 0x61"
abbreviation (input) SRX :: u8 where "SRX \<equiv> 0x62"
abbreviation (input) STX :: u8 where "STX \<equiv> 0x63"
abbreviation (input) SRFOFF :: u8 where "SRFOFF \<equiv> 0x64"
abbreviation (input) FIFOREG :: u8 where "FIFOREG \<equiv> 0x70"

text \<open>Bits of the status byte.\<close>

definition XOSC16M_STABLE :: "u8 \<Rightarrow> bool" where "XOSC16M_STABLE st \<longleftrightarrow> bit st 6"
definition SYNC_RECEIVED :: "u8 \<Rightarrow> bool" where "SYNC_RECEIVED st \<longleftrightarrow> bit st 4"
definition STATUS_CRC_OK :: "u8 \<Rightarrow> bool" where "STATUS_CRC_OK st \<longleftrightarrow> bit st 3"
definition FS_LOCK :: "u8 \<Rightarrow> bool" where "FS_LOCK st \<longleftrightarrow> bit st 2"

subsection \<open>The bit-banged transaction\<close>

datatype wire = CSN bool | MOSI bool | SCLK bool

text \<open>The loop of \<open>cc2400_spi\<close>: \<open>n\<close> clocks are left, \<open>miso\<close> is the level read at each clock.\<close>

fun spi_loop :: "(nat \<Rightarrow> bool) \<Rightarrow> u32 \<Rightarrow> nat \<Rightarrow> nat \<Rightarrow> u32 \<Rightarrow> wire list \<times> u32" where
  "spi_loop miso msb i 0 data = ([], data)"
| "spi_loop miso msb i (Suc n) data =
     (let mosi = (data AND msb \<noteq> 0);
          data = push_bit 1 data;
          data = (if miso i then data OR 1 else data)
      in apfst ((@) [MOSI mosi, SCLK True, SCLK False]) (spi_loop miso msb (Suc i) n data))"

definition cc2400_spi_wires :: "(nat \<Rightarrow> bool) \<Rightarrow> nat \<Rightarrow> u32 \<Rightarrow> wire list \<times> u32" where
  "cc2400_spi_wires miso len data =
     (let (ws, r) = spi_loop miso (push_bit (len - 1) 1) 0 len data
      in ([CSN False] @ ws @ [CSN True], r))"

text \<open>\<open>cc2400_spi_buf\<close> sends the register number, the bytes and eight more clocks.\<close>

fun byte_wires :: "nat \<Rightarrow> u8 \<Rightarrow> wire list" where
  "byte_wires 0 b = []"
| "byte_wires (Suc n) b = [MOSI (b AND 0x80 \<noteq> 0), SCLK True, SCLK False] @ byte_wires n (push_bit 1 b)"

definition cc2400_spi_buf_wires :: "u8 \<Rightarrow> u8 list \<Rightarrow> wire list" where
  "cc2400_spi_buf_wires reg data =
     [CSN False] @ byte_wires 8 reg @ concat (map (byte_wires 8) data)
       @ concat (replicate 8 [SCLK True, SCLK False]) @ [CSN True]"

subsection \<open>Transactions\<close>

text \<open>What the firmware does to the outside: a transaction of \<open>cc2400_spi\<close> or \<open>cc2400_spi_buf\<close>, a
  read of the radio's pin GIO6, a look at a peripheral or at a variable that an interrupt changes,
  and the end of a control request with the bytes returned to the host.\<close>

datatype hw_op = Spi nat u32 | SpiBuf u8 "u8 list" | ReadGio6 | Tick | Reply bool "u8 list"

type_synonym hw_hist = "hw_op list"

record radio =
  radio_miso :: "hw_hist \<Rightarrow> nat \<Rightarrow> bool"
  radio_gio6 :: "hw_hist \<Rightarrow> bool"

definition cc2400_spi :: "radio \<Rightarrow> nat \<Rightarrow> u32 \<Rightarrow> hw_hist \<Rightarrow> u32 \<times> hw_hist" where
  "cc2400_spi cc len data h =
     (let h = h @ [Spi len data] in (snd (cc2400_spi_wires (radio_miso cc h) len data), h))"

definition cc2400_get :: "radio \<Rightarrow> u8 \<Rightarrow> hw_hist \<Rightarrow> u16 \<times> hw_hist" where
  "cc2400_get cc reg h =
     (let out = push_bit 16 (ucast (reg OR 0x80)) :: u32;
          (i, h) = cc2400_spi cc 24 out h
      in (ucast (i AND 0xFFFF), h))"

definition cc2400_set :: "radio \<Rightarrow> u8 \<Rightarrow> u16 \<Rightarrow> hw_hist \<Rightarrow> hw_hist" where
  "cc2400_set cc reg val h =
     (let out = push_bit 16 (ucast reg) OR ucast val :: u32 in snd (cc2400_spi cc 24 out h))"

definition cc2400_get8 :: "radio \<Rightarrow> u8 \<Rightarrow> hw_hist \<Rightarrow> u8 \<times> hw_hist" where
  "cc2400_get8 cc reg h =
     (let out = push_bit 8 (ucast (reg OR 0x80)) :: u16;
          (i, h) = cc2400_spi cc 16 (ucast out) h
      in (ucast (ucast i AND (0xFF :: u16)), h))"

definition cc2400_set8 :: "radio \<Rightarrow> u8 \<Rightarrow> u8 \<Rightarrow> hw_hist \<Rightarrow> hw_hist" where
  "cc2400_set8 cc reg val h =
     (let out = push_bit 8 (ucast reg) OR ucast val :: u32 in snd (cc2400_spi cc 16 out h))"

definition cc2400_spi_buf :: "u8 \<Rightarrow> u8 list \<Rightarrow> hw_hist \<Rightarrow> hw_hist" where
  "cc2400_spi_buf reg data h = h @ [SpiBuf reg data]"

definition cc2400_status :: "radio \<Rightarrow> hw_hist \<Rightarrow> u8 \<times> hw_hist" where
  "cc2400_status cc h = apfst ucast (cc2400_spi cc 8 0 h)"

definition cc2400_strobe :: "radio \<Rightarrow> u8 \<Rightarrow> hw_hist \<Rightarrow> u8 \<times> hw_hist" where
  "cc2400_strobe cc reg h = apfst ucast (cc2400_spi cc 8 (ucast reg) h)"

subsection \<open>Busy waits\<close>

text \<open>\<open>while (!p(read())) ;\<close> for an operation that reads the radio.\<close>

partial_function (option) poll :: "(hw_hist \<Rightarrow> 'a \<times> hw_hist) \<Rightarrow> ('a \<Rightarrow> bool) \<Rightarrow> hw_hist \<Rightarrow> hw_hist option" where
  "poll rd p h = (case rd h of (x, h) \<Rightarrow> if p x then Some h else poll rd p h)"

declare poll.simps [code]

definition wait_status :: "radio \<Rightarrow> (u8 \<Rightarrow> bool) \<Rightarrow> hw_hist \<Rightarrow> hw_hist option" where
  "wait_status cc p h = poll (cc2400_status cc) p h"

definition wait_reg :: "radio \<Rightarrow> u8 \<Rightarrow> (u16 \<Rightarrow> bool) \<Rightarrow> hw_hist \<Rightarrow> hw_hist option" where
  "wait_reg cc reg p h = poll (cc2400_get cc reg) p h"

definition cc2400_reset :: "radio \<Rightarrow> hw_hist \<Rightarrow> hw_hist option" where
  "cc2400_reset cc h = do {
     let h = cc2400_set cc MAIN 0x0000 h;
     h \<leftarrow> wait_reg cc MAIN (\<lambda>v. v = 0x0000) h;
     let h = cc2400_set cc MAIN 0x8000 h;
     wait_reg cc MAIN (\<lambda>v. v = 0x8000) h
   }"

definition cc2400_tune_rx :: "radio \<Rightarrow> u16 \<Rightarrow> hw_hist \<Rightarrow> hw_hist" where
  "cc2400_tune_rx cc channel h = cc2400_set cc FSDIV (channel - 1) h"

definition cc2400_tune_tx :: "radio \<Rightarrow> u16 \<Rightarrow> hw_hist \<Rightarrow> hw_hist" where
  "cc2400_tune_tx cc channel h = cc2400_set cc FSDIV channel h"

definition cc2400_hop_rx :: "radio \<Rightarrow> u16 \<Rightarrow> hw_hist \<Rightarrow> hw_hist option" where
  "cc2400_hop_rx cc channel h = do {
     let h = snd (cc2400_strobe cc SRFOFF h);
     h \<leftarrow> wait_status cc (\<lambda>st. \<not> FS_LOCK st) h;
     let h = cc2400_tune_rx cc channel h;
     h \<leftarrow> wait_status cc XOSC16M_STABLE h;
     let h = snd (cc2400_strobe cc SFSON h);
     h \<leftarrow> wait_status cc FS_LOCK h;
     Some (snd (cc2400_strobe cc SRX h))
   }"

definition cc2400_hop_tx :: "radio \<Rightarrow> u16 \<Rightarrow> hw_hist \<Rightarrow> hw_hist option" where
  "cc2400_hop_tx cc channel h = do {
     let h = snd (cc2400_strobe cc SRFOFF h);
     h \<leftarrow> wait_status cc (\<lambda>st. \<not> FS_LOCK st) h;
     let h = cc2400_tune_rx cc channel h;
     h \<leftarrow> wait_status cc XOSC16M_STABLE h;
     let h = snd (cc2400_strobe cc SFSON h);
     h \<leftarrow> wait_status cc FS_LOCK h;
     Some (snd (cc2400_strobe cc SRX h))
   }"

subsection \<open>Delays\<close>

text \<open>\<open>wait_us\<close> counts down a 32-bit counter; the result is the number of iterations of
  \<open>while(--wait_us_counter);\<close>.\<close>

definition wait_us_counter :: "u32 \<Rightarrow> u32" where
  "wait_us_counter us = drop_bit 2 us + drop_bit 3 us + drop_bit 6 us + drop_bit 7 us
     + drop_bit 10 us + drop_bit 11 us"

definition wait_us :: "u32 \<Rightarrow> nat" where
  "wait_us us = (if wait_us_counter us = 0 then 2 ^ 32 else unat (wait_us_counter us))"

definition wait_ms :: "u32 \<Rightarrow> nat" where
  "wait_ms ms = wait_us (ms * 1000)"

definition wait_s :: "u8 \<Rightarrow> nat" where
  "wait_s seconds = wait_us (ucast seconds * 1000000)"

definition rbit :: "u32 \<Rightarrow> u32" where
  "rbit value = rev_bits 32 value"

subsection \<open>The transaction on the wires\<close>

text \<open>What a slave sees: the level of MOSI at each rising edge of the clock.\<close>

fun spi_slave :: "bool \<Rightarrow> wire list \<Rightarrow> bool list" where
  "spi_slave m [] = []"
| "spi_slave m (MOSI b # ws) = spi_slave b ws"
| "spi_slave m (SCLK c # ws) = (if c then m # spi_slave m ws else spi_slave m ws)"
| "spi_slave m (CSN c # ws) = spi_slave m ws"

lemma bit_and_msb: "(data::'a::len word) AND push_bit k 1 \<noteq> 0 \<longleftrightarrow> bit data k"
proof (cases "bit data k")
  case True
  then have "bit (data AND push_bit k 1) k"
    using bit_imp_le_length [OF True] by (simp add: bit_and_iff bit_push_bit_iff del: push_bit_of_1)
  with True show ?thesis by (metis bit_0_eq bot_apply bot_bool_def)
next
  case False
  have "data AND push_bit k 1 = 0"
    by (rule bit_word_eqI) (use False in \<open>auto simp: bit_simps\<close>)
  with False show ?thesis by simp
qed

lemma spi_loop_result:
  "bit (snd (spi_loop miso msb i n data)) k \<longleftrightarrow>
     k < 32 \<and> (if k < n then miso (i + (n - 1 - k)) else bit data (k - n))"
proof (induction n arbitrary: i data k)
  case 0
  then show ?case by (auto dest: bit_imp_le_length)
next
  case (Suc n)
  show ?case
    by (cases "k < n"; cases "k = n")
      (auto simp: Let_def Suc.IH bit_simps Suc_diff_Suc simp del: push_bit_Suc)
qed

lemma spi_loop_slave:
  "n \<le> len \<Longrightarrow> len \<le> 32 \<Longrightarrow>
   spi_slave m (fst (spi_loop miso (push_bit (len - 1) 1) i n data) @ [CSN True])
   = map (\<lambda>j. bit data (len - 1 - j)) [0..<n]"
proof (induction n arbitrary: i data m)
  case 0
  then show ?case by simp
next
  case (Suc n)
  let ?d = "if miso i then push_bit 1 data OR 1 else push_bit 1 data"
  have d: "bit ?d (len - 1 - j) = bit data (len - 1 - Suc j)" if j: "j < n" for j
  proof -
    obtain k where k: "len - 1 - j = Suc k" "len - 1 - Suc j = k"
      using j Suc.prems by (cases "len - 1 - j") auto
    then have "Suc k < 32" using Suc.prems by simp
    then show ?thesis unfolding k by (simp add: bit_simps del: push_bit_Suc)
  qed
  have "spi_slave m (fst (spi_loop miso (push_bit (len - 1) 1) i (Suc n) data) @ [CSN True])
        = bit data (len - 1) # map (\<lambda>j. bit ?d (len - 1 - j)) [0..<n]"
    using Suc.IH [where i = "Suc i" and data = ?d] Suc.prems
    by (simp add: Let_def bit_and_msb del: push_bit_of_1 push_bit_Suc One_nat_def split del: if_split)
  also have "map (\<lambda>j. bit ?d (len - 1 - j)) [0..<n] = map (\<lambda>j. bit data (len - 1 - Suc j)) [0..<n]"
    by (intro map_cong refl d) simp
  also have "bit data (len - 1) # \<dots> = map (\<lambda>j. bit data (len - 1 - j)) [0..<Suc n]"
    by (simp add: upt_conv_Cons map_Suc_upt [symmetric] del: upt_Suc)
  finally show ?case .
qed

text \<open>A transaction of \<open>cc2400_spi\<close> of at most 32 bits puts exactly the low \<open>len\<close> bits of its
  argument on the wire, most significant first, each stable at a rising clock edge; and the word
  it returns has the \<open>len\<close> bits read from MISO, first read most significant, in its low bits, and
  above them the argument shifted out of the way.\<close>

theorem cc2400_spi_exchange:
  assumes "len \<le> 32"
  shows "spi_slave m (fst (cc2400_spi_wires miso len data)) = map (\<lambda>j. bit data (len - 1 - j)) [0..<len]
    \<and> (\<forall>k. bit (snd (cc2400_spi_wires miso len data)) k \<longleftrightarrow>
           (if k < len then miso (len - 1 - k) else k < 32 \<and> bit data (k - len)))"
  using spi_loop_slave [of len len m miso 0 data] assms
  by (auto simp: cc2400_spi_wires_def split_beta spi_loop_result)

lemma cc2400_spi_exchange_witness:
  "spi_slave False (fst (cc2400_spi_wires (\<lambda>i. i = 0) 8 0x62)) = [False, True, True, False, False, False, True, False]"
proof -
  have "spi_slave False (fst (cc2400_spi_wires (\<lambda>i. i = 0) 8 0x62)) = map (\<lambda>j. bit (0x62::u32) (8 - 1 - j)) [0..<8]"
    using cc2400_spi_exchange [of 8 False "\<lambda>i. i = 0" "0x62"] by simp
  then show ?thesis by (simp add: upt_conv_Cons)
qed

lemma byte_wires_slave:
  "n \<le> 8 \<Longrightarrow> spi_slave m (byte_wires n b @ ws)
     = map (\<lambda>j. bit b (7 - j)) [0..<n] @ spi_slave (if n = 0 then m else bit b (8 - n)) ws"
proof (induction n arbitrary: m b)
  case 0
  then show ?case by simp
next
  case (Suc n)
  have msb: "b AND 0x80 \<noteq> 0 \<longleftrightarrow> bit b 7"
    using bit_and_msb [of b 7] by simp
  have shift: "bit (push_bit 1 b) (7 - j) = bit b (7 - Suc j)" if "j < 7" for j
  proof -
    obtain k where k: "7 - j = Suc k" "7 - Suc j = k"
      using \<open>j < 7\<close> by (cases "7 - j") auto
    from k(1) have "k < 7" by simp
    with k show ?thesis unfolding k by (simp add: bit_simps del: push_bit_Suc)
  qed
  have "spi_slave m (byte_wires (Suc n) b @ ws)
        = bit b 7 # map (\<lambda>j. bit (push_bit 1 b) (7 - j)) [0..<n]
            @ spi_slave (if n = 0 then bit b 7 else bit (push_bit 1 b) (8 - n)) ws"
    using Suc.IH [of "bit b 7" "push_bit 1 b"] Suc.prems by (simp add: msb del: push_bit_Suc One_nat_def)
  also have "map (\<lambda>j. bit (push_bit 1 b) (7 - j)) [0..<n] = map (\<lambda>j. bit b (7 - Suc j)) [0..<n]"
    using Suc.prems by (intro map_cong refl shift) simp
  also have "(if n = 0 then bit b 7 else bit (push_bit 1 b) (8 - n)) = bit b (8 - Suc n)"
    using shift [of "n - 1"] Suc.prems by (cases n) simp_all
  also have "bit b 7 # map (\<lambda>j. bit b (7 - Suc j)) [0..<n] @ spi_slave (bit b (8 - Suc n)) ws
      = map (\<lambda>j. bit b (7 - j)) [0..<Suc n] @ spi_slave (bit b (8 - Suc n)) ws"
    by (simp add: upt_conv_Cons map_Suc_upt [symmetric] del: upt_Suc)
  finally show ?case by simp
qed

definition msb_bits :: "u8 \<Rightarrow> bool list" where
  "msb_bits b = map (\<lambda>j. bit b (7 - j)) [0..<8]"

lemma bytes_wires_slave:
  "\<exists>m'. spi_slave m (concat (map (byte_wires 8) bs) @ ws) = concat (map msb_bits bs) @ spi_slave m' ws"
proof (induction bs arbitrary: m)
  case (Cons b bs)
  then show ?case by (auto simp: byte_wires_slave msb_bits_def)
qed auto

lemma dummy_clocks: "spi_slave m (concat (replicate n [SCLK True, SCLK False]) @ [CSN True]) = replicate n m"
  by (induction n) simp_all

text \<open>\<open>cc2400_spi_buf\<close> shifts out the register number and then every byte of the buffer, most
  significant bit first, followed by exactly eight extra clocks.\<close>

theorem cc2400_spi_buf_sends:
  "\<exists>m'. spi_slave m (cc2400_spi_buf_wires reg data)
     = msb_bits reg @ concat (map msb_bits data) @ replicate 8 m'"
  using bytes_wires_slave [of "bit reg 0" data "concat (replicate 8 [SCLK True, SCLK False]) @ [CSN True]"]
  by (simp add: cc2400_spi_buf_wires_def byte_wires_slave dummy_clocks flip: msb_bits_def)

subsection \<open>What the operations send\<close>

lemma cc2400_spi_hist [simp]: "snd (cc2400_spi cc len data h) = h @ [Spi len data]"
  by (simp add: cc2400_spi_def Let_def)

lemma cc2400_set_hist [simp]:
  "cc2400_set cc reg val h = h @ [Spi 24 (push_bit 16 (ucast reg) OR ucast val)]"
  by (simp add: cc2400_set_def)

lemma cc2400_strobe_hist [simp]: "snd (cc2400_strobe cc reg h) = h @ [Spi 8 (ucast reg)]"
  by (simp add: cc2400_strobe_def)

lemma cc2400_status_hist [simp]: "snd (cc2400_status cc h) = h @ [Spi 8 0]"
  by (simp add: cc2400_status_def)

lemma cc2400_get_hist [simp]: "snd (cc2400_get cc reg h) = h @ [Spi 24 (push_bit 16 (ucast (reg OR 0x80)))]"
  by (simp add: cc2400_get_def Let_def split_beta)

text \<open>The status byte is what the chip answered during the transaction.\<close>

lemma cc2400_status_bit:
  "k < 8 \<Longrightarrow> bit (fst (cc2400_status cc h)) k \<longleftrightarrow> radio_miso cc (h @ [Spi 8 0]) (7 - k)"
  by (simp add: cc2400_status_def cc2400_spi_def Let_def cc2400_spi_wires_def split_beta bit_simps spi_loop_result)

lemma poll_sends:
  assumes "poll rd p h = Some h'" and "\<And>h. snd (rd h) = h @ [q]"
  shows "\<exists>k. h' = h @ replicate (Suc k) q \<and> p (fst (rd (h @ replicate k q)))
         \<and> (\<forall>j<k. \<not> p (fst (rd (h @ replicate j q))))"
proof -
  let ?P = "\<lambda>rd p h h'. (\<forall>h. snd (rd h) = h @ [q]) \<longrightarrow>
    (\<exists>k. h' = h @ replicate (Suc k) q \<and> p (fst (rd (h @ replicate k q)))
         \<and> (\<forall>j<k. \<not> p (fst (rd (h @ replicate j q)))))"
  have "?P rd p h h'"
    using _ assms(1)
  proof (rule poll.raw_induct [of ?P])
    fix pl :: "(hw_hist \<Rightarrow> 'a \<times> hw_hist) \<Rightarrow> ('a \<Rightarrow> bool) \<Rightarrow> hw_hist \<Rightarrow> hw_hist option"
    fix rd :: "hw_hist \<Rightarrow> 'a \<times> hw_hist" and p h h'
    assume IH: "\<And>rd p h h'. pl rd p h = Some h' \<Longrightarrow> ?P rd p h h'"
      and step: "(case rd h of (x, h) \<Rightarrow> if p x then Some h else pl rd p h) = Some h'"
    show "?P rd p h h'"
    proof
      assume app: "\<forall>h. snd (rd h) = h @ [q]"
      then have step': "(if p (fst (rd h)) then Some (h @ [q]) else pl rd p (h @ [q])) = Some h'"
        using step by (simp add: split_beta)
      show "\<exists>k. h' = h @ replicate (Suc k) q \<and> p (fst (rd (h @ replicate k q)))
         \<and> (\<forall>j<k. \<not> p (fst (rd (h @ replicate j q))))"
      proof (cases "p (fst (rd h))")
        case True
        with step' have "h' = h @ [q]" by simp
        with True show ?thesis by (intro exI [of _ 0]) simp
      next
        case False
        with step' have "pl rd p (h @ [q]) = Some h'" by simp
        with IH app obtain k where k: "h' = (h @ [q]) @ replicate (Suc k) q"
            "p (fst (rd ((h @ [q]) @ replicate k q)))" "\<forall>j<k. \<not> p (fst (rd ((h @ [q]) @ replicate j q)))"
          by blast
        have "\<not> p (fst (rd (h @ replicate j q)))" if "j < Suc k" for j
          using that False k(3) by (cases j) simp_all
        with k show ?thesis by (intro exI [of _ "Suc k"]) simp
      qed
    qed
  qed
  with assms(2) show ?thesis by blast
qed

lemma poll_returns:
  assumes "\<And>h. snd (rd h) = h @ [q]" and "p (fst (rd (h @ replicate k q)))"
  shows "\<exists>h'. poll rd p h = Some h'"
  using assms(2)
proof (induction k arbitrary: h)
  case 0
  then show ?case
    by (subst poll.simps) (simp add: split_beta)
next
  case (Suc k)
  then have "\<exists>h'. poll rd p (h @ [q]) = Some h'" by simp
  then show ?case
    by (subst poll.simps) (simp add: split_beta assms(1))
qed

text \<open>A wait for a status condition returns exactly when some later status read satisfies it,
  and by then it has sent nothing but status reads, the last of which is the first to satisfy the
  condition.\<close>

theorem wait_status_returns:
  "wait_status cc p h =
     (if \<exists>k. p (fst (cc2400_status cc (h @ replicate k (Spi 8 0))))
      then Some (h @ replicate (Suc (LEAST k. p (fst (cc2400_status cc (h @ replicate k (Spi 8 0)))))) (Spi 8 0))
      else None)"
proof -
  let ?ok = "\<lambda>k. p (fst (cc2400_status cc (h @ replicate k (Spi 8 0))))"
  show ?thesis
  proof (cases "\<exists>k. ?ok k")
    case True
    then obtain k where "?ok k" ..
    then have "\<exists>h'. wait_status cc p h = Some h'"
      unfolding wait_status_def by (rule poll_returns [rotated]) simp
    then obtain h' where h': "wait_status cc p h = Some h'" ..
    then obtain k where k: "h' = h @ replicate (Suc k) (Spi 8 0)" "?ok k" "\<forall>j<k. \<not> ?ok j"
      unfolding wait_status_def using poll_sends [of "cc2400_status cc" p h h' "Spi 8 0", OF _ cc2400_status_hist] by blast
    then have "(LEAST k. ?ok k) = k"
      by (intro Least_equality) (auto simp: linorder_not_less [symmetric])
    with True h' k show ?thesis by simp
  next
    case False
    have "wait_status cc p h = None"
    proof (rule ccontr)
      assume "wait_status cc p h \<noteq> None"
      then obtain h' where "poll (cc2400_status cc) p h = Some h'" by (auto simp: wait_status_def)
      with False poll_sends [of "cc2400_status cc" p h h' "Spi 8 0", OF _ cc2400_status_hist] show False by blast
    qed
    with False show ?thesis by simp
  qed
qed

subsection \<open>The delay loop\<close>

lemma wait_us_counter_unat:
  "unat (wait_us_counter us) =
     unat us div 4 + unat us div 8 + unat us div 64 + unat us div 128 + unat us div 1024 + unat us div 2048"
proof -
  let ?u = "unat us"
  have u: "?u < 2 ^ 32" using unsigned_less [of us] by simp
  have drop: "unat (drop_bit k us) = ?u div 2 ^ k" for k
    using take_bit_nat_eq_self [OF u] by (simp only: unsigned_drop_bit_eq) (simp add: drop_bit_eq_div)
  have "?u div 4 + ?u div 8 + ?u div 64 + ?u div 128 + ?u div 1024 + ?u div 2048 < 2 ^ 32"
    using u by simp
  then show ?thesis
    by (simp add: wait_us_counter_def unat_word_ariths drop mod_simps)
qed

text \<open>The delay loop of \<open>wait_us\<close> makes at most 0.4 iterations per microsecond, except for
  delays below four microseconds, for which its counter starts at zero and wraps, so that it makes
  2^32 iterations.\<close>

theorem wait_us_iterations:
  "if us < 4 then wait_us us = 2 ^ 32 else 0 < wait_us us \<and> 5 * wait_us us \<le> 2 * unat us"
proof -
  have zero: "wait_us_counter us = 0 \<longleftrightarrow> us < 4"
    using wait_us_counter_unat [of us] by (auto simp: word_less_nat_alt simp flip: unat_eq_0)
  have weights: "5 * (a + b + c + d + e + f) \<le> 2 * u"
    if "4 * a \<le> u" "8 * b \<le> u" "64 * c \<le> u" "128 * d \<le> u" "1024 * e \<le> u" "2048 * f \<le> u"
    for a b c d e f u :: nat
  proof -
    have "2048 * a \<le> 512 * u" "2048 * b \<le> 256 * u" "2048 * c \<le> 32 * u" "2048 * d \<le> 16 * u" "2048 * e \<le> 2 * u"
      using that by simp_all
    with that(6) have "2048 * (a + b + c + d + e + f) \<le> 819 * u" by simp
    then show ?thesis by simp
  qed
  have "5 * unat (wait_us_counter us) \<le> 2 * unat us"
    unfolding wait_us_counter_unat by (rule weights) (rule times_div_less_eq_dividend)+
  with zero show ?thesis
    by (auto simp: wait_us_def not_less [symmetric] unat_gt_0)
qed

end
