(* ===== verification/Loops.thy ===== *)
theory Loops
  imports Ubt_Prelude "HOL-Library.Monad_Syntax"
begin

text \<open>
  Control flow of the firmware. A computation that reaches a busy wait which never ends, or an
  access outside its array, is \<open>None\<close>; everything else is \<open>Some\<close> of the state it leaves. A
  \<open>while\<close> loop and a loop left by \<open>break\<close>, \<open>return\<close> or \<open>goto\<close> are the least fixed points of
  their bodies. The rules are partial correctness (an invariant of the body is one of the loop) and
  termination (a measure that every iteration decreases).
\<close>

datatype 's step = Again 's | Leave 's

partial_function (option) while_opt :: "('s \<Rightarrow> bool) \<Rightarrow> ('s \<Rightarrow> 's option) \<Rightarrow> 's \<Rightarrow> 's option" where
  "while_opt b c s = (if b s then Option.bind (c s) (while_opt b c) else Some s)"

declare while_opt.simps [code]

partial_function (option) loop_opt :: "('s \<Rightarrow> 's step option) \<Rightarrow> 's \<Rightarrow> 's option" where
  "loop_opt body s = Option.bind (body s) (\<lambda>r. case r of Again t \<Rightarrow> loop_opt body t | Leave t \<Rightarrow> Some t)"

declare loop_opt.simps [code]

fun for_each :: "('a \<Rightarrow> 's \<Rightarrow> 's option) \<Rightarrow> 'a list \<Rightarrow> 's \<Rightarrow> 's option" where
  "for_each f [] s = Some s"
| "for_each f (x # xs) s = Option.bind (f x s) (for_each f xs)"

fun step_state :: "'s step \<Rightarrow> 's" where
  "step_state (Again s) = s"
| "step_state (Leave s) = s"

subsection \<open>Partial correctness\<close>

lemma while_opt_invariant:
  assumes "while_opt b c s = Some t" and "P s"
    and step: "\<And>x y. P x \<Longrightarrow> b x \<Longrightarrow> c x = Some y \<Longrightarrow> P y"
  shows "P t \<and> \<not> b t"
proof -
  have "(\<forall>x y. P x \<longrightarrow> b x \<longrightarrow> c x = Some y \<longrightarrow> P y) \<longrightarrow> P s \<longrightarrow> P t \<and> \<not> b t"
  proof (rule while_opt.raw_induct [OF _ assms(1), where P = "\<lambda>b c s t.
      (\<forall>x y. P x \<longrightarrow> b x \<longrightarrow> c x = Some y \<longrightarrow> P y) \<longrightarrow> P s \<longrightarrow> P t \<and> \<not> b t"])
    fix while :: "('a \<Rightarrow> bool) \<Rightarrow> ('a \<Rightarrow> 'a option) \<Rightarrow> 'a \<Rightarrow> 'a option" and b :: "'a \<Rightarrow> bool" and c s t
    assume IH: "\<And>b c s t. while b c s = Some t \<Longrightarrow>
        (\<forall>x y. P x \<longrightarrow> b x \<longrightarrow> c x = Some y \<longrightarrow> P y) \<longrightarrow> P s \<longrightarrow> P t \<and> \<not> b t"
      and run: "(if b s then c s \<bind> while b c else Some s) = Some t"
    show "(\<forall>x y. P x \<longrightarrow> b x \<longrightarrow> c x = Some y \<longrightarrow> P y) \<longrightarrow> P s \<longrightarrow> P t \<and> \<not> b t"
    proof (intro impI)
      assume ok: "\<forall>x y. P x \<longrightarrow> b x \<longrightarrow> c x = Some y \<longrightarrow> P y" and P: "P s"
      show "P t \<and> \<not> b t"
      proof (cases "b s")
        case True
        then obtain y where y: "c s = Some y" "while b c y = Some t" using run by (cases "c s") simp_all
        have "P y" using ok P True y(1) by blast
        then show ?thesis using IH [OF y(2)] ok by blast
      qed (use run P in simp)
    qed
  qed
  with assms(2) step show ?thesis by blast
qed

lemma while_opt_keeps:
  assumes "while_opt b c s = Some t" and "P s" and "\<And>x y. P x \<Longrightarrow> c x = Some y \<Longrightarrow> P y"
  shows "P t"
  using while_opt_invariant [of b c s t P] assms by blast

lemma loop_opt_invariant:
  assumes "loop_opt body s = Some t" and "P s"
    and step: "\<And>x y. P x \<Longrightarrow> body x = Some (Again y) \<Longrightarrow> P y"
    and leave: "\<And>x y. P x \<Longrightarrow> body x = Some (Leave y) \<Longrightarrow> Q y"
  shows "Q t"
proof -
  let ?ok = "\<lambda>body. \<forall>x y. P x \<longrightarrow> (body x = Some (Again y) \<longrightarrow> P y) \<and> (body x = Some (Leave y) \<longrightarrow> Q y)"
  have "?ok body \<longrightarrow> P s \<longrightarrow> Q t"
  proof (rule loop_opt.raw_induct [OF _ assms(1), where P = "\<lambda>body s t. ?ok body \<longrightarrow> P s \<longrightarrow> Q t"])
    fix loop :: "('a \<Rightarrow> 'a step option) \<Rightarrow> 'a \<Rightarrow> 'a option" and body s t
    assume IH: "\<And>body s t. loop body s = Some t \<Longrightarrow> ?ok body \<longrightarrow> P s \<longrightarrow> Q t"
      and run: "body s \<bind> (\<lambda>r. case r of Again t \<Rightarrow> loop body t | Leave t \<Rightarrow> Some t) = Some t"
    show "?ok body \<longrightarrow> P s \<longrightarrow> Q t"
    proof (intro impI)
      assume ok: "?ok body" and P: "P s"
      show "Q t"
      proof (cases "body s")
        case (Some r)
        show ?thesis
        proof (cases r)
          case (Again y)
          then have "P y" and "loop body y = Some t" using ok P Some run by simp_all
          then show ?thesis using IH [of body y t] ok by blast
        next
          case (Leave y)
          then show ?thesis using ok P Some run by simp
        qed
      qed (use run in simp)
    qed
  qed
  with assms(2) step leave show ?thesis by blast
qed

lemma for_each_invariant:
  assumes "for_each f xs s = Some t" and "P s"
    and "\<And>x y z. x \<in> set xs \<Longrightarrow> P y \<Longrightarrow> f x y = Some z \<Longrightarrow> P z"
  shows "P t"
  using assms
proof (induction xs arbitrary: s)
  case (Cons x xs)
  then obtain z where z: "f x s = Some z" "for_each f xs z = Some t" by (auto split: bind_splits)
  have "P z" using Cons.prems(3) [of x s z] Cons.prems(2) z(1) by simp
  then show ?case using Cons.IH [OF z(2)] Cons.prems(3) by (meson list.set_intros(2))
qed simp

subsection \<open>Termination\<close>

lemma while_opt_total:
  fixes m :: "'s \<Rightarrow> nat"
  assumes "P s"
    and step: "\<And>x. P x \<Longrightarrow> b x \<Longrightarrow> \<exists>y. c x = Some y \<and> P y \<and> m y < m x"
  shows "\<exists>t. while_opt b c s = Some t \<and> P t \<and> \<not> b t"
  using assms(1)
proof (induction s rule: measure_induct_rule [of m])
  case (less s)
  show ?case
  proof (cases "b s")
    case True
    then obtain y where y: "c s = Some y" "P y" "m y < m s" using step less.prems by blast
    with less.IH [of y] True show ?thesis by (subst while_opt.simps) simp
  next
    case False
    with less.prems show ?thesis by (subst while_opt.simps) simp
  qed
qed

lemma for_each_total:
  assumes "P s" and "\<And>x y. x \<in> set xs \<Longrightarrow> P y \<Longrightarrow> \<exists>z. f x y = Some z \<and> P z"
  shows "\<exists>t. for_each f xs s = Some t \<and> P t"
  using assms
proof (induction xs arbitrary: s)
  case (Cons x xs)
  obtain z where "f x s = Some z" "P z" using Cons.prems by fastforce
  then show ?case using Cons.IH [of z] Cons.prems(2) by auto
qed simp

lemma for_each_append: "for_each f (xs @ ys) s = Option.bind (for_each f xs s) (for_each f ys)"
  by (induction xs arbitrary: s) (simp_all split: bind_split)

lemma while_opt_False [simp]: "\<not> b s \<Longrightarrow> while_opt b c s = Some s"
  by (subst while_opt.simps) simp

end
