(* ===== verification/Fw_State.thy ===== *)
theory Fw_State
  imports Bluetooth_LE Usb_Queue Bluetooth Cc2400 Loops
begin

text \<open>
  The state of the receive firmware \<^verbatim>\<open>firmware/bluetooth_rxtx/bluetooth_rxtx.c\<close>: one record with a
  field per global variable, and the world it runs in. The world is what is not in the repository:
  the radio, the microcontroller's timer, DMA engine and ROM, and the USB host. Everything the
  firmware does to the outside is appended to the history \<open>hist\<close>, and the world answers as a
  function of that history.
\<close>

subsection \<open>Pins and peripheral registers\<close>

datatype pin = USRLED | RXLED | TXLED | CC1V8 | CC3V3 | CSN_PIN | PAEN | HGM | DIO_SSEL

text \<open>
  Registers of the microcontroller. A register the firmware only writes holds the last value
  written to it; one that the hardware changes is read from the world.
\<close>

datatype lpc_reg =
    T0TCR | T0PR | T0MR0 | T0MCR | T0IR | ISER0 | ICER0 | IO2IntClr | IO2IntEnF | PCONP
  | DMACCConfig nat | DMACC0SrcAddr | DMACC0DestAddr | DMACC0LLI | DMACC0Control
  | DMACIntTCClear | DMACIntErrClr | DMACConfig
  | DIO_SSP_CR0 | DIO_SSP_CR1 | DIO_SSP_DMACR | SSP1SR | DIO_SSP_DR
  | PINSEL nat | PINMODE nat | FIODIR nat | FIOPIN nat
  | FLASHCFG | CLKSRCSEL | PLL0CON | PLL0CFG | PLL0FEED | PLL0STAT | CCLKCFG | SCS | PCLKSEL0 | PCLKSEL1
  | PLL1CON | PLL1CFG | PLL1FEED | PLL1STAT | WDMOD | WDFEED

text \<open>Objects whose address the DMA descriptors hold.\<close>

datatype mem_obj = At_rxbuf1 | At_rxbuf2 | At_rx_dma_lli1 | At_rx_dma_lli2 | At_le_dma_lli nat | At_DIO_SSP_DR

record dma_lli =
  lli_src :: u32
  lli_dest :: u32
  lli_next :: u32
  lli_control :: u32

subsection \<open>Callbacks\<close>

text \<open>The function pointers \<open>data_cb\<close> and \<open>packet_cb\<close>, by the functions they are set to.\<close>

datatype data_cb_t = No_data_cb | Cb_follow_le | Cb_le_promisc

datatype packet_cb_t =
    No_packet_cb | Connection_follow_cb | Promisc_follow_cb
  | Promisc_recover_hop_interval | Promisc_recover_hop_increment

subsection \<open>Promiscuous mode and range test\<close>

record le_promisc_t =
  active_aa :: "(u32 \<times> int) list"
  smallest_hop_interval :: u32
  consec_intervals :: int

record rangetest_result =
  rr_valid :: u8
  rr_request_pa :: u8
  rr_request_num :: u8
  rr_reply_pa :: u8
  rr_reply_num :: u8

subsection \<open>The firmware state\<close>

record fw =
  hist :: hw_hist
  pins :: "pin \<Rightarrow> bool"
  regs :: "lpc_reg \<Rightarrow> u32"
  clkn :: u32
  last_hop :: u32
  clkn_offset :: u32
  clk100ns_offset :: u16
  hop_mode :: hop_mode_t
  do_hop :: bool
  dma_discard :: bool
  cs_no_squelch :: bool
  cs_threshold_req :: int
  cs_threshold_cur :: int
  cs_trigger :: bool
  hop_direct_channel :: u16
  idle_buf_clkn_high :: u8
  idle_buf_clk100ns :: u32
  idle_buf_channel :: u16
  slave_mac_address :: "u8 list"
  hop_timeout :: u16
  rxbuf1 :: "u8 list"
  rxbuf2 :: "u8 list"
  active_is_rxbuf1 :: bool
  le :: le_state
  le_promisc :: le_promisc_t
  first_ts :: u32
  prev_clk :: u32
  le_jam_count :: int
  restart_jamming :: bool
  data_cb :: data_cb_t
  packet_cb :: packet_cb_t
  rssi_iirs :: "int list"
  unpacked :: "u8 list"
  mode :: operating_mode
  requested_mode :: operating_mode
  jam_mode :: u8
  ego_mode :: u8
  modulation :: u8
  channel :: u16
  requested_channel :: u16
  saved_request :: u16
  low_freq :: u16
  high_freq :: u16
  rssi_threshold :: int
  rx_tc :: u32
  rx_err :: u32
  status :: u8
  rssi_max :: int
  rssi_min :: int
  rssi_count :: u8
  rssi_sum :: int
  rx_dma_lli1 :: dma_lli
  rx_dma_lli2 :: dma_lli
  le_dma_lli :: "dma_lli list"
  abVendorReqData :: "u8 list"
  bt :: bt_state
  uq :: usbq
  rr :: rangetest_result
  dfu_requested :: bool
  board_reset :: bool

text \<open>The initial values of the globals; \<open>rssi_max\<close> and \<open>rssi_min\<close> really start crossed over.\<close>

definition fw_initial :: fw where
  "fw_initial = \<lparr>
     hist = [], pins = (\<lambda>_. False), regs = (\<lambda>_. 0),
     clkn = 0, last_hop = 0, clkn_offset = 0, clk100ns_offset = 0,
     hop_mode = HOP_NONE, do_hop = False, dma_discard = False,
     cs_no_squelch = False, cs_threshold_req = -120, cs_threshold_cur = -120, cs_trigger = False,
     hop_direct_channel = 0, idle_buf_clkn_high = 0, idle_buf_clk100ns = 0, idle_buf_channel = 0,
     slave_mac_address = replicate 6 0, hop_timeout = 158,
     rxbuf1 = replicate DMA_SIZE 0, rxbuf2 = replicate DMA_SIZE 0, active_is_rxbuf1 = True,
     le = le_initial,
     le_promisc = \<lparr>active_aa = replicate 32 (0, 0), smallest_hop_interval = 0, consec_intervals = 0\<rparr>,
     first_ts = 0, prev_clk = 0, le_jam_count = 0, restart_jamming = False,
     data_cb = No_data_cb, packet_cb = No_packet_cb,
     rssi_iirs = replicate 79 0, unpacked = replicate (DMA_SIZE * 8 * 2) 0,
     mode = MODE_IDLE, requested_mode = MODE_IDLE, jam_mode = JAM_NONE, ego_mode = 0,
     modulation = MOD_BT_BASIC_RATE, channel = 2441, requested_channel = 0, saved_request = 0,
     low_freq = 2400, high_freq = 2483, rssi_threshold = -30,
     rx_tc = 0, rx_err = 0, status = 0,
     rssi_max = 127, rssi_min = -128, rssi_count = 0, rssi_sum = 0,
     rx_dma_lli1 = \<lparr>lli_src = 0, lli_dest = 0, lli_next = 0, lli_control = 0\<rparr>,
     rx_dma_lli2 = \<lparr>lli_src = 0, lli_dest = 0, lli_next = 0, lli_control = 0\<rparr>,
     le_dma_lli = replicate 11 \<lparr>lli_src = 0, lli_dest = 0, lli_next = 0, lli_control = 0\<rparr>,
     abVendorReqData = replicate 258 0,
     bt = bt_initial, uq = usbq_initial,
     rr = \<lparr>rr_valid = 0, rr_request_pa = 0, rr_request_num = 0, rr_reply_pa = 0, rr_reply_num = 0\<rparr>,
     dfu_requested = False, board_reset = False\<rparr>"

subsection \<open>The world\<close>

text \<open>A request on the control endpoint: request number, \<open>wValue\<close>, \<open>wIndex\<close>, \<open>wLength\<close> and the data
  stage of an OUT transfer.\<close>

record usb_request =
  rq_request :: u8
  rq_value :: u16
  rq_index :: u16
  rq_length :: nat
  rq_data :: "u8 list"

text \<open>
  Interrupts that can arrive while the firmware runs. A DMA interrupt carries what the engine has
  stored since the last one (into \<open>rxbuf1\<close> or \<open>rxbuf2\<close>, at which offset, which bytes) and the two
  interrupt causes, terminal count and error.
\<close>

datatype irq =
    Irq_timer | Irq_cs | Irq_usb usb_request
  | Irq_dma (dma_rxbuf1: bool) (dma_offset: nat) (dma_bytes: "u8 list") (dma_tc: bool) (dma_err: bool)

record world =
  w_cc :: radio
  w_t0tc :: "hw_hist \<Rightarrow> u32"
  w_reg :: "hw_hist \<Rightarrow> lpc_reg \<Rightarrow> u32"
  w_irqs :: "hw_hist \<Rightarrow> irq list"
  w_epstat :: "hw_hist \<Rightarrow> u8"
  w_request :: "hw_hist \<Rightarrow> usb_request option"
  w_iap :: "u32 \<Rightarrow> u32 list"
  w_git_revision :: "u8 list"
  w_compile_info :: "u8 list"
  w_addr :: "mem_obj \<Rightarrow> u32"
  w_stack :: "hw_hist \<Rightarrow> nat \<Rightarrow> u8"

subsection \<open>Access to the hardware\<close>

definition CLK100NS :: "world \<Rightarrow> fw \<Rightarrow> u32" where
  "CLK100NS w s = 3125 * (clkn s AND 0xfffff) + w_t0tc w (hist s)"

definition pin_set :: "pin \<Rightarrow> fw \<Rightarrow> fw" where
  "pin_set p s = s\<lparr>pins := (pins s)(p := True)\<rparr>"

definition pin_clr :: "pin \<Rightarrow> fw \<Rightarrow> fw" where
  "pin_clr p s = s\<lparr>pins := (pins s)(p := False)\<rparr>"

definition reg_write :: "lpc_reg \<Rightarrow> u32 \<Rightarrow> fw \<Rightarrow> fw" where
  "reg_write r v s = s\<lparr>regs := (regs s)(r := v)\<rparr>"

text \<open>Reading a register that the hardware changes, and waiting for one.\<close>

definition reg_read :: "world \<Rightarrow> lpc_reg \<Rightarrow> fw \<Rightarrow> u32 \<times> fw" where
  "reg_read w r s = (let s = s\<lparr>hist := hist s @ [Tick]\<rparr> in (w_reg w (hist s) r, s))"

definition reg_wait :: "world \<Rightarrow> lpc_reg \<Rightarrow> (u32 \<Rightarrow> bool) \<Rightarrow> fw \<Rightarrow> fw option" where
  "reg_wait w r p s =
     map_option (\<lambda>h. s\<lparr>hist := h\<rparr>) (poll (\<lambda>h. (w_reg w (h @ [Tick]) r, h @ [Tick])) p (hist s))"

text \<open>Waiting for a register that holds what was written to it: the wait ends at once or never.\<close>

definition reg_check :: "lpc_reg \<Rightarrow> (u32 \<Rightarrow> bool) \<Rightarrow> fw \<Rightarrow> fw option" where
  "reg_check r p s = (if p (regs s r) then Some s else None)"

definition reg_or :: "lpc_reg \<Rightarrow> u32 \<Rightarrow> fw \<Rightarrow> fw" where
  "reg_or r v s = reg_write r (regs s r OR v) s"

definition reg_clear :: "lpc_reg \<Rightarrow> u32 \<Rightarrow> fw \<Rightarrow> fw" where
  "reg_clear r v s = reg_write r (regs s r AND NOT v) s"

definition rd_set :: "world \<Rightarrow> u8 \<Rightarrow> u16 \<Rightarrow> fw \<Rightarrow> fw" where
  "rd_set w reg val s = s\<lparr>hist := cc2400_set (w_cc w) reg val (hist s)\<rparr>"

definition rd_get :: "world \<Rightarrow> u8 \<Rightarrow> fw \<Rightarrow> u16 \<times> fw" where
  "rd_get w reg s = (let (v, h) = cc2400_get (w_cc w) reg (hist s) in (v, s\<lparr>hist := h\<rparr>))"

definition rd_strobe :: "world \<Rightarrow> u8 \<Rightarrow> fw \<Rightarrow> fw" where
  "rd_strobe w reg s = s\<lparr>hist := snd (cc2400_strobe (w_cc w) reg (hist s))\<rparr>"

definition rd_wait :: "world \<Rightarrow> (u8 \<Rightarrow> bool) \<Rightarrow> fw \<Rightarrow> fw option" where
  "rd_wait w p s = map_option (\<lambda>h. s\<lparr>hist := h\<rparr>) (wait_status (w_cc w) p (hist s))"

definition rd_wait_reg :: "world \<Rightarrow> u8 \<Rightarrow> (u16 \<Rightarrow> bool) \<Rightarrow> fw \<Rightarrow> fw option" where
  "rd_wait_reg w reg p s = map_option (\<lambda>h. s\<lparr>hist := h\<rparr>) (wait_reg (w_cc w) reg p (hist s))"

lemma rd_set_simp [simp]:
  "rd_set w reg val s = s\<lparr>hist := hist s @ [Spi 24 (push_bit 16 (ucast reg) OR ucast val)]\<rparr>"
  by (simp add: rd_set_def)

lemma rd_strobe_simp [simp]: "rd_strobe w reg s = s\<lparr>hist := hist s @ [Spi 8 (ucast reg)]\<rparr>"
  by (simp add: rd_strobe_def)

lemma rd_get_snd [simp]:
  "snd (rd_get w reg s) = s\<lparr>hist := hist s @ [Spi 24 (push_bit 16 (ucast (reg OR 0x80)))]\<rparr>"
  by (simp add: rd_get_def split_beta)

lemma rd_wait_Some:
  "rd_wait w p s = Some s' \<Longrightarrow> \<exists>k. s' = s\<lparr>hist := hist s @ replicate (Suc k) (Spi 8 0)\<rparr>"
  by (auto simp: rd_wait_def wait_status_returns split: if_splits simp del: replicate_Suc)

subsection \<open>A concrete world\<close>

text \<open>
  A radio on the bench: its synthesiser is locked after \<open>SFSON\<close> and unlocked after \<open>SRFOFF\<close>, its
  oscillator is stable, its state machine is always ready, every other register reads what was last written to it, and
  nothing is received. The world around it raises no interrupt. It is used where a statement is
  evaluated on a concrete input.
\<close>

definition lab_lock :: "hw_hist \<Rightarrow> bool" where
  "lab_lock h = foldl (\<lambda>l x. if x = Spi 8 0x61 then True else if x = Spi 8 0x64 then False else l) False h"

definition lab_reg :: "u32 \<Rightarrow> hw_hist \<Rightarrow> u32" where
  "lab_reg r h = (if r = 0x0E then 15 else
     foldl (\<lambda>v x. case x of Spi n d \<Rightarrow> if n = 24 \<and> drop_bit 16 d = r then d AND 0xffff else v | _ \<Rightarrow> v) 0 h)"

definition lab_radio :: radio where
  "lab_radio = \<lparr>
     radio_miso = (\<lambda>h n. case last h of
         Spi len d \<Rightarrow>
           (if n < 8 then bit (if lab_lock h then 0x44 else 0x40 :: u8) (7 - n)
            else if len = 24 then bit (lab_reg (drop_bit 16 d AND 0x7f) h) (23 - n) else False)
       | _ \<Rightarrow> False),
     radio_gio6 = (\<lambda>h. False)\<rparr>"

definition lab_world :: world where
  "lab_world = \<lparr>w_cc = lab_radio, w_t0tc = (\<lambda>h. 0), w_reg = (\<lambda>h r. 0), w_irqs = (\<lambda>h. []),
     w_epstat = (\<lambda>h. 0), w_request = (\<lambda>h. None), w_iap = (\<lambda>c. replicate 5 0),
     w_git_revision = [], w_compile_info = [], w_addr = (\<lambda>x. 0), w_stack = (\<lambda>h n. 0)\<rparr>"

end
