(* ===== verification/Rxtx_Rssi.thy ===== *)
theory Rxtx_Rssi
  imports Fw_State
begin

text \<open>
  Signal strength and squelch of \<^verbatim>\<open>bluetooth_rxtx.c\<close>: the statistics collected during a buffer,
  the per-channel moving average, the carrier sense threshold, the two functions that queue a
  packet for the host, and the carrier sense interrupt. The lemmas bound the values and show that
  every packet leaves with the status bits that were pending and that these are then cleared.
\<close>

subsection \<open>Statistics\<close>

definition rssi_reset :: "fw \<Rightarrow> fw" where
  "rssi_reset s = s\<lparr>rssi_count := 0, rssi_sum := 0, rssi_max := -128, rssi_min := 127\<rparr>"

definition rssi_add :: "int \<Rightarrow> fw \<Rightarrow> fw" where
  "rssi_add v s = s\<lparr>
     rssi_max := (if v > rssi_max s then v else rssi_max s),
     rssi_min := (if v < rssi_min s then v else rssi_min s),
     rssi_sum := s32 (rssi_sum s + v * 256),
     rssi_count := rssi_count s + 1\<rparr>"

abbreviation (input) RSSI_IIR_ALPHA :: int where "RSSI_IIR_ALPHA \<equiv> 3"

definition rssi_iir_update :: "fw \<Rightarrow> fw" where
  "rssi_iir_update s =
     (let i = (if hop_mode s \<noteq> HOP_NONE then unat (channel s - 2402) else 0);
          avg = (if rssi_count s \<noteq> 0 then s32 (rssi_sum s + 128) sdiv int (unat (rssi_count s)) else 0);
          rssi_iir_acc = s32 (rssi_iirs s ! i * (256 - RSSI_IIR_ALPHA));
          rssi_iir_acc = s32 (rssi_iir_acc + s32 (avg * RSSI_IIR_ALPHA))
      in s\<lparr>rssi_iirs := (rssi_iirs s)[i := s16 (s32 (rssi_iir_acc + 128) sdiv 256)]\<rparr>)"

subsection \<open>Carrier sense threshold\<close>

abbreviation (input) CS_SAMPLES_4 :: u8 where "CS_SAMPLES_4 \<equiv> 3"

definition cs_threshold_set :: "world \<Rightarrow> int \<Rightarrow> u8 \<Rightarrow> fw \<Rightarrow> fw" where
  "cs_threshold_set w level samples s =
     (let level = min (max level (-120)) (-20);
          s = rd_set w RSSI (ucast ((word_of_int (level + 56) AND (0xfc :: u8)) OR (samples AND 3))) s
      in s\<lparr>cs_threshold_cur := level, cs_no_squelch := (level \<le> -120)\<rparr>)"

definition cs_threshold_calc_and_set :: "world \<Rightarrow> fw \<Rightarrow> fw" where
  "cs_threshold_calc_and_set w s =
     (let level =
            (if hop_mode s \<noteq> HOP_NONE \<and> cs_threshold_req s > 0
             then let rssi = s8 ((rssi_iirs s ! unat (channel s - 2402) + 128) sdiv 256)
                  in s8 (rssi - 54 + cs_threshold_req s)
             else cs_threshold_req s)
      in cs_threshold_set w level CS_SAMPLES_4 s)"

subsection \<open>Queueing packets\<close>

definition enqueue :: "world \<Rightarrow> usb_pkt_type \<Rightarrow> u8 list \<Rightarrow> fw \<Rightarrow> int \<times> fw" where
  "enqueue w type buf s =
     (case usb_enqueue (uq s) of
        None \<Rightarrow> (0, s\<lparr>status := status s OR FIFO_OVERFLOW\<rparr>)
      | Some (t, q) \<Rightarrow>
          (let f = (uq_fifo q ! t)\<lparr>pkt_type := pkt_type_code type\<rparr>;
               f = (if type = SPECAN
                    then f\<lparr>pkt_clkn_high := ucast (drop_bit 20 (clkn s) AND 0xff),
                           pkt_clk100ns := CLK100NS w s\<rparr>
                    else f\<lparr>pkt_clkn_high := idle_buf_clkn_high s,
                           pkt_clk100ns := idle_buf_clk100ns s,
                           pkt_channel := ucast (idle_buf_channel s - 2402),
                           pkt_rssi_min := word_of_int (rssi_min s),
                           pkt_rssi_max := word_of_int (rssi_max s),
                           pkt_rssi_avg := word_of_int (s8
                             ((rssi_iirs s ! (if hop_mode s \<noteq> HOP_NONE then unat (idle_buf_channel s - 2402) else 0)
                               + 128) sdiv 256)),
                           pkt_rssi_count := rssi_count s\<rparr>);
               f = f\<lparr>pkt_data := take DMA_SIZE buf\<rparr>;
               f = f\<lparr>pkt_status := status s\<rparr>
           in (1, s\<lparr>uq := q\<lparr>uq_fifo := (uq_fifo q)[t := f]\<rparr>, status := 0\<rparr>)))"

definition enqueue_with_ts :: "u8 \<Rightarrow> u8 list \<Rightarrow> u32 \<Rightarrow> fw \<Rightarrow> int \<times> fw" where
  "enqueue_with_ts type buf ts s =
     (case usb_enqueue (uq s) of
        None \<Rightarrow> (0, s\<lparr>status := status s OR FIFO_OVERFLOW\<rparr>)
      | Some (t, q) \<Rightarrow>
          (let f = (uq_fifo q ! t)\<lparr>pkt_clkn_high := 0, pkt_clk100ns := ts,
                     pkt_channel := ucast (channel s - 2402),
                     pkt_rssi_avg := 0, pkt_rssi_count := 0,
                     pkt_data := take DMA_SIZE buf, pkt_status := status s\<rparr>
           in (1, s\<lparr>uq := q\<lparr>uq_fifo := (uq_fifo q)[t := f]\<rparr>, status := 0\<rparr>)))"

subsection \<open>Carrier sense interrupt\<close>

abbreviation (input) PIN_GIO6 :: u32 where "PIN_GIO6 \<equiv> 4"
abbreviation (input) ISER0_ISE_EINT3 :: u32 where "ISER0_ISE_EINT3 \<equiv> 0x200000"
abbreviation (input) ISER0_ISE_USB :: u32 where "ISER0_ISE_USB \<equiv> 0x1000000"
abbreviation (input) ISER0_ISE_DMA :: u32 where "ISER0_ISE_DMA \<equiv> 0x4000000"
abbreviation (input) ISER0_ISE_TIMER0 :: u32 where "ISER0_ISE_TIMER0 \<equiv> 0x2"

definition cs_trigger_enable :: "fw \<Rightarrow> fw" where
  "cs_trigger_enable s =
     (let s = s\<lparr>cs_trigger := False\<rparr>;
          s = reg_write ISER0 ISER0_ISE_EINT3 s;
          s = reg_write IO2IntClr PIN_GIO6 s
      in reg_write IO2IntEnF (regs s IO2IntEnF OR PIN_GIO6) s)"

definition cs_trigger_disable :: "fw \<Rightarrow> fw" where
  "cs_trigger_disable s =
     (let s = reg_write IO2IntEnF (regs s IO2IntEnF AND NOT PIN_GIO6) s;
          s = reg_write IO2IntClr PIN_GIO6 s;
          s = reg_write ICER0 ISER0_ISE_EINT3 s
      in s\<lparr>cs_trigger := False\<rparr>)"

subsection \<open>The statistics are the statistics of the samples\<close>

definition rssi_collect :: "int list \<Rightarrow> fw \<Rightarrow> fw" where
  "rssi_collect vs s = foldl (\<lambda>s v. rssi_add v s) (rssi_reset s) vs"

lemma rssi_collect_snoc: "rssi_collect (vs @ [v]) s = rssi_add v (rssi_collect vs s)"
  by (simp add: rssi_collect_def)

definition int8 :: "int \<Rightarrow> bool" where
  "int8 v \<longleftrightarrow> -128 \<le> v \<and> v < 128"

lemma sum_list_int8:
  "list_all int8 vs \<Longrightarrow> -128 * int (length vs) \<le> sum_list vs \<and> sum_list vs \<le> 127 * int (length vs)"
  by (induction vs) (auto simp: int8_def)

lemma if_max: "(if m < v then v else m) = max m (v::int)" and if_min: "(if v < m then v else m) = min m (v::int)"
  by simp_all

lemma rssi_collect_fields:
  assumes "list_all int8 vs" and "length vs \<le> 255"
  shows "unat (rssi_count (rssi_collect vs s)) = length vs \<and>
         rssi_sum (rssi_collect vs s) = 256 * sum_list vs \<and>
         rssi_max (rssi_collect vs s) = foldl max (-128) vs \<and>
         rssi_min (rssi_collect vs s) = foldl min 127 vs"
  using assms
proof (induction vs rule: rev_induct)
  case Nil
  then show ?case by (simp add: rssi_collect_def rssi_reset_def)
next
  case (snoc v vs)
  then have IH: "unat (rssi_count (rssi_collect vs s)) = length vs"
      "rssi_sum (rssi_collect vs s) = 256 * sum_list vs"
      "rssi_max (rssi_collect vs s) = foldl max (-128) vs"
      "rssi_min (rssi_collect vs s) = foldl min 127 vs"
    by auto
  have len: "length vs < 255" using snoc.prems by simp
  then have "unat (rssi_count (rssi_collect vs s) + 1) = Suc (length vs)"
    using IH(1) unat_word_ariths(1) [of "rssi_count (rssi_collect vs s)" 1] by simp
  moreover have "s32 (256 * sum_list vs + v * 256) = 256 * (sum_list vs + v)"
    using sum_list_int8 [of "vs @ [v]"] snoc.prems len by (subst s32_id) auto
  ultimately show ?case
    by (simp add: rssi_collect_snoc rssi_add_def IH if_max if_min)
qed

lemma foldl_max: "foldl max (a::int) vs = Max (insert a (set vs))"
proof (induction vs arbitrary: a)
  case (Cons v vs)
  have "foldl max a (v # vs) = Max (insert (max a v) (set vs))" by (simp add: Cons)
  also have "\<dots> = Max (insert a (insert v (set vs)))"
    by (cases "set vs = {}") (auto simp: max.assoc)
  finally show ?case by simp
qed simp

lemma foldl_min: "foldl min (a::int) vs = Min (insert a (set vs))"
proof (induction vs arbitrary: a)
  case (Cons v vs)
  have "foldl min a (v # vs) = Min (insert (min a v) (set vs))" by (simp add: Cons)
  also have "\<dots> = Min (insert a (insert v (set vs)))"
    by (cases "set vs = {}") (auto simp: min.assoc)
  finally show ?case by simp
qed simp

text \<open>After any one to 255 samples between two resets, \<open>rssi_max\<close>, \<open>rssi_min\<close>, \<open>rssi_sum\<close> and
  \<open>rssi_count\<close> are the maximum, the minimum, 256 times the sum and the number of the samples.\<close>

theorem rssi_statistics:
  assumes "vs \<noteq> []" and "length vs \<le> 255" and "list_all int8 vs"
  shows "rssi_max (rssi_collect vs s) = Max (set vs) \<and> rssi_min (rssi_collect vs s) = Min (set vs)
       \<and> rssi_sum (rssi_collect vs s) = 256 * sum_list vs
       \<and> unat (rssi_count (rssi_collect vs s)) = length vs"
proof -
  obtain v where v: "v \<in> set vs" using assms(1) by (cases vs) auto
  have all: "\<forall>v\<in>set vs. -128 \<le> v \<and> v < 128" using assms(3) by (simp add: list_all_iff int8_def)
  have "-128 \<le> Max (set vs)" and "Min (set vs) \<le> 127"
    using all v by (force intro: order_trans [OF _ Max_ge] order_trans [OF Min_le])+
  moreover have "set vs \<noteq> {}" using v by auto
  ultimately have "Max (insert (-128) (set vs)) = Max (set vs)" and "Min (insert 127 (set vs)) = Min (set vs)"
    by (simp_all add: max_absorb2 min_absorb2)
  then show ?thesis
    using rssi_collect_fields [OF assms(3,2), of s] by (simp add: foldl_max foldl_min)
qed

lemma rssi_statistics_witness:
  "rssi_max (rssi_collect [-3, 5, -128] fw_initial) = Max {-3, 5, -128}
   \<and> unat (rssi_count (rssi_collect [-3, 5, -128] fw_initial)) = 3"
  using rssi_statistics [of "[-3, 5, -128]" fw_initial] by (simp add: int8_def)

subsection \<open>The moving average does not overflow\<close>

definition iir_ok :: "fw \<Rightarrow> bool" where
  "iir_ok s \<longleftrightarrow> list_all (\<lambda>v. -32768 \<le> v \<and> v \<le> 32767) (rssi_iirs s)"

definition iir_index :: "fw \<Rightarrow> nat" where
  "iir_index s = (if hop_mode s \<noteq> HOP_NONE then unat (channel s - 2402) else 0)"

lemma average_bounds:
  assumes "list_all int8 vs" and "vs \<noteq> []"
  shows "-32768 \<le> (256 * sum_list vs + 128) sdiv int (length vs)
       \<and> (256 * sum_list vs + 128) sdiv int (length vs) \<le> 32640"
proof (rule sdiv_bounds)
  have n: "1 \<le> int (length vs)" using assms(2) by (cases vs) simp_all
  then show "0 < int (length vs)" by linarith
  show "-32768 * int (length vs) \<le> 256 * sum_list vs + 128"
    and "256 * sum_list vs + 128 < (32640 + 1) * int (length vs)"
    using conjunct1 [OF sum_list_int8 [OF assms(1)]] conjunct2 [OF sum_list_int8 [OF assms(1)]] n
    by simp_all
qed simp_all

text \<open>One update of the moving average of a channel from one to 255 samples computes
  (253 avg_old + 3 avg_new) / 256 without any intermediate overflow or truncation of the 16-bit
  result, changes only the slot of that channel, and keeps every slot a 16-bit value.\<close>

theorem rssi_iir_no_overflow:
  assumes "iir_ok s" and "iir_index s < length (rssi_iirs s)"
    and "vs \<noteq> []" and "length vs \<le> 255" and "list_all int8 vs"
  shows "let avg = (256 * sum_list vs + 128) sdiv int (length vs)
         in rssi_iirs (rssi_iir_update (rssi_collect vs s)) =
              (rssi_iirs s)[iir_index s := (rssi_iirs s ! iir_index s * 253 + avg * 3 + 128) sdiv 256]
            \<and> iir_ok (rssi_iir_update (rssi_collect vs s))"
proof -
  define avg where "avg = (256 * sum_list vs + 128) sdiv int (length vs)"
  let ?s = "rssi_collect vs s" and ?i = "iir_index s"
  let ?old = "rssi_iirs s ! ?i"
  have frame: "rssi_iirs ?s = rssi_iirs s" "hop_mode ?s = hop_mode s" "channel ?s = channel s"
    by (induction vs rule: rev_induct)
      (simp_all add: rssi_collect_snoc, simp_all add: rssi_collect_def rssi_reset_def rssi_add_def)
  have stats: "unat (rssi_count ?s) = length vs" "rssi_sum ?s = 256 * sum_list vs"
    using rssi_collect_fields [OF assms(5,4), of s] by auto
  then have count: "rssi_count ?s \<noteq> 0" using assms(3) by (auto simp: unat_eq_0 [symmetric])
  have old: "-32768 \<le> ?old" "?old \<le> 32767"
    using assms(1,2) by (auto simp: iir_ok_def list_all_length)
  have avg: "-32768 \<le> avg" "avg \<le> 32640"
    using average_bounds [OF assms(5,3)] by (simp_all add: avg_def)
  have sum: "s32 (256 * sum_list vs + 128) = 256 * sum_list vs + 128"
    using sum_list_int8 [OF assms(5)] assms(4) by (intro s32_id) linarith+
  let ?acc = "?old * 253 + avg * 3 + 128"
  have acc: "s32 (s32 (s32 (?old * 253) + s32 (avg * 3)) + 128) = ?acc"
    using old avg by (simp add: s32_id)
  have new: "-32768 \<le> ?acc sdiv 256 \<and> ?acc sdiv 256 \<le> 32767"
    using old avg by (intro sdiv_bounds) simp_all
  then have "s16 (?acc sdiv 256) = ?acc sdiv 256" by (intro s16_id) simp_all
  then have eq: "rssi_iirs (rssi_iir_update ?s) = (rssi_iirs s)[?i := ?acc sdiv 256]"
    using acc unfolding rssi_iir_update_def Let_def frame stats avg_def [symmetric]
    by (simp add: count sum frame avg_def [symmetric] iir_index_def [symmetric])
  moreover have "iir_ok (rssi_iir_update ?s)"
    using assms(1) new set_update_subset_insert [of "rssi_iirs s" ?i "?acc sdiv 256"]
    unfolding iir_ok_def eq by (auto simp: list_all_iff)
  ultimately show ?thesis by (simp add: avg_def)
qed

lemma rssi_iir_no_overflow_witness:
  "rssi_iirs (rssi_iir_update (rssi_collect [-3, 5] fw_initial)) = (replicate 79 0)[0 := 4]
   \<and> iir_ok (rssi_iir_update (rssi_collect [-3, 5] fw_initial))"
proof -
  have "iir_ok fw_initial" "iir_index fw_initial = 0" "rssi_iirs fw_initial = replicate 79 0"
    by (simp_all add: iir_ok_def fw_initial_def iir_index_def list_all_iff)
  then show ?thesis
    using rssi_iir_no_overflow [of fw_initial "[-3, 5]"] by (simp add: int8_def Let_def sdiv_pos)
qed

subsection \<open>The squelch threshold\<close>

definition rssi_reg_value :: "int \<Rightarrow> u16" where
  "rssi_reg_value level = ucast ((word_of_int (level + 56) AND (0xfc :: u8)) OR (CS_SAMPLES_4 AND 3))"

lemma cs_threshold_calc_obtain:
  obtains level where "-120 \<le> level" "level \<le> -20" and
     "cs_threshold_calc_and_set w s =
       s\<lparr>hist := cc2400_set (w_cc w) RSSI (rssi_reg_value level) (hist s),
         cs_threshold_cur := level, cs_no_squelch := (level = -120)\<rparr>"
proof -
  obtain req where req: "cs_threshold_calc_and_set w s = cs_threshold_set w req CS_SAMPLES_4 s"
    by (simp add: cs_threshold_calc_and_set_def Let_def)
  let ?l = "min (max req (-120)) (-20)"
  have "?l \<le> -120 \<longleftrightarrow> ?l = -120" by auto
  then show ?thesis
    by (intro that [of ?l])
      (simp_all add: req cs_threshold_set_def rssi_reg_value_def Let_def rd_set_def del: cc2400_set_hist rd_set_simp)
qed

text \<open>Whatever threshold is requested and whatever the averages are, the threshold that takes
  effect is between -120 and -20, squelch is off exactly when it is -120, and the only thing sent
  to the radio is one write of its RSSI register.\<close>

theorem cs_threshold_effect:
  "\<exists>level. -120 \<le> level \<and> level \<le> -20 \<and>
     cs_threshold_calc_and_set w s =
       s\<lparr>hist := cc2400_set (w_cc w) RSSI (rssi_reg_value level) (hist s),
         cs_threshold_cur := level, cs_no_squelch := (level = -120)\<rparr>"
  by (rule cs_threshold_calc_obtain [of w s]) blast

text \<open>The comment on \<open>cs_threshold_set\<close> says that the level is rounded to the nearest multiple
  of four; the mask in fact rounds it down: the six-bit field of the register holds the level plus
  56, divided by four and rounded towards minus infinity, as a two's complement number.\<close>

theorem cs_threshold_rounds_down:
  "list_all (\<lambda>level. s8 (uint (rssi_reg_value level AND 0xfc)) = 4 * ((level + 56) div 4)) [-120..-20]"
  by code_simp

subsection \<open>Queueing\<close>

lemma usb_enqueue_put: "usb_put p q = (case usb_enqueue q of None \<Rightarrow> None | Some (t, q) \<Rightarrow> Some (q\<lparr>uq_fifo := (uq_fifo q)[t := p]\<rparr>))"
  by (auto simp: usb_put_def split: option.splits)

lemma usb_enqueue_room:
  assumes "usbq_wf q" and "length (usbq_list q) < 127"
  obtains t q' where "usb_enqueue q = Some (t, q')"
    and "\<And>p. usbq_wf (q'\<lparr>uq_fifo := (uq_fifo q')[t := p]\<rparr>)"
    and "\<And>p. usbq_list (q'\<lparr>uq_fifo := (uq_fifo q')[t := p]\<rparr>) = usbq_list q @ [p]"
proof -
  have put: "\<exists>q'. usb_put p q = Some q' \<and> usbq_wf q' \<and> usbq_list q' = usbq_list q @ [p]" for p
    using usbq.put_room [OF assms] .
  from put [of undefined] obtain t q' where enq: "usb_enqueue q = Some (t, q')"
    by (auto simp: usb_enqueue_put split: option.splits)
  show thesis
    by (rule that [OF enq]) (use put enq in \<open>auto simp: usb_enqueue_put\<close>)
qed

lemma usb_enqueue_full: "usbq_wf q \<Longrightarrow> length (usbq_list q) = 127 \<Longrightarrow> usb_enqueue q = None"
  using usbq.put_full [of q undefined] by (auto simp: usb_enqueue_put split: option.splits)

lemma enqueue_appends:
  assumes "usbq_wf (uq s)" and "length (usbq_list (uq s)) < 127"
  shows "\<exists>q p. enqueue w type buf s = (1, s\<lparr>uq := q, status := 0\<rparr>)
     \<and> usbq_wf q \<and> usbq_list q = usbq_list (uq s) @ [p]
     \<and> pkt_type p = pkt_type_code type \<and> pkt_status p = status s \<and> pkt_data p = take 50 buf"
proof -
  obtain t q' where enq: "usb_enqueue (uq s) = Some (t, q')"
    and wf: "\<And>p. usbq_wf (q'\<lparr>uq_fifo := (uq_fifo q')[t := p]\<rparr>)"
    and app: "\<And>p. usbq_list (q'\<lparr>uq_fifo := (uq_fifo q')[t := p]\<rparr>) = usbq_list (uq s) @ [p]"
    using usb_enqueue_room [OF assms] by blast
  have "\<exists>p. enqueue w type buf s = (1, s\<lparr>uq := q'\<lparr>uq_fifo := (uq_fifo q')[t := p]\<rparr>, status := 0\<rparr>)
      \<and> pkt_type p = pkt_type_code type \<and> pkt_status p = status s \<and> pkt_data p = take 50 buf"
    unfolding enqueue_def enq Let_def option.case prod.case
    by (rule exI, rule conjI, rule refl) simp
  with wf app show ?thesis by blast
qed

text \<open>While the queue has room, \<open>enqueue\<close> appends exactly one packet, which carries its type,
  the first 50 bytes of the buffer and all the status bits that were pending, and clears them; it
  changes nothing else.\<close>

theorem enqueue_stores:
  assumes "usbq_wf (uq s)" and "length (usbq_list (uq s)) < 127"
  shows "\<exists>q p. enqueue w type buf s = (1, s\<lparr>uq := q, status := 0\<rparr>)
     \<and> usbq_wf q \<and> usbq_list q = usbq_list (uq s) @ [p]
     \<and> pkt_type p = pkt_type_code type \<and> pkt_status p = status s \<and> pkt_data p = take 50 buf"
  using assms by (rule enqueue_appends)

lemma enqueue_stores_witness:
  "\<exists>q p. enqueue lab_world LE_PACKET (replicate 50 7) fw_initial = (1, fw_initial\<lparr>uq := q, status := 0\<rparr>)
     \<and> usbq_wf q \<and> usbq_list q = [p]
     \<and> pkt_type p = 1 \<and> pkt_status p = 0 \<and> pkt_data p = replicate 50 7"
  using enqueue_stores [of fw_initial lab_world LE_PACKET "replicate 50 7"] usbq_wf_initial usbq_list_initial
  by (simp add: fw_initial_def)

text \<open>On a full queue \<open>enqueue\<close> drops the packet, leaves the queue alone and raises
  \<open>FIFO_OVERFLOW\<close> on top of the pending status bits, so the loss is reported with the next packet
  that is stored.\<close>

theorem enqueue_overflow:
  assumes "usbq_wf (uq s)" and "length (usbq_list (uq s)) = 127"
  shows "enqueue w type buf s = (0, s\<lparr>status := status s OR FIFO_OVERFLOW\<rparr>)"
  by (simp add: enqueue_def usb_enqueue_full [OF assms])

lemma enqueue_overflow_witness:
  "enqueue lab_world SPECAN [] (fw_initial\<lparr>uq := usbq_initial\<lparr>uq_tail := 127\<rparr>, status := 8\<rparr>)
   = (0, fw_initial\<lparr>uq := usbq_initial\<lparr>uq_tail := 127\<rparr>, status := 0x0c\<rparr>)"
proof -
  have "usbq_wf (usbq_initial\<lparr>uq_tail := 127\<rparr>)" "length (usbq_list (usbq_initial\<lparr>uq_tail := 127\<rparr>)) = 127"
    by (simp_all add: usbq_wf_def usbq_used_def usbq_initial_def usbq_list_def)
  then show ?thesis
    using enqueue_overflow [of "fw_initial\<lparr>uq := usbq_initial\<lparr>uq_tail := 127\<rparr>, status := 8\<rparr>" lab_world SPECAN "[]"]
    by simp
qed

text \<open>\<open>enqueue_with_ts\<close> never stores the packet type it is given: the packet keeps whatever type
  the slot held before.\<close>

lemma enqueue_with_ts_ignores_type: "enqueue_with_ts t buf ts s = enqueue_with_ts t' buf ts s"
  by (simp add: enqueue_with_ts_def)

end
