(* ===== verification/Board.thy ===== *)
theory Board
  imports Fw_State
begin

text \<open>
  Bringing up the board, \<^verbatim>\<open>firmware/common/ubertooth.c\<close> built for the Ubertooth One: pin
  directions, the second serial interface to the radio, the radio's supplies, the clock tree and
  the restart through the watchdog. The delays between the steps are \<open>wait_us\<close>, which touches
  nothing else and is treated in \<open>Cc2400\<close>.
\<close>

definition reg_writes :: "lpc_reg list \<Rightarrow> u32 \<Rightarrow> fw \<Rightarrow> fw" where
  "reg_writes rs v s = foldl (\<lambda>s r. reg_write r v s) s rs"

text \<open>Setting the output latches to zero clears every pin.\<close>

definition outputs_low :: "fw \<Rightarrow> fw" where
  "outputs_low s = (reg_writes (map FIOPIN [0, 1, 2, 3, 4]) 0 s)\<lparr>pins := (\<lambda>_. False)\<rparr>"

definition all_pins_off :: "fw \<Rightarrow> fw" where
  "all_pins_off s =
     (let s = reg_writes (map PINSEL [0, 1, 2, 3, 4, 7, 9, 10]) 0 s;
          s = reg_writes (map FIODIR [0, 1, 2, 3, 4]) 0 s;
          s = reg_writes (map PINMODE [0, 1, 2, 3, 4, 7, 9]) 0 s
      in outputs_low s)"

abbreviation (input) PIN_USRLED :: u32 where "PIN_USRLED \<equiv> 0x2"
abbreviation (input) PIN_RXLED :: u32 where "PIN_RXLED \<equiv> 0x10"
abbreviation (input) PIN_TXLED :: u32 where "PIN_TXLED \<equiv> 0x100"
abbreviation (input) PIN_CC1V8 :: u32 where "PIN_CC1V8 \<equiv> 0x200"
abbreviation (input) PIN_CC3V3 :: u32 where "PIN_CC3V3 \<equiv> 0x4000"
abbreviation (input) PIN_RX :: u32 where "PIN_RX \<equiv> 0x8000"
abbreviation (input) PIN_TX :: u32 where "PIN_TX \<equiv> 0x20000000"
abbreviation (input) PIN_CSN :: u32 where "PIN_CSN \<equiv> 0x20"
abbreviation (input) PIN_SCLK :: u32 where "PIN_SCLK \<equiv> 0x10"
abbreviation (input) PIN_MOSI :: u32 where "PIN_MOSI \<equiv> 0x1"
abbreviation (input) PIN_BTGR :: u32 where "PIN_BTGR \<equiv> 0x400"
abbreviation (input) PIN_SSEL1 :: u32 where "PIN_SSEL1 \<equiv> 0x10000000"
abbreviation (input) PIN_PAEN :: u32 where "PIN_PAEN \<equiv> 0x80"
abbreviation (input) PIN_HGM :: u32 where "PIN_HGM \<equiv> 0x100"

definition gpio_init :: "fw \<Rightarrow> fw" where
  "gpio_init s =
     (let s = all_pins_off s;
          s = reg_write (FIODIR 0) 0 s;
          s = reg_write (FIODIR 1) (PIN_USRLED OR PIN_RXLED OR PIN_TXLED OR PIN_CC3V3 OR PIN_RX
                OR PIN_CC1V8 OR PIN_BTGR) s;
          s = reg_write (FIODIR 2) (PIN_CSN OR PIN_SCLK OR PIN_MOSI OR PIN_PAEN OR PIN_HGM) s;
          s = reg_write (FIODIR 3) 0 s;
          s = reg_write (FIODIR 4) (PIN_TX OR PIN_SSEL1) s
      in outputs_low s)"

text \<open>Select the SSP function (2) for one pin, a two-bit field of \<open>PINSEL0\<close>.\<close>

definition pinsel0_ssp :: "nat \<Rightarrow> fw \<Rightarrow> fw" where
  "pinsel0_ssp k s =
     reg_write (PINSEL 0) ((regs s (PINSEL 0) AND NOT (push_bit k 3)) OR push_bit k 2) s"

abbreviation (input) SSPCR0_CPOL :: u32 where "SSPCR0_CPOL \<equiv> 0x40"
abbreviation (input) SSPCR0_CPHA :: u32 where "SSPCR0_CPHA \<equiv> 0x80"
abbreviation (input) SSPCR1_SSE :: u32 where "SSPCR1_SSE \<equiv> 0x2"
abbreviation (input) SSPCR1_MS :: u32 where "SSPCR1_MS \<equiv> 0x4"
abbreviation (input) SSPCR1_SOD :: u32 where "SSPCR1_SOD \<equiv> 0x8"

definition dio_ssp_init :: "fw \<Rightarrow> fw" where
  "dio_ssp_init s =
     (let s = pinsel0_ssp 14 s;
          s = pinsel0_ssp 12 s;
          s = pinsel0_ssp 16 s;
          s = pinsel0_ssp 18 s;
          s = pin_set DIO_SSEL s;
          s = reg_write DIO_SSP_CR0 (0x7 OR SSPCR0_CPOL OR SSPCR0_CPHA) s
      in reg_write DIO_SSP_CR1 (SSPCR1_MS OR SSPCR1_SOD) s)"

definition atest_init :: "fw \<Rightarrow> fw" where
  "atest_init s =
     (let s = reg_clear (PINSEL 1) (push_bit 20 0x3 OR push_bit 18 0x3) s;
          s = reg_clear (FIODIR 0) (push_bit 25 0x3) s;
          s = reg_or (PINMODE 1) (push_bit 19 0x5) s
      in reg_clear (PINMODE 1) (push_bit 18 0x5) s)"

definition cc2400_init :: "world \<Rightarrow> fw \<Rightarrow> fw" where
  "cc2400_init w s =
     (let s = atest_init s;
          s = pin_set CC1V8 s;
          s = pin_set CSN_PIN s;
          s = pin_set CC3V3 s
      in rd_set w MANAND 0x7fff s)"

subsection \<open>Clocks\<close>

abbreviation (input) PLL0CON_PLLE0 :: u32 where "PLL0CON_PLLE0 \<equiv> 0x1"
abbreviation (input) PLL0CON_PLLC0 :: u32 where "PLL0CON_PLLC0 \<equiv> 0x2"
abbreviation (input) PLL0STAT_PLLE0_STAT :: u32 where "PLL0STAT_PLLE0_STAT \<equiv> 0x1000000"
abbreviation (input) PLL0STAT_PLLC0_STAT :: u32 where "PLL0STAT_PLLC0_STAT \<equiv> 0x2000000"
abbreviation (input) PLL1CON_PLLE1 :: u32 where "PLL1CON_PLLE1 \<equiv> 0x1"
abbreviation (input) PLL1CON_PLLC1 :: u32 where "PLL1CON_PLLC1 \<equiv> 0x2"
abbreviation (input) PLL1STAT_PLLE1_STAT :: u32 where "PLL1STAT_PLLE1_STAT \<equiv> 0x100"
abbreviation (input) PLL1STAT_PLLC1_STAT :: u32 where "PLL1STAT_PLLC1_STAT \<equiv> 0x200"
abbreviation (input) PLL1STAT_PLOCK1 :: u32 where "PLL1STAT_PLOCK1 \<equiv> 0x400"
abbreviation (input) SCS_OSCEN :: u32 where "SCS_OSCEN \<equiv> 0x20"
abbreviation (input) SCS_OSCSTAT :: u32 where "SCS_OSCSTAT \<equiv> 0x40"

definition feed :: "lpc_reg \<Rightarrow> fw \<Rightarrow> fw" where
  "feed r s = reg_write r 0x55 (reg_write r 0xAA s)"

text \<open>\<open>cc2400_reset\<close> on the firmware state.\<close>

definition rd_reset :: "world \<Rightarrow> fw \<Rightarrow> fw option" where
  "rd_reset w s = map_option (\<lambda>h. s\<lparr>hist := h\<rparr>) (cc2400_reset (w_cc w) (hist s))"

definition clock_start :: "world \<Rightarrow> fw \<Rightarrow> fw option" where
  "clock_start w s = do {
     let s = reg_write FLASHCFG (0x03A OR push_bit 12 0x4) s;
     let s = reg_write CLKSRCSEL 0 s;
     let s = feed PLL0FEED (reg_clear PLL0CON PLL0CON_PLLC0 s);
     s \<leftarrow> reg_wait w PLL0STAT (\<lambda>v. v AND PLL0STAT_PLLC0_STAT = 0) s;
     let s = feed PLL0FEED (reg_clear PLL0CON PLL0CON_PLLE0 s);
     s \<leftarrow> reg_wait w PLL0STAT (\<lambda>v. v AND PLL0STAT_PLLE0_STAT = 0) s;
     let s = reg_write CCLKCFG 0 s;
     s \<leftarrow> rd_reset w s;
     let s = rd_set w IOCFG (push_bit 9 10 OR push_bit 3 46) s;
     let s = rd_strobe w SXOSCON s;
     s \<leftarrow> rd_wait w XOSC16M_STABLE s;
     let s = reg_write SCS SCS_OSCEN s;
     s \<leftarrow> reg_wait w SCS (\<lambda>v. v AND SCS_OSCSTAT \<noteq> 0) s;
     let s = reg_write PCLKSEL0 (push_bit 2 2) s;
     let s = reg_write PCLKSEL1 0 s;
     let s = reg_write CLKSRCSEL 1 s;
     let s = feed PLL0FEED (reg_write PLL0CFG (24 OR push_bit 16 1) s);
     let s = feed PLL0FEED (reg_or PLL0CON PLL0CON_PLLE0 s);
     s \<leftarrow> reg_wait w PLL0STAT (\<lambda>v. v AND PLL0STAT_PLLE0_STAT \<noteq> 0) s;
     let s = reg_write CCLKCFG 3 s;
     let s = feed PLL0FEED (reg_or PLL0CON PLL0CON_PLLC0 s);
     s \<leftarrow> reg_wait w PLL0STAT (\<lambda>v. v AND PLL0STAT_PLLC0_STAT \<noteq> 0) s;
     let s = feed PLL1FEED (reg_write PLL1CFG (34 OR push_bit 5 0) s);
     let s = feed PLL1FEED (reg_or PLL1CON PLL1CON_PLLE1 s);
     s \<leftarrow> reg_wait w PLL1STAT (\<lambda>v. v AND PLL1STAT_PLLE1_STAT \<noteq> 0) s;
     s \<leftarrow> reg_wait w PLL1STAT (\<lambda>v. v AND PLL1STAT_PLOCK1 \<noteq> 0) s;
     let s = feed PLL1FEED (reg_or PLL1CON PLL1CON_PLLC1 s);
     reg_wait w PLL1STAT (\<lambda>v. v AND PLL1STAT_PLLC1_STAT \<noteq> 0) s
   }"

definition ubertooth_init :: "world \<Rightarrow> fw \<Rightarrow> fw option" where
  "ubertooth_init w s = clock_start w (cc2400_init w (gpio_init s))"

text \<open>\<open>reset\<close> turns all outputs off and arms the watchdog, which restarts the board while it waits.\<close>

definition reset_board :: "fw \<Rightarrow> fw" where
  "reset_board s =
     (let s = all_pins_off s;
          s = pin_clr USRLED s;
          s = reg_or WDMOD 0x3 s;
          s = feed WDFEED s
      in s\<lparr>board_reset := True\<rparr>)"

subsection \<open>What is written\<close>

lemma reg_writes_eq: "reg_writes rs v s = s\<lparr>regs := (\<lambda>r. if r \<in> set rs then v else regs s r)\<rparr>"
proof (induction rs arbitrary: s)
  case (Cons r rs)
  have "reg_writes (r # rs) v s = s\<lparr>regs := (\<lambda>q. if q \<in> set rs then v else ((regs s)(r := v)) q)\<rparr>"
    using Cons.IH [of "reg_write r v s"] unfolding reg_writes_def by (simp add: reg_write_def cong: if_cong)
  also have "(\<lambda>q. if q \<in> set rs then v else ((regs s)(r := v)) q) = (\<lambda>q. if q \<in> set (r # rs) then v else regs s q)"
    by auto
  finally show ?case .
qed (simp add: reg_writes_def)

text \<open>The effect of each step on the registers alone; the other fields of the state that change
  are the pins, the history and \<open>board_reset\<close>.\<close>

definition board_frame :: "fw \<Rightarrow> fw \<Rightarrow> bool" where
  "board_frame s t \<longleftrightarrow> t = s\<lparr>regs := regs t, pins := pins t, hist := hist t, board_reset := board_reset t\<rparr>"

lemma board_frame_refl [simp]: "board_frame s s"
  by (simp add: board_frame_def)

lemma board_frame_trans: "board_frame s t \<Longrightarrow> board_frame t u \<Longrightarrow> board_frame s u"
  unfolding board_frame_def by (cases s; cases t; cases u) simp

lemma board_frame_simps [simp]:
  "board_frame s (reg_write r v t) = board_frame s t"
  "board_frame s (pin_set p t) = board_frame s t"
  "board_frame s (pin_clr p t) = board_frame s t"
  "board_frame s (t\<lparr>pins := P\<rparr>) = board_frame s t"
  "board_frame s (t\<lparr>regs := R\<rparr>) = board_frame s t"
  "board_frame s (t\<lparr>hist := h\<rparr>) = board_frame s t"
  "board_frame s (t\<lparr>board_reset := b\<rparr>) = board_frame s t"
  by (cases s; cases t; simp add: board_frame_def reg_write_def pin_set_def pin_clr_def)+

lemma board_frame_init [simp]:
  "board_frame s (all_pins_off s)" "board_frame s (gpio_init s)" "board_frame s (dio_ssp_init s)"
  "board_frame s (reset_board s)"
  by (simp_all add: all_pins_off_def gpio_init_def outputs_low_def reg_writes_eq Let_def dio_ssp_init_def
    pinsel0_ssp_def reset_board_def reg_or_def feed_def)

end
