(* ===== verification/Rxtx_Vendor.thy ===== *)
theory Rxtx_Vendor
  imports Rxtx_Rssi Board
begin

text \<open>
  The control requests of the firmware: \<open>vendor_request_handler\<close> of \<^verbatim>\<open>bluetooth_rxtx.c\<close>, built
  for the Ubertooth One with transmission enabled. The switch is split into groups of cases in
  the order of the source; a group answers \<open>None\<close> for a command that is not one of its cases. A
  case returns the handler's result (0 stalls the endpoint), the contents of the data buffer, the
  length of the reply and the new state.
\<close>

type_synonym reply = "int \<times> u8 list \<times> nat \<times> fw"

definition reply_bytes :: "u8 list \<Rightarrow> u8 list \<Rightarrow> fw \<Rightarrow> reply" where
  "reply_bytes bs data s = (1, put_at 0 bs data, length bs, s)"

definition reply_none :: "u8 list \<Rightarrow> nat \<Rightarrow> fw \<Rightarrow> reply" where
  "reply_none data len s = (1, data, len, s)"

definition reply_stall :: "u8 list \<Rightarrow> nat \<Rightarrow> fw \<Rightarrow> reply" where
  "reply_stall data len s = (0, data, len, s)"

definition pin_write :: "pin \<Rightarrow> u16 \<Rightarrow> fw \<Rightarrow> fw" where
  "pin_write p v s = (if v \<noteq> 0 then pin_set p s else pin_clr p s)"

definition pin_byte :: "pin \<Rightarrow> fw \<Rightarrow> u8" where
  "pin_byte p s = (if pins s p then 1 else 0)"

definition le_set_access_address :: "u32 \<Rightarrow> le_state \<Rightarrow> le_state" where
  "le_set_access_address aa l =
     (let aa_rev = rbit aa
      in l\<lparr>access_address := aa, syncl := ucast (aa_rev AND 0xffff), synch := ucast (drop_bit 16 aa_rev)\<rparr>)"

definition vendor_leds :: "usb_cmd \<Rightarrow> u16 \<Rightarrow> u8 list \<Rightarrow> nat \<Rightarrow> fw \<Rightarrow> reply option" where
  "vendor_leds c p0 data len s = (case c of
     UBERTOOTH_PING \<Rightarrow> Some (reply_none data 0 s)
   | UBERTOOTH_RX_SYMBOLS \<Rightarrow> Some (reply_none data 0 (s\<lparr>requested_mode := MODE_RX_SYMBOLS\<rparr>))
   | UBERTOOTH_GET_USRLED \<Rightarrow> Some (reply_bytes [pin_byte USRLED s] data s)
   | UBERTOOTH_SET_USRLED \<Rightarrow> Some (reply_none data len (pin_write USRLED p0 s))
   | UBERTOOTH_GET_RXLED \<Rightarrow> Some (reply_bytes [pin_byte RXLED s] data s)
   | UBERTOOTH_SET_RXLED \<Rightarrow> Some (reply_none data len (pin_write RXLED p0 s))
   | UBERTOOTH_GET_TXLED \<Rightarrow> Some (reply_bytes [pin_byte TXLED s] data s)
   | UBERTOOTH_SET_TXLED \<Rightarrow> Some (reply_none data len (pin_write TXLED p0 s))
   | UBERTOOTH_GET_1V8 \<Rightarrow> Some (reply_bytes [pin_byte CC1V8 s] data s)
   | UBERTOOTH_SET_1V8 \<Rightarrow> Some (reply_none data len (pin_write CC1V8 p0 s))
   | _ \<Rightarrow> None)"

definition vendor_ids :: "world \<Rightarrow> usb_cmd \<Rightarrow> u8 list \<Rightarrow> nat \<Rightarrow> fw \<Rightarrow> reply option" where
  "vendor_ids w c data len s = (case c of
     UBERTOOTH_GET_PARTNUM \<Rightarrow>
       (let result = w_iap w 54
        in Some (reply_bytes (byte_at 0 (result ! 0) # le_bytes 4 (result ! 1)) data s))
   | UBERTOOTH_RESET \<Rightarrow> Some (reply_none data len (s\<lparr>requested_mode := MODE_RESET\<rparr>))
   | UBERTOOTH_GET_SERIAL \<Rightarrow>
       (let result = w_iap w 58
        in Some (reply_bytes (byte_at 0 (result ! 0) # le_bytes 4 (result ! 1) @ le_bytes 4 (result ! 2)
                   @ le_bytes 4 (result ! 3) @ le_bytes 4 (result ! 4)) data s))
   | _ \<Rightarrow> None)"

definition vendor_amplifier :: "usb_cmd \<Rightarrow> u16 \<Rightarrow> u8 list \<Rightarrow> nat \<Rightarrow> fw \<Rightarrow> reply option" where
  "vendor_amplifier c p0 data len s = (case c of
     UBERTOOTH_GET_PAEN \<Rightarrow> Some (reply_bytes [pin_byte PAEN s] data s)
   | UBERTOOTH_SET_PAEN \<Rightarrow> Some (reply_none data len (pin_write PAEN p0 s))
   | UBERTOOTH_GET_HGM \<Rightarrow> Some (reply_bytes [pin_byte HGM s] data s)
   | UBERTOOTH_SET_HGM \<Rightarrow> Some (reply_none data len (pin_write HGM p0 s))
   | _ \<Rightarrow> None)"

definition vendor_transmit :: "world \<Rightarrow> usb_cmd \<Rightarrow> u16 \<Rightarrow> u8 list \<Rightarrow> nat \<Rightarrow> fw \<Rightarrow> reply option" where
  "vendor_transmit w c p0 data len s = (case c of
     UBERTOOTH_TX_TEST \<Rightarrow> Some (reply_none data len (s\<lparr>requested_mode := MODE_TX_TEST\<rparr>))
   | UBERTOOTH_GET_PALEVEL \<Rightarrow>
       (let (v, s) = rd_get w FREND s in Some (reply_bytes [ucast (v AND 0x7)] data s))
   | UBERTOOTH_SET_PALEVEL \<Rightarrow>
       (if p0 < 8 then Some (reply_none data len (rd_set w FREND (8 OR p0) s))
        else Some (reply_stall data len s))
   | UBERTOOTH_RANGE_TEST \<Rightarrow> Some (reply_none data len (s\<lparr>requested_mode := MODE_RANGE_TEST\<rparr>))
   | UBERTOOTH_REPEATER \<Rightarrow> Some (reply_none data len (s\<lparr>requested_mode := MODE_REPEATER\<rparr>))
   | _ \<Rightarrow> None)"

abbreviation (input) MIN_FREQ :: u16 where "MIN_FREQ \<equiv> 2268"
abbreviation (input) MAX_FREQ :: u16 where "MAX_FREQ \<equiv> 2794"

definition set_channel :: "world \<Rightarrow> u16 \<Rightarrow> fw \<Rightarrow> fw" where
  "set_channel w p0 s =
     (let s = (if p0 > MAX_FREQ then s\<lparr>hop_mode := HOP_SWEEP, requested_channel := 2402\<rparr>
               else s\<lparr>hop_mode := HOP_NONE, requested_channel := min (max p0 MIN_FREQ) MAX_FREQ\<rparr>)
      in if mode s \<noteq> MODE_BT_FOLLOW_LE
         then cs_threshold_calc_and_set w (s\<lparr>channel := requested_channel s, requested_channel := 0\<rparr>)
         else s)"

definition vendor_channel :: "world \<Rightarrow> usb_cmd \<Rightarrow> u16 \<Rightarrow> u8 list \<Rightarrow> nat \<Rightarrow> fw \<Rightarrow> reply option" where
  "vendor_channel w c p0 data len s = (case c of
     UBERTOOTH_RANGE_CHECK \<Rightarrow>
       Some (reply_bytes [rr_valid (rr s), rr_request_pa (rr s), rr_request_num (rr s),
                          rr_reply_pa (rr s), rr_reply_num (rr s)] data s)
   | UBERTOOTH_STOP \<Rightarrow> Some (reply_none data len (s\<lparr>requested_mode := MODE_IDLE\<rparr>))
   | UBERTOOTH_GET_MOD \<Rightarrow> Some (reply_bytes [modulation s] data s)
   | UBERTOOTH_SET_MOD \<Rightarrow> Some (reply_none data len (s\<lparr>modulation := ucast p0\<rparr>))
   | UBERTOOTH_GET_CHANNEL \<Rightarrow> Some (reply_bytes (le_bytes 2 (channel s)) data s)
   | UBERTOOTH_SET_CHANNEL \<Rightarrow> Some (reply_none data len (set_channel w p0 s))
   | _ \<Rightarrow> None)"

definition vendor_system :: "world \<Rightarrow> usb_cmd \<Rightarrow> u16 \<Rightarrow> u16 \<Rightarrow> u8 list \<Rightarrow> nat \<Rightarrow> fw \<Rightarrow> reply option" where
  "vendor_system w c p0 p1 data len s = (case c of
     UBERTOOTH_SET_ISP \<Rightarrow> Some (reply_none data 0 s)
   | UBERTOOTH_FLASH \<Rightarrow> Some (reply_none data len (reset_board (s\<lparr>dfu_requested := True\<rparr>)))
   | UBERTOOTH_SPECAN \<Rightarrow>
       (if p0 < 2049 \<or> p0 > 3072 \<or> p1 < 2049 \<or> p1 > 3072 \<or> p1 < p0
        then Some (reply_stall data len s)
        else Some (reply_none data 0 (s\<lparr>low_freq := p0, high_freq := p1, requested_mode := MODE_SPECAN\<rparr>)))
   | UBERTOOTH_LED_SPECAN \<Rightarrow>
       (if p0 > 256 then Some (reply_stall data len s)
        else Some (reply_none data 0 (s\<lparr>rssi_threshold := s8 (uint p0), requested_mode := MODE_LED_SPECAN\<rparr>)))
   | UBERTOOTH_GET_REV_NUM \<Rightarrow>
       (let n = of_nat (length (w_git_revision w)) :: u8
        in Some (reply_bytes ([0x00, 0x00, n] @ take (unat n) (w_git_revision w)) data s))
   | UBERTOOTH_GET_COMPILE_INFO \<Rightarrow>
       (let n = of_nat (length (w_compile_info w)) :: u8
        in Some (reply_bytes (n # take (unat n) (w_compile_info w)) data s))
   | UBERTOOTH_GET_BOARD_ID \<Rightarrow> Some (reply_bytes [1] data s)
   | UBERTOOTH_SET_SQUELCH \<Rightarrow>
       Some (reply_none data len (cs_threshold_calc_and_set w (s\<lparr>cs_threshold_req := s8 (uint p0)\<rparr>)))
   | UBERTOOTH_GET_SQUELCH \<Rightarrow> Some (reply_bytes [word_of_int (cs_threshold_req s)] data s)
   | _ \<Rightarrow> None)"

definition vendor_hopping :: "world \<Rightarrow> usb_cmd \<Rightarrow> u8 list \<Rightarrow> nat \<Rightarrow> fw \<Rightarrow> reply option" where
  "vendor_hopping w c data len s = (case c of
     UBERTOOTH_SET_BDADDR \<Rightarrow>
       Some (reply_none data len (s\<lparr>bt := precalc ((bt s)\<lparr>bt_address := from_le (take 8 data),
                                       bt_access_code := from_le (take 8 (drop 8 data))\<rparr>)\<rparr>))
   | UBERTOOTH_START_HOPPING \<Rightarrow>
       (let s = s\<lparr>clkn_offset := from_le (rev (take 4 data)), hop_mode := HOP_BLUETOOTH, dma_discard := True\<rparr>;
            s = pin_set DIO_SSEL s
        in Some (reply_none data len (s\<lparr>clk100ns_offset := push_bit 8 (ucast (data ! 4)) OR ucast (data ! 5),
                                        requested_mode := MODE_BT_FOLLOW\<rparr>)))
   | UBERTOOTH_AFH \<Rightarrow>
       Some (reply_none data len (s\<lparr>hop_mode := HOP_AFH, requested_mode := MODE_AFH,
          bt := (bt s)\<lparr>afh_map := replicate 10 0, used_channels := 0, afh_enabled := True\<rparr>\<rparr>))
   | UBERTOOTH_HOP \<Rightarrow> Some (reply_none data len (s\<lparr>do_hop := True\<rparr>))
   | UBERTOOTH_SET_CLOCK \<Rightarrow>
       Some (reply_none data len (cs_threshold_calc_and_set w (s\<lparr>clkn := from_le (take 4 data)\<rparr>)))
   | UBERTOOTH_SET_AFHMAP \<Rightarrow>
       Some (reply_none data 10 (s\<lparr>bt := (bt s)\<lparr>afh_map := take 10 data, afh_enabled := True\<rparr>\<rparr>))
   | UBERTOOTH_CLEAR_AFHMAP \<Rightarrow>
       Some (reply_none data 10 (s\<lparr>bt := (bt s)\<lparr>afh_map := replicate 10 0, afh_enabled := False\<rparr>\<rparr>))
   | UBERTOOTH_GET_CLOCK \<Rightarrow> Some (reply_bytes (le_bytes 4 (clkn s)) data s)
   | UBERTOOTH_TRIM_CLOCK \<Rightarrow>
       Some (reply_none data len (s\<lparr>clk100ns_offset := push_bit 8 (ucast (data ! 0)) OR ucast (data ! 1)\<rparr>))
   | _ \<Rightarrow> None)"

definition vendor_le :: "world \<Rightarrow> usb_cmd \<Rightarrow> u16 \<Rightarrow> u8 list \<Rightarrow> nat \<Rightarrow> fw \<Rightarrow> reply option" where
  "vendor_le w c p0 data len s = (case c of
     UBERTOOTH_BTLE_SNIFFING \<Rightarrow>
       (let s = s\<lparr>do_hop := False, hop_mode := HOP_BTLE, requested_mode := MODE_BT_FOLLOW_LE,
                  uq := queue_init (uq s)\<rparr>
        in Some (reply_none data 0 (cs_threshold_calc_and_set w s)))
   | UBERTOOTH_GET_ACCESS_ADDRESS \<Rightarrow> Some (reply_bytes (le_bytes 4 (access_address (le s))) data s)
   | UBERTOOTH_SET_ACCESS_ADDRESS \<Rightarrow>
       Some (reply_none data len
         (s\<lparr>le := (le_set_access_address (from_le (take 4 data)) (le s))\<lparr>target_set := True\<rparr>\<rparr>))
   | UBERTOOTH_DO_SOMETHING \<Rightarrow> Some (reply_none data len s)
   | UBERTOOTH_DO_SOMETHING_REPLY \<Rightarrow> Some (reply_bytes [0x13, 0x37] data s)
   | UBERTOOTH_GET_CRC_VERIFY \<Rightarrow> Some (reply_bytes [if crc_verify (le s) then 1 else 0] data s)
   | UBERTOOTH_SET_CRC_VERIFY \<Rightarrow>
       Some (reply_none data len (s\<lparr>le := (le s)\<lparr>crc_verify := (p0 \<noteq> 0)\<rparr>\<rparr>))
   | UBERTOOTH_POLL \<Rightarrow>
       (case dequeue (uq s) of
          Some (i, q) \<Rightarrow> Some (reply_bytes (pkt_bytes (uq_fifo q ! i)) data (s\<lparr>uq := q\<rparr>))
        | None \<Rightarrow> Some (reply_bytes [0] data s))
   | _ \<Rightarrow> None)"

definition vendor_modes :: "world \<Rightarrow> usb_cmd \<Rightarrow> u16 \<Rightarrow> u16 \<Rightarrow> u8 list \<Rightarrow> nat \<Rightarrow> fw \<Rightarrow> reply option" where
  "vendor_modes w c p0 p1 data len s = (case c of
     UBERTOOTH_BTLE_PROMISC \<Rightarrow>
       (let s = s\<lparr>hop_mode := HOP_NONE, requested_mode := MODE_BT_PROMISC_LE, uq := queue_init (uq s)\<rparr>
        in Some (reply_none data 0 (cs_threshold_calc_and_set w s)))
   | UBERTOOTH_READ_REGISTER \<Rightarrow>
       (let (reg_val, s) = rd_get w (ucast p0) s
        in Some (reply_bytes [byte_at 1 reg_val, byte_at 0 reg_val] data s))
   | UBERTOOTH_WRITE_REGISTER \<Rightarrow> Some (reply_none data len (rd_set w (ucast (p0 AND 0xff)) p1 s))
   | UBERTOOTH_BTLE_SLAVE \<Rightarrow>
       Some (reply_none data len (s\<lparr>slave_mac_address := take 6 data, requested_mode := MODE_BT_SLAVE_LE\<rparr>))
   | UBERTOOTH_BTLE_SET_TARGET \<Rightarrow>
       Some (reply_none data len (s\<lparr>le := (le s)\<lparr>le_target := rev (take 6 data), target_set := True\<rparr>\<rparr>))
   | UBERTOOTH_JAM_MODE \<Rightarrow> Some (reply_none data len (s\<lparr>jam_mode := ucast p0\<rparr>))
   | UBERTOOTH_EGO \<Rightarrow>
       Some (reply_none data len (s\<lparr>requested_mode := MODE_EGO, ego_mode := ucast p0\<rparr>))
   | _ \<Rightarrow> None)"

fun first_reply :: "reply option list \<Rightarrow> reply \<Rightarrow> reply" where
  "first_reply [] d = d"
| "first_reply (Some r # rs) d = r"
| "first_reply (None # rs) d = first_reply rs d"

definition vendor_request_handler ::
  "world \<Rightarrow> u8 \<Rightarrow> u16 \<Rightarrow> u16 \<Rightarrow> u8 list \<Rightarrow> nat \<Rightarrow> fw \<Rightarrow> reply"
where
  "vendor_request_handler w request p0 p1 data len s =
     (case cmd_of request of
        None \<Rightarrow> reply_stall data len s
      | Some c \<Rightarrow> first_reply
          [vendor_leds c p0 data len s, vendor_ids w c data len s, vendor_amplifier c p0 data len s,
           vendor_transmit w c p0 data len s, vendor_channel w c p0 data len s,
           vendor_system w c p0 p1 data len s, vendor_hopping w c data len s,
           vendor_le w c p0 data len s, vendor_modes w c p0 p1 data len s]
          (reply_stall data len s))"

subsection \<open>Control transfers\<close>

text \<open>
  A vendor request as the USB stack passes it on: the data of an OUT transfer is first collected
  at the start of the 258-byte buffer, which keeps what earlier requests left in it; the handler
  starts with the requested length as the length of the reply; an acknowledged reply is the first
  bytes of the buffer, at most as many as were requested. Writing or reading past the end of the
  buffer is undefined.
\<close>

definition usb_vendor_request :: "world \<Rightarrow> usb_request \<Rightarrow> fw \<Rightarrow> fw option" where
  "usb_vendor_request w rq s =
     (if length (rq_data rq) > length (abVendorReqData s) then None
      else
        let (rv, data, len, s) = vendor_request_handler w (rq_request rq) (rq_value rq) (rq_index rq)
              (put_at 0 (rq_data rq) (abVendorReqData s)) (rq_length rq) s;
            n = (if rq_data rq = [] then min len (rq_length rq) else 0)
        in if rv \<noteq> 1 then Some (s\<lparr>abVendorReqData := data, hist := hist s @ [Reply False []]\<rparr>)
           else if n > length data then None
           else Some (s\<lparr>abVendorReqData := data, hist := hist s @ [Reply True (take n data)]\<rparr>))"

subsection \<open>The invariant of the firmware state\<close>

text \<open>The shape of the buffers and the ranges that the handlers keep. A channel is one the radio
  can be tuned to.\<close>

definition int8_ok :: "int \<Rightarrow> bool" where
  "int8_ok v \<longleftrightarrow> -128 \<le> v \<and> v < 128"

definition tunable :: "u16 \<Rightarrow> bool" where
  "tunable ch \<longleftrightarrow> MIN_FREQ \<le> ch \<and> ch \<le> MAX_FREQ"

definition tunable0 :: "u16 \<Rightarrow> bool" where
  "tunable0 ch \<longleftrightarrow> ch = 0 \<or> tunable ch"

definition direct_ok :: "hop_mode_t \<Rightarrow> u16 \<Rightarrow> bool" where
  "direct_ok m ch \<longleftrightarrow> m = HOP_DIRECT \<longrightarrow> tunable ch"

lemma le_2268_2794: "(p::u16) \<le> MIN_FREQ \<Longrightarrow> p \<le> MAX_FREQ"
  by (erule order_trans) simp

lemma tunable_simps [simp]: "tunable 2402" "tunable (min (max p MIN_FREQ) MAX_FREQ)"
  "tunable (max p MIN_FREQ) \<longleftrightarrow> p \<le> MAX_FREQ"
  by (auto simp: tunable_def min_def max_def le_2268_2794)

lemma tunable0_simps [simp]: "tunable0 0" "tunable ch \<Longrightarrow> tunable0 ch"
  by (simp_all add: tunable0_def)

lemma direct_ok_simps [simp]:
  "direct_ok HOP_NONE ch" "direct_ok HOP_SWEEP ch" "direct_ok HOP_BLUETOOTH ch" "direct_ok HOP_BTLE ch"
  "direct_ok HOP_AFH ch" "direct_ok HOP_DIRECT ch = tunable ch" "tunable ch \<Longrightarrow> direct_ok m ch"
  by (simp_all add: direct_ok_def)

definition fw_inv :: "fw \<Rightarrow> bool" where
  "fw_inv s \<longleftrightarrow>
     usbq_wf (uq s) \<and> list_all pkt_wf (uq_fifo (uq s)) \<and>
     length (slave_mac_address s) = 6 \<and> length (le_target (le s)) = 6 \<and>
     length (afh_map (bt s)) = 10 \<and> length (bank (bt s)) = 79 \<and> length (rssi_iirs s) = 79 \<and>
     length (rxbuf1 s) = DMA_SIZE \<and> length (rxbuf2 s) = DMA_SIZE \<and>
     length (abVendorReqData s) = 258 \<and> length (active_aa (le_promisc s)) = 32 \<and>
     length (unpacked s) = 800 \<and>
     list_all (\<lambda>c. c < 79) (bank (bt s)) \<and> afh_bank (bt s) = replicate 79 0 \<and>
     tunable (channel s) \<and>
     direct_ok (hop_mode s) (hop_direct_channel s) \<and>
     tunable0 (saved_request s) \<and> tunable0 (requested_channel s) \<and>
     2049 \<le> low_freq s \<and> low_freq s \<le> high_freq s \<and> high_freq s \<le> 3072 \<and>
     int8_ok (cs_threshold_req s) \<and> int8_ok (rssi_threshold s)"

lemma fw_inv_initial: "fw_inv fw_initial"
  unfolding fw_inv_def fw_initial_def
  by (simp add: usbq_wf_initial le_initial_def bt_initial_def int8_ok_def tunable_def)
    (simp add: usbq_initial_def list_all_iff)

lemma int8_ok_s8 [simp]: "int8_ok (s8 x)"
  using s8_range by (simp add: int8_ok_def)

lemma fw_inv_cs [simp]: "fw_inv (cs_threshold_calc_and_set w s) = fw_inv s"
  by (rule cs_threshold_calc_obtain [of w s]) (simp add: fw_inv_def)

lemma fw_inv_hist [simp]: "fw_inv (s\<lparr>hist := h\<rparr>) = fw_inv s"
  by (simp add: fw_inv_def)

lemma fw_inv_board: "board_frame s t \<Longrightarrow> fw_inv t = fw_inv s"
  unfolding board_frame_def by (cases s; cases t) (simp add: fw_inv_def)

lemma fw_inv_pins [simp]: "fw_inv (pin_set p s) = fw_inv s" "fw_inv (pin_clr p s) = fw_inv s"
  "fw_inv (pin_write p v s) = fw_inv s" "fw_inv (reset_board s) = fw_inv s"
  "fw_inv (reg_write r u s) = fw_inv s" "fw_inv (dio_ssp_init s) = fw_inv s"
  by (rule fw_inv_board; simp add: pin_write_def)+

lemma bank_precalc_afh [simp]: "length (bank (precalc_afh b)) = length (bank b)" "afh_map (precalc_afh b) = afh_map b"
  by (simp_all add: precalc_afh_def Let_def)

lemma precalc_shape [simp]: "length (bank (precalc b)) = 79" "afh_map (precalc b) = afh_map b"
  "afh_bank (precalc b) = afh_bank b"
  by (simp_all add: precalc_def precalc_afh_def Let_def)

lemma bank_below_79: "list_all (\<lambda>c. c < 79) (map (\<lambda>i. of_nat ((i * 2) mod CHANNELS) :: u8) [0..<CHANNELS])"
  by code_simp

lemma list_all_update: "list_all P xs \<Longrightarrow> P x \<Longrightarrow> list_all P (xs[i := x])"
  by (auto simp: list_all_iff dest!: set_update_subset_insert [THEN subsetD])

lemma precalc_bank [simp]: "list_all (\<lambda>c. c < 79) (bank (precalc b))"
  using bank_below_79 by (auto simp: precalc_def precalc_afh_def Let_def intro!: list_all_update)

lemma queue_init_wf [simp]: "usbq_wf (queue_init q)" "list_all pkt_wf (uq_fifo (queue_init q))"
  by (simp_all add: queue_init_empty) (simp add: queue_init_def list_all_iff)

lemma dequeue_wf:
  assumes "usbq_wf q" and "dequeue q = Some (i, q')"
  shows "usbq_wf q' \<and> uq_fifo q' = uq_fifo q \<and> i < 128"
proof -
  have "usb_get q = Some (uq_fifo q' ! i, q')" using assms(2) by (simp add: usb_get_def)
  then have "usbq_wf q'" by (rule usbq.get_inv [OF assms(1)])
  then show ?thesis
    using assms by (auto simp: dequeue_eq split: if_splits)
qed

definition reply_ok :: "nat \<Rightarrow> reply \<Rightarrow> bool" where
  "reply_ok n = (\<lambda>(rv, data, len, s). length data = 258 \<and> len \<le> max 258 n \<and> fw_inv s)"

lemma reply_ok_bytes:
  "length bs \<le> 258 \<Longrightarrow> length data = 258 \<Longrightarrow> fw_inv s \<Longrightarrow> reply_ok n (reply_bytes bs data s)"
  by (simp add: reply_ok_def reply_bytes_def)

lemma reply_ok_none: "length data = 258 \<Longrightarrow> len \<le> max 258 n \<Longrightarrow> fw_inv s \<Longrightarrow> reply_ok n (reply_none data len s)"
  by (simp add: reply_ok_def reply_none_def)

lemma reply_ok_stall: "length data = 258 \<Longrightarrow> fw_inv s \<Longrightarrow> reply_ok len (reply_stall data len s)"
  by (simp add: reply_ok_def reply_stall_def)

lemmas reply_ok_intros = reply_ok_bytes reply_ok_none reply_ok_stall

lemma unat_byte: "unat (n::u8) \<le> 255"
  using unsigned_less [of n, where 'a = nat] by simp

lemma min_byte [simp]: "min k (unat (n::u8)) \<le> 255" "min k (unat n) \<le> 257"
  using unat_byte [of n] by simp_all

lemma set_channel_inv: "fw_inv s \<Longrightarrow> fw_inv (set_channel w p0 s)"
  by (auto simp: set_channel_def Let_def) (simp_all add: fw_inv_def not_less)

lemma poll_packet_length: "fw_inv s \<Longrightarrow> dequeue (uq s) = Some (i, q) \<Longrightarrow> length (pkt_bytes (uq_fifo q ! i)) = 64"
  using dequeue_wf [of "uq s" i q] length_pkt_bytes [of "uq_fifo q ! i"]
  by (auto simp: fw_inv_def usbq_wf_def list_all_length)

lemma vendor_leds_ok:
  "length data = 258 \<Longrightarrow> fw_inv s \<Longrightarrow> vendor_leds c p0 data len s = Some r \<Longrightarrow> reply_ok len r"
  by (cases c) (auto simp: vendor_leds_def intro!: reply_ok_intros, simp add: fw_inv_def)

lemma vendor_ids_ok:
  "length data = 258 \<Longrightarrow> fw_inv s \<Longrightarrow> vendor_ids w c data len s = Some r \<Longrightarrow> reply_ok len r"
  by (cases c) (auto simp: vendor_ids_def Let_def intro!: reply_ok_intros, simp add: fw_inv_def)

lemma vendor_amplifier_ok:
  "length data = 258 \<Longrightarrow> fw_inv s \<Longrightarrow> vendor_amplifier c p0 data len s = Some r \<Longrightarrow> reply_ok len r"
  by (cases c) (auto simp: vendor_amplifier_def intro!: reply_ok_intros)

lemma vendor_transmit_ok:
  "length data = 258 \<Longrightarrow> fw_inv s \<Longrightarrow> vendor_transmit w c p0 data len s = Some r \<Longrightarrow> reply_ok len r"
  by (cases c) (auto simp: vendor_transmit_def split_beta Let_def intro!: reply_ok_intros split: if_splits,
    simp_all add: fw_inv_def)

lemma vendor_channel_ok:
  "length data = 258 \<Longrightarrow> fw_inv s \<Longrightarrow> vendor_channel w c p0 data len s = Some r \<Longrightarrow> reply_ok len r"
  by (cases c) (auto simp: vendor_channel_def intro!: reply_ok_intros set_channel_inv, simp_all add: fw_inv_def)

lemma vendor_system_ok:
  "length data = 258 \<Longrightarrow> fw_inv s \<Longrightarrow> vendor_system w c p0 p1 data len s = Some r \<Longrightarrow> reply_ok len r"
  by (cases c)
    (auto simp: vendor_system_def Let_def intro!: reply_ok_intros split: if_splits,
     simp_all add: fw_inv_def int8_ok_s8 linorder_not_less)

lemma vendor_hopping_ok:
  "length data = 258 \<Longrightarrow> fw_inv s \<Longrightarrow> vendor_hopping w c data len s = Some r \<Longrightarrow> reply_ok len r"
  by (cases c) (auto simp: vendor_hopping_def Let_def intro!: reply_ok_intros, simp_all add: fw_inv_def pin_set_def)

lemma vendor_le_ok:
  "length data = 258 \<Longrightarrow> fw_inv s \<Longrightarrow> vendor_le w c p0 data len s = Some r \<Longrightarrow> reply_ok len r"
  using poll_packet_length [of s]
  by (cases c)
    (auto simp: vendor_le_def Let_def intro!: reply_ok_intros split: option.splits prod.splits,
     auto simp: fw_inv_def le_set_access_address_def Let_def dest: dequeue_wf)

lemma vendor_modes_ok:
  "length data = 258 \<Longrightarrow> fw_inv s \<Longrightarrow> vendor_modes w c p0 p1 data len s = Some r \<Longrightarrow> reply_ok len r"
  by (cases c) (auto simp: vendor_modes_def Let_def split_beta intro!: reply_ok_intros, simp_all add: fw_inv_def)

lemma first_reply_cases:
  "first_reply rs d = d \<or> Some (first_reply rs d) \<in> set rs"
  by (induction rs d rule: first_reply.induct) auto

lemmas vendor_groups_ok = vendor_leds_ok vendor_ids_ok vendor_amplifier_ok vendor_transmit_ok
  vendor_channel_ok vendor_system_ok vendor_hopping_ok vendor_le_ok vendor_modes_ok

lemma vendor_request_keeps:
  assumes "length data = 258" and "fw_inv s"
  shows "reply_ok len (vendor_request_handler w request p0 p1 data len s)"
proof (cases "cmd_of request")
  case None
  with assms show ?thesis by (simp add: vendor_request_handler_def reply_ok_stall)
next
  case (Some c)
  let ?rs = "[vendor_leds c p0 data len s, vendor_ids w c data len s, vendor_amplifier c p0 data len s,
           vendor_transmit w c p0 data len s, vendor_channel w c p0 data len s,
           vendor_system w c p0 p1 data len s, vendor_hopping w c data len s,
           vendor_le w c p0 data len s, vendor_modes w c p0 p1 data len s]"
  let ?d = "reply_stall data len s"
  have group: "reply_ok len r" if "Some r \<in> set ?rs" for r
    using that by (auto simp only: list.set insert_iff empty_iff
      dest!: sym [of "Some r"] elim!: vendor_groups_ok [OF assms])
  have "reply_ok len (first_reply ?rs ?d)"
    using first_reply_cases [of ?rs ?d]
  proof
    assume "first_reply ?rs ?d = ?d"
    then show ?thesis using reply_ok_stall [OF assms] by (simp only:)
  next
    assume "Some (first_reply ?rs ?d) \<in> set ?rs"
    then show ?thesis by (rule group)
  qed
  with Some show ?thesis by (simp only: vendor_request_handler_def option.case)
qed

text \<open>C7: Whatever request number, parameters and lengths the host sends, with the control buffer of
  258 bytes, the handler keeps the buffer's size, announces no more than 258 bytes of reply unless
  the host asked for more, and keeps the invariant of the firmware state: queue and packets well
  formed, every channel variable within the range of the radio, hop tables in range, spectrum
  limits ordered and in range, thresholds 8-bit.\<close>

theorem vendor_request_preserves:
  assumes "length data = 258" and "fw_inv s"
  shows "reply_ok len (vendor_request_handler w request p0 p1 data len s)"
  using assms by (rule vendor_request_keeps)

lemma vendor_request_preserves_witness:
  "reply_ok 0 (vendor_request_handler lab_world 12 2450 0 (replicate 258 0) 0 fw_initial)"
  by (rule vendor_request_preserves) (simp_all add: fw_inv_initial)

text \<open>The group that handles a command.\<close>

definition vendor_groups ::
  "world \<Rightarrow> usb_cmd \<Rightarrow> u16 \<Rightarrow> u16 \<Rightarrow> u8 list \<Rightarrow> nat \<Rightarrow> fw \<Rightarrow> reply option list"
where
  "vendor_groups w c p0 p1 data len s =
     [vendor_leds c p0 data len s, vendor_ids w c data len s, vendor_amplifier c p0 data len s,
      vendor_transmit w c p0 data len s, vendor_channel w c p0 data len s,
      vendor_system w c p0 p1 data len s, vendor_hopping w c data len s,
      vendor_le w c p0 data len s, vendor_modes w c p0 p1 data len s]"

definition cmd_unhandled :: "usb_cmd \<Rightarrow> bool" where
  "cmd_unhandled c \<longleftrightarrow> c \<in> {UBERTOOTH_TX_SYMBOLS, BOOTLOADER_FLASH, UBERTOOTH_BTLE_PHY}"

definition cmd_refused :: "usb_cmd \<Rightarrow> u16 \<Rightarrow> u16 \<Rightarrow> bool" where
  "cmd_refused c p0 p1 \<longleftrightarrow>
     c = UBERTOOTH_SET_PALEVEL \<and> 8 \<le> p0 \<or> c = UBERTOOTH_LED_SPECAN \<and> 256 < p0 \<or>
     c = UBERTOOTH_SPECAN \<and> \<not> (2049 \<le> p0 \<and> p0 \<le> p1 \<and> p1 \<le> 3072)"

lemma fst_reply [simp]: "fst (reply_bytes bs data s) = 1" "fst (reply_none data len s) = 1"
  "fst (reply_stall data len s) = 0"
  by (simp_all add: reply_bytes_def reply_none_def reply_stall_def)

lemma vendor_leds_accepts: "vendor_leds c p0 data len s = Some r \<Longrightarrow> if cmd_refused c p0 p1 then r = reply_stall data len s else fst r = 1"
  by (cases c) (auto simp: cmd_refused_def vendor_leds_def)

lemma vendor_ids_accepts: "vendor_ids w c data len s = Some r \<Longrightarrow> if cmd_refused c p0 p1 then r = reply_stall data len s else fst r = 1"
  by (cases c) (auto simp: cmd_refused_def vendor_ids_def Let_def)

lemma vendor_amplifier_accepts: "vendor_amplifier c p0 data len s = Some r \<Longrightarrow> if cmd_refused c p0 p1 then r = reply_stall data len s else fst r = 1"
  by (cases c) (auto simp: cmd_refused_def vendor_amplifier_def)

lemma vendor_channel_accepts: "vendor_channel w c p0 data len s = Some r \<Longrightarrow> if cmd_refused c p0 p1 then r = reply_stall data len s else fst r = 1"
  by (cases c) (auto simp: cmd_refused_def vendor_channel_def)

lemma vendor_hopping_accepts: "vendor_hopping w c data len s = Some r \<Longrightarrow> if cmd_refused c p0 p1 then r = reply_stall data len s else fst r = 1"
  by (cases c) (auto simp: cmd_refused_def vendor_hopping_def Let_def)

lemma vendor_le_accepts: "vendor_le w c p0 data len s = Some r \<Longrightarrow> if cmd_refused c p0 p1 then r = reply_stall data len s else fst r = 1"
  by (cases c) (auto simp: cmd_refused_def vendor_le_def Let_def split: option.splits)

lemma vendor_modes_accepts: "vendor_modes w c p0 p1 data len s = Some r \<Longrightarrow> if cmd_refused c p0 p1 then r = reply_stall data len s else fst r = 1"
  by (cases c) (auto simp: cmd_refused_def vendor_modes_def Let_def split_beta)

lemma vendor_transmit_accepts: "vendor_transmit w c p0 data len s = Some r \<Longrightarrow> if cmd_refused c p0 p1 then r = reply_stall data len s else fst r = 1"
  by (cases c) (auto simp: cmd_refused_def vendor_transmit_def Let_def split_beta linorder_not_less split: if_splits)

lemma vendor_system_accepts: "vendor_system w c p0 p1 data len s = Some r \<Longrightarrow> if cmd_refused c p0 p1 then r = reply_stall data len s else fst r = 1"
  by (cases c) (auto simp: cmd_refused_def vendor_system_def Let_def not_less not_le split: if_splits)

lemmas vendor_accepts = vendor_leds_accepts vendor_ids_accepts vendor_amplifier_accepts
  vendor_transmit_accepts vendor_channel_accepts vendor_system_accepts vendor_hopping_accepts
  vendor_le_accepts vendor_modes_accepts

lemma vendor_leds_None: "vendor_leds c p0 data len s = None \<longleftrightarrow> c \<notin> {UBERTOOTH_PING, UBERTOOTH_RX_SYMBOLS, UBERTOOTH_GET_USRLED,
    UBERTOOTH_SET_USRLED, UBERTOOTH_GET_RXLED, UBERTOOTH_SET_RXLED,
    UBERTOOTH_GET_TXLED, UBERTOOTH_SET_TXLED, UBERTOOTH_GET_1V8,
    UBERTOOTH_SET_1V8}"
  by (cases c) (simp_all add: vendor_leds_def)

lemma vendor_ids_None: "vendor_ids w c data len s = None \<longleftrightarrow> c \<notin> {UBERTOOTH_GET_PARTNUM, UBERTOOTH_RESET, UBERTOOTH_GET_SERIAL}"
  by (cases c) (simp_all add: vendor_ids_def Let_def)

lemma vendor_amplifier_None: "vendor_amplifier c p0 data len s = None \<longleftrightarrow> c \<notin> {UBERTOOTH_GET_PAEN, UBERTOOTH_SET_PAEN, UBERTOOTH_GET_HGM,
    UBERTOOTH_SET_HGM}"
  by (cases c) (simp_all add: vendor_amplifier_def)

lemma vendor_transmit_None: "vendor_transmit w c p0 data len s = None \<longleftrightarrow> c \<notin> {UBERTOOTH_TX_TEST, UBERTOOTH_GET_PALEVEL, UBERTOOTH_SET_PALEVEL,
    UBERTOOTH_RANGE_TEST, UBERTOOTH_REPEATER}"
  by (cases c) (auto simp del: not_None_eq simp: vendor_transmit_def split_beta Let_def)

lemma vendor_channel_None: "vendor_channel w c p0 data len s = None \<longleftrightarrow> c \<notin> {UBERTOOTH_RANGE_CHECK, UBERTOOTH_STOP, UBERTOOTH_GET_MOD,
    UBERTOOTH_SET_MOD, UBERTOOTH_GET_CHANNEL, UBERTOOTH_SET_CHANNEL}"
  by (cases c) (simp_all add: vendor_channel_def)

lemma vendor_system_None: "vendor_system w c p0 p1 data len s = None \<longleftrightarrow> c \<notin> {UBERTOOTH_SET_ISP, UBERTOOTH_FLASH, UBERTOOTH_SPECAN,
    UBERTOOTH_LED_SPECAN, UBERTOOTH_GET_REV_NUM, UBERTOOTH_GET_COMPILE_INFO,
    UBERTOOTH_GET_BOARD_ID, UBERTOOTH_SET_SQUELCH, UBERTOOTH_GET_SQUELCH}"
  by (cases c) (auto simp del: not_None_eq simp: vendor_system_def Let_def)

lemma vendor_hopping_None: "vendor_hopping w c data len s = None \<longleftrightarrow> c \<notin> {UBERTOOTH_SET_BDADDR, UBERTOOTH_START_HOPPING, UBERTOOTH_AFH,
    UBERTOOTH_HOP, UBERTOOTH_SET_CLOCK, UBERTOOTH_SET_AFHMAP,
    UBERTOOTH_CLEAR_AFHMAP, UBERTOOTH_GET_CLOCK, UBERTOOTH_TRIM_CLOCK}"
  by (cases c) (simp_all add: vendor_hopping_def Let_def)

lemma vendor_le_None: "vendor_le w c p0 data len s = None \<longleftrightarrow> c \<notin> {UBERTOOTH_BTLE_SNIFFING, UBERTOOTH_GET_ACCESS_ADDRESS, UBERTOOTH_SET_ACCESS_ADDRESS,
    UBERTOOTH_DO_SOMETHING, UBERTOOTH_DO_SOMETHING_REPLY, UBERTOOTH_GET_CRC_VERIFY,
    UBERTOOTH_SET_CRC_VERIFY, UBERTOOTH_POLL}"
  by (cases c) (auto simp del: not_None_eq simp: vendor_le_def Let_def split: option.split)

lemma vendor_modes_None: "vendor_modes w c p0 p1 data len s = None \<longleftrightarrow> c \<notin> {UBERTOOTH_BTLE_PROMISC, UBERTOOTH_READ_REGISTER, UBERTOOTH_WRITE_REGISTER,
    UBERTOOTH_BTLE_SLAVE, UBERTOOTH_BTLE_SET_TARGET, UBERTOOTH_JAM_MODE,
    UBERTOOTH_EGO}"
  by (cases c) (simp_all add: vendor_modes_def Let_def split_beta)

lemmas vendor_None = vendor_leds_None vendor_ids_None vendor_amplifier_None vendor_transmit_None vendor_channel_None
  vendor_system_None vendor_hopping_None vendor_le_None vendor_modes_None

lemma vendor_unhandled:
  "cmd_unhandled c \<Longrightarrow> set (vendor_groups w c p0 p1 data len s) = {None}"
proof -
  assume "cmd_unhandled c"
  then have "\<forall>r \<in> set (vendor_groups w c p0 p1 data len s). r = None"
    unfolding cmd_unhandled_def vendor_groups_def list.set ball_simps vendor_None by auto
  then show ?thesis by (auto simp: vendor_groups_def)
qed

lemma vendor_handled:
  assumes "\<not> cmd_unhandled c"
  shows "\<exists>r. Some r \<in> set (vendor_groups w c p0 p1 data len s)"
proof (rule ccontr)
  assume no: "\<not> ?thesis"
  have "r = None" if "r \<in> set (vendor_groups w c p0 p1 data len s)" for r
    using no that by (cases r) auto
  then have "\<forall>r \<in> set (vendor_groups w c p0 p1 data len s). r = None" by blast
  then have "cmd_unhandled c"
    unfolding cmd_unhandled_def vendor_groups_def list.set ball_simps vendor_None
    by (cases c) simp_all
  with assms show False ..
qed

lemma vendor_group_reply:
  assumes "Some r \<in> set (vendor_groups w c p0 p1 data len s)"
  shows "if cmd_refused c p0 p1 then r = reply_stall data len s else fst r = 1"
  using assms unfolding vendor_groups_def list.set insert_iff empty_iff
  by (elim disjE FalseE; blast dest: vendor_accepts [of _ _ _ _ _ _ _ , OF sym])

text \<open>The requests the handler refuses.\<close>

definition request_refused :: "u8 \<Rightarrow> u16 \<Rightarrow> u16 \<Rightarrow> bool" where
  "request_refused request p0 p1 =
     (case cmd_of request of None \<Rightarrow> True | Some c \<Rightarrow> cmd_unhandled c \<or> cmd_refused c p0 p1)"

lemma first_reply_None: "set rs = {None} \<Longrightarrow> first_reply rs d = d"
  using first_reply_cases [of rs d] by auto

lemma first_reply_Some: "Some r \<in> set rs \<Longrightarrow> Some (first_reply rs d) \<in> set rs"
  by (induction rs d rule: first_reply.induct) auto

lemma vendor_request_groups:
  "cmd_of request = Some c \<Longrightarrow> vendor_request_handler w request p0 p1 data len s =
     first_reply (vendor_groups w c p0 p1 data len s) (reply_stall data len s)"
  by (simp only: vendor_request_handler_def vendor_groups_def option.case)

text \<open>C8: Error behaviour of the control endpoint: the handler stalls exactly the requests that
  have no case in its switch, a power level above 7, a spectrum range outside 2049..3072 MHz or
  with crossed limits and an LED threshold above 256; a stalled request changes neither the
  firmware's state nor the buffer nor the reply length, and every other request is acknowledged
  with 1.\<close>

theorem vendor_request_refusal:
  "if request_refused request p0 p1
   then vendor_request_handler w request p0 p1 data len s = (0, data, len, s)
   else fst (vendor_request_handler w request p0 p1 data len s) = 1"
proof (cases "cmd_of request")
  case None
  then show ?thesis by (simp add: request_refused_def vendor_request_handler_def reply_stall_def)
next
  case (Some c)
  let ?rs = "vendor_groups w c p0 p1 data len s" and ?d = "reply_stall data len s"
  note h = vendor_request_groups [OF Some, of w p0 p1 data len s]
  show ?thesis
  proof (cases "cmd_unhandled c")
    case True
    then show ?thesis
      using h Some first_reply_None [OF vendor_unhandled [OF True]]
      by (simp add: request_refused_def reply_stall_def)
  next
    case False
    obtain r where "Some r \<in> set ?rs" using vendor_handled [OF False] by blast
    then have "Some (first_reply ?rs ?d) \<in> set ?rs" by (rule first_reply_Some)
    from vendor_group_reply [OF this] show ?thesis
      unfolding h using Some False by (simp add: request_refused_def) (simp add: reply_stall_def)
  qed
qed

subsection \<open>Control transfers keep the invariant\<close>

lemma usb_vendor_request_inv:
  assumes "usb_vendor_request w rq s = Some t" and "fw_inv s"
  shows "fw_inv t"
proof -
  let ?r = "vendor_request_handler w (rq_request rq) (rq_value rq) (rq_index rq)
              (put_at 0 (rq_data rq) (abVendorReqData s)) (rq_length rq) s"
  obtain rv data len s' where r: "?r = (rv, data, len, s')" by (cases ?r)
  have n: "length (rq_data rq) \<le> length (abVendorReqData s)" and "length (abVendorReqData s) = 258"
    using assms by (auto simp: usb_vendor_request_def fw_inv_def split: if_splits)
  then have "reply_ok (rq_length rq) ?r"
    using assms(2) by (intro vendor_request_keeps) simp_all
  then have "length data = 258" and "fw_inv s'"
    by (simp_all add: r reply_ok_def)
  then have "fw_inv (s'\<lparr>abVendorReqData := data, hist := h\<rparr>)" for h
    by (simp add: fw_inv_def)
  then show ?thesis
    using assms(1) n by (auto simp: usb_vendor_request_def r Let_def split: if_splits)
qed

text \<open>The data buffer of the control endpoint is never written past its end as long as the host
  transfers at most 258 bytes to the device, and is never read past its end unless the host asks
  for more than 258 bytes of reply: then the request completes.\<close>

theorem usb_vendor_request_bounds:
  assumes "fw_inv s" and "length (rq_data rq) \<le> 258" and "rq_data rq = [] \<Longrightarrow> rq_length rq \<le> 258"
  shows "\<exists>t. usb_vendor_request w rq s = Some t \<and> fw_inv t"
proof -
  let ?r = "vendor_request_handler w (rq_request rq) (rq_value rq) (rq_index rq)
              (put_at 0 (rq_data rq) (abVendorReqData s)) (rq_length rq) s"
  obtain rv data len s' where r: "?r = (rv, data, len, s')" by (cases ?r)
  have buf: "length (abVendorReqData s) = 258" using assms(1) by (simp add: fw_inv_def)
  then have "reply_ok (rq_length rq) ?r"
    using assms(1,2) by (intro vendor_request_keeps) simp_all
  then have "length data = 258" by (simp add: r reply_ok_def)
  then have "\<exists>t. usb_vendor_request w rq s = Some t"
    unfolding usb_vendor_request_def r Let_def prod.case using assms(2,3) buf by auto
  with usb_vendor_request_inv assms(1) show ?thesis by blast
qed

lemma usb_vendor_request_bounds_witness:
  "\<exists>t. usb_vendor_request lab_world \<lparr>rq_request = 33, rq_value = 0, rq_index = 0, rq_length = 258, rq_data = []\<rparr> fw_initial = Some t
     \<and> fw_inv t"
  by (rule usb_vendor_request_bounds) (simp_all add: fw_inv_initial)

text \<open>A device-to-host request for more than 258 bytes whose case in the switch leaves the reply
  length alone makes the stack send bytes from beyond the end of the control buffer; setting the
  receive LED is such a request.\<close>

theorem usb_vendor_request_overread:
  assumes "length (abVendorReqData s) = 258"
  shows "usb_vendor_request w \<lparr>rq_request = 6, rq_value = p, rq_index = i, rq_length = n, rq_data = []\<rparr> s = None
     \<longleftrightarrow> 258 < n"
proof -
  have c: "cmd_of 6 = Some UBERTOOTH_SET_RXLED" by code_simp
  have h: "vendor_request_handler w 6 p i data n s = (1, data, n, pin_write RXLED p s)" for data
    by (simp add: vendor_request_groups [OF c] vendor_groups_def vendor_leds_def reply_none_def)
  show ?thesis
    using assms by (simp add: usb_vendor_request_def h put_at_def)
qed

lemma usb_vendor_request_overread_witness:
  "usb_vendor_request lab_world \<lparr>rq_request = 6, rq_value = 1, rq_index = 0, rq_length = 65535, rq_data = []\<rparr> fw_initial = None"
  using usb_vendor_request_overread [of fw_initial lab_world 1 0 65535] by (simp add: fw_initial_def)

end
