(* ===== verification/Rxtx_Irq.thy ===== *)
theory Rxtx_Irq
  imports Rxtx_Vendor
begin

text \<open>
  Time and interrupts of \<^verbatim>\<open>bluetooth_rxtx.c\<close>: the 3200 Hz clock and the hop trigger in its timer
  interrupt, the carrier sense and DMA interrupts, the setup of the DMA engine and of the serial
  interface, the polled USB service \<open>handle_usb\<close>, and the busy sleep. The main program takes the
  interrupts that the world has pending at the points where it looks at a variable an interrupt
  may change (\<open>interrupts\<close>); an interrupt handler runs to its end.
\<close>

subsection \<open>The clock\<close>

abbreviation (input) TCR_Counter_Enable :: u32 where "TCR_Counter_Enable \<equiv> 0x1"
abbreviation (input) TCR_Counter_Reset :: u32 where "TCR_Counter_Reset \<equiv> 0x2"
abbreviation (input) TMCR_MR0I :: u32 where "TMCR_MR0I \<equiv> 0x1"
abbreviation (input) TMCR_MR0R :: u32 where "TMCR_MR0R \<equiv> 0x2"
abbreviation (input) TIR_MR0_Interrupt :: u32 where "TIR_MR0_Interrupt \<equiv> 0x1"

definition clkn_init :: "fw \<Rightarrow> fw" where
  "clkn_init s =
     (let s = reg_write T0TCR TCR_Counter_Reset s;
          s = s\<lparr>clkn := 0\<rparr>;
          s = reg_write T0PR 4 s;
          s = reg_write T0MR0 3124 s;
          s = reg_write T0MCR (TMCR_MR0R OR TMCR_MR0I) s;
          s = reg_write ISER0 ISER0_ISE_TIMER0 s
      in reg_write T0TCR TCR_Counter_Enable s)"

text \<open>Trigger a hop based on the hop mode.\<close>

definition hop_trigger :: "fw \<Rightarrow> fw" where
  "hop_trigger s =
     (let le_clk = (clkn s - conn_epoch (le s)) AND 0x03
      in if hop_mode s = HOP_NONE \<or> hop_mode s = HOP_SWEEP
         then if clkn s AND 0x7f = 0 then s\<lparr>do_hop := True\<rparr> else s
         else if hop_mode s = HOP_BLUETOOTH
         then if clkn s AND 0x1 = 0 then s\<lparr>do_hop := True\<rparr> else s
         else if hop_mode s = HOP_BTLE
         then if link_state (le s) = LINK_CONNECTED \<and> le_clk = 0
              then let s = s\<lparr>le := (le s)\<lparr>interval_timer := interval_timer (le s) - 1\<rparr>\<rparr>
                   in if interval_timer (le s) = 0
                      then s\<lparr>do_hop := True,
                             le := (le s)\<lparr>conn_count := conn_count (le s) + 1,
                                          interval_timer := conn_interval (le s)\<rparr>\<rparr>
                      else pin_clr TXLED s
              else s
         else if hop_mode s = HOP_AFH
         then if last_hop s + ucast (hop_timeout s) = clkn s then s\<lparr>do_hop := True\<rparr> else s
         else s)"

text \<open>The handler looks at the match flag of the timer; \<open>mr0\<close> is that flag.\<close>

definition TIMER0_IRQHandler :: "bool \<Rightarrow> fw \<Rightarrow> fw" where
  "TIMER0_IRQHandler mr0 s =
     (if \<not> mr0 then s else
      let s = s\<lparr>clkn := clkn s + (clkn_offset s + 1)\<rparr>;
          s = s\<lparr>clkn_offset := 0\<rparr>;
          s = hop_trigger s;
          s = reg_write T0MR0 (3124 + ucast (clk100ns_offset s)) s;
          s = s\<lparr>clk100ns_offset := 0\<rparr>
      in reg_write T0IR TIR_MR0_Interrupt s)"

definition EINT3_IRQHandler :: "fw \<Rightarrow> fw" where
  "EINT3_IRQHandler s =
     (let s = reg_write IO2IntClr PIN_GIO6 s;
          s = pin_clr DIO_SSEL s;
          s = s\<lparr>cs_trigger := True\<rparr>
      in if hop_mode s = HOP_BLUETOOTH then s\<lparr>dma_discard := False\<rparr> else s)"

subsection \<open>DMA\<close>

abbreviation (input) PCONP_PCGPDMA :: u32 where "PCONP_PCGPDMA \<equiv> 0x20000000"
abbreviation (input) DMACConfig_E :: u32 where "DMACConfig_E \<equiv> 0x1"
abbreviation (input) DMACCxConfig_E :: u32 where "DMACCxConfig_E \<equiv> 0x1"
abbreviation (input) DMACCxConfig_IE :: u32 where "DMACCxConfig_IE \<equiv> 0x4000"
abbreviation (input) DMACCxConfig_ITC :: u32 where "DMACCxConfig_ITC \<equiv> 0x8000"
abbreviation (input) DMACCxControl_DI :: u32 where "DMACCxControl_DI \<equiv> 0x8000000"
abbreviation (input) DMACCxControl_I :: u32 where "DMACCxControl_I \<equiv> 0x80000000"
abbreviation (input) DIO_SSP_SRC :: u32 where "DIO_SSP_SRC \<equiv> 0x6"
abbreviation (input) SSPDMACR_RXDMAE :: u32 where "SSPDMACR_RXDMAE \<equiv> 0x1"

definition dma_clear :: "fw \<Rightarrow> fw" where
  "dma_clear s =
     (let s = reg_writes (map DMACCConfig [0, 1, 2, 3, 4, 5, 6, 7]) 0 s;
          s = reg_write DMACIntTCClear 0xFF s
      in reg_write DMACIntErrClr 0xFF s)"

definition dma_start :: "dma_lli \<Rightarrow> fw \<Rightarrow> fw" where
  "dma_start lli s =
     (let s = reg_write DMACC0SrcAddr (lli_src lli) s;
          s = reg_write DMACC0DestAddr (lli_dest lli) s;
          s = reg_write DMACC0LLI (lli_next lli) s;
          s = reg_write DMACC0Control (lli_control lli) s;
          s = reg_write (DMACCConfig 0) (DIO_SSP_SRC OR push_bit 11 0x2 OR DMACCxConfig_IE OR DMACCxConfig_ITC) s
      in s\<lparr>rx_tc := 0, rx_err := 0\<rparr>)"

definition rx_lli :: "world \<Rightarrow> mem_obj \<Rightarrow> mem_obj \<Rightarrow> dma_lli" where
  "rx_lli w buf next = \<lparr>lli_src = w_addr w At_DIO_SSP_DR, lli_dest = w_addr w buf, lli_next = w_addr w next,
     lli_control = of_nat DMA_SIZE OR push_bit 12 1 OR push_bit 15 1 OR push_bit 18 0 OR push_bit 21 0
       OR DMACCxControl_DI OR DMACCxControl_I\<rparr>"

definition dma_init :: "world \<Rightarrow> fw \<Rightarrow> fw option" where
  "dma_init w s = do {
     let s = reg_or PCONP PCONP_PCGPDMA s;
     let s = dma_clear s;
     let s = s\<lparr>rx_dma_lli1 := rx_lli w At_rxbuf1 At_rx_dma_lli2, rx_dma_lli2 := rx_lli w At_rxbuf2 At_rx_dma_lli1\<rparr>;
     let s = reg_write ICER0 ISER0_ISE_DMA s;
     let s = reg_write DMACConfig DMACConfig_E s;
     s \<leftarrow> reg_check DMACConfig (\<lambda>v. v AND DMACConfig_E \<noteq> 0) s;
     Some (dma_start (rx_dma_lli1 s) s)
   }"

definition le_lli :: "world \<Rightarrow> nat \<Rightarrow> dma_lli" where
  "le_lli w i = \<lparr>lli_src = w_addr w At_DIO_SSP_DR, lli_dest = w_addr w At_rxbuf1 + of_nat (4 * i),
     lli_next = (if i < 10 then w_addr w (At_le_dma_lli (i + 1)) else 0),
     lli_control = 4 OR push_bit 12 1 OR push_bit 15 0 OR push_bit 18 0 OR push_bit 21 0
       OR DMACCxControl_DI OR DMACCxControl_I\<rparr>"

definition dma_init_le :: "world \<Rightarrow> fw \<Rightarrow> fw option" where
  "dma_init_le w s = do {
     let s = reg_or PCONP PCONP_PCGPDMA s;
     let s = dma_clear s;
     let s = reg_write DMACConfig DMACConfig_E s;
     s \<leftarrow> reg_check DMACConfig (\<lambda>v. v AND DMACConfig_E \<noteq> 0) s;
     let s = s\<lparr>le_dma_lli := map (le_lli w) [0..<11]\<rparr>;
     Some (dma_start (le_dma_lli s ! 0) s)
   }"

text \<open>The interrupt handlers of the DMA engine, by the two interrupt causes of channel 0.\<close>

definition bt_stream_dma_handler :: "world \<Rightarrow> bool \<Rightarrow> bool \<Rightarrow> fw \<Rightarrow> fw" where
  "bt_stream_dma_handler w tc err s =
     (let s = (if tc then
                 let s = reg_write DMACIntTCClear 1 s;
                     s = (if hop_mode s = HOP_BLUETOOTH then pin_set DIO_SSEL s else s)
                 in s\<lparr>idle_buf_clk100ns := CLK100NS w s,
                      idle_buf_clkn_high := ucast (drop_bit 20 (clkn s) AND 0xff),
                      idle_buf_channel := channel s,
                      active_is_rxbuf1 := \<not> active_is_rxbuf1 s,
                      rx_tc := rx_tc s + 1\<rparr>
               else s)
      in if err then (reg_write DMACIntErrClr 1 s)\<lparr>rx_err := rx_err s + 1\<rparr> else s)"

definition DMA_IRQHandler :: "world \<Rightarrow> bool \<Rightarrow> bool \<Rightarrow> fw \<Rightarrow> fw" where
  "DMA_IRQHandler w tc err s =
     (if mode s \<in> {MODE_RX_SYMBOLS, MODE_SPECAN, MODE_BT_FOLLOW, MODE_BT_FOLLOW_LE,
                    MODE_BT_PROMISC_LE, MODE_BT_SLAVE_LE}
      then bt_stream_dma_handler w tc err s else s)"

definition dio_ssp_start :: "fw \<Rightarrow> fw" where
  "dio_ssp_start s =
     (let s = pin_set DIO_SSEL s;
          s = reg_or DIO_SSP_DMACR SSPDMACR_RXDMAE s;
          s = reg_or DIO_SSP_CR1 SSPCR1_SSE s;
          s = reg_or (DMACCConfig 0) DMACCxConfig_E s;
          s = reg_write ISER0 ISER0_ISE_DMA s
      in pin_clr DIO_SSEL s)"

definition dio_ssp_stop :: "fw \<Rightarrow> fw option" where
  "dio_ssp_stop s =
     (let s = pin_set DIO_SSEL s;
          s = reg_clear DIO_SSP_DMACR SSPDMACR_RXDMAE s;
          s = reg_clear DIO_SSP_CR1 SSPCR1_SSE s;
          s = reg_write ICER0 ISER0_ISE_DMA s;
          s = dma_clear s;
          s = reg_clear DMACConfig DMACConfig_E s
      in reg_check DMACConfig (\<lambda>v. v AND DMACConfig_E = 0) s)"

subsection \<open>USB service and interrupts\<close>

definition handle_usb :: "world \<Rightarrow> fw \<Rightarrow> fw option" where
  "handle_usb w s =
     (let s = s\<lparr>hist := hist s @ [Tick]\<rparr>;
          epstat = w_epstat w (hist s);
          s = s\<lparr>uq := send_queued epstat (clkn s) (uq s)\<rparr>
      in case w_request w (hist s) of None \<Rightarrow> Some s | Some rq \<Rightarrow> usb_vendor_request w rq s)"

text \<open>The DMA engine stores inside the buffer it was given.\<close>

definition dma_store :: "bool \<Rightarrow> nat \<Rightarrow> u8 list \<Rightarrow> fw \<Rightarrow> fw" where
  "dma_store first off bs s =
     (if first then s\<lparr>rxbuf1 := take DMA_SIZE (put_at off bs (rxbuf1 s))\<rparr>
      else s\<lparr>rxbuf2 := take DMA_SIZE (put_at off bs (rxbuf2 s))\<rparr>)"

fun take_irq :: "world \<Rightarrow> irq \<Rightarrow> fw \<Rightarrow> fw option" where
  "take_irq w Irq_timer s = Some (TIMER0_IRQHandler True s)"
| "take_irq w Irq_cs s = Some (EINT3_IRQHandler s)"
| "take_irq w (Irq_usb rq) s = usb_vendor_request w rq s"
| "take_irq w (Irq_dma first off bs tc err) s = Some (DMA_IRQHandler w tc err (dma_store first off bs s))"

definition interrupts :: "world \<Rightarrow> fw \<Rightarrow> fw option" where
  "interrupts w s =
     (let s = s\<lparr>hist := hist s @ [Tick]\<rparr> in for_each (take_irq w) (w_irqs w (hist s)) s)"

definition msleep :: "world \<Rightarrow> u32 \<Rightarrow> fw \<Rightarrow> fw option" where
  "msleep w millis s =
     (let stop_at = clkn s + millis * 3125 div 1000
      in while_opt (\<lambda>s. clkn s < stop_at) (interrupts w) s)"

subsection \<open>The handlers keep the invariant\<close>

lemma fw_inv_fields [simp]:
  "fw_inv (s\<lparr>clkn := a\<rparr>) = fw_inv s" "fw_inv (s\<lparr>clkn_offset := a\<rparr>) = fw_inv s"
  "fw_inv (s\<lparr>clk100ns_offset := h\<rparr>) = fw_inv s" "fw_inv (s\<lparr>do_hop := b\<rparr>) = fw_inv s"
  "fw_inv (s\<lparr>last_hop := a\<rparr>) = fw_inv s" "fw_inv (s\<lparr>cs_trigger := b\<rparr>) = fw_inv s"
  "fw_inv (s\<lparr>dma_discard := b\<rparr>) = fw_inv s" "fw_inv (s\<lparr>rx_tc := a\<rparr>) = fw_inv s"
  "fw_inv (s\<lparr>rx_err := a\<rparr>) = fw_inv s" "fw_inv (s\<lparr>status := c\<rparr>) = fw_inv s"
  "fw_inv (s\<lparr>rx_dma_lli1 := l\<rparr>) = fw_inv s" "fw_inv (s\<lparr>rx_dma_lli2 := l\<rparr>) = fw_inv s"
  "fw_inv (s\<lparr>le_dma_lli := ls\<rparr>) = fw_inv s" "fw_inv (s\<lparr>mode := m\<rparr>) = fw_inv s"
  "fw_inv (s\<lparr>requested_mode := m\<rparr>) = fw_inv s" "fw_inv (s\<lparr>modulation := c\<rparr>) = fw_inv s"
  "fw_inv (s\<lparr>jam_mode := c\<rparr>) = fw_inv s" "fw_inv (s\<lparr>le_jam_count := i\<rparr>) = fw_inv s"
  "fw_inv (s\<lparr>restart_jamming := b\<rparr>) = fw_inv s" "fw_inv (s\<lparr>data_cb := dc\<rparr>) = fw_inv s"
  "fw_inv (s\<lparr>packet_cb := pc\<rparr>) = fw_inv s" "fw_inv (s\<lparr>first_ts := a\<rparr>) = fw_inv s"
  "fw_inv (s\<lparr>prev_clk := a\<rparr>) = fw_inv s" "fw_inv (s\<lparr>idle_buf_clk100ns := a\<rparr>) = fw_inv s"
  "fw_inv (s\<lparr>idle_buf_clkn_high := c\<rparr>) = fw_inv s" "fw_inv (s\<lparr>idle_buf_channel := h\<rparr>) = fw_inv s"
  "fw_inv (s\<lparr>active_is_rxbuf1 := b\<rparr>) = fw_inv s" "fw_inv (s\<lparr>rr := q\<rparr>) = fw_inv s"
  "fw_inv (s\<lparr>rssi_max := i\<rparr>) = fw_inv s" "fw_inv (s\<lparr>rssi_min := i\<rparr>) = fw_inv s"
  "fw_inv (s\<lparr>rssi_sum := i\<rparr>) = fw_inv s" "fw_inv (s\<lparr>rssi_count := c\<rparr>) = fw_inv s"
  "fw_inv (s\<lparr>cs_threshold_cur := i\<rparr>) = fw_inv s" "fw_inv (s\<lparr>cs_no_squelch := b\<rparr>) = fw_inv s"
  "fw_inv (s\<lparr>pins := P\<rparr>) = fw_inv s" "fw_inv (s\<lparr>regs := R\<rparr>) = fw_inv s"
  "fw_inv (s\<lparr>board_reset := b\<rparr>) = fw_inv s"
  by (simp_all add: fw_inv_def)

lemma fw_inv_le: "fw_inv s \<Longrightarrow> length (le_target l) = 6 \<Longrightarrow> fw_inv (s\<lparr>le := l\<rparr>)"
  by (simp add: fw_inv_def)

lemma fw_inv_target [simp]: "fw_inv s \<Longrightarrow> length (le_target (le s)) = 6"
  by (simp add: fw_inv_def)

lemma fw_inv_regs [simp]:
  "fw_inv (reg_or r u s) = fw_inv s" "fw_inv (reg_clear r u s) = fw_inv s" "fw_inv (reg_writes rs u s) = fw_inv s"
  "fw_inv (dma_clear s) = fw_inv s" "fw_inv (dma_start l s) = fw_inv s"
  by (simp_all add: reg_or_def reg_clear_def reg_writes_eq dma_clear_def dma_start_def)

lemma reg_check_Some: "reg_check r p s = Some t \<longleftrightarrow> p (regs s r) \<and> t = s"
  by (auto simp: reg_check_def)

lemma fw_inv_dma [simp]:
  "dma_init w s = Some t \<Longrightarrow> fw_inv t = fw_inv s"
  "dma_init_le w s = Some t \<Longrightarrow> fw_inv t = fw_inv s"
  "fw_inv (dio_ssp_start s) = fw_inv s"
  "dio_ssp_stop s = Some t \<Longrightarrow> fw_inv t = fw_inv s"
  by (auto simp: dma_init_def dma_init_le_def dio_ssp_start_def dio_ssp_stop_def Let_def reg_check_Some split: bind_splits)

text \<open>The waits of the DMA setup on the enable bit end at once.\<close>

lemma dma_waits_end:
  "\<exists>t. dma_init w s = Some t" "\<exists>t. dma_init_le w s = Some t" "\<exists>t. dio_ssp_stop s = Some t"
  by (auto simp: dma_init_def dma_init_le_def dio_ssp_stop_def Let_def reg_check_def reg_write_def reg_clear_def
      intro!: bit_word_eqI simp: bit_simps)

lemma fw_inv_hop_trigger: "fw_inv s \<Longrightarrow> fw_inv (hop_trigger s)"
  using fw_inv_target [of s]
  by (simp add: hop_trigger_def Let_def fw_inv_le)

lemma fw_inv_timer: "fw_inv s \<Longrightarrow> fw_inv (TIMER0_IRQHandler mr0 s)"
  by (simp add: TIMER0_IRQHandler_def Let_def fw_inv_hop_trigger)

lemma fw_inv_eint3: "fw_inv (EINT3_IRQHandler s) = fw_inv s"
  by (simp add: EINT3_IRQHandler_def Let_def)

lemma fw_inv_stream_dma: "fw_inv (bt_stream_dma_handler w tc err s) = fw_inv s"
  unfolding bt_stream_dma_handler_def Let_def by (cases tc; cases err; cases "hop_mode s = HOP_BLUETOOTH") simp_all

lemma fw_inv_dma_irq: "fw_inv (DMA_IRQHandler w tc err s) = fw_inv s"
  by (simp add: DMA_IRQHandler_def fw_inv_stream_dma)

lemma length_dma_store: "length b = n \<Longrightarrow> length (take n (put_at off bs b)) = n"
  unfolding put_at_def by (simp add: min_def)

lemma fw_inv_dma_store: "fw_inv s \<Longrightarrow> fw_inv (dma_store first off bs s)"
  using length_dma_store [of "rxbuf1 s" DMA_SIZE off bs] length_dma_store [of "rxbuf2 s" DMA_SIZE off bs]
  unfolding dma_store_def by (simp add: fw_inv_def)

lemma dequeue_send_inv:
  assumes "usbq_wf q" and "list_all pkt_wf (uq_fifo q)"
  shows "usbq_wf (snd (dequeue_send c q)) \<and> list_all pkt_wf (uq_fifo (snd (dequeue_send c q)))"
proof (cases "dequeue q")
  case None
  with assms show ?thesis by (simp add: dequeue_send_def ep_write_def usbq_wf_def usbq_used_def)
next
  case (Some r)
  obtain i q' where r: "r = (i, q')" by (cases r)
  with dequeue_wf [OF assms(1), of i q'] Some have "usbq_wf q'" "uq_fifo q' = uq_fifo q" by simp_all
  with Some r assms(2) show ?thesis
    by (simp add: dequeue_send_def ep_write_def usbq_wf_def usbq_used_def)
qed

lemma send_queued_inv:
  "usbq_wf q \<Longrightarrow> list_all pkt_wf (uq_fifo q) \<Longrightarrow>
   usbq_wf (send_queued e c q) \<and> list_all pkt_wf (uq_fifo (send_queued e c q))"
  using dequeue_send_inv by (simp add: send_queued_def Let_def)

lemma fw_inv_uq: "fw_inv s \<Longrightarrow> usbq_wf q \<Longrightarrow> list_all pkt_wf (uq_fifo q) \<Longrightarrow> fw_inv (s\<lparr>uq := q\<rparr>)"
  by (simp add: fw_inv_def)

lemma fw_inv_handle_usb: "handle_usb w s = Some t \<Longrightarrow> fw_inv s \<Longrightarrow> fw_inv t"
proof -
  assume run: "handle_usb w s = Some t" and inv: "fw_inv s"
  let ?s = "(s\<lparr>hist := hist s @ [Tick]\<rparr>)\<lparr>uq := send_queued (w_epstat w (hist s @ [Tick])) (clkn s) (uq s)\<rparr>"
  have "fw_inv ?s"
    using inv send_queued_inv [of "uq s"] by (intro fw_inv_uq) (simp_all add: fw_inv_def)
  with run usb_vendor_request_inv [of w _ ?s] show "fw_inv t"
    by (auto simp: handle_usb_def Let_def split: option.splits)
qed

lemma fw_inv_take_irq: "take_irq w i s = Some t \<Longrightarrow> fw_inv s \<Longrightarrow> fw_inv t"
  by (cases i) (auto simp: fw_inv_timer fw_inv_eint3 fw_inv_dma_irq fw_inv_dma_store usb_vendor_request_inv)

lemma fw_inv_interrupts: "interrupts w s = Some t \<Longrightarrow> fw_inv s \<Longrightarrow> fw_inv t"
  unfolding interrupts_def Let_def
  by (erule for_each_invariant [where P = fw_inv]) (auto intro: fw_inv_take_irq)

lemma fw_inv_msleep: "msleep w m s = Some t \<Longrightarrow> fw_inv s \<Longrightarrow> fw_inv t"
  unfolding msleep_def Let_def
  by (drule while_opt_invariant [where P = fw_inv]) (auto intro: fw_inv_interrupts)

end
