(* ===== verification/Rxtx_Radio.thy ===== *)
theory Rxtx_Radio
  imports Rxtx_Irq
begin

text \<open>
  Driving the radio from \<^verbatim>\<open>bluetooth_rxtx.c\<close>: idle, receive with and without sync word detection,
  transmission of a Low Energy packet, jamming, and \<open>hop\<close>.
\<close>

definition rd_sets :: "world \<Rightarrow> (u8 \<times> u16) list \<Rightarrow> fw \<Rightarrow> fw" where
  "rd_sets w rvs s = foldl (\<lambda>s (r, v). rd_set w r v s) s rvs"

text \<open>\<open>while (!(cc2400_status() & XOSC16M_STABLE)); cc2400_strobe(SFSON); while (!(cc2400_status() & FS_LOCK));\<close>\<close>

definition rd_lock :: "world \<Rightarrow> fw \<Rightarrow> fw option" where
  "rd_lock w s = do {
     s \<leftarrow> rd_wait w XOSC16M_STABLE s;
     let s = rd_strobe w SFSON s;
     rd_wait w FS_LOCK s
   }"

text \<open>\<open>cc2400_strobe(SRFOFF); while ((cc2400_status() & FS_LOCK));\<close>\<close>

definition rd_off :: "world \<Rightarrow> fw \<Rightarrow> fw option" where
  "rd_off w s = rd_wait w (\<lambda>st. \<not> FS_LOCK st) (rd_strobe w SRFOFF s)"

abbreviation (input) STATE_STROBE_FS_ON :: u16 where "STATE_STROBE_FS_ON \<equiv> 15"

definition rd_ready :: "world \<Rightarrow> fw \<Rightarrow> fw option" where
  "rd_ready w s = rd_wait_reg w FSMSTATE (\<lambda>v. v AND 0x1f = STATE_STROBE_FS_ON) s"

definition cc2400_idle :: "world \<Rightarrow> fw \<Rightarrow> fw option" where
  "cc2400_idle w s = do {
     s \<leftarrow> rd_off w s;
     let s = pin_clr PAEN s;
     let s = pin_clr HGM s;
     let s = pin_clr RXLED s;
     let s = pin_clr TXLED s;
     let s = pin_clr USRLED s;
     Some (s\<lparr>mode := MODE_IDLE\<rparr>)
   }"

definition cc2400_rx :: "world \<Rightarrow> fw \<Rightarrow> fw option" where
  "cc2400_rx w s =
     (if modulation s \<notin> {MOD_BT_BASIC_RATE, MOD_BT_LOW_ENERGY} then Some s
      else do {
        let mdmctrl = (if modulation s = MOD_BT_BASIC_RATE then 0x0029 else 0x0040);
        let s = rd_sets w [(MANAND, 0x7fff), (LMTST, 0x2b22), (MDMTST0, 0x134b), (GRMDM, 0x0101),
                           (FSDIV, channel s - 1), (MDMCTRL, mdmctrl)] s;
        let s = cs_threshold_calc_and_set w s;
        s \<leftarrow> rd_lock w s;
        let s = rd_strobe w SRX s;
        let s = pin_set PAEN s;
        Some (pin_set HGM s)
      })"

definition cc2400_rx_sync :: "world \<Rightarrow> u32 \<Rightarrow> fw \<Rightarrow> fw option" where
  "cc2400_rx_sync w sync s =
     (if modulation s \<notin> {MOD_BT_BASIC_RATE, MOD_BT_LOW_ENERGY} then Some s
      else do {
        let (mdmctrl, grmdm) = (if modulation s = MOD_BT_BASIC_RATE then (0x0029, 0x0461) else (0x0040, 0x0561));
        let s = rd_sets w [(MANAND, 0x7fff), (LMTST, 0x2b22), (MDMTST0, 0x124b), (GRMDM, grmdm),
                           (SYNCL, ucast (sync AND 0xffff)), (SYNCH, ucast (drop_bit 16 sync AND 0xffff)),
                           (FSDIV, channel s - 1), (MDMCTRL, mdmctrl)] s;
        let s = cs_threshold_calc_and_set w s;
        s \<leftarrow> rd_lock w s;
        let s = rd_strobe w SRX s;
        let s = pin_set PAEN s;
        Some (pin_set HGM s)
      })"

subsection \<open>Transmitting\<close>

text \<open>The index of the whitening table at which the current channel starts.\<close>

definition whitening_start_of :: "u16 \<Rightarrow> nat" where
  "whitening_start_of ch = unat (whitening_index ! unat (btle_channel_index (ucast (ch - 2402))))"

text \<open>One byte of the packet, whitened from position \<open>idx\<close> on and reversed.\<close>

definition le_whiten_byte :: "nat \<Rightarrow> u8 \<Rightarrow> u8 \<times> nat" where
  "le_whiten_byte idx byte =
     foldl (\<lambda>(t, idx) j. (t OR push_bit (7 - j) ((drop_bit j byte AND 1) XOR whitening ! idx), (idx + 1) mod 127))
       (0, idx) [0..<8]"

fun le_whiten :: "nat \<Rightarrow> u8 list \<Rightarrow> u8 list" where
  "le_whiten idx [] = []"
| "le_whiten idx (b # bs) = (let (t, idx) = le_whiten_byte idx b in t # le_whiten idx bs)"

definition le_txbuf :: "u16 \<Rightarrow> u32 \<Rightarrow> u8 list \<Rightarrow> u8 list" where
  "le_txbuf ch aa data = map (\<lambda>i. rev_bits 8 (byte_at i aa)) [0..<4] @ le_whiten (whitening_start_of ch) data"

definition rd_gio6_wait :: "world \<Rightarrow> fw \<Rightarrow> fw option" where
  "rd_gio6_wait w s =
     map_option (\<lambda>h. s\<lparr>hist := h\<rparr>)
       (poll (\<lambda>h. (radio_gio6 (w_cc w) (h @ [ReadGio6]), h @ [ReadGio6])) (\<lambda>full. \<not> full) (hist s))"

definition rd_fifo :: "world \<Rightarrow> u8 list \<Rightarrow> fw \<Rightarrow> fw option" where
  "rd_fifo w bs s =
     for_each (\<lambda>i s. do {
         s \<leftarrow> rd_gio6_wait w s;
         Some (s\<lparr>hist := cc2400_spi_buf FIFOREG (take 16 (drop (16 * i) bs)) (hist s)\<rparr>)
       }) [0..<(length bs + 15) div 16] s"

text \<open>The transmit buffer holds 64 bytes, four of them for the access address.\<close>

definition le_transmit :: "world \<Rightarrow> u32 \<Rightarrow> u8 \<Rightarrow> u8 list \<Rightarrow> fw \<Rightarrow> fw option" where
  "le_transmit w aa len data s =
     (if 60 < len then None else do {
        let txbuf = le_txbuf (channel s) aa (take (unat len) data);
        let aa = foldl (\<lambda>aa i. drop_bit 8 aa) aa [0..<4];
        let s = rd_sets w [(MANAND, 0x7fff), (LMTST, 0x2b22), (MDMTST0, 0x134b), (GRMDM, 0x0c01),
                           (FSDIV, channel s), (FREND, 0xb), (MDMCTRL, 0x0040), (INTREG, 0x0014)] s;
        let s = rd_set w SYNCH (if aa AND 1 \<noteq> 0 then 0xaaaa else 0x5555) s;
        let (gio_save, s) = rd_get w IOCFG s;
        let s = rd_set w IOCFG (push_bit 9 39 OR (gio_save AND 0x1ff)) s;
        s \<leftarrow> rd_lock w s;
        let s = pin_set TXLED s;
        let s = pin_set PAEN s;
        s \<leftarrow> rd_ready w s;
        let s = rd_strobe w STX s;
        s \<leftarrow> rd_fifo w txbuf s;
        s \<leftarrow> rd_ready w s;
        let s = pin_clr TXLED s;
        s \<leftarrow> rd_off w s;
        let s = pin_clr PAEN s;
        Some (rd_set w IOCFG gio_save s)
      })"

definition le_jam :: "world \<Rightarrow> fw \<Rightarrow> fw option" where
  "le_jam w s = do {
     let s = rd_sets w [(MANAND, 0x7fff), (LMTST, 0x2b22), (MDMTST0, 0x234b), (GRMDM, 0x0c01),
                        (FREND, 0xb), (MDMCTRL, 0x0040)] s;
     s \<leftarrow> rd_lock w s;
     let s = pin_set TXLED s;
     let s = pin_set PAEN s;
     s \<leftarrow> rd_ready w s;
     Some (rd_strobe w STX s)
   }"

subsection \<open>Hopping\<close>

text \<open>The test \<open>afh_map[(channel-2402)/8] & 0x1<<((channel-2402)%8)\<close>; the map has ten bytes.\<close>

definition afh_test :: "u8 list \<Rightarrow> u16 \<Rightarrow> bool option" where
  "afh_test m ch =
     (if 2402 \<le> ch \<and> ch < 2482
      then Some (bit (m ! (unat (ch - 2402) div 8)) (unat (ch - 2402) mod 8)) else None)"

definition sweep_step :: "u16 \<Rightarrow> u16" where
  "sweep_step ch = (let ch = ch + 32 in if ch > 2480 then ch - 79 else ch)"

definition hop_sweep :: "fw \<Rightarrow> fw option" where
  "hop_sweep = loop_opt (\<lambda>s. do {
     let s = s\<lparr>channel := sweep_step (channel s)\<rparr>;
     if used_channels (bt s) \<noteq> 0 \<and> afh_enabled (bt s)
     then do { used \<leftarrow> afh_test (afh_map (bt s)) (channel s);
               Some (if used then Leave s else Again s) }
     else Some (Leave s)
   })"

definition hop_afh :: "fw \<Rightarrow> fw option" where
  "hop_afh = loop_opt (\<lambda>s. do {
     let s = s\<lparr>channel := sweep_step (channel s)\<rparr>;
     if used_channels (bt s) \<noteq> 79
     then do { used \<leftarrow> afh_test (afh_map (bt s)) (channel s);
               Some (if used then Again s else Leave s) }
     else Some (Leave s)
   })"

text \<open>Choosing the channel.\<close>

definition hop_select :: "fw \<Rightarrow> fw option" where
  "hop_select s = (case hop_mode s of
     HOP_NONE \<Rightarrow> Some s
   | HOP_SWEEP \<Rightarrow> hop_sweep (pin_set TXLED s)
   | HOP_AFH \<Rightarrow> hop_afh s
   | HOP_BLUETOOTH \<Rightarrow>
       (let s = pin_set TXLED s in map_option (\<lambda>ch. s\<lparr>channel := ch\<rparr>) (next_hop (bt s) (clkn s)))
   | HOP_BTLE \<Rightarrow>
       (let s = pin_set TXLED s; (ch, l) = btle_next_hop (le s) in Some (s\<lparr>channel := ch, le := l\<rparr>))
   | HOP_DIRECT \<Rightarrow> (let s = pin_set TXLED s in Some (s\<lparr>channel := hop_direct_channel s\<rparr>)))"

definition hop_retune :: "world \<Rightarrow> fw \<Rightarrow> fw option" where
  "hop_retune w s = do {
     s \<leftarrow> rd_off w s;
     let s = rd_set w FSDIV (channel s - 1) s;
     let s = (if hop_mode s \<noteq> HOP_NONE then cs_threshold_calc_and_set w s else s);
     let s = rd_strobe w SFSON s;
     s \<leftarrow> rd_wait w FS_LOCK s;
     let s = s\<lparr>dma_discard := True\<rparr>;
     Some (rd_strobe w SRX s)
   }"

definition hop :: "world \<Rightarrow> fw \<Rightarrow> fw option" where
  "hop w s = do {
     let s = s\<lparr>do_hop := False, last_hop := clkn s\<rparr>;
     if hop_mode s = HOP_NONE
     then do {
       let (v, s) = rd_get w FSDIV s;
       if v = channel s - 1 then Some s else hop_retune w s
     }
     else do { s \<leftarrow> hop_select s; hop_retune w s }
   }"

subsection \<open>These operations keep the invariant\<close>

lemma rd_sets_eq: "\<exists>h. rd_sets w rvs s = s\<lparr>hist := h\<rparr>"
proof (induction rvs arbitrary: s)
  case Nil
  show ?case by (intro exI [of _ "hist s"]) (simp add: rd_sets_def)
next
  case (Cons rv rvs)
  obtain h where "rd_sets w rvs (rd_set w (fst rv) (snd rv) s) = (rd_set w (fst rv) (snd rv) s)\<lparr>hist := h\<rparr>"
    using Cons.IH by blast
  then show ?case by (intro exI [of _ h]) (simp add: rd_sets_def split_beta)
qed

text \<open>What only the history of the radio changes.\<close>

definition hist_only :: "fw \<Rightarrow> fw \<Rightarrow> bool" where
  "hist_only s t \<longleftrightarrow> (\<exists>h. t = s\<lparr>hist := h\<rparr>)"

lemma hist_only_refl [simp]: "hist_only s s"
  unfolding hist_only_def by (intro exI [of _ "hist s"]) simp

lemma hist_only_upd [simp]: "hist_only s (t\<lparr>hist := h\<rparr>) = hist_only s t"
  unfolding hist_only_def by (cases s; cases t) auto

lemma hist_only_upd_left [simp]: "hist_only (s\<lparr>hist := h\<rparr>) t = hist_only s t"
  unfolding hist_only_def by simp

lemma hist_only_trans: "hist_only s t \<Longrightarrow> hist_only t u \<Longrightarrow> hist_only s u"
  by (auto simp: hist_only_def)

lemma hist_only_inv: "hist_only s t \<Longrightarrow> fw_inv t = fw_inv s"
  by (auto simp: hist_only_def)

lemma hist_only_rd:
  "hist_only s (rd_sets w rvs s)" "hist_only s (rd_set w r v s)" "hist_only s (rd_strobe w r s)"
  "hist_only s (snd (rd_get w r s))"
  "rd_wait w p s = Some t \<Longrightarrow> hist_only s t"
  "rd_wait_reg w r q s = Some t \<Longrightarrow> hist_only s t"
  "rd_gio6_wait w s = Some t \<Longrightarrow> hist_only s t"
  "reg_wait w rg u s = Some t \<Longrightarrow> hist_only s t"
  "rd_off w s = Some t \<Longrightarrow> hist_only s t"
  "rd_ready w s = Some t \<Longrightarrow> hist_only s t"
  using rd_sets_eq [of w rvs s]
  by (auto simp: rd_wait_def rd_wait_reg_def rd_gio6_wait_def reg_wait_def rd_off_def rd_ready_def
      simp flip: hist_only_def)

lemma hist_only_lock: "rd_lock w s = Some t \<Longrightarrow> hist_only s t"
  by (auto simp: rd_lock_def split: bind_splits dest!: hist_only_rd(5)
      intro: hist_only_trans)

lemma hist_only_fifo: "rd_fifo w bs s = Some t \<Longrightarrow> hist_only s t"
  unfolding rd_fifo_def
  by (erule for_each_invariant [where P = "hist_only s"])
    (auto split: bind_splits dest!: hist_only_rd(7) intro: hist_only_trans)

lemmas hist_only_fw_inv = hist_only_rd [THEN hist_only_inv] hist_only_lock [THEN hist_only_inv]
  hist_only_fifo [THEN hist_only_inv]

lemma fw_inv_rd [simp]:
  "fw_inv (rd_sets w rvs s) = fw_inv s"
  by (rule hist_only_fw_inv)

lemma fw_inv_radio:
  "cc2400_idle w s = Some t \<Longrightarrow> fw_inv t = fw_inv s"
  "cc2400_rx w s = Some t \<Longrightarrow> fw_inv t = fw_inv s"
  "cc2400_rx_sync w sy s = Some t \<Longrightarrow> fw_inv t = fw_inv s"
  "le_transmit w aa len data s = Some t \<Longrightarrow> fw_inv t = fw_inv s"
  "le_jam w s = Some t \<Longrightarrow> fw_inv t = fw_inv s"
  "hop_retune w s = Some t \<Longrightarrow> fw_inv t = fw_inv s"
  by (auto simp: cc2400_idle_def cc2400_rx_def cc2400_rx_sync_def le_transmit_def le_jam_def hop_retune_def
      Let_def split_beta hist_only_fw_inv split: bind_splits if_splits)

lemma tunable_sweep: "tunable ch \<Longrightarrow> tunable (sweep_step ch)"
  unfolding tunable_def sweep_step_def Let_def word_le_nat_alt word_less_nat_alt
  by (auto simp: unat_word_ariths unat_sub_if')

lemma fw_inv_channel: "fw_inv s \<Longrightarrow> tunable ch \<Longrightarrow> fw_inv (s\<lparr>channel := ch\<rparr>)"
  by (simp add: fw_inv_def)

lemma fw_inv_tunable: "fw_inv s \<Longrightarrow> tunable (channel s)"
  by (simp add: fw_inv_def)

lemma fw_inv_sweep: "hop_sweep s = Some t \<Longrightarrow> fw_inv s \<Longrightarrow> fw_inv t"
  unfolding hop_sweep_def
  by (erule loop_opt_invariant [where P = fw_inv])
    (auto simp: Let_def fw_inv_channel tunable_sweep fw_inv_tunable split: bind_splits if_splits)

lemma fw_inv_afh: "hop_afh s = Some t \<Longrightarrow> fw_inv s \<Longrightarrow> fw_inv t"
  unfolding hop_afh_def
  by (erule loop_opt_invariant [where P = fw_inv])
    (auto simp: Let_def fw_inv_channel tunable_sweep fw_inv_tunable split: bind_splits if_splits)

lemma tunable_phys: "tunable (btle_channel_index_to_phys idx)"
proof -
  have "list_all (\<lambda>i. tunable (btle_channel_index_to_phys (of_nat i))) [0..<256]" by code_simp
  moreover have "unat idx < 256" using unsigned_less [of idx, where 'a = nat] by simp
  ultimately show ?thesis by (auto simp: list_all_iff dest!: bspec [of _ _ "unat idx"])
qed

text \<open>Every hop, in whichever mode, that completes leaves the radio on a channel it can be tuned to.\<close>

lemma tunable_above_2402: "(c::u8) < 79 \<Longrightarrow> tunable (2402 + ucast c)"
proof -
  have "list_all (\<lambda>i. tunable (2402 + ucast (of_nat i :: u8))) [0..<79]" by code_simp
  moreover assume "c < 79"
  then have "unat c < 79" by (simp add: word_less_nat_alt)
  ultimately show ?thesis by (auto simp: list_all_iff dest!: bspec [of _ _ "unat c"])
qed

lemma tunable_bluetooth:
  assumes "list_all (\<lambda>c. c < 79) (bank b)" and "length (bank b) = 79" and "afh_bank b = replicate 79 0"
    and "next_hop b clock = Some ch"
  shows "tunable ch"
proof (cases "afh_enabled b")
  case True
  then show ?thesis using assms(3,4) by (auto simp: next_hop_def Let_def split: if_splits)
next
  case False
  then obtain i where "i < 79" and "next_hop b clock = Some (2402 + ucast (bank b ! i))"
    using next_hop_slot [of b clock] by auto
  then show ?thesis using assms(1,2,4) by (auto simp: list_all_length intro!: tunable_above_2402)
qed

lemma fw_inv_select: "hop_select s = Some t \<Longrightarrow> fw_inv s \<Longrightarrow> fw_inv t"
proof (cases "hop_mode s")
  case HOP_BLUETOOTH
  assume "hop_select s = Some t" and inv: "fw_inv s"
  then obtain ch where ch: "next_hop (bt s) (clkn s) = Some ch" and t: "t = (pin_set TXLED s)\<lparr>channel := ch\<rparr>"
    using HOP_BLUETOOTH by (auto simp: hop_select_def Let_def pin_set_def)
  have "tunable ch"
    using inv by (intro tunable_bluetooth [OF _ _ _ ch]) (simp_all add: fw_inv_def)
  with inv show ?thesis by (simp add: t fw_inv_channel)
next
  case HOP_BTLE
  assume "hop_select s = Some t" and inv: "fw_inv s"
  then have t: "t = (pin_set TXLED s)\<lparr>channel := btle_channel_index_to_phys (channel_idx (le s)),
      le := snd (btle_next_hop (le s))\<rparr>"
    using HOP_BTLE by (simp add: hop_select_def Let_def split_beta btle_next_hop_def pin_set_def)
  have "length (le_target (snd (btle_next_hop (le s)))) = 6" using inv by (simp add: btle_next_hop_def)
  then show ?thesis unfolding t by (intro fw_inv_le fw_inv_channel) (simp_all add: inv tunable_phys)
next
  case HOP_DIRECT
  assume "hop_select s = Some t" and inv: "fw_inv s"
  then show ?thesis using HOP_DIRECT
    by (auto simp: hop_select_def Let_def pin_set_def intro!: fw_inv_channel) (simp_all add: fw_inv_def)
qed (auto simp: hop_select_def fw_inv_sweep fw_inv_afh)

lemma fw_inv_hop: "hop w s = Some t \<Longrightarrow> fw_inv s \<Longrightarrow> fw_inv t"
  using fw_inv_select
  by (auto simp: hop_def Let_def split_beta hist_only_fw_inv fw_inv_radio split: bind_splits if_splits)

end
