(* ===== verification/Rxtx_Stream.thy ===== *)
theory Rxtx_Stream
  imports Rxtx_Radio
begin

text \<open>
  The classic Bluetooth stream and the two spectrum analysers of \<^verbatim>\<open>bluetooth_rxtx.c\<close>:
  \<open>bt_stream_rx\<close>, \<open>specan\<close> and \<open>led_specan\<close>. Each loop of the source is a definition over the
  state of the firmware and the local variables it carries.
\<close>

subsection \<open>Streaming\<close>

definition idle_rxbuf :: "fw \<Rightarrow> u8 list" where
  "idle_rxbuf s = (if active_is_rxbuf1 s then rxbuf2 s else rxbuf1 s)"

text \<open>\<open>(int8_t)(cc2400_get(RSSI) >> 8)\<close>\<close>

definition rd_rssi :: "world \<Rightarrow> fw \<Rightarrow> int \<times> fw" where
  "rd_rssi w s = (let (v, s) = rd_get w RSSI s in (s8 (uint (drop_bit 8 v)), s))"

text \<open>One sample while a buffer is being filled: the first one after a carrier sense trigger counts
  at least as the threshold. The pair carries \<open>rssi_at_trigger\<close>.\<close>

definition rssi_sample :: "world \<Rightarrow> fw \<times> int \<Rightarrow> fw \<times> int" where
  "rssi_sample w = (\<lambda>(s, rssi_at_trigger).
     let (rssi, s) = rd_rssi w s;
         (rssi, rssi_at_trigger) =
           (if cs_trigger s \<and> rssi_at_trigger = -128
            then let r = s8 (max rssi (cs_threshold_cur s + 54)) in (r, r)
            else (rssi, rssi_at_trigger))
     in (rssi_add rssi s, rssi_at_trigger))"

definition stream_wait :: "world \<Rightarrow> fw \<times> int \<Rightarrow> (fw \<times> int) option" where
  "stream_wait w = loop_opt (\<lambda>(s, trig). do {
     s \<leftarrow> interrupts w s;
     if rx_tc s \<noteq> 0 then Some (Leave (s, trig))
     else do {
       let (s, trig) = rssi_sample w (s, trig);
       s \<leftarrow> handle_usb w s;
       s \<leftarrow> (if do_hop s then hop w s else Some (pin_clr TXLED s));
       Some (Again (s, trig))
     }
   })"

text \<open>The status bits of a buffer.\<close>

definition status_or :: "u8 \<Rightarrow> fw \<Rightarrow> fw" where
  "status_or b s = s\<lparr>status := status s OR b\<rparr>"

definition stream_status :: "fw \<Rightarrow> fw" where
  "stream_status s =
     (let s = (if rx_err s \<noteq> 0 then status_or DMA_ERROR s else s);
          s = (if rx_tc s > 1 then status_or DMA_OVERFLOW s else s);
          s = (if dma_discard s then (status_or DISCARD s)\<lparr>dma_discard := False\<rparr> else s);
          s = rssi_iir_update s;
          s = (if cs_trigger s \<or> cs_no_squelch s then (status_or CS_TRIGGER s)\<lparr>cs_trigger := False\<rparr> else s)
      in if rssi_max s \<ge> cs_threshold_cur s + 54 then status_or RSSI_TRIGGER s else s)"

definition stream_round :: "world \<Rightarrow> fw \<Rightarrow> fw option" where
  "stream_round w s = do {
     let s = pin_clr RXLED s;
     let s = rssi_reset s;
     (s, trig) \<leftarrow> stream_wait w (s, -128);
     let s = pin_set RXLED s;
     let s = stream_status s;
     let s = snd (enqueue w BR_PACKET (idle_rxbuf s) s);
     s \<leftarrow> handle_usb w s;
     Some (s\<lparr>rx_tc := 0, rx_err := 0\<rparr>)
   }"

definition bt_stream_rx :: "world \<Rightarrow> fw \<Rightarrow> fw option" where
  "bt_stream_rx w s = do {
     let s = pin_clr RXLED s;
     let s = s\<lparr>uq := queue_init (uq s)\<rparr>;
     let s = dio_ssp_init s;
     s \<leftarrow> dma_init w s;
     let s = dio_ssp_start s;
     s \<leftarrow> cc2400_rx w s;
     let s = cs_trigger_enable s;
     s \<leftarrow> while_opt (\<lambda>s. requested_mode s = MODE_RX_SYMBOLS \<or> requested_mode s = MODE_BT_FOLLOW) (stream_round w) s;
     s \<leftarrow> dio_ssp_stop s;
     Some (cs_trigger_disable s)
   }"

subsection \<open>Spectrum analysis\<close>

text \<open>One frequency: \<open>i\<close> counts the samples in \<open>buf\<close>, which is sent when there are 16.\<close>

definition specan_step :: "world \<Rightarrow> u16 \<Rightarrow> fw \<times> u8 \<times> u8 list \<Rightarrow> (fw \<times> u8 \<times> u8 list) option" where
  "specan_step w f = (\<lambda>(s, i, buf). do {
     s \<leftarrow> interrupts w s;
     let s = rd_set w FSDIV (f - 1) s;
     let s = rd_strobe w SFSON s;
     s \<leftarrow> rd_wait w FS_LOCK s;
     let s = rd_strobe w SRX s;
     let k = 3 * unat i;
     let buf = buf[k := byte_at 1 f];
     let buf = buf[k + 1 := byte_at 0 f];
     let (v, s) = rd_get w RSSI s;
     let buf = buf[k + 2 := byte_at 1 v];
     let i = i + 1;
     (s, i) \<leftarrow> (if i = 16
                 then do { s \<leftarrow> handle_usb w (snd (enqueue w SPECAN buf s)); Some (s, 0) }
                 else Some (s, i));
     s \<leftarrow> rd_off w s;
     Some (s, i, buf)
   })"

text \<open>\<open>for (f = low_freq; f < high_freq + 1; f++)\<close>: the limit is read again in every round.\<close>

definition specan_sweep :: "world \<Rightarrow> fw \<times> u8 \<times> u8 list \<Rightarrow> (fw \<times> u8 \<times> u8 list) option" where
  "specan_sweep w = (\<lambda>(s, i, buf). do {
     (f, st) \<leftarrow> while_opt (\<lambda>(f, (s, i, buf)). uint f < uint (high_freq s) + 1)
        (\<lambda>(f, st). do { st \<leftarrow> specan_step w f st; Some (f + 1, st) })
        (low_freq s, (s, i, buf));
     Some st
   })"

text \<open>\<open>buf\<close> is not initialised: it starts with what is on the stack.\<close>

definition specan :: "world \<Rightarrow> fw \<Rightarrow> fw option" where
  "specan w s = do {
     let s = pin_set RXLED s;
     let s = s\<lparr>uq := queue_init (uq s)\<rparr>;
     let s = pin_set PAEN s;
     let s = rd_sets w [(LMTST, 0x2b22), (MDMTST0, 0x134b), (GRMDM, 0x0101), (MDMCTRL, 0x0029)] s;
     s \<leftarrow> rd_wait w XOSC16M_STABLE s;
     s \<leftarrow> rd_wait w (\<lambda>st. \<not> FS_LOCK st) s;
     (s, i, buf) \<leftarrow> while_opt (\<lambda>(s, i, buf). requested_mode s = MODE_SPECAN) (specan_sweep w)
        (s, 0, map (w_stack w (hist s)) [0..<DMA_SIZE]);
     Some (pin_clr RXLED s)
   }"

definition led_specan_pin :: "nat \<Rightarrow> pin" where
  "led_specan_pin i = (if i = 0 then TXLED else if i = 1 then RXLED else USRLED)"

definition led_specan_step :: "world \<Rightarrow> fw \<times> nat \<Rightarrow> (fw \<times> nat) option" where
  "led_specan_step w = (\<lambda>(s, i). do {
     s \<leftarrow> interrupts w s;
     let s = rd_set w FSDIV ([2412, 2437, 2462] ! i - 1) s;
     let s = rd_strobe w SFSON s;
     s \<leftarrow> rd_wait w FS_LOCK s;
     let s = rd_strobe w SRX s;
     let (lvl, s) = rd_rssi w s;
     let s = (if lvl > rssi_threshold s then pin_set (led_specan_pin i) s else pin_clr (led_specan_pin i) s);
     let i = (i + 1) mod 3;
     s \<leftarrow> handle_usb w s;
     s \<leftarrow> rd_off w s;
     Some (s, i)
   })"

definition led_specan :: "world \<Rightarrow> fw \<Rightarrow> fw option" where
  "led_specan w s = do {
     let s = pin_set PAEN s;
     let s = rd_sets w [(LMTST, 0x2b22), (MDMTST0, 0x134b), (GRMDM, 0x0101), (MDMCTRL, 0x0029), (RSSI, 0x00F1)] s;
     s \<leftarrow> rd_wait w XOSC16M_STABLE s;
     s \<leftarrow> rd_wait w (\<lambda>st. \<not> FS_LOCK st) s;
     (s, i) \<leftarrow> while_opt (\<lambda>(s, i). requested_mode s = MODE_LED_SPECAN) (led_specan_step w) (s, 0);
     Some s
   }"

subsection \<open>Streaming keeps the invariant\<close>

lemma fw_inv_rssi [simp]:
  "fw_inv (rssi_add v s) = fw_inv s" "fw_inv (rssi_reset s) = fw_inv s"
  "fw_inv (status_or b s) = fw_inv s" "fw_inv (cs_trigger_enable s) = fw_inv s"
  "fw_inv (cs_trigger_disable s) = fw_inv s" "fw_inv (snd (rd_rssi w s)) = fw_inv s"
  "fw_inv (fst (rssi_sample w (s, t))) = fw_inv s"
  by (simp_all add: rssi_add_def rssi_reset_def status_or_def cs_trigger_enable_def cs_trigger_disable_def
    rd_rssi_def rssi_sample_def Let_def split_beta)

lemma fw_inv_iir: "fw_inv s \<Longrightarrow> fw_inv (rssi_iir_update s)"
  by (simp add: rssi_iir_update_def Let_def fw_inv_def)

lemma fw_inv_stream_status: "fw_inv s \<Longrightarrow> fw_inv (stream_status s)"
  by (simp add: stream_status_def Let_def fw_inv_iir)

lemma fw_inv_queue_init [simp]: "fw_inv s \<Longrightarrow> fw_inv (s\<lparr>uq := queue_init (uq s)\<rparr>)"
  by (simp add: fw_inv_def)

lemma usb_enqueue_slot:
  assumes "usbq_wf q" and "usb_enqueue q = Some (t, q')"
  shows "t < 128 \<and> uq_fifo q' = uq_fifo q \<and> usbq_wf (q'\<lparr>uq_fifo := (uq_fifo q')[t := p]\<rparr>)"
proof -
  have t: "t < 128" and fifo: "uq_fifo q' = uq_fifo q"
    using assms by (auto simp: usb_enqueue_eq split: if_splits)
  have "length (usbq_list q) < 127"
    using usb_enqueue_full [OF assms(1)] usbq.length_abs [OF assms(1)] assms(2) by fastforce
  then obtain t2 q2 where "usb_enqueue q = Some (t2, q2)"
      and "\<And>p. usbq_wf (q2\<lparr>uq_fifo := (uq_fifo q2)[t2 := p]\<rparr>)"
    using usb_enqueue_room [OF assms(1)] by metis
  with assms(2) t fifo show ?thesis by simp
qed

lemma pkt_wf_slot: "list_all pkt_wf ps \<Longrightarrow> pkt_wf p \<Longrightarrow> list_all pkt_wf (ps[t := p])"
  by (rule list_all_update)

lemma fw_inv_enqueue:
  assumes "fw_inv s" and "DMA_SIZE \<le> length buf"
  shows "fw_inv (snd (enqueue w ty buf s))"
proof (cases "usb_enqueue (uq s)")
  case None
  with assms show ?thesis by (simp add: enqueue_def)
next
  case (Some r)
  obtain t q where r: "r = (t, q)" by (cases r)
  have q: "usbq_wf (uq s)" and ps: "list_all pkt_wf (uq_fifo (uq s))" using assms(1) by (simp_all add: fw_inv_def)
  have enq: "usb_enqueue (uq s) = Some (t, q)" using Some r by simp
  have slot: "t < 128" "uq_fifo q = uq_fifo (uq s)" "usbq_wf (q\<lparr>uq_fifo := (uq_fifo (uq s))[t := p]\<rparr>)" for p
    using usb_enqueue_slot [OF q enq, of p] by auto
  have old: "pkt_wf (uq_fifo (uq s) ! t)"
    using slot ps q by (auto simp: list_all_length usbq_wf_def)
  have "fw_inv (s\<lparr>uq := q\<lparr>uq_fifo := (uq_fifo q)[t := p]\<rparr>, status := 0\<rparr>)" if "pkt_wf p" for p
    using assms(1) that slot ps by (simp add: fw_inv_def pkt_wf_slot)
  then show ?thesis
    unfolding enqueue_def Some r option.case prod.case Let_def snd_conv
    using old slot assms(2) by (simp add: pkt_wf_def)
qed

lemma length_idle_rxbuf: "fw_inv s \<Longrightarrow> length (idle_rxbuf s) = DMA_SIZE"
  by (simp add: idle_rxbuf_def fw_inv_def)

lemma fw_inv_stream_wait:
  assumes "stream_wait w (s, trig) = Some (t, trig')" and "fw_inv s"
  shows "fw_inv t"
proof -
  have "fw_inv (fst (t, trig'))"
    using assms(1) unfolding stream_wait_def
  proof (rule loop_opt_invariant [where P = "\<lambda>st. fw_inv (fst st)"])
    show "fw_inv (fst (s, trig))" using assms(2) by simp
  qed (auto simp: Let_def fw_inv_interrupts fw_inv_hop fw_inv_handle_usb split: bind_splits if_splits
         dest!: fw_inv_interrupts fw_inv_hop fw_inv_handle_usb; simp add: split_beta)+
  then show ?thesis by simp
qed

lemma fw_inv_round: "stream_round w s = Some t \<Longrightarrow> fw_inv s \<Longrightarrow> fw_inv t"
  unfolding stream_round_def Let_def
  by (auto split: bind_splits dest!: fw_inv_stream_wait fw_inv_handle_usb
      simp: fw_inv_enqueue fw_inv_stream_status length_idle_rxbuf)

lemma fw_inv_stream: "bt_stream_rx w s = Some t \<Longrightarrow> fw_inv s \<Longrightarrow> fw_inv t"
  unfolding bt_stream_rx_def Let_def
  by (auto split: bind_splits simp: fw_inv_radio dest!: while_opt_keeps [where P = fw_inv] intro: fw_inv_round)

lemma fw_inv_specan_step:
  assumes "specan_step w f (s, i, buf) = Some (t, i', buf')" and "fw_inv s" and "length buf = DMA_SIZE"
  shows "fw_inv t \<and> length buf' = DMA_SIZE"
  using assms
  by (auto simp: specan_step_def Let_def split_beta hist_only_fw_inv fw_inv_enqueue
      split: bind_splits if_splits dest!: fw_inv_handle_usb fw_inv_interrupts)

lemma fw_inv_specan_sweep:
  assumes "specan_sweep w (s, i, buf) = Some (t, i', buf')" and "fw_inv s" and "length buf = DMA_SIZE"
  shows "fw_inv t \<and> length buf' = DMA_SIZE"
proof -
  let ?P = "\<lambda>(f :: u16, s, i :: u8, buf). fw_inv s \<and> length buf = DMA_SIZE"
  obtain f where run: "while_opt (\<lambda>(f, (s, i, buf)). uint f < uint (high_freq s) + 1)
        (\<lambda>(f, st). do { st \<leftarrow> specan_step w f st; Some (f + 1, st) })
        (low_freq s, (s, i, buf)) = Some (f, (t, i', buf'))"
    using assms(1) by (auto simp: specan_sweep_def split: bind_splits)
  have "?P (f, (t, i', buf'))"
    by (rule while_opt_keeps [where P = ?P, OF run])
      (use assms(2,3) in \<open>auto split: bind_splits dest!: fw_inv_specan_step\<close>)
  then show ?thesis by simp
qed

lemma fw_inv_specan:
  assumes "specan w s = Some t" and "fw_inv s"
  shows "fw_inv t"
proof -
  let ?P = "\<lambda>(s, i :: u8, buf). fw_inv s \<and> length buf = DMA_SIZE"
  have loop: "?P st'" if "while_opt b (specan_sweep w) st = Some st'" "?P st" for b st st'
    using that by (rule while_opt_keeps [where P = ?P]) (auto dest: fw_inv_specan_sweep)
  show ?thesis
    using assms
    by (auto simp: specan_def Let_def hist_only_fw_inv split: bind_splits dest!: loop)
qed

lemma fw_inv_led_step: "led_specan_step w (s, i) = Some (t, j) \<Longrightarrow> fw_inv s \<Longrightarrow> fw_inv t"
  by (auto simp: led_specan_step_def Let_def split_beta hist_only_fw_inv rd_rssi_def
      split: bind_splits if_splits dest!: fw_inv_handle_usb fw_inv_interrupts)

lemma fw_inv_led_specan:
  assumes "led_specan w s = Some t" and "fw_inv s"
  shows "fw_inv t"
proof -
  have loop: "fw_inv (fst st')" if "while_opt b (led_specan_step w) st = Some st'" "fw_inv (fst st)" for b st st'
    using that by (rule while_opt_keeps [where P = "\<lambda>st. fw_inv (fst st)"])
      (auto elim: fw_inv_led_step)
  show ?thesis
    using assms
    by (auto simp: led_specan_def Let_def hist_only_fw_inv split: bind_splits dest!: loop)
qed

end
