(* ===== verification/Rxtx_LE.thy ===== *)
theory Rxtx_LE
  imports Rxtx_Stream
begin

text \<open>
  The Low Energy link layer of \<^verbatim>\<open>bluetooth_rxtx.c\<close>: the callbacks that process a received packet
  (connection following, recovery of the parameters of an unknown connection, the search for
  access addresses) and the two receive loops, \<open>bt_generic_le\<close> on the raw symbol stream and
  \<open>bt_le_sync\<close> with the radio's sync word detection, with the modes built on them.
\<close>

subsection \<open>Reset\<close>

definition reset_le :: "fw \<Rightarrow> fw" where
  "reset_le s = s\<lparr>
     le := (le_set_access_address 0x8e89bed6 (le s))\<lparr>
       crc_init := 0x555555, crc_init_reversed := 0xAAAAAA, crc_verify := True, last_packet := 0,
       link_state := LINK_INACTIVE, channel_idx := 0, channel_increment := 0,
       conn_epoch := 0, interval_timer := 0, conn_interval := 0, conn_count := 0,
       win_size := 0, win_offset := 0,
       update_pending := False, update_instant := 0, interval_update := 0, new_win_size := 0\<rparr>,
     do_hop := False\<rparr>"

definition reset_le_promisc :: "fw \<Rightarrow> fw" where
  "reset_le_promisc s = s\<lparr>le_promisc :=
     \<lparr>active_aa = replicate 32 (0, 0), smallest_hop_interval = 0xffffffff, consec_intervals = 0\<rparr>\<rparr>"

abbreviation (input) JAM_COUNT_DEFAULT :: int where "JAM_COUNT_DEFAULT \<equiv> 40"
abbreviation (input) LE_BASECLK :: u32 where "LE_BASECLK \<equiv> 12500"

subsection \<open>Connection following\<close>

text \<open>The three cases of \<open>connection_follow_cb\<close>, by the state of the link.\<close>

definition follow_pending :: "fw \<Rightarrow> fw" where
  "follow_pending s =
     (let s = s\<lparr>le := (le s)\<lparr>link_state := LINK_CONNECTED, conn_epoch := clkn s,
                 interval_timer := conn_interval (le s) - 1, conn_count := 0, update_pending := False\<rparr>\<rparr>
      in if jam_mode s \<noteq> JAM_NONE then s\<lparr>le_jam_count := JAM_COUNT_DEFAULT\<rparr> else s)"

definition follow_connected :: "u8 list \<Rightarrow> fw \<Rightarrow> fw" where
  "follow_connected packet s =
     (let llid = packet ! 4 AND 0x03;
          l = le s;
          l = (if update_pending l \<and> conn_count l = update_instant l
               then l\<lparr>conn_epoch := clkn s, conn_interval := interval_update l,
                      interval_timer := interval_update l - 1, win_size := new_win_size l,
                      win_offset := new_win_offset l, update_pending := False\<rparr>
               else l);
          l = (if llid = 0x03 \<and> packet ! 6 = 0x00
               then let l = l\<lparr>new_win_size := packet ! 7,
                              new_win_offset := ucast (packet ! 8) + push_bit 8 (ucast (packet ! 9)),
                              interval_update := ucast (packet ! 10) + push_bit 8 (ucast (packet ! 11)),
                              update_instant := ucast (packet ! 16) + push_bit 8 (ucast (packet ! 17))\<rparr>
                    in if uint (update_instant l) - uint (conn_count l) < 32767
                       then l\<lparr>update_pending := True\<rparr> else l
               else l)
      in s\<lparr>le := l\<rparr>)"

definition follow_listening :: "u8 list \<Rightarrow> fw \<Rightarrow> fw" where
  "follow_listening packet s =
     (if packet ! 4 AND 0x0F \<noteq> 0x05 then s
      else if target_set (le s) \<and> le_target (le s) \<noteq> take 6 (drop 6 packet)
                \<and> le_target (le s) \<noteq> take 6 (drop 12 packet)
      then s
      else
        let l = (le s)\<lparr>link_state := LINK_CONN_PENDING, crc_verify := False\<rparr>;
            aa = foldl (\<lambda>aa i. aa OR push_bit (i * 8) (ucast (packet ! (18 + i)))) 0 [0..<4];
            l = le_set_access_address aa l;
            l = l\<lparr>crc_init := push_bit 16 (ucast (packet ! 24)) OR push_bit 8 (ucast (packet ! 23))
                    OR ucast (packet ! 22)\<rparr>;
            l = l\<lparr>crc_init_reversed := rbit (crc_init l)\<rparr>;
            l = l\<lparr>win_size := packet ! 25, win_offset := ucast (packet ! 26),
                  conn_interval := ucast (packet ! 28), channel_increment := packet ! 39 AND 0x1f\<rparr>;
            l = l\<lparr>channel_idx := channel_increment l\<rparr>
        in s\<lparr>le := l, do_hop := True\<rparr>)"

definition connection_follow_cb :: "u8 list \<Rightarrow> fw \<Rightarrow> fw" where
  "connection_follow_cb packet s = (case link_state (le s) of
     LINK_CONN_PENDING \<Rightarrow> follow_pending s
   | LINK_CONNECTED \<Rightarrow> follow_connected packet s
   | LINK_LISTENING \<Rightarrow> follow_listening packet s
   | LINK_INACTIVE \<Rightarrow> s)"

subsection \<open>Promiscuous mode\<close>

definition le_promisc_state :: "world \<Rightarrow> u8 \<Rightarrow> u8 list \<Rightarrow> fw \<Rightarrow> fw" where
  "le_promisc_state w type data s =
     (let data = take 49 data; buf = put_at 1 data ((replicate 50 0)[0 := type])
      in snd (enqueue w LE_PROMISC buf s))"

text \<open>\<open>DIVIDE_ROUND\<close>\<close>

definition divide_round :: "u32 \<Rightarrow> u32 \<Rightarrow> u32" where
  "divide_round n d = (n + d div 2) div d"

text \<open>Recovered on channels 2404 and 2406 MHz; a connection interval of zero is a division by
  zero.\<close>

definition promisc_recover_hop_increment :: "world \<Rightarrow> fw \<Rightarrow> fw option" where
  "promisc_recover_hop_increment w s =
     (if channel s = 2404
      then Some (s\<lparr>first_ts := CLK100NS w s, hop_direct_channel := 2406, do_hop := True\<rparr>)
      else if channel s = 2406
      then
        let second_ts = CLK100NS w s;
            second_ts = (if second_ts < first_ts s then second_ts + 3276800000 else second_ts);
            d = ucast (conn_interval (le s)) * LE_BASECLK
        in if d = 0 then None else
        let channels_hopped = divide_round (second_ts - first_ts s) d
        in if channels_hopped < 37
           then
             let inc = hop_interval_lut ! unat channels_hopped;
                 s = s\<lparr>le := (le s)\<lparr>channel_increment := inc, interval_timer := conn_interval (le s) div 2,
                         conn_count := 0, conn_epoch := 0\<rparr>, do_hop := False\<rparr>;
                 s = s\<lparr>le := (le s)\<lparr>channel_idx := of_nat ((1 + unat inc) mod 37),
                         link_state := LINK_CONNECTED, crc_verify := False\<rparr>,
                       hop_mode := HOP_BTLE, packet_cb := Connection_follow_cb\<rparr>;
                 s = le_promisc_state w 3 [inc] s
             in Some (if jam_mode s \<noteq> JAM_NONE then s\<lparr>le_jam_count := JAM_COUNT_DEFAULT\<rparr> else s)
           else Some (s\<lparr>hop_direct_channel := 2404, do_hop := True\<rparr>)
      else Some (s\<lparr>hop_direct_channel := 2404, do_hop := True\<rparr>))"

definition promisc_recover_hop_interval :: "world \<Rightarrow> fw \<Rightarrow> fw" where
  "promisc_recover_hop_interval w s =
     (let cur_clk = CLK100NS w s;
          cur_clk = (if cur_clk < prev_clk s then cur_clk + 3267800000 else cur_clk);
          clk_diff = cur_clk - prev_clk s
      in if clk_diff < 2 * LE_BASECLK then s
      else
        let s = (if clk_diff < smallest_hop_interval (le_promisc s)
                 then s\<lparr>le_promisc := (le_promisc s)\<lparr>smallest_hop_interval := clk_diff\<rparr>\<rparr> else s);
            obsv_hop_interval = ucast (divide_round (smallest_hop_interval (le_promisc s)) (37 * LE_BASECLK)) :: u16;
            s = (if conn_interval (le s) = obsv_hop_interval
                 then
                   let s = s\<lparr>le_promisc := (le_promisc s)\<lparr>consec_intervals := s32 (consec_intervals (le_promisc s) + 1)\<rparr>\<rparr>
                   in if consec_intervals (le_promisc s) = 5
                      then le_promisc_state w 2 (le_bytes 2 (conn_interval (le s)))
                             (s\<lparr>packet_cb := Promisc_recover_hop_increment, hop_direct_channel := 2404,
                               hop_mode := HOP_DIRECT, do_hop := True\<rparr>)
                      else s
                 else s\<lparr>le := (le s)\<lparr>conn_interval := obsv_hop_interval\<rparr>,
                        le_promisc := (le_promisc s)\<lparr>consec_intervals := 0\<rparr>\<rparr>)
        in s\<lparr>prev_clk := cur_clk\<rparr>)"

definition promisc_follow_cb :: "world \<Rightarrow> u8 list \<Rightarrow> fw \<Rightarrow> fw" where
  "promisc_follow_cb w packet s =
     (if \<not> crc_verify (le s) \<and> packet ! 4 = 0x01 \<and> packet ! 5 = 0x00
      then
        let crc = push_bit 16 (ucast (packet ! 8)) OR push_bit 8 (ucast (packet ! 7)) OR ucast (packet ! 6);
            l = (le s)\<lparr>crc_init := btle_reverse_crc crc (drop 4 packet) 2\<rparr>;
            l = l\<lparr>crc_init_reversed :=
                   foldl (\<lambda>r i. r OR push_bit (23 - i) (drop_bit i (crc_init l) AND 1)) 0 [0..<24]\<rparr>;
            l = l\<lparr>crc_verify := True\<rparr>
        in le_promisc_state w 1 (le_bytes 3 (crc_init l))
             (s\<lparr>le := l, packet_cb := Promisc_recover_hop_interval\<rparr>)
      else s)"

text \<open>The cache of access addresses. \<open>aa_find\<close> is the first loop of \<open>see_aa\<close>, \<open>aa_victim\<close> the
  second: the index of the entry to evict, and the smallest count so far.\<close>

fun aa_find :: "nat \<Rightarrow> u32 \<Rightarrow> (u32 \<times> int) list \<Rightarrow> nat option" where
  "aa_find i aa [] = None"
| "aa_find i aa (e # es) = (if fst e = aa then Some i else aa_find (Suc i) aa es)"

fun aa_victim :: "nat \<Rightarrow> int \<Rightarrow> int \<Rightarrow> (u32 \<times> int) list \<Rightarrow> int" where
  "aa_victim i mx killme [] = killme"
| "aa_victim i mx killme (e # es) =
     (if snd e < mx \<or> mx < 0 then aa_victim (Suc i) (snd e) (int i) es else aa_victim (Suc i) mx killme es)"

definition see_aa :: "u32 \<Rightarrow> (u32 \<times> int) list \<Rightarrow> (u32 \<times> int) list" where
  "see_aa aa es = (case aa_find 0 aa es of
     Some i \<Rightarrow> es[i := (fst (es ! i), s32 (snd (es ! i) + 1))]
   | None \<Rightarrow> es[nat (aa_victim 0 (-1) (-1) es) := (aa, 1)])"

subsection \<open>The packet callback\<close>

definition run_packet_cb :: "world \<Rightarrow> u8 list \<Rightarrow> fw \<Rightarrow> fw option" where
  "run_packet_cb w packet s = (case packet_cb s of
     No_packet_cb \<Rightarrow> None
   | Connection_follow_cb \<Rightarrow> Some (connection_follow_cb packet s)
   | Promisc_follow_cb \<Rightarrow> Some (promisc_follow_cb w packet s)
   | Promisc_recover_hop_interval \<Rightarrow> Some (promisc_recover_hop_interval w s)
   | Promisc_recover_hop_increment \<Rightarrow> promisc_recover_hop_increment w s)"

subsection \<open>Packets in the symbol stream\<close>

text \<open>One byte of the bit stream, at symbol \<open>start + 8 * j\<close>, least significant bit first; bytes from the
  fifth on are unwhitened from table position \<open>idx\<close>, which is carried along.\<close>

definition decode_byte :: "u8 list \<Rightarrow> nat \<Rightarrow> nat \<Rightarrow> nat \<Rightarrow> u8 \<times> nat" where
  "decode_byte unp start j idx =
     foldl (\<lambda>(byte, idx) k.
         let offset = k + 8 * j + start
         in if offset \<ge> DMA_SIZE * 8 * 2 then (byte, idx)
            else if j \<ge> 4
            then (byte OR push_bit k ((unp ! offset) XOR whitening ! idx), (idx + 1) mod 127)
            else (byte OR push_bit k (unp ! offset), idx))
       (0, idx) [0..<8]"

definition decode_packet :: "u8 list \<Rightarrow> nat \<Rightarrow> nat \<Rightarrow> nat \<Rightarrow> u8 list" where
  "decode_packet unp start idx n =
     fst (foldl (\<lambda>(bs, idx) j. let (b, idx) = decode_byte unp start j idx in (bs @ [b], idx)) ([], idx) [0..<n])"

definition set_idle_rxbuf :: "u8 list \<Rightarrow> fw \<Rightarrow> fw" where
  "set_idle_rxbuf bs s =
     (if active_is_rxbuf1 s then s\<lparr>rxbuf2 := put_at 0 bs (rxbuf2 s)\<rparr> else s\<lparr>rxbuf1 := put_at 0 bs (rxbuf1 s)\<rparr>)"

text \<open>The checksum over \<open>len\<close> bytes of payload and the one in the packet.\<close>

definition le_crc_ok :: "fw \<Rightarrow> u8 list \<Rightarrow> nat \<Rightarrow> bool" where
  "le_crc_ok s p len =
     (let calc_crc = btle_crcgen_lut (crc_init_reversed (le s)) (drop 4 p) len;
          wire_crc = push_bit 16 (ucast (p ! (4 + len + 2))) OR push_bit 8 (ucast (p ! (4 + len + 1)))
                       OR ucast (p ! (4 + len + 0))
      in calc_crc = wire_crc)"

text \<open>The search of \<open>cb_follow_le\<close>: the first position whose last 32 symbols are the access address.\<close>

fun find_aa :: "u8 list \<Rightarrow> u32 \<Rightarrow> u32 \<Rightarrow> nat list \<Rightarrow> nat option" where
  "find_aa unp target aa [] = None"
| "find_aa unp target aa (i # is) =
     (let aa = drop_bit 1 aa OR push_bit 31 (ucast (unp ! i))
      in if aa = target then Some i else find_aa unp target aa is)"

definition cb_follow_le :: "world \<Rightarrow> fw \<Rightarrow> (int \<times> fw) option" where
  "cb_follow_le w s =
     (let idx = whitening_start_of (channel s);
          aa = foldl (\<lambda>aa i. drop_bit 1 aa OR push_bit 31 (ucast (unpacked s ! i))) 0 [0..<31]
      in case find_aa (unpacked s) (access_address (le s)) aa [31..<DMA_SIZE * 8 + 32] of
           None \<Rightarrow> Some (1, s)
         | Some i \<Rightarrow>
             let s = set_idle_rxbuf (decode_packet (unpacked s) (i - 31) idx 46) s;
                 p = idle_rxbuf s;
                 len = unat (p ! 5 AND 0x3f) + 2
             in if crc_verify (le s) \<and> 4 + len + 2 \<ge> DMA_SIZE then None
                else if crc_verify (le s) \<and> \<not> le_crc_ok s p len then Some (1, s)
                else do {
                  let s = snd (enqueue w LE_PACKET p s);
                  let s = pin_set RXLED s;
                  s \<leftarrow> run_packet_cb w p s;
                  Some (1, s)
                })"

text \<open>The four headers of an empty data packet, as symbols.\<close>

definition desired_headers :: "u8 list list" where
  "desired_headers = map (\<lambda>h. h @ replicate 12 0)
     [[1, 0, 0, 0], [1, 0, 0, 1], [1, 0, 1, 0], [1, 0, 1, 1]]"

definition whiten_symbols :: "nat \<Rightarrow> u8 list \<Rightarrow> u8 list" where
  "whiten_symbols idx bs = map (\<lambda>j. bs ! j XOR whitening ! ((idx + j) mod 127)) [0..<length bs]"

definition promisc_match :: "world \<Rightarrow> u8 list \<Rightarrow> nat \<Rightarrow> fw \<Rightarrow> fw" where
  "promisc_match w unp i s =
     (let idx = whitening_start_of (channel s);
          desired = map (whiten_symbols idx) desired_headers
      in if \<not> list_ex (\<lambda>d. take 16 (drop i unp) = d) desired then s
         else
           let s = set_idle_rxbuf (decode_packet unp (i - 32) idx 10) s;
               b = idle_rxbuf s;
               aa = push_bit 24 (ucast (b ! 3)) OR push_bit 16 (ucast (b ! 2)) OR push_bit 8 (ucast (b ! 1))
                      OR ucast (b ! 0);
               s = s\<lparr>le_promisc := (le_promisc s)\<lparr>active_aa := see_aa aa (active_aa (le_promisc s))\<rparr>\<rparr>
           in snd (enqueue w LE_PACKET b s))"

definition cb_le_promisc :: "world \<Rightarrow> fw \<Rightarrow> int \<times> fw" where
  "cb_le_promisc w s =
     (let unp = unpacked s;
          s = foldl (\<lambda>s i. promisc_match w unp i s) s [32..<DMA_SIZE * 8 * 2 - 32 - 16]
      in case find (\<lambda>e. snd e > 3) (active_aa (le_promisc s)) of
           Some e \<Rightarrow>
             (let s = s\<lparr>le := (le_set_access_address (fst e) (le s))\<lparr>crc_verify := False\<rparr>,
                        data_cb := Cb_follow_le, packet_cb := Promisc_follow_cb\<rparr>
              in (0, le_promisc_state w 0 (le_bytes 4 (access_address (le s))) s))
         | None \<Rightarrow> (1, s))"

definition run_data_cb :: "world \<Rightarrow> fw \<Rightarrow> (int \<times> fw) option" where
  "run_data_cb w s = (case data_cb s of
     No_data_cb \<Rightarrow> None
   | Cb_follow_le \<Rightarrow> cb_follow_le w s
   | Cb_le_promisc \<Rightarrow> Some (cb_le_promisc w s))"

subsection \<open>Receiving the symbol stream\<close>

definition generic_wait :: "world \<Rightarrow> fw \<times> int \<Rightarrow> (fw \<times> int) option" where
  "generic_wait w = loop_opt (\<lambda>(s, trig). do {
     s \<leftarrow> interrupts w s;
     if rx_tc s = 0 \<and> rx_err s = 0 then Some (Again (rssi_sample w (s, trig))) else Some (Leave (s, trig))
   })"

text \<open>Every received bit becomes a symbol; the buffer is shifted out in the process.\<close>

definition unpack_symbols :: "fw \<Rightarrow> fw" where
  "unpack_symbols s =
     (let bits = concat (map (\<lambda>b. map (\<lambda>j. drop_bit 7 (push_bit j b AND 0x80)) [0..<8]) (idle_rxbuf s));
          s = s\<lparr>unpacked := drop (DMA_SIZE * 8) (unpacked s) @ bits\<rparr>
      in set_idle_rxbuf (map (\<lambda>b. push_bit 8 b) (idle_rxbuf s)) s)"

text \<open>Retuning to a channel the host has asked for.\<close>

definition le_retune :: "world \<Rightarrow> fw \<Rightarrow> fw option" where
  "le_retune w s = do {
     s \<leftarrow> rd_off w s;
     let s = rd_set w FSDIV (channel s - 1) s;
     let s = rd_strobe w SFSON s;
     s \<leftarrow> rd_wait w FS_LOCK s;
     Some (rd_strobe w SRX s)
   }"

abbreviation (input) CS_HOLD_TIME :: u8 where "CS_HOLD_TIME \<equiv> 2"

text \<open>What follows the reception of a buffer; \<open>rx_continue\<close> is the label at the end of the loop.\<close>

definition rx_continue :: "fw \<Rightarrow> fw" where
  "rx_continue s = s\<lparr>rx_tc := 0, rx_err := 0\<rparr>"

definition generic_triggers :: "fw \<times> u8 \<Rightarrow> fw \<times> u8" where
  "generic_triggers = (\<lambda>(s, hold).
     let s = (if rx_tc s > 1 then status_or DMA_OVERFLOW s else s);
         s = rssi_iir_update s;
         (s, hold) = (if cs_trigger s \<or> cs_no_squelch s
                      then ((status_or CS_TRIGGER s)\<lparr>cs_trigger := False\<rparr>, CS_HOLD_TIME) else (s, hold))
     in if rssi_max s \<ge> cs_threshold_cur s + 54 then (status_or RSSI_TRIGGER s, CS_HOLD_TIME) else (s, hold))"

definition generic_process :: "world \<Rightarrow> fw \<times> u8 \<Rightarrow> (fw \<times> u8) step option" where
  "generic_process w = (\<lambda>(s, hold). do {
     let s = (if rx_err s \<noteq> 0 then status_or DMA_ERROR s else s);
     if rx_tc s = 0 then Some (Again (rx_continue s, hold)) else do {
       let (s, hold) = generic_triggers (s, hold);
       if hold = 0 then Some (Again (rx_continue s, hold)) else do {
         let hold = hold - 1;
         let s = unpack_symbols s;
         (ret, s) \<leftarrow> run_data_cb w s;
         Some (if ret = 0 then Leave (s, hold) else Again (rx_continue s, hold))
       }
     }
   })"

definition generic_round :: "world \<Rightarrow> operating_mode \<Rightarrow> fw \<times> u8 \<Rightarrow> (fw \<times> u8) step option" where
  "generic_round w active_mode = (\<lambda>(s, hold).
     if requested_mode s \<noteq> active_mode then Some (Leave (s, hold)) else do {
       s \<leftarrow> (if requested_channel s \<noteq> 0
             then do { s \<leftarrow> le_retune w s; Some (s\<lparr>requested_channel := 0\<rparr>) } else Some s);
       s \<leftarrow> (if do_hop s then hop w s else Some (pin_clr TXLED s));
       let s = pin_clr RXLED s;
       let s = rssi_reset s;
       (s, trig) \<leftarrow> generic_wait w (s, -128);
       generic_process w (s, hold)
     })"

definition bt_generic_le :: "world \<Rightarrow> operating_mode \<Rightarrow> fw \<Rightarrow> fw option" where
  "bt_generic_le w active_mode s = do {
     let s = s\<lparr>modulation := MOD_BT_LOW_ENERGY, mode := active_mode\<rparr>;
     let s = reset_le s;
     let s = reg_write ISER0 ISER0_ISE_USB s;
     let s = pin_clr RXLED s;
     let s = s\<lparr>uq := queue_init (uq s)\<rparr>;
     let s = dio_ssp_init s;
     s \<leftarrow> dma_init w s;
     let s = dio_ssp_start s;
     s \<leftarrow> cc2400_rx w s;
     let s = cs_trigger_enable s;
     (s, hold) \<leftarrow> loop_opt (generic_round w active_mode) (s, 0);
     let s = reg_write ICER0 ISER0_ISE_USB s;
     s \<leftarrow> cc2400_idle w s;
     s \<leftarrow> dio_ssp_stop s;
     Some (cs_trigger_disable s)
   }"

subsection \<open>The callbacks keep the invariant\<close>

lemma le_target_set_aa [simp]: "le_target (le_set_access_address aa l) = le_target l"
  by (simp add: le_set_access_address_def Let_def)

lemma fw_inv_reset_le [simp]: "fw_inv s \<Longrightarrow> fw_inv (reset_le s)"
  unfolding reset_le_def by (simp add: fw_inv_le)

lemma fw_inv_reset_promisc [simp]: "fw_inv s \<Longrightarrow> fw_inv (reset_le_promisc s)"
  by (simp add: reset_le_promisc_def fw_inv_def)

lemma fw_inv_follow:
  assumes "fw_inv s"
  shows "fw_inv (connection_follow_cb packet s)"
proof -
  have t: "length (le_target (le s)) = 6" using assms by simp
  have "fw_inv (follow_pending s)"
    using assms t by (simp add: follow_pending_def Let_def fw_inv_le)
  moreover have "fw_inv (follow_connected packet s)"
    unfolding follow_connected_def Let_def using assms t by (intro fw_inv_le) simp_all
  moreover have "fw_inv (follow_listening packet s)"
    unfolding follow_listening_def Let_def using assms t by (simp add: fw_inv_le)
  ultimately show ?thesis
    using assms by (simp add: connection_follow_cb_def split: link_state_t.split)
qed

lemma fw_inv_promisc_state: "fw_inv s \<Longrightarrow> fw_inv (le_promisc_state w ty data s)"
  unfolding le_promisc_state_def Let_def by (rule fw_inv_enqueue) (simp_all add: put_at_def)

lemma fw_inv_direct: "fw_inv s \<Longrightarrow> tunable ch \<Longrightarrow> fw_inv (s\<lparr>hop_direct_channel := ch\<rparr>)"
  by (simp add: fw_inv_def)

lemma fw_inv_hop_mode: "fw_inv s \<Longrightarrow> m \<noteq> HOP_DIRECT \<Longrightarrow> fw_inv (s\<lparr>hop_mode := m\<rparr>)"
  by (simp add: fw_inv_def direct_ok_def)

lemma fw_inv_hop_direct: "fw_inv s \<Longrightarrow> tunable ch \<Longrightarrow> fw_inv (s\<lparr>hop_direct_channel := ch, hop_mode := m\<rparr>)"
  by (simp add: fw_inv_def direct_ok_def)

lemma tunable_2404 [simp]: "tunable 2404" "tunable 2406" "tunable 2440"
  by (simp_all add: tunable_def)

lemma fw_inv_increment:
  "promisc_recover_hop_increment w s = Some t \<Longrightarrow> fw_inv s \<Longrightarrow> fw_inv t"
  unfolding promisc_recover_hop_increment_def Let_def
  by (auto simp: fw_inv_direct fw_inv_hop_mode fw_inv_le fw_inv_promisc_state split: if_splits)

lemma fw_inv_le_promisc: "fw_inv s \<Longrightarrow> length (active_aa p) = 32 \<Longrightarrow> fw_inv (s\<lparr>le_promisc := p\<rparr>)"
  by (simp add: fw_inv_def)

lemma fw_inv_active_aa: "fw_inv s \<Longrightarrow> length (active_aa (le_promisc s)) = 32"
  by (simp add: fw_inv_def)

lemma fw_inv_interval: "fw_inv s \<Longrightarrow> fw_inv (promisc_recover_hop_interval w s)"
  unfolding promisc_recover_hop_interval_def Let_def
  by (simp add: fw_inv_hop_direct fw_inv_le fw_inv_promisc_state fw_inv_le_promisc fw_inv_active_aa)

lemma fw_inv_promisc_follow: "fw_inv s \<Longrightarrow> fw_inv (promisc_follow_cb w packet s)"
  unfolding promisc_follow_cb_def Let_def
  by (simp add: fw_inv_le fw_inv_promisc_state)

lemma fw_inv_packet_cb: "run_packet_cb w packet s = Some t \<Longrightarrow> fw_inv s \<Longrightarrow> fw_inv t"
  by (auto simp: run_packet_cb_def fw_inv_follow fw_inv_interval fw_inv_promisc_follow
      split: packet_cb_t.splits intro: fw_inv_increment)

lemma length_see_aa [simp]: "length (see_aa aa es) = length es"
  by (simp add: see_aa_def split: option.split)

lemma length_decode_packet [simp]: "length (decode_packet unp start idx n) = n"
proof -
  have "length (fst (foldl (\<lambda>(bs, idx) j. let (b, idx) = decode_byte unp start j idx in (bs @ [b], idx)) (bs, idx) js))
      = length bs + length js" for bs idx js
    by (induction js arbitrary: bs idx) (simp_all add: split_beta)
  then show ?thesis by (simp add: decode_packet_def)
qed

lemma fw_inv_set_idle: "fw_inv s \<Longrightarrow> length bs \<le> DMA_SIZE \<Longrightarrow> fw_inv (set_idle_rxbuf bs s)"
  by (simp add: set_idle_rxbuf_def fw_inv_def)

lemma fw_inv_promisc_match: "fw_inv s \<Longrightarrow> fw_inv (promisc_match w unp i s)"
  unfolding promisc_match_def Let_def
  by (simp add: fw_inv_enqueue fw_inv_set_idle fw_inv_le_promisc fw_inv_active_aa length_idle_rxbuf
      del: fw_inv_fields)

lemma fw_inv_cb_promisc: "cb_le_promisc w s = (r, t) \<Longrightarrow> fw_inv s \<Longrightarrow> fw_inv t"
proof -
  assume run: "cb_le_promisc w s = (r, t)" and inv: "fw_inv s"
  have "fw_inv (foldl (\<lambda>s i. promisc_match w unp i s) s is)" for unp "is"
    using inv by (induction "is" arbitrary: s) (simp_all add: fw_inv_promisc_match)
  then have match: "fw_inv (foldl (\<lambda>s i. promisc_match w (unpacked s0) i s) s [32..<DMA_SIZE * 8 * 2 - 32 - 16])" for s0
    by blast
  define s1 where "s1 = foldl (\<lambda>s' i. promisc_match w (unpacked s) i s') s [32..<DMA_SIZE * 8 * 2 - 32 - 16]"
  have "fw_inv s1" unfolding s1_def by (rule match)
  with run show "fw_inv t"
    unfolding cb_le_promisc_def Let_def s1_def [symmetric]
    by (auto simp: fw_inv_promisc_state fw_inv_le split: option.splits)
qed

lemma fw_inv_cb_follow: "cb_follow_le w s = Some (r, t) \<Longrightarrow> fw_inv s \<Longrightarrow> fw_inv t"
proof -
  assume run: "cb_follow_le w s = Some (r, t)" and inv: "fw_inv s"
  let ?s = "\<lambda>i. set_idle_rxbuf (decode_packet (unpacked s) (i - 31) (whitening_start_of (channel s)) 46) s"
  have s: "fw_inv (?s i)" for i using inv by (simp add: fw_inv_set_idle)
  then have "fw_inv (snd (enqueue w LE_PACKET (idle_rxbuf (?s i)) (?s i)))" for i
    by (intro fw_inv_enqueue) (simp_all add: length_idle_rxbuf)
  with run inv s show "fw_inv t"
    unfolding cb_follow_le_def Let_def
    by (auto split: option.splits if_splits bind_splits dest: fw_inv_packet_cb)
qed

lemma fw_inv_data_cb: "run_data_cb w s = Some (r, t) \<Longrightarrow> fw_inv s \<Longrightarrow> fw_inv t"
  by (auto simp: run_data_cb_def split: data_cb_t.splits intro: fw_inv_cb_promisc fw_inv_cb_follow)

subsection \<open>The generic loop keeps the invariant\<close>

lemma fw_inv_sample: "rssi_sample w (s, b) = (t, c) \<Longrightarrow> fw_inv t = fw_inv s"
  using fw_inv_rssi(7) [of w s b] by simp

lemma fw_inv_generic_wait:
  assumes "generic_wait w (s, trig) = Some (t, trig')" and "fw_inv s"
  shows "fw_inv t"
proof -
  have "fw_inv (fst (t, trig'))"
    using assms(1) unfolding generic_wait_def
  proof (rule loop_opt_invariant [where P = "\<lambda>st. fw_inv (fst st)"])
    show "fw_inv (fst (s, trig))" using assms(2) by simp
  qed (auto simp: fw_inv_sample split: bind_splits if_splits dest!: fw_inv_interrupts)
  then show ?thesis by simp
qed

lemma fw_inv_unpack: "fw_inv s \<Longrightarrow> fw_inv (unpack_symbols s)"
proof -
  assume inv: "fw_inv s"
  then have len: "length (idle_rxbuf s) = DMA_SIZE" by (rule length_idle_rxbuf)
  have "length (concat (map (\<lambda>b. map (f b) [0..<8]) bs)) = 8 * length bs" for f :: "u8 \<Rightarrow> nat \<Rightarrow> u8" and bs
    by (induction bs) simp_all
  with inv len have "fw_inv (s\<lparr>unpacked := drop (DMA_SIZE * 8) (unpacked s)
      @ concat (map (\<lambda>b. map (\<lambda>j. drop_bit 7 (push_bit j b AND 0x80)) [0..<8]) (idle_rxbuf s))\<rparr>)"
    by (simp add: fw_inv_def)
  with len show ?thesis
    unfolding unpack_symbols_def Let_def
    by (intro fw_inv_set_idle) (simp_all add: idle_rxbuf_def split: if_splits)
qed

lemma fw_inv_rx_continue [simp]: "fw_inv (rx_continue s) = fw_inv s"
  by (simp add: rx_continue_def)

lemma fw_inv_triggers: "generic_triggers (s, h) = (t, k) \<Longrightarrow> fw_inv s \<Longrightarrow> fw_inv t"
  unfolding generic_triggers_def Let_def
  by (cases "rx_tc s > 1") (auto simp: fw_inv_iir split: if_splits)

lemma fw_inv_generic_process:
  assumes "generic_process w (s, hold) = Some r" and "fw_inv s"
  shows "fw_inv (fst (step_state r))"
proof -
  let ?s = "if rx_err s \<noteq> 0 then status_or DMA_ERROR s else s"
  obtain t k where t: "generic_triggers (?s, hold) = (t, k)" by (cases "generic_triggers (?s, hold)")
  have "fw_inv ?s" using assms(2) by simp
  then have "fw_inv t" by (rule fw_inv_triggers [OF t])
  then have "fw_inv (unpack_symbols t)" by (rule fw_inv_unpack)
  define u where "u = ?s"
  have run: "(if rx_tc u = 0 then Some (Again (rx_continue u, hold))
      else if k = 0 then Some (Again (rx_continue t, k))
      else do { (ret, s) \<leftarrow> run_data_cb w (unpack_symbols t);
                Some (if ret = 0 then Leave (s, k - 1) else Again (rx_continue s, k - 1)) }) = Some r"
    using assms(1) t unfolding generic_process_def Let_def prod.case u_def [symmetric]
    by (cases "rx_tc u = 0") simp_all
  have "fw_inv u" unfolding u_def by fact
  with run \<open>fw_inv t\<close> \<open>fw_inv (unpack_symbols t)\<close> show ?thesis
    by (cases "rx_tc u = 0"; cases "k = 0") (auto split: bind_splits dest: fw_inv_data_cb)
qed

lemma fw_inv_retune: "le_retune w s = Some t \<Longrightarrow> fw_inv t = fw_inv s"
  by (auto simp: le_retune_def Let_def hist_only_fw_inv split: bind_splits)

lemma fw_inv_requested: "fw_inv s \<Longrightarrow> fw_inv (s\<lparr>requested_channel := 0\<rparr>)"
  by (simp add: fw_inv_def)

lemma fw_inv_opt_hop:
  "(if do_hop s then hop w s else Some (pin_clr TXLED s)) = Some t \<Longrightarrow> fw_inv s \<Longrightarrow> fw_inv t"
  by (auto split: if_splits intro: fw_inv_hop)

lemma fw_inv_opt_retune:
  "(if requested_channel s \<noteq> 0 then do { s \<leftarrow> le_retune w s; Some (s\<lparr>requested_channel := 0\<rparr>) } else Some s) = Some t
    \<Longrightarrow> fw_inv s \<Longrightarrow> fw_inv t"
  by (auto simp: fw_inv_requested fw_inv_retune split: if_splits bind_splits)

lemma fw_inv_generic_round:
  assumes "generic_round w m (s, hold) = Some r" and "fw_inv s"
  shows "fw_inv (fst (step_state r))"
proof (cases "requested_mode s = m")
  case False
  with assms show ?thesis by (auto simp: generic_round_def)
next
  case True
  then have run: "(if requested_channel s \<noteq> 0
            then do { s \<leftarrow> le_retune w s; Some (s\<lparr>requested_channel := 0\<rparr>) } else Some s) \<bind>
      (\<lambda>s. (if do_hop s then hop w s else Some (pin_clr TXLED s)) \<bind>
           (\<lambda>s. generic_wait w (rssi_reset (pin_clr RXLED s), -128) \<bind>
                (\<lambda>(s, trig). generic_process w (s, hold)))) = Some r"
    using assms(1) by (simp add: generic_round_def Let_def)
  obtain s1 s2 s3 trig where s1: "(if requested_channel s \<noteq> 0
            then do { s \<leftarrow> le_retune w s; Some (s\<lparr>requested_channel := 0\<rparr>) } else Some s) = Some s1"
      and s2: "(if do_hop s1 then hop w s1 else Some (pin_clr TXLED s1)) = Some s2"
      and s3: "generic_wait w (rssi_reset (pin_clr RXLED s2), -128) = Some (s3, trig)"
      and r: "generic_process w (s3, hold) = Some r"
    using run unfolding bind_eq_Some_conv [where f = "if _ then _ else _"] bind_eq_Some_conv [where f = "generic_wait _ _"]
      split_paired_Ex prod.case by blast
  from fw_inv_opt_hop [OF s2 fw_inv_opt_retune [OF s1 assms(2)]] have "fw_inv (rssi_reset (pin_clr RXLED s2))" by simp
  from fw_inv_generic_process [OF r fw_inv_generic_wait [OF s3 this]] show ?thesis .
qed

lemma fw_inv_generic: "bt_generic_le w m s = Some t \<Longrightarrow> fw_inv s \<Longrightarrow> fw_inv t"
proof -
  have loop: "fw_inv (fst st')" if "loop_opt (generic_round w m) st = Some st'" "fw_inv (fst st)" for st st'
    using that by (rule loop_opt_invariant [where P = "\<lambda>st. fw_inv (fst st)"])
      (auto dest: fw_inv_generic_round)
  show "bt_generic_le w m s = Some t \<Longrightarrow> fw_inv s \<Longrightarrow> fw_inv t"
    unfolding bt_generic_le_def Let_def
    by (auto split: bind_splits simp: fw_inv_radio dest!: loop)
qed

end
