(* ===== verification/Rxtx_LE_Sync.thy ===== *)
theory Rxtx_LE_Sync
  imports Rxtx_LE
begin

text \<open>
  \<open>bt_le_sync\<close> of \<^verbatim>\<open>bluetooth_rxtx.c\<close>, the receive loop that uses the radio's sync word
  detection, and the modes that run it: connection following, promiscuous mode and the advertising
  slave. The body of the loop is cut at its labels: what follows the reception (\<open>sync_receive\<close>), the
  code at \<open>rx_flush\<close> and the resumption of reception. Its ways out are the labels it jumps to.
\<close>

datatype sync_next = To_flush fw | To_cleanup fw | To_next fw

subsection \<open>Receiving\<close>

text \<open>The busy wait for data, a hop, or a change of mode.\<close>

definition sync_wait :: "world \<Rightarrow> operating_mode \<Rightarrow> fw \<Rightarrow> fw option" where
  "sync_wait w active_mode = loop_opt (\<lambda>s. do {
     s \<leftarrow> interrupts w s;
     Some (if rx_tc s = 0 \<and> rx_err s = 0 \<and> \<not> do_hop s \<and> requested_mode s = active_mode then Again s else Leave s)
   })"

text \<open>Four bytes of the buffer as the radio delivers them, most significant bit first, put into the
  order of the air and unwhitened.\<close>

definition unwhiten_word :: "u8 list \<Rightarrow> u32 list \<Rightarrow> nat \<Rightarrow> u32" where
  "unwhiten_word buf whit i =
     (let v = push_bit 24 (ucast (buf ! i)) OR push_bit 16 (ucast (buf ! (i + 1)))
            OR push_bit 8 (ucast (buf ! (i + 2))) OR push_bit 0 (ucast (buf ! (i + 3)))
      in rbit v XOR whit ! (i div 4))"

definition unwhiten_words :: "u8 list \<Rightarrow> u32 list \<Rightarrow> nat list \<Rightarrow> u8 list" where
  "unwhiten_words buf whit is = concat (map (\<lambda>i. le_bytes 4 (unwhiten_word buf whit i)) is)"

text \<open>Waiting for the DMA engine to have stored enough of the packet.\<close>

definition sync_transfer :: "world \<Rightarrow> nat \<Rightarrow> fw \<Rightarrow> fw option" where
  "sync_transfer w total_transfers = loop_opt (\<lambda>s. do {
     s \<leftarrow> interrupts w s;
     let (more, s) =
       (if total_transfers < 11
        then apfst (\<lambda>v. v < w_addr w At_rxbuf1 + 4 * of_nat total_transfers) (reg_read w DMACC0DestAddr s)
        else apfst (\<lambda>v. v AND DMACCxConfig_E \<noteq> 0) (reg_read w (DMACCConfig 0) s));
     Some (if more \<and> rx_err s = 0 then Again s else Leave s)
   })"

text \<open>Processing a packet. The packet is the access address, eleven unwhitened words and four bytes
  of the local array that are never written.\<close>

definition sync_packet :: "world \<Rightarrow> fw \<Rightarrow> fw option" where
  "sync_packet w s = do {
     let aa = le_bytes 4 (access_address (le s));
     let whit = whitening_word ! unat (btle_channel_index (ucast (channel s - 2402)));
     let head = unwhiten_words (rxbuf1 s) whit [0];
     let len = unat ((aa @ head) ! 5 AND 0x3f) + 2;
     if len > 39 then Some s else do {
       let total_transfers = ((len + 3) + 4 - 1) div 4;
       s \<leftarrow> sync_transfer w total_transfers s;
       let s = reg_clear DIO_SSP_DMACR SSPDMACR_RXDMAE s;
       let p = aa @ head @ unwhiten_words (rxbuf1 s) whit (map (\<lambda>k. 4 * k) [1..<11])
                 @ map (w_stack w (hist s)) [0..<4];
       if crc_verify (le s) \<and> \<not> le_crc_ok s p len then Some s
       else do {
         let s = pin_set RXLED s;
         s \<leftarrow> run_packet_cb w p s;
         let s = snd (enqueue w LE_PACKET p s);
         Some (s\<lparr>le := (le s)\<lparr>last_packet := CLK100NS w s\<rparr>\<rparr>)
       }
     }
   }"

definition sync_receive :: "world \<Rightarrow> operating_mode \<Rightarrow> fw \<Rightarrow> sync_next option" where
  "sync_receive w active_mode s = do {
     let s = pin_clr RXLED s;
     let s = rssi_reset s;
     s \<leftarrow> sync_wait w active_mode s;
     let (rssi, s) = rd_rssi w s;
     let s = s\<lparr>rssi_max := rssi, rssi_min := rssi\<rparr>;
     if requested_mode s \<noteq> active_mode then Some (To_cleanup s) else do {
       let s = (if rx_err s \<noteq> 0 then status_or DMA_ERROR s else s);
       if do_hop s then Some (To_flush s)
       else if rx_tc s = 0 then Some (To_next s)
       else map_option To_flush (sync_packet w s)
     }
   }"

subsection \<open>Flushing\<close>

abbreviation (input) SSPSR_RNE :: u32 where "SSPSR_RNE \<equiv> 0x4"

definition ssp_flush :: "world \<Rightarrow> fw \<Rightarrow> fw option" where
  "ssp_flush w = loop_opt (\<lambda>s.
     let (v, s) = reg_read w SSP1SR s
     in Some (if v AND SSPSR_RNE \<noteq> 0 then Again (snd (reg_read w DIO_SSP_DR s)) else Leave s))"

text \<open>The time since the last packet, in units of 100 ns.\<close>

definition since_last_packet :: "world \<Rightarrow> fw \<Rightarrow> u32" where
  "since_last_packet w s =
     (let now = CLK100NS w s;
          now = (if now < last_packet (le s) then now + 3276800000 else now)
      in now - last_packet (le s))"

definition sync_timeout :: "world \<Rightarrow> fw \<Rightarrow> bool" where
  "sync_timeout w s \<longleftrightarrow>
     (link_state (le s) = LINK_CONNECTED \<or> link_state (le s) = LINK_CONN_PENDING)
       \<and> since_last_packet w s > 50000000
     \<or> le_jam_count s = 1"

definition sync_lost :: "world \<Rightarrow> operating_mode \<Rightarrow> fw \<Rightarrow> sync_next option" where
  "sync_lost w active_mode s = do {
     let s = reset_le s;
     let s = s\<lparr>le_jam_count := 0\<rparr>;
     let s = pin_clr TXLED s;
     if jam_mode s = JAM_ONCE then Some (To_cleanup (s\<lparr>jam_mode := JAM_NONE, requested_mode := MODE_IDLE\<rparr>))
     else if active_mode = MODE_BT_PROMISC_LE then Some (To_cleanup s)
     else do {
       let s = s\<lparr>le := (le s)\<lparr>link_state := LINK_LISTENING\<rparr>\<rparr>;
       s \<leftarrow> rd_off w s;
       Some (To_next (s\<lparr>channel := (if saved_request s \<noteq> 0 then saved_request s else 2402), restart_jamming := True\<rparr>))
     }
   }"

definition sync_resume :: "world \<Rightarrow> fw \<Rightarrow> fw option" where
  "sync_resume w s = do {
     let s = rd_set w SYNCL (syncl (le s)) s;
     let s = rd_set w SYNCH (synch (le s)) s;
     s \<leftarrow> (if do_hop s then hop w s else Some s);
     s \<leftarrow> (if le_jam_count s > 0
           then do { s \<leftarrow> le_jam w s; Some (s\<lparr>le_jam_count := le_jam_count s - 1\<rparr>) }
           else do {
             s \<leftarrow> dma_init_le w s;
             let s = dio_ssp_start s;
             if restart_jamming s
             then do { s \<leftarrow> cc2400_rx_sync w (rbit (access_address (le s))) s; Some (s\<lparr>restart_jamming := False\<rparr>) }
             else Some (rd_strobe w SRX s)
           });
     Some (rx_continue s)
   }"

definition sync_flush :: "world \<Rightarrow> operating_mode \<Rightarrow> fw \<Rightarrow> fw step option" where
  "sync_flush w active_mode s = do {
     let s = rd_strobe w SFSON s;
     s \<leftarrow> rd_wait w FS_LOCK s;
     let s = reg_clear DIO_SSP_DMACR SSPDMACR_RXDMAE s;
     s \<leftarrow> ssp_flush w s;
     r \<leftarrow> (if sync_timeout w s then sync_lost w active_mode s else Some (To_next s));
     case r of
       To_cleanup s \<Rightarrow> Some (Leave s)
     | To_flush s \<Rightarrow> map_option Again (sync_resume w s)
     | To_next s \<Rightarrow> map_option Again (sync_resume w s)
   }"

subsection \<open>The loop and the modes\<close>

definition sync_round :: "world \<Rightarrow> operating_mode \<Rightarrow> fw \<Rightarrow> fw step option" where
  "sync_round w active_mode s =
     (if requested_mode s \<noteq> active_mode then Some (Leave s) else do {
        s \<leftarrow> (if requested_channel s \<noteq> 0
              then do { s \<leftarrow> le_retune w s;
                        Some (s\<lparr>saved_request := requested_channel s, requested_channel := 0\<rparr>) }
              else Some s);
        r \<leftarrow> sync_receive w active_mode s;
        case r of
          To_cleanup s \<Rightarrow> Some (Leave s)
        | To_next s \<Rightarrow> Some (Again s)
        | To_flush s \<Rightarrow> sync_flush w active_mode s
      })"

definition bt_le_sync :: "world \<Rightarrow> operating_mode \<Rightarrow> fw \<Rightarrow> fw option" where
  "bt_le_sync w active_mode s = do {
     let s = s\<lparr>modulation := MOD_BT_LOW_ENERGY, mode := active_mode\<rparr>;
     let s = s\<lparr>le := (le s)\<lparr>link_state := LINK_LISTENING\<rparr>\<rparr>;
     let s = reg_write ISER0 ISER0_ISE_USB s;
     let s = pin_clr RXLED s;
     let s = s\<lparr>uq := queue_init (uq s)\<rparr>;
     let s = dio_ssp_init s;
     s \<leftarrow> dma_init_le w s;
     let s = dio_ssp_start s;
     s \<leftarrow> cc2400_rx_sync w (rbit (access_address (le s))) s;
     s \<leftarrow> loop_opt (sync_round w active_mode) s;
     let s = reg_write ICER0 ISER0_ISE_USB s;
     s \<leftarrow> cc2400_idle w s;
     s \<leftarrow> dio_ssp_stop s;
     Some (cs_trigger_disable s)
   }"

definition bt_follow_le :: "world \<Rightarrow> fw \<Rightarrow> fw option" where
  "bt_follow_le w s = do {
     let s = reset_le s;
     let s = s\<lparr>packet_cb := Connection_follow_cb\<rparr>;
     s \<leftarrow> bt_le_sync w MODE_BT_FOLLOW_LE s;
     Some (s\<lparr>mode := MODE_IDLE\<rparr>)
   }"

definition promisc_round :: "world \<Rightarrow> fw \<Rightarrow> fw step option" where
  "promisc_round w s =
     (if requested_mode s \<noteq> MODE_BT_PROMISC_LE then Some (Leave s) else do {
        let s = reset_le_promisc s;
        let s = (if channel s AND 1 = 1 then s\<lparr>channel := 2440\<rparr> else s);
        s \<leftarrow> (if \<not> target_set (le s)
              then bt_generic_le w MODE_BT_PROMISC_LE ((cs_threshold_calc_and_set w s)\<lparr>data_cb := Cb_le_promisc\<rparr>)
              else Some s);
        if requested_mode s \<noteq> MODE_BT_PROMISC_LE then Some (Leave s) else do {
          let s = le_promisc_state w 0 (le_bytes 4 (access_address (le s))) s;
          let s = s\<lparr>packet_cb := Promisc_follow_cb, le := (le s)\<lparr>crc_verify := False\<rparr>\<rparr>;
          map_option Again (bt_le_sync w MODE_BT_PROMISC_LE s)
        }
      })"

definition bt_promisc_le :: "world \<Rightarrow> fw \<Rightarrow> fw option" where
  "bt_promisc_le w = loop_opt (promisc_round w)"

text \<open>The advertising packet of the slave: header, address in reverse order, flags, checksum.\<close>

definition slave_adv_ind :: "fw \<Rightarrow> u8 list" where
  "slave_adv_ind s =
     (let adv_ind = [0x00, 0x09] @ map (\<lambda>i. slave_mac_address s ! (5 - i)) [0..<6] @ [0x02, 0x01, 0x05];
          calc_crc = btle_calc_crc (crc_init_reversed (le s)) adv_ind (length adv_ind)
      in adv_ind @ [byte_at 0 calc_crc, byte_at 1 calc_crc, byte_at 2 calc_crc])"

definition slave_round :: "world \<Rightarrow> u8 list \<Rightarrow> fw \<Rightarrow> fw option" where
  "slave_round w adv_ind s = do {
     let s = reg_write ICER0 ISER0_ISE_USB s;
     let s = reg_write ICER0 ISER0_ISE_DMA s;
     s \<leftarrow> le_transmit w 0x8e89bed6 (of_nat (length adv_ind)) adv_ind s;
     let s = reg_write ISER0 ISER0_ISE_USB s;
     let s = reg_write ISER0 ISER0_ISE_DMA s;
     msleep w 100 s
   }"

definition bt_slave_le :: "world \<Rightarrow> fw \<Rightarrow> fw option" where
  "bt_slave_le w s =
     while_opt (\<lambda>s. requested_mode s = MODE_BT_SLAVE_LE) (slave_round w (slave_adv_ind s)) s"

subsection \<open>The loop keeps the invariant\<close>

fun next_state :: "sync_next \<Rightarrow> fw" where
  "next_state (To_flush s) = s"
| "next_state (To_cleanup s) = s"
| "next_state (To_next s) = s"

lemma fw_inv_reg_read [simp]: "fw_inv (snd (reg_read w r s)) = fw_inv s"
  by (simp add: reg_read_def Let_def)

lemma fw_inv_sync_wait:
  assumes "sync_wait w m s = Some t" and "fw_inv s"
  shows "fw_inv t"
  using assms unfolding sync_wait_def
  by (elim loop_opt_invariant [where P = fw_inv]) (auto split: bind_splits if_splits dest: fw_inv_interrupts)

lemma fw_inv_sync_transfer:
  assumes "sync_transfer w n s = Some t" and "fw_inv s"
  shows "fw_inv t"
  using assms unfolding sync_transfer_def Let_def
  by (elim loop_opt_invariant [where P = fw_inv])
    (auto simp: apfst_def map_prod_def split_beta split: bind_splits if_splits dest: fw_inv_interrupts)

lemma fw_inv_ssp_flush:
  assumes "ssp_flush w s = Some t" and "fw_inv s"
  shows "fw_inv t"
  using assms unfolding ssp_flush_def Let_def
  by (elim loop_opt_invariant [where P = fw_inv]) (auto simp: split_beta split: if_splits)

lemma length_unwhiten_words [simp]: "length (unwhiten_words buf whit is) = 4 * length is"
  by (induction "is") (simp_all add: unwhiten_words_def)

lemma fw_inv_sync_packet:
  assumes "sync_packet w s = Some t" and "fw_inv s"
  shows "fw_inv t"
proof -
  let ?whit = "whitening_word ! unat (btle_channel_index (ucast (channel s - 2402)))"
  let ?aa = "le_bytes 4 (access_address (le s))" and ?head = "unwhiten_words (rxbuf1 s) ?whit [0]"
  define len where "len = unat ((?aa @ ?head) ! 5 AND 0x3f) + 2"
  show ?thesis
  proof (cases "len > 39")
    case True
    then have "t = s" using assms(1) unfolding sync_packet_def Let_def len_def [symmetric] by simp
    with assms(2) show ?thesis by simp
  next
    case False
    then obtain s1 where s1: "sync_transfer w (((len + 3) + 4 - 1) div 4) s = Some s1"
      using assms(1) unfolding sync_packet_def Let_def len_def [symmetric] by (auto split: bind_splits)
    have inv1: "fw_inv s1" by (rule fw_inv_sync_transfer [OF s1 assms(2)])
    define s2 where "s2 = reg_clear DIO_SSP_DMACR SSPDMACR_RXDMAE s1"
    have inv2: "fw_inv s2" using inv1 by (simp add: s2_def)
    define p where "p = ?aa @ ?head @ unwhiten_words (rxbuf1 s2) ?whit (map (\<lambda>k. 4 * k) [1..<11])
                 @ map (w_stack w (hist s2)) [0..<4]"
    have p: "DMA_SIZE \<le> length p" by (simp add: p_def)
    have run: "(if crc_verify (le s2) \<and> \<not> le_crc_ok s2 p len then Some s2
       else run_packet_cb w p (pin_set RXLED s2) \<bind>
         (\<lambda>s. let s = snd (enqueue w LE_PACKET p s) in Some (s\<lparr>le := (le s)\<lparr>last_packet := CLK100NS w s\<rparr>\<rparr>))) = Some t"
      using assms(1) False s1
      unfolding sync_packet_def Let_def len_def [symmetric] p_def s2_def by simp
    show ?thesis
    proof (cases "crc_verify (le s2) \<and> \<not> le_crc_ok s2 p len")
      case True
      with run inv2 show ?thesis by simp
    next
      case False
      with run obtain s3 where s3: "run_packet_cb w p (pin_set RXLED s2) = Some s3"
        and t: "t = (snd (enqueue w LE_PACKET p s3))\<lparr>le := (le (snd (enqueue w LE_PACKET p s3)))
          \<lparr>last_packet := CLK100NS w (snd (enqueue w LE_PACKET p s3))\<rparr>\<rparr>"
        by (auto simp: Let_def split: bind_splits)
      have "fw_inv s3" using fw_inv_packet_cb [OF s3] inv2 by simp
      then have "fw_inv (snd (enqueue w LE_PACKET p s3))" by (rule fw_inv_enqueue) (rule p)
      then show ?thesis unfolding t by (intro fw_inv_le) simp_all
    qed
  qed
qed

lemma fw_inv_sync_receive:
  assumes "sync_receive w m s = Some r" and "fw_inv s"
  shows "fw_inv (next_state r)"
proof -
  obtain s1 where s1: "sync_wait w m (rssi_reset (pin_clr RXLED s)) = Some s1"
    using assms(1) by (auto simp: sync_receive_def Let_def split: bind_splits)
  have "fw_inv s1" using fw_inv_sync_wait [OF s1] assms(2) by simp
  define s2 where "s2 = (snd (rd_rssi w s1))\<lparr>rssi_max := fst (rd_rssi w s1), rssi_min := fst (rd_rssi w s1)\<rparr>"
  have "fw_inv s2" using \<open>fw_inv s1\<close> by (simp add: s2_def)
  define s3 where "s3 = (if rx_err s2 \<noteq> 0 then status_or DMA_ERROR s2 else s2)"
  have "fw_inv s3" using \<open>fw_inv s2\<close> by (simp add: s3_def)
  have "(if requested_mode s2 \<noteq> m then Some (To_cleanup s2)
       else if do_hop s3 then Some (To_flush s3)
       else if rx_tc s3 = 0 then Some (To_next s3)
       else map_option To_flush (sync_packet w s3)) = Some r"
    using assms(1) s1
    by (simp only: sync_receive_def Let_def split_beta bind.bind_lunit s2_def s3_def)
  with \<open>fw_inv s2\<close> \<open>fw_inv s3\<close> show ?thesis
    by (auto split: if_splits dest: fw_inv_sync_packet)
qed

lemma fw_inv_sync_lost:
  assumes "sync_lost w m s = Some r" and "fw_inv s"
  shows "fw_inv (next_state r)"
proof -
  define s1 where "s1 = pin_clr TXLED ((reset_le s)\<lparr>le_jam_count := 0\<rparr>)"
  have i1: "fw_inv s1" using assms(2) by (simp add: s1_def)
  define s2 where "s2 = s1\<lparr>le := (le s1)\<lparr>link_state := LINK_LISTENING\<rparr>\<rparr>"
  have i2: "fw_inv s2" using i1 by (simp add: s2_def fw_inv_le)
  have saved: "tunable (saved_request t)" if "fw_inv t" and "saved_request t \<noteq> 0" for t
    using that by (auto simp: fw_inv_def tunable0_def)
  have "(if jam_mode s1 = JAM_ONCE then Some (To_cleanup (s1\<lparr>jam_mode := JAM_NONE, requested_mode := MODE_IDLE\<rparr>))
     else if m = MODE_BT_PROMISC_LE then Some (To_cleanup s1)
     else rd_off w s2 \<bind> (\<lambda>s. Some (To_next (s\<lparr>channel := (if saved_request s \<noteq> 0 then saved_request s else 2402),
       restart_jamming := True\<rparr>)))) = Some r"
    using assms(1) unfolding sync_lost_def Let_def s1_def [symmetric] s2_def [symmetric] .
  with i1 i2 show ?thesis
    by (auto split: if_splits bind_splits simp: hist_only_fw_inv saved intro!: fw_inv_channel)
qed

lemma fw_inv_sync_resume:
  assumes "sync_resume w s = Some t" and "fw_inv s"
  shows "fw_inv t"
proof -
  define s1 where "s1 = rd_set w SYNCH (synch (le (rd_set w SYNCL (syncl (le s)) s))) (rd_set w SYNCL (syncl (le s)) s)"
  have i1: "fw_inv s1" using assms(2) by (simp add: s1_def)
  obtain s2 where s2: "(if do_hop s1 then hop w s1 else Some s1) = Some s2"
    using assms(1) unfolding sync_resume_def Let_def s1_def [symmetric] by (auto split: bind_splits)
  have i2: "fw_inv s2" using s2 i1 by (auto split: if_splits intro: fw_inv_hop)
  have "(if le_jam_count s2 > 0
           then do { s \<leftarrow> le_jam w s2; Some (s\<lparr>le_jam_count := le_jam_count s - 1\<rparr>) }
           else do {
             s \<leftarrow> dma_init_le w s2;
             let s = dio_ssp_start s;
             if restart_jamming s
             then do { s \<leftarrow> cc2400_rx_sync w (rbit (access_address (le s))) s; Some (s\<lparr>restart_jamming := False\<rparr>) }
             else Some (rd_strobe w SRX s)
           }) \<bind> (\<lambda>s. Some (rx_continue s)) = Some t"
    using assms(1) s2 unfolding sync_resume_def Let_def s1_def [symmetric] by simp
  with i2 show ?thesis
    by (auto simp: Let_def fw_inv_radio split: bind_splits if_splits)
qed

lemma fw_inv_sync_flush:
  assumes "sync_flush w m s = Some r" and "fw_inv s"
  shows "fw_inv (step_state r)"
proof -
  obtain s1 s2 q where s1: "rd_wait w FS_LOCK (rd_strobe w SFSON s) = Some s1"
    and s2: "ssp_flush w (reg_clear DIO_SSP_DMACR SSPDMACR_RXDMAE s1) = Some s2"
    and q: "(if sync_timeout w s2 then sync_lost w m s2 else Some (To_next s2)) = Some q"
    and r: "(case q of To_cleanup s \<Rightarrow> Some (Leave s) | To_flush s \<Rightarrow> map_option Again (sync_resume w s)
              | To_next s \<Rightarrow> map_option Again (sync_resume w s)) = Some r"
    using assms(1) unfolding sync_flush_def Let_def bind_eq_Some_conv by blast
  have "fw_inv s1" using hist_only_fw_inv(5) [OF s1] assms(2) by simp
  then have "fw_inv s2" using fw_inv_ssp_flush [OF s2] by simp
  then have "fw_inv (next_state q)" using q fw_inv_sync_lost [of w m s2 q] by (auto split: if_splits)
  with r show ?thesis by (auto split: sync_next.splits dest: fw_inv_sync_resume)
qed

lemma fw_inv_sync_round:
  assumes "sync_round w m s = Some r" and "fw_inv s"
  shows "fw_inv (step_state r)"
proof (cases "requested_mode s = m")
  case False
  with assms show ?thesis by (auto simp: sync_round_def)
next
  case True
  then have run: "(if requested_channel s \<noteq> 0
              then do { s \<leftarrow> le_retune w s;
                        Some (s\<lparr>saved_request := requested_channel s, requested_channel := 0\<rparr>) }
              else Some s) \<bind> (\<lambda>s. sync_receive w m s \<bind> (\<lambda>r. case r of
          To_cleanup s \<Rightarrow> Some (Leave s) | To_next s \<Rightarrow> Some (Again s) | To_flush s \<Rightarrow> sync_flush w m s)) = Some r"
    using assms(1) by (simp add: sync_round_def Let_def)
  obtain s1 q where s1: "(if requested_channel s \<noteq> 0
              then do { s \<leftarrow> le_retune w s;
                        Some (s\<lparr>saved_request := requested_channel s, requested_channel := 0\<rparr>) }
              else Some s) = Some s1"
    and q: "sync_receive w m s1 = Some q"
    and r: "(case q of To_cleanup s \<Rightarrow> Some (Leave s) | To_next s \<Rightarrow> Some (Again s) | To_flush s \<Rightarrow> sync_flush w m s) = Some r"
    using run unfolding bind_eq_Some_conv [where f = "if _ then _ else _"] bind_eq_Some_conv [where f = "sync_receive _ _ _"] by blast
  have saved: "fw_inv (t\<lparr>saved_request := requested_channel t, requested_channel := 0\<rparr>)" if "fw_inv t" for t
    using that by (simp add: fw_inv_def)
  have "fw_inv s1" using s1 assms(2) by (auto split: if_splits bind_splits simp: fw_inv_retune intro!: saved)
  then have "fw_inv (next_state q)" by (rule fw_inv_sync_receive [OF q])
  with r show ?thesis by (auto split: sync_next.splits dest: fw_inv_sync_flush)
qed

lemma fw_inv_sync: "bt_le_sync w m s = Some t \<Longrightarrow> fw_inv s \<Longrightarrow> fw_inv t"
proof -
  have loop: "fw_inv st'" if "loop_opt (sync_round w m) st = Some st'" "fw_inv st" for st st'
    using that by (rule loop_opt_invariant [where P = fw_inv]) (auto dest: fw_inv_sync_round)
  show "bt_le_sync w m s = Some t \<Longrightarrow> fw_inv s \<Longrightarrow> fw_inv t"
    unfolding bt_le_sync_def Let_def
    by (auto split: bind_splits simp: fw_inv_radio fw_inv_le dest!: loop)
qed

lemma fw_inv_follow_le: "bt_follow_le w s = Some t \<Longrightarrow> fw_inv s \<Longrightarrow> fw_inv t"
  unfolding bt_follow_le_def Let_def by (auto split: bind_splits dest!: fw_inv_sync)

lemma fw_inv_promisc_round:
  assumes "promisc_round w s = Some r" and "fw_inv s"
  shows "fw_inv (step_state r)"
proof (cases "requested_mode s = MODE_BT_PROMISC_LE")
  case False
  with assms show ?thesis by (auto simp: promisc_round_def)
next
  case True
  define s1 where "s1 = (let s = reset_le_promisc s in if channel s AND 1 = 1 then s\<lparr>channel := 2440\<rparr> else s)"
  have i1: "fw_inv s1" using assms(2) by (simp add: s1_def Let_def fw_inv_channel)
  have run: "(if \<not> target_set (le s1)
         then bt_generic_le w MODE_BT_PROMISC_LE ((cs_threshold_calc_and_set w s1)\<lparr>data_cb := Cb_le_promisc\<rparr>)
         else Some s1) \<bind> (\<lambda>s. if requested_mode s \<noteq> MODE_BT_PROMISC_LE then Some (Leave s) else
           map_option Again (bt_le_sync w MODE_BT_PROMISC_LE
             ((le_promisc_state w 0 (le_bytes 4 (access_address (le s))) s)\<lparr>packet_cb := Promisc_follow_cb,
               le := (le (le_promisc_state w 0 (le_bytes 4 (access_address (le s))) s))\<lparr>crc_verify := False\<rparr>\<rparr>))) = Some r"
    using assms(1) True unfolding promisc_round_def Let_def s1_def by simp
  then obtain s2 where s2: "(if \<not> target_set (le s1)
         then bt_generic_le w MODE_BT_PROMISC_LE ((cs_threshold_calc_and_set w s1)\<lparr>data_cb := Cb_le_promisc\<rparr>)
         else Some s1) = Some s2"
    by (auto split: bind_splits)
  have i2: "fw_inv s2" using s2 i1 by (auto split: if_splits dest: fw_inv_generic)
  define s3 where "s3 = le_promisc_state w 0 (le_bytes 4 (access_address (le s2))) s2"
  have "fw_inv s3" using i2 by (simp add: s3_def fw_inv_promisc_state)
  then have i3: "fw_inv (s3\<lparr>packet_cb := Promisc_follow_cb, le := (le s3)\<lparr>crc_verify := False\<rparr>\<rparr>)"
    by (intro fw_inv_le) simp_all
  show ?thesis
    using run i2 i3 fw_inv_sync unfolding s2 bind.bind_lunit s3_def [symmetric] by (auto split: if_splits)
qed

lemma fw_inv_promisc: "bt_promisc_le w s = Some t \<Longrightarrow> fw_inv s \<Longrightarrow> fw_inv t"
  unfolding bt_promisc_le_def
  by (erule loop_opt_invariant [where P = fw_inv]) (auto dest: fw_inv_promisc_round)

lemma fw_inv_slave: "bt_slave_le w s = Some t \<Longrightarrow> fw_inv s \<Longrightarrow> fw_inv t"
  unfolding bt_slave_le_def
  by (erule while_opt_keeps [where P = fw_inv])
    (auto simp: slave_round_def Let_def fw_inv_radio split: bind_splits dest: fw_inv_msleep)

end
