(* ===== verification/Rxtx_Air.thy ===== *)
theory Rxtx_Air
  imports Le_Whitening Rxtx_LE_Sync
begin

text \<open>
  What goes over the air and what comes back: the transmitter and the two receivers of Low Energy
  packets use the three forms of the whitening table in three bit orders, and the slave, the
  follower and the promiscuous mode use the three checksum routines. The lemmas tie them together.
\<close>

subsection \<open>Whitening on transmission\<close>

lemma whitening_index_less: "ch < 40 \<Longrightarrow> unat (whitening_index ! ch) < 127"
proof -
  have "list_all (\<lambda>i. unat i < 127) whitening_index \<and> length whitening_index = 40"
    by (simp add: whitening_index_def)
  then show "ch < 40 \<Longrightarrow> unat (whitening_index ! ch) < 127" by (simp add: list_all_length)
qed

lemma le_whiten_byte_fold:
  "foldl (\<lambda>(t, idx) j. (t OR push_bit (7 - j) ((drop_bit j byte AND 1) XOR whitening ! idx), (idx + 1) mod 127))
     (t, idx mod 127) [0..<n]
   = (foldl (\<lambda>t j. t OR push_bit (7 - j) ((drop_bit j byte AND 1) XOR whitening ! ((idx + j) mod 127))) t [0..<n],
      (idx + n) mod 127)"
  by (induction n) (simp_all add: mod_Suc_eq)

lemma bit_whitening: "bit (whitening ! (k mod 127)) n \<longleftrightarrow> n = 0 \<and> whitening ! (k mod 127) = 1"
  using whitening_bit [of k] by (auto simp: bit_1_iff)

lemma le_whiten_byte_eq:
  "snd (le_whiten_byte (idx mod 127) byte) = (idx + 8) mod 127"
  "bit (fst (le_whiten_byte (idx mod 127) byte)) n \<longleftrightarrow>
     n < 8 \<and> (bit byte (7 - n) \<noteq> (whitening ! ((idx + (7 - n)) mod 127) = 1))"
proof -
  have eq: "le_whiten_byte (idx mod 127) byte =
      (foldl (\<lambda>t j. t OR push_bit (7 - j) ((drop_bit j byte AND 1) XOR whitening ! ((idx + j) mod 127))) 0 [0..<8],
       (idx + 8) mod 127)"
    unfolding le_whiten_byte_def by (rule le_whiten_byte_fold)
  then show "snd (le_whiten_byte (idx mod 127) byte) = (idx + 8) mod 127" by simp
  show "bit (fst (le_whiten_byte (idx mod 127) byte)) n \<longleftrightarrow>
     n < 8 \<and> (bit byte (7 - n) \<noteq> (whitening ! ((idx + (7 - n)) mod 127) = 1))"
  proof (cases "n < 8")
    case True
    have "(\<exists>j\<in>set [0..<8]. bit (push_bit (7 - j) ((drop_bit j byte AND 1) XOR whitening ! ((idx + j) mod 127))) n)
        \<longleftrightarrow> (\<exists>j\<in>set [0..<8]. j = 7 - n \<and> (bit byte j \<noteq> (whitening ! ((idx + j) mod 127) = 1)))"
      by (rule bex_cong [OF refl]) (use True in \<open>auto simp: bit_simps bit_whitening\<close>)
    then show ?thesis using True unfolding eq fst_conv bit_foldl_or by auto
  qed (simp add: not_bit_ge)
qed

lemma length_le_whiten [simp]: "length (le_whiten idx bs) = length bs"
  by (induction bs arbitrary: idx) (simp_all add: split_beta)

lemma nth_le_whiten:
  "i < length bs \<Longrightarrow> bit (le_whiten (idx mod 127) bs ! i) n \<longleftrightarrow>
     n < 8 \<and> (bit (bs ! i) (7 - n) \<noteq> (whitening ! ((idx + 8 * i + (7 - n)) mod 127) = 1))"
proof (induction bs arbitrary: idx i)
  case (Cons b bs)
  show ?case
  proof (cases i)
    case 0
    then show ?thesis by (simp add: split_beta le_whiten_byte_eq)
  next
    case (Suc k)
    then show ?thesis
      using Cons.IH [of k "idx + 8"] Cons.prems
      by (simp add: split_beta le_whiten_byte_eq(1)) (simp add: algebra_simps)
  qed
qed simp

subsection \<open>Unwhitening on reception\<close>

lemma bit_unwhiten_word:
  assumes "q < 4" and "r < 8"
  shows "bit (unwhiten_word buf whit i) (8 * q + r) \<longleftrightarrow> (bit (buf ! (i + q)) (7 - r) \<noteq> bit (whit ! (i div 4)) (8 * q + r))"
proof -
  have "q \<in> {0, 1, 2, 3}" using assms(1) by auto
  then show ?thesis
    using assms(2)
    by (elim insertE; simp add: unwhiten_word_def Let_def rbit_def bit_simps bit_rev_bits not_bit_ge; arith)
qed

lemma nth_unwhiten_words:
  assumes "i < 4 * n"
  shows "unwhiten_words buf whit (map (\<lambda>k. 4 * k) [0..<n]) ! i = byte_at (i mod 4) (unwhiten_word buf whit (4 * (i div 4)))"
  using assms
proof (induction n arbitrary: i)
  case (Suc n)
  have len: "length (unwhiten_words buf whit (map (\<lambda>k. 4 * k) [0..<n])) = 4 * n" by simp
  have split: "unwhiten_words buf whit (map (\<lambda>k. 4 * k) [0..<Suc n])
      = unwhiten_words buf whit (map (\<lambda>k. 4 * k) [0..<n]) @ le_bytes 4 (unwhiten_word buf whit (4 * n))"
    by (simp add: unwhiten_words_def)
  show ?case
  proof (cases "i < 4 * n")
    case True
    with Suc.IH show ?thesis unfolding split by (simp add: nth_append)
  next
    case False
    then obtain m where m: "i = 4 * n + m" by (metis le_Suc_ex linorder_not_less)
    with Suc.prems have "m < 4" by simp
    with m show ?thesis unfolding split by (simp add: nth_append)
  qed
qed simp

lemma unwhiten_nth:
  assumes "i < 4 * n" and "n \<le> 12" and "ch < 40" and "r < 8"
  shows "bit (unwhiten_words buf (whitening_word ! ch) (map (\<lambda>k. 4 * k) [0..<n]) ! i) r \<longleftrightarrow>
     bit (buf ! i) (7 - r) \<noteq> white_out ch (8 * i + r)"
proof -
  let ?q = "i mod 4" and ?m = "i div 4"
  have i: "4 * ?m + ?q = i" and q: "?q < 4" by simp_all
  have pos: "32 * ?m + (8 * ?q + r) = 8 * i + r" and small: "8 * ?q + r < 32"
    using i q assms(4) by linarith+
  have "words_bit (whitening_word ! ch) (8 * i + r) = white_out ch (8 * i + r)"
    using assms by (intro whitening_word_at) simp_all
  then have w: "bit (whitening_word ! ch ! ?m) (8 * ?q + r) = white_out ch (8 * i + r)"
    using small by (simp add: words_bit_def flip: pos)
  show ?thesis
    using assms bit_unwhiten_word [OF q assms(4), of buf "whitening_word ! ch" "4 * ?m"]
    by (simp add: nth_unwhiten_words bit_byte_at w i)
qed

text \<open>C11: The packet receiver inverts the transmitter: on every LE channel, when the receive
  buffer begins with the bytes that \<open>le_transmit\<close> puts on the air for a packet of up to 44 bytes
  (whitened bit by bit, most significant bit first), unwhitening it word by word with the packed
  table and reversing each word yields the packet again.\<close>

theorem le_air_round_trip:
  assumes "ch < 40" and "length data \<le> 44"
    and "take (length data) buf = le_whiten (unat (whitening_index ! ch)) data"
  shows "take (length data) (unwhiten_words buf (whitening_word ! ch) (map (\<lambda>k. 4 * k) [0..<11])) = data"
proof (rule nth_equalityI)
  let ?u = "unwhiten_words buf (whitening_word ! ch) (map (\<lambda>k. 4 * k) [0..<11])"
  show len: "length (take (length data) ?u) = length data" using assms(2) by simp
  fix i assume "i < length (take (length data) ?u)"
  then have i: "i < length data" using len by simp
  have idx: "unat (whitening_index ! ch) mod 127 = unat (whitening_index ! ch)"
    using whitening_index_less [OF assms(1)] by simp
  have buf: "buf ! i = le_whiten (unat (whitening_index ! ch) mod 127) data ! i"
    using assms(3) i idx by (metis nth_take)
  have "?u ! i = data ! i"
  proof (rule bit_word_eqI)
    fix r assume "r < LENGTH(8)"
    then have r: "r < 8" by simp
    have less_8: "7 - r < 8" by simp
    have "bit (?u ! i) r \<longleftrightarrow> bit (buf ! i) (7 - r) \<noteq> white_out ch (8 * i + r)"
      using i r assms by (intro unwhiten_nth) simp_all
    also have "bit (buf ! i) (7 - r) \<longleftrightarrow> (bit (data ! i) r \<noteq> white_out ch (8 * i + r))"
      unfolding buf nth_le_whiten [OF i] using r less_8 whitening_at [OF assms(1), of "8 * i + r"]
      by (simp add: add.assoc)
    finally show "bit (?u ! i) r = bit (data ! i) r" by auto
  qed
  with i show "take (length data) ?u ! i = data ! i" by simp
qed

lemma le_air_round_trip_witness:
  "take 3 (unwhiten_words (le_whiten (unat (whitening_index ! 37)) [1, 2, 3] @ replicate 47 9)
     (whitening_word ! 37) (map (\<lambda>k. 4 * k) [0..<11])) = [1, 2, 3]"
proof -
  let ?t = "le_whiten (unat (whitening_index ! 37)) [1, 2, 3]"
  have "length ?t = 3" by (simp only: length_le_whiten) simp
  then have "take (length [1, 2, 3 :: u8]) (?t @ replicate 47 9) = ?t" by simp
  from le_air_round_trip [OF _ _ this] show ?thesis by (simp add: numeral_3_eq_3)
qed

subsection \<open>Checksums\<close>

lemma crcgen_lut_fold: "btle_crcgen_lut init data len = foldl crc_byte (take_bit 24 init) (take len data)"
  by (simp add: btle_crcgen_lut_def and_ffffff foldl_crc_lut)

lemma crc24_fold: "crc24 s \<Longrightarrow> crc24 (foldl crc_byte s ds)"
  by (induction ds arbitrary: s) (simp_all add: crc24_crc_byte)

lemma crc_fold_update:
  "crc24 s \<Longrightarrow> i < length ds \<Longrightarrow> foldl crc_byte s (ds[i := b]) = foldl crc_byte s ds \<Longrightarrow> b = ds ! i"
  using le_crc.fold_update [of s i ds b] by (simp add: crc_absorb_bytes)

text \<open>The checksum on the wire, and the packets that carry a given one.\<close>

lemma wire_crc:
  assumes "crc24 c"
  shows "push_bit 16 (ucast (byte_at 2 c)) OR push_bit 8 (ucast (byte_at 1 c)) OR ucast (byte_at 0 c) = (c :: u32)"
proof (rule bit_word_eqI)
  fix n assume n: "n < LENGTH(32)"
  show "bit (push_bit 16 (ucast (byte_at 2 c)) OR push_bit 8 (ucast (byte_at 1 c)) OR ucast (byte_at 0 c) :: u32) n = bit c n"
  proof (cases "n < 24")
    case True
    then consider "n < 8" | m where "n = 8 + m" "m < 8" | m where "n = 16 + m" "m < 8"
      using le_Suc_ex [of 8 n] le_Suc_ex [of 16 n] by fastforce
    then show ?thesis by cases (simp_all add: bit_simps bit_byte_at not_bit_ge)
  next
    case False
    then show ?thesis using crc24D [OF assms, of n] by (simp add: bit_simps bit_byte_at)
  qed
qed

lemma le_crc_ok_append:
  assumes "length aa = 4" and "len = length pdu" and "crc24 c"
  shows "le_crc_ok s (aa @ pdu @ le_bytes 3 c @ rest) len
     \<longleftrightarrow> c = foldl crc_byte (take_bit 24 (crc_init_reversed (le s))) pdu"
proof -
  have nth: "(aa @ pdu @ le_bytes 3 c @ rest) ! (4 + len + k) = byte_at k c" if "k < 3" for k
    using that assms(1,2) by (simp add: nth_append)
  show ?thesis
    using assms nth [of 0] nth [of 1] nth [of 2]
    unfolding le_crc_ok_def crcgen_lut_fold Let_def
    by (auto simp: wire_crc [unfolded One_nat_def])
qed

text \<open>The checksum test of the receivers rejects every packet that differs from an accepted one
  in a single byte of the header or payload it covers.\<close>

theorem le_crc_detects_byte:
  assumes "le_crc_ok s p len" and "i < len" and "4 + len + 2 < length p" and "b \<noteq> p ! (4 + i)"
  shows "\<not> le_crc_ok s (p[4 + i := b]) len"
proof
  let ?init = "take_bit 24 (crc_init_reversed (le s))" and ?pdu = "take len (drop 4 p)"
  assume "le_crc_ok s (p[4 + i := b]) len"
  with assms have "foldl crc_byte ?init (?pdu[i := b]) = foldl crc_byte ?init ?pdu"
    unfolding le_crc_ok_def crcgen_lut_fold Let_def by (simp add: drop_update_swap take_update_swap)
  then have "b = ?pdu ! i" using assms(2,3) by (intro crc_fold_update) simp_all
  with assms show False by simp
qed

lemma le_crc_detects_byte_witness:
  "\<not> le_crc_ok fw_initial ((replicate 4 0 @ [1, 0] @ le_bytes 3 (foldl crc_byte (0xAAAAAA :: u32) [1, 0]))[4 + 1 := 7]) 2"
proof (rule le_crc_detects_byte)
  have "crc24 (0xAAAAAA :: u32)" by (simp add: crc24_numeral)
  then have "crc24 (foldl crc_byte (0xAAAAAA :: u32) [1, 0])" by (rule crc24_fold)
  then show "le_crc_ok fw_initial (replicate 4 0 @ [1, 0] @ le_bytes 3 (foldl crc_byte (0xAAAAAA :: u32) [1, 0])) 2"
    using le_crc_ok_append [of "replicate 4 0" 2 "[1, 0]" "foldl crc_byte (0xAAAAAA :: u32) [1, 0]" fw_initial "[]"]
    by (simp add: fw_initial_def le_initial_def)
qed (simp_all add: nth_append)

text \<open>The advertising packet of the slave carries the checksum that the receivers ask for when
  they use the same CRCInit.\<close>

theorem slave_adv_accepted:
  assumes "length aa = 4"
  shows "le_crc_ok s (aa @ slave_adv_ind s @ rest) 11"
proof -
  define adv where "adv = [0x00, 0x09] @ map (\<lambda>i. slave_mac_address s ! (5 - i)) [0..<6] @ [0x02, 0x01, 0x05 :: u8]"
  define c where "c = btle_calc_crc (crc_init_reversed (le s)) adv (length adv)"
  have len: "length adv = 11" by (simp add: adv_def)
  have c: "c = foldl crc_byte (take_bit 24 (crc_init_reversed (le s))) adv"
    by (simp add: c_def btle_calc_crc_def and_ffffff)
  then have "crc24 c" by (simp add: crc24_fold)
  then have "le_crc_ok s (aa @ adv @ le_bytes 3 c @ rest) 11"
    using le_crc_ok_append [OF assms len [symmetric]] c by simp
  moreover have "slave_adv_ind s = adv @ le_bytes 3 c"
    unfolding slave_adv_ind_def Let_def adv_def [symmetric] c_def [symmetric]
    by (simp add: le_bytes_def upt_conv_Cons numeral_2_eq_2)
  ultimately show ?thesis by simp
qed

lemma slave_adv_accepted_witness: "le_crc_ok fw_initial ([0xd6, 0xbe, 0x89, 0x8e] @ slave_adv_ind fw_initial @ []) 11"
  by (rule slave_adv_accepted) simp

lemma enqueue_fields: "\<exists>q st. snd (enqueue w ty buf s) = s\<lparr>uq := q, status := st\<rparr>"
proof (cases "usb_enqueue (uq s)")
  case None
  have "s\<lparr>uq := uq s\<rparr> = s" by simp
  with None show ?thesis
    by (intro exI [of _ "uq s"] exI [of _ "status s OR FIFO_OVERFLOW"]) (simp add: enqueue_def)
next
  case (Some r)
  then show ?thesis by (cases r) (auto simp: enqueue_def Let_def)
qed

lemma le_promisc_state_fields:
  "le (le_promisc_state w ty data s) = le s" "packet_cb (le_promisc_state w ty data s) = packet_cb s"
proof -
  obtain q st where "le_promisc_state w ty data s = s\<lparr>uq := q, status := st\<rparr>"
    using enqueue_fields unfolding le_promisc_state_def Let_def by metis
  then show "le (le_promisc_state w ty data s) = le s" "packet_cb (le_promisc_state w ty data s) = packet_cb s"
    by simp_all
qed

text \<open>C14: Promiscuous mode recovers the CRCInit of a connection it has not seen being set up: on the
  first empty data packet the follower learns the initial value that the sender computed the
  checksum with, starts to verify checksums and accepts that packet.\<close>

theorem promisc_recovers_crc_init:
  assumes "\<not> crc_verify (le s)" and "length aa = 4"
    and "packet = aa @ [1, 0] @ le_bytes 3 (btle_calc_crc init [1, 0] 2) @ rest"
  shows "crc_init_reversed (le (promisc_follow_cb w packet s)) = init AND 0xffffff
    \<and> crc_verify (le (promisc_follow_cb w packet s))
    \<and> packet_cb (promisc_follow_cb w packet s) = Promisc_recover_hop_interval
    \<and> le_crc_ok (promisc_follow_cb w packet s) packet 2"
proof -
  let ?t = "promisc_follow_cb w packet s"
  define c where "c = btle_calc_crc init [1, 0] 2"
  have c: "c = foldl crc_byte (take_bit 24 init) [1, 0]"
    by (simp add: c_def btle_calc_crc_def and_ffffff)
  then have c24: "crc24 c" by (simp only: crc24_fold crc24_take_bit)
  have packet: "packet = aa @ [1, 0] @ le_bytes 3 c @ rest" by (simp add: assms(3) c_def)
  have nth: "packet ! 4 = 1" "packet ! 5 = 0" "packet ! 6 = byte_at 0 c" "packet ! 7 = byte_at 1 c" "packet ! 8 = byte_at 2 c"
    using assms(2) by (simp_all add: packet nth_append)
  have rev: "btle_reverse_crc c (drop 4 packet) 2 = rev_bits 24 (take_bit 24 init)"
    using rcrc_fold [OF crc24_take_bit, of "[1, 0]" init] assms(2)
    by (simp add: btle_reverse_crc_def packet c)
  define l where "l = (le s)\<lparr>crc_init := rev_bits 24 (take_bit 24 init), crc_init_reversed := take_bit 24 init, crc_verify := True\<rparr>"
  have rev_back: "foldl (\<lambda>r i. r OR push_bit (23 - i) (drop_bit i (rev_bits 24 (take_bit 24 init)) AND 1)) 0 [0..<24] = take_bit 24 init"
    using rev_bits_rev_bits [of 24 "take_bit 24 init"] by (simp add: rev_bits_def)
  have "?t = le_promisc_state w 1 (le_bytes 3 (crc_init l)) (s\<lparr>le := l, packet_cb := Promisc_recover_hop_interval\<rparr>)"
    unfolding promisc_follow_cb_def Let_def nth wire_crc [OF c24] rev
    using assms(1) by (simp add: rev_back [simplified] l_def)
  then have lt: "le ?t = l" and cb: "packet_cb ?t = Promisc_recover_hop_interval"
    by (simp_all add: le_promisc_state_fields)
  have "le_crc_ok ?t (aa @ [1, 0] @ le_bytes 3 c @ rest) 2
      \<longleftrightarrow> c = foldl crc_byte (take_bit 24 (crc_init_reversed (le ?t))) [1, 0]"
    by (rule le_crc_ok_append [OF assms(2) _ c24]) simp
  moreover have "take_bit 24 (crc_init_reversed (le ?t)) = take_bit 24 init" by (simp only: lt) (simp add: l_def)
  ultimately have "le_crc_ok ?t packet 2" using c packet by metis
  then show ?thesis using lt cb by (simp add: l_def and_ffffff)
qed

lemma promisc_recovers_crc_init_witness:
  "crc_init_reversed (le (promisc_follow_cb lab_world ([1, 2, 3, 4] @ [1, 0] @ le_bytes 3 (btle_calc_crc 0x123456 [1, 0] 2))
     (fw_initial\<lparr>le := le_initial\<lparr>crc_verify := False\<rparr>\<rparr>))) = 0x123456 AND 0xffffff"
  using promisc_recovers_crc_init [of "fw_initial\<lparr>le := le_initial\<lparr>crc_verify := False\<rparr>\<rparr>" "[1, 2, 3, 4]" _ "0x123456" "[]" lab_world]
  by simp

end
