(* ===== verification/Rxtx_Tests.thy ===== *)
theory Rxtx_Tests
  imports Rxtx_Radio
begin

text \<open>
  The transmitter and range tests of \<^verbatim>\<open>firmware/bluetooth_rxtx/cc2400_rangetest.c\<close>, which use the
  radio's buffered mode: \<open>cc2400_rangetest\<close>, \<open>cc2400_repeater\<close> and \<open>cc2400_txtest\<close>.
\<close>

definition rd_set8 :: "world \<Rightarrow> u8 \<Rightarrow> u8 \<Rightarrow> fw \<Rightarrow> fw" where
  "rd_set8 w reg val s = s\<lparr>hist := cc2400_set8 (w_cc w) reg val (hist s)\<rparr>"

definition rd_get8 :: "world \<Rightarrow> u8 \<Rightarrow> fw \<Rightarrow> u8 \<times> fw" where
  "rd_get8 w reg s = (let (v, h) = cc2400_get8 (w_cc w) reg (hist s) in (v, s\<lparr>hist := h\<rparr>))"

definition rd_status :: "world \<Rightarrow> fw \<Rightarrow> u8 \<times> fw" where
  "rd_status w s = (let (v, h) = cc2400_status (w_cc w) (hist s) in (v, s\<lparr>hist := h\<rparr>))"

text \<open>Reading and writing the packet buffer of the radio byte by byte.\<close>

definition fifo_send :: "world \<Rightarrow> u8 list \<Rightarrow> fw \<Rightarrow> fw" where
  "fifo_send w bs s = foldl (\<lambda>s b. rd_set8 w FIFOREG b s) s bs"

fun fifo_receive :: "world \<Rightarrow> nat \<Rightarrow> fw \<Rightarrow> u8 list \<times> fw" where
  "fifo_receive w 0 s = ([], s)"
| "fifo_receive w (Suc n) s =
     (let (b, s) = rd_get8 w FIFOREG s; (bs, s) = fifo_receive w n s in (b # bs, s))"

subsection \<open>Range test\<close>

text \<open>The packet: length, type, serial number, and the level and number of the request and of the
  reply.\<close>

definition rangetest_packet :: "u8 \<Rightarrow> u32 list \<Rightarrow> u8 \<Rightarrow> u8 \<Rightarrow> u8 list" where
  "rangetest_packet type result pa i =
     [22 - 1, type] @ concat (map (\<lambda>k. [byte_at 3 (result ! k), byte_at 2 (result ! k),
        byte_at 1 (result ! k), byte_at 0 (result ! k)]) [1, 2, 3, 4]) @ [pa, i, 0xff, 0xff]"

text \<open>Sixteen packets at each of eight power levels.\<close>

definition send_levels :: "world \<Rightarrow> (u8 \<Rightarrow> u8 \<Rightarrow> u8 list) \<Rightarrow> fw \<Rightarrow> fw option" where
  "send_levels w packet =
     for_each (\<lambda>pa s.
       for_each (\<lambda>i s. do {
           s \<leftarrow> rd_ready w s;
           let s = fifo_send w (packet (of_nat pa) (of_nat i)) s;
           Some (rd_strobe w STX s)
         }) [0..<16] (rd_set w FREND (8 OR of_nat pa) s))
       [0..<8]"

text \<open>Receive until a packet has a correct checksum; \<open>clear\<close> says whether the LED is cleared before
  the reception (repeater) or after a bad packet (range test).\<close>

definition receive_packet :: "world \<Rightarrow> bool \<Rightarrow> fw \<times> u8 list \<Rightarrow> (fw \<times> u8 list) option" where
  "receive_packet w clear = loop_opt (\<lambda>(s, rxbuf). do {
     s \<leftarrow> rd_ready w s;
     let s = (if clear then pin_clr USRLED s else s);
     let s = rd_strobe w SRX s;
     s \<leftarrow> rd_wait w SYNC_RECEIVED s;
     let s = pin_set USRLED s;
     let (rxbuf, s) = fifo_receive w 22 s;
     let (st, s) = rd_status w s;
     Some (if STATUS_CRC_OK st then Leave (s, rxbuf)
           else Again (if clear then s else pin_clr USRLED s, rxbuf))
   })"

text \<open>Whether the reply repeats the request; otherwise two plus the last position that differs.\<close>

definition rangetest_valid :: "u8 list \<Rightarrow> u8 list \<Rightarrow> u8" where
  "rangetest_valid rxbuf txbuf =
     foldl (\<lambda>v i. if rxbuf ! i \<noteq> txbuf ! i then of_nat (2 + i) else v) 1 [0..<18]"

definition cc2400_rangetest :: "world \<Rightarrow> fw \<Rightarrow> fw option" where
  "cc2400_rangetest w s =
     (let result = w_iap w 58 in
      if result ! 0 AND 0xFF \<noteq> 0 then Some s else do {
        let s = rd_sets w [(LMTST, 0x2b22), (MDMTST0, 0x134b), (GRMDM, 0x0df1), (FSDIV, channel s),
                           (SYNCH, 0xf9ae), (SYNCL, 0x1584), (FREND, 8 OR 0), (MDMCTRL, 0x0029)] s;
        s \<leftarrow> rd_lock w s;
        let s = pin_set TXLED s;
        let s = pin_set PAEN s;
        s \<leftarrow> send_levels w (rangetest_packet 0 result) s;
        s \<leftarrow> rd_ready w s;
        let s = pin_clr TXLED s;
        s \<leftarrow> rd_off w s;
        let s = rd_set w FSDIV (channel s - 1) s;
        s \<leftarrow> rd_lock w s;
        let s = pin_set RXLED s;
        (s, rxbuf) \<leftarrow> receive_packet w False (s, []);
        s \<leftarrow> rd_ready w s;
        s \<leftarrow> rd_off w s;
        let s = pin_clr PAEN s;
        let s = pin_clr RXLED s;
        let s = s\<lparr>rr := \<lparr>rr_valid = rangetest_valid rxbuf (rangetest_packet 1 result 7 15),
                        rr_request_pa = rxbuf ! 18, rr_request_num = rxbuf ! 19,
                        rr_reply_pa = rxbuf ! 20, rr_reply_num = rxbuf ! 21\<rparr>\<rparr>;
        Some (pin_clr USRLED s)
      })"

subsection \<open>Repeater\<close>

definition repeater_packet :: "u8 list \<Rightarrow> u8 \<Rightarrow> u8 \<Rightarrow> u8 list" where
  "repeater_packet buf pa i = buf[0 := 22 - 1, 1 := 1, 20 := pa, 21 := i]"

definition repeater_round :: "world \<Rightarrow> fw \<Rightarrow> fw option" where
  "repeater_round w s = do {
     let s = rd_sets w [(LMTST, 0x2b22), (MDMTST0, 0x134b), (FSDIV, channel s - 1), (SYNCH, 0xf9ae),
                        (SYNCL, 0x1584), (FREND, 0x0008), (MDMCTRL, 0x0029)] s;
     s \<leftarrow> rd_lock w s;
     let s = pin_set RXLED s;
     let s = pin_clr TXLED s;
     let s = pin_clr USRLED s;
     let s = pin_set PAEN s;
     (s, buf) \<leftarrow> receive_packet w True (s, []);
     let s = pin_clr USRLED s;
     let s = pin_clr RXLED s;
     s \<leftarrow> rd_off w s;
     s \<leftarrow> rd_wait w XOSC16M_STABLE s;
     let s = rd_set w FSDIV (channel s) s;
     s \<leftarrow> rd_wait w XOSC16M_STABLE s;
     let s = rd_strobe w SFSON s;
     let s = pin_set TXLED s;
     s \<leftarrow> send_levels w (repeater_packet buf) s;
     let s = pin_clr TXLED s;
     rd_off w s
   }"

text \<open>The repeater cannot be turned off.\<close>

definition cc2400_repeater :: "world \<Rightarrow> fw \<Rightarrow> fw option" where
  "cc2400_repeater w = loop_opt (\<lambda>s. map_option Again (repeater_round w s))"

subsection \<open>Transmitter test\<close>

definition cc2400_txtest :: "world \<Rightarrow> fw \<Rightarrow> fw option" where
  "cc2400_txtest w s =
     (if modulation s \<notin> {MOD_BT_BASIC_RATE, MOD_BT_LOW_ENERGY} then Some s else do {
        let mdmctrl = (if modulation s = MOD_BT_BASIC_RATE then 0x0029 else 0x0040);
        let s = rd_sets w [(LMTST, 0x2b22), (MDMTST0, 0x334b), (GRMDM, 0x0df1), (FSDIV, channel s),
                           (MDMCTRL, mdmctrl)] s;
        s \<leftarrow> rd_lock w s;
        let s = pin_set TXLED s;
        let s = rd_strobe w STX s;
        Some (pin_set PAEN s)
      })"

subsection \<open>What the tests change\<close>

lemma hist_only_fifo8:
  "hist_only s (fifo_send w bs s)" "hist_only s (snd (fifo_receive w n s))" "hist_only s (snd (rd_status w s))"
proof -
  show "hist_only s (fifo_send w bs s)"
  proof (induction bs arbitrary: s)
    case (Cons b bs)
    have "hist_only s (rd_set8 w FIFOREG b s)" by (simp add: rd_set8_def)
    then have "hist_only s (fifo_send w bs (rd_set8 w FIFOREG b s))" using Cons.IH by (rule hist_only_trans)
    then show ?case by (simp add: fifo_send_def)
  qed (simp add: fifo_send_def)
  show "hist_only s (snd (fifo_receive w n s))"
  proof (induction n arbitrary: s)
    case (Suc n)
    have "hist_only s (snd (rd_get8 w FIFOREG s))" by (simp add: rd_get8_def split_beta)
    then have "hist_only s (snd (fifo_receive w n (snd (rd_get8 w FIFOREG s))))"
      using Suc.IH by (rule hist_only_trans)
    then show ?case by (simp add: split_beta)
  qed simp
  show "hist_only s (snd (rd_status w s))" by (simp add: rd_status_def split_beta)
qed

lemma length_fifo_receive [simp]: "length (fst (fifo_receive w n s)) = n"
  by (induction n arbitrary: s) (simp_all add: split_beta)

lemma fw_inv_fifo8 [simp]: "fw_inv (fifo_send w bs s) = fw_inv s" "fw_inv (snd (fifo_receive w n s)) = fw_inv s"
  "fw_inv (snd (rd_status w s)) = fw_inv s"
  by (rule hist_only_inv, rule hist_only_fifo8)+

lemma fw_inv_send_levels: "send_levels w packet s = Some t \<Longrightarrow> fw_inv s \<Longrightarrow> fw_inv t"
  unfolding send_levels_def Let_def
  by (erule for_each_invariant [where P = fw_inv])
    (auto elim!: for_each_invariant [where P = fw_inv] split: bind_splits simp: hist_only_fw_inv)

lemma fw_inv_receive_packet: "receive_packet w c (s, b) = Some (t, b') \<Longrightarrow> fw_inv s \<Longrightarrow> fw_inv t"
proof -
  assume run: "receive_packet w c (s, b) = Some (t, b')" and inv: "fw_inv s"
  have "fw_inv (fst (t, b'))"
    using run unfolding receive_packet_def Let_def
  proof (rule loop_opt_invariant [where P = "\<lambda>st. fw_inv (fst st)"])
    show "fw_inv (fst (s, b))" using inv by simp
  qed (auto simp: split_beta hist_only_fw_inv split: bind_splits if_splits)
  then show ?thesis by simp
qed

lemma fw_inv_rangetest: "cc2400_rangetest w s = Some t \<Longrightarrow> fw_inv s \<Longrightarrow> fw_inv t"
  unfolding cc2400_rangetest_def Let_def
  by (auto simp: hist_only_fw_inv split: bind_splits if_splits dest!: fw_inv_send_levels fw_inv_receive_packet)

lemma fw_inv_repeater: "cc2400_repeater w s = Some t \<Longrightarrow> False"
  unfolding cc2400_repeater_def
  by (erule loop_opt_invariant [where P = "\<lambda>_. True"]) auto

lemma fw_inv_repeater_round: "repeater_round w s = Some t \<Longrightarrow> fw_inv s \<Longrightarrow> fw_inv t"
  unfolding repeater_round_def Let_def
  by (auto simp: hist_only_fw_inv split: bind_splits dest!: fw_inv_send_levels fw_inv_receive_packet)

lemma fw_inv_txtest: "cc2400_txtest w s = Some t \<Longrightarrow> fw_inv t = fw_inv s"
  by (auto simp: cc2400_txtest_def Let_def hist_only_fw_inv split: bind_splits if_splits)

text \<open>Once started, the repeater never returns, so neither a stop request nor a reset request of
  the host is acted upon until the board is power cycled.\<close>

theorem repeater_never_returns: "cc2400_repeater w s = None"
  using fw_inv_repeater [of w s] by (cases "cc2400_repeater w s") auto

end
