(* ===== verification/Ego.thy ===== *)
theory Ego
  imports Rxtx_LE
begin

text \<open>
  The state machine of \<^verbatim>\<open>firmware/bluetooth_rxtx/ego.c\<close> for the remote control of a skateboard:
  following a hopping connection, receiving on one channel, and jamming. A handler takes the
  machine and the firmware state to their successors; a mode is a table of handlers by state.
\<close>

datatype ego_state_t =
    EGO_ST_INIT | EGO_ST_START_RX | EGO_ST_CAP | EGO_ST_SLEEP | EGO_ST_START_JAMMING | EGO_ST_JAMMING

record ego_fsm_state =
  ego_state :: ego_state_t
  channel_index :: nat
  sleep_start :: u32
  sleep_duration :: u32
  timer_active :: bool
  packet_observed :: bool
  anchor :: u32

type_synonym ego = "fw \<times> ego_fsm_state"

definition ego_channels :: "u16 list" where
  "ego_channels = [2408, 2418, 2423, 2469]"

abbreviation (input) EGO_PACKET_LEN :: nat where "EGO_PACKET_LEN \<equiv> 36"
abbreviation (input) SSPCR1_SSE :: u32 where "SSPCR1_SSE \<equiv> 0x2"
abbreviation (input) SSPSR_RNE :: u32 where "SSPSR_RNE \<equiv> 0x4"

definition ssp_start :: "fw \<Rightarrow> fw" where
  "ssp_start s = pin_clr DIO_SSEL (reg_or DIO_SSP_CR1 SSPCR1_SSE (pin_set DIO_SSEL s))"

definition ssp_stop :: "fw \<Rightarrow> fw" where
  "ssp_stop s = reg_clear DIO_SSP_CR1 SSPCR1_SSE (pin_set DIO_SSEL s)"

definition ego_init :: "fw \<Rightarrow> fw" where
  "ego_init s = dio_ssp_init (reg_write ISER0 ISER0_ISE_USB s)"

definition ego_deinit :: "world \<Rightarrow> fw \<Rightarrow> fw" where
  "ego_deinit w s = reg_write ICER0 ISER0_ISE_USB (ssp_stop (rd_strobe w SRFOFF s))"

definition rf_on :: "world \<Rightarrow> fw \<Rightarrow> fw option" where
  "rf_on w s = do {
     let s = rd_sets w [(MANAND, 0x7fff), (LMTST, 0x2b22), (MDMTST0, 0x134b), (GRMDM, 0x04c0),
                        (FSDIV, channel s - 1), (MDMCTRL, 0x0026), (GRDEC, 3),
                        (SYNCH, 0x630f), (SYNCL, 0x9ffe)] s;
     s \<leftarrow> rd_wait w XOSC16M_STABLE s;
     let s = ssp_start s;
     let s = rd_strobe w SFSON s;
     s \<leftarrow> rd_wait w FS_LOCK s;
     s \<leftarrow> rd_ready w s;
     Some (rd_strobe w SRX s)
   }"

text \<open>Receive the bytes of a packet from the serial interface.\<close>

fun do_rx :: "world \<Rightarrow> nat \<Rightarrow> fw \<Rightarrow> (u8 list \<times> fw) option" where
  "do_rx w 0 s = Some ([], s)"
| "do_rx w (Suc n) s = do {
     s \<leftarrow> reg_wait w SSP1SR (\<lambda>v. v AND SSPSR_RNE \<noteq> 0) s;
     let (v, s) = reg_read w DIO_SSP_DR s;
     (bs, s) \<leftarrow> do_rx w n s;
     Some (ucast v # bs, s)
   }"

definition sync_received :: "world \<Rightarrow> fw \<Rightarrow> bool \<times> fw" where
  "sync_received w s = (let (v, h) = cc2400_status (w_cc w) (hist s) in (SYNC_RECEIVED v, s\<lparr>hist := h\<rparr>))"

subsection \<open>Timer\<close>

definition sleep_ms :: "world \<Rightarrow> u32 \<Rightarrow> ego \<Rightarrow> ego" where
  "sleep_ms w duration = (\<lambda>(s, e). (s, e\<lparr>sleep_start := CLK100NS w s, sleep_duration := duration * 1000 * 10\<rparr>))"

definition sleep_ms_anchor :: "u32 \<Rightarrow> ego \<Rightarrow> ego" where
  "sleep_ms_anchor duration = (\<lambda>(s, e). (s, e\<lparr>sleep_start := anchor e, sleep_duration := duration * 1000 * 10\<rparr>))"

definition sleep_elapsed :: "world \<Rightarrow> ego \<Rightarrow> bool" where
  "sleep_elapsed w = (\<lambda>(s, e).
     let now = CLK100NS w s;
         now = (if now < sleep_start e then now + 3276800000 else now)
     in now - sleep_start e \<ge> sleep_duration e)"

subsection \<open>Following\<close>

definition nop_state :: "ego \<Rightarrow> ego option" where
  "nop_state st = Some st"

definition init_state :: "ego \<Rightarrow> ego option" where
  "init_state = (\<lambda>(s, e).
     let e = e\<lparr>channel_index := 0\<rparr>
     in Some (s\<lparr>channel := ego_channels ! channel_index e\<rparr>, e\<lparr>ego_state := EGO_ST_START_RX\<rparr>))"

definition start_rf_state :: "world \<Rightarrow> ego \<Rightarrow> ego option" where
  "start_rf_state w = (\<lambda>(s, e). do { s \<leftarrow> rf_on w s; Some (s, e\<lparr>ego_state := EGO_ST_CAP\<rparr>) })"

text \<open>A received packet is queued with 50 bytes although it has 36: the copy goes on into its time
  stamp and ten more bytes of the stack.\<close>

definition ego_queue :: "world \<Rightarrow> u32 \<Rightarrow> fw \<Rightarrow> fw option" where
  "ego_queue w rxtime s = do {
     let s = pin_set RXLED s;
     (rxbuf, s) \<leftarrow> do_rx w EGO_PACKET_LEN s;
     let s = snd (enqueue_with_ts (pkt_type_code EGO_PACKET)
                   (rxbuf @ le_bytes 4 rxtime @ map (w_stack w (hist s)) [0..<10]) rxtime s);
     Some (pin_clr RXLED s)
   }"

definition cap_state :: "world \<Rightarrow> ego \<Rightarrow> ego option" where
  "cap_state w = (\<lambda>(s, e). do {
     let rxtime = CLK100NS w s;
     let (s, e) = (if sleep_elapsed w (s, e)
                   then apsnd (\<lambda>e. e\<lparr>ego_state := EGO_ST_SLEEP\<rparr>) (sleep_ms w 4 (s, e)) else (s, e));
     let (sync, s) = sync_received w s;
     (s, e) \<leftarrow> (if sync
                 then do { s \<leftarrow> ego_queue w rxtime s;
                           Some (apsnd (\<lambda>e. e\<lparr>ego_state := EGO_ST_SLEEP\<rparr>) (sleep_ms w 6 (s, e))) }
                 else Some (s, e));
     Some (if ego_state e \<noteq> EGO_ST_CAP
           then (ssp_stop (rd_strobe w SRFOFF s), e\<lparr>timer_active := True\<rparr>) else (s, e))
   })"

definition sleep_state :: "world \<Rightarrow> ego \<Rightarrow> ego option" where
  "sleep_state w = (\<lambda>(s, e).
     if sleep_elapsed w (s, e)
     then
       let e = e\<lparr>channel_index := (channel_index e + 1) mod 4\<rparr>;
           s = s\<lparr>channel := ego_channels ! channel_index e\<rparr>;
           (s, e) = sleep_ms w 7 (s, e)
       in Some (s, e\<lparr>timer_active := True, ego_state := EGO_ST_START_RX\<rparr>)
     else Some (s, e))"

subsection \<open>Continuous reception\<close>

definition continuous_init_state :: "ego \<Rightarrow> ego option" where
  "continuous_init_state = (\<lambda>(s, e). Some (s, e\<lparr>ego_state := EGO_ST_START_RX\<rparr>))"

definition continuous_cap_state :: "world \<Rightarrow> ego \<Rightarrow> ego option" where
  "continuous_cap_state w = (\<lambda>(s, e). do {
     let rxtime = CLK100NS w s;
     let (sync, s) = sync_received w s;
     if sync then do {
       s \<leftarrow> ego_queue w rxtime s;
       let s = rd_strobe w SFSON s;
       s \<leftarrow> rd_wait w FS_LOCK s;
       s \<leftarrow> rd_ready w s;
       Some (rd_strobe w SRX s, e)
     } else Some (s, e)
   })"

subsection \<open>Jamming\<close>

definition jam_cap_state :: "world \<Rightarrow> ego \<Rightarrow> ego option" where
  "jam_cap_state w = (\<lambda>(s, e).
     let (sync, s) = sync_received w s;
         e = (if sync then e\<lparr>ego_state := EGO_ST_START_JAMMING, packet_observed := True, anchor := CLK100NS w s\<rparr> else e);
         (s, e) = (if timer_active e \<and> sleep_elapsed w (s, e)
                   then sleep_ms w 11 (s, e\<lparr>ego_state := EGO_ST_START_JAMMING, packet_observed := False\<rparr>)
                   else (s, e))
     in Some (if ego_state e \<noteq> EGO_ST_CAP then ssp_stop (rd_strobe w SRFOFF s) else s, e))"

definition start_jamming_state :: "world \<Rightarrow> ego \<Rightarrow> ego option" where
  "start_jamming_state w = (\<lambda>(s, e). do {
     let s = rd_sets w [(MANAND, 0x7fff), (LMTST, 0x2b22), (MDMTST0, 0x334b), (GRMDM, 0x04c0),
                        (FSDIV, channel s), (MDMCTRL, 0x0026), (GRDEC, 3), (FREND, 0xf)] s;
     s \<leftarrow> rd_lock w s;
     s \<leftarrow> rd_ready w s;
     let s = pin_set PAEN s;
     let s = rd_strobe w STX s;
     let s = pin_set TXLED s;
     Some (sleep_ms_anchor 2 (s, e\<lparr>ego_state := EGO_ST_JAMMING\<rparr>))
   })"

definition jamming_state :: "world \<Rightarrow> ego \<Rightarrow> ego option" where
  "jamming_state w = (\<lambda>(s, e).
     if sleep_elapsed w (s, e)
     then
       let s = rd_strobe w SRFOFF s;
           s = pin_clr PAEN s;
           s = pin_clr TXLED s;
           e = e\<lparr>channel_index := (channel_index e + 1) mod 4\<rparr>;
           s = s\<lparr>channel := ego_channels ! channel_index e\<rparr>
       in Some (sleep_ms_anchor 6 (s, e\<lparr>ego_state := EGO_ST_SLEEP\<rparr>))
     else Some (s, e))"

definition jam_sleep_state :: "world \<Rightarrow> ego \<Rightarrow> ego option" where
  "jam_sleep_state w = (\<lambda>(s, e).
     if sleep_elapsed w (s, e)
     then Some (sleep_ms_anchor 11 (s, e\<lparr>ego_state := EGO_ST_START_RX, timer_active := True\<rparr>))
     else Some (s, e))"

subsection \<open>The modes\<close>

datatype ego_mode_t = EGO_FOLLOW | EGO_CONTINUOUS_RX | EGO_JAM

definition ego_mode_of :: "u8 \<Rightarrow> ego_mode_t option" where
  "ego_mode_of m = (if m = 0 then Some EGO_FOLLOW else if m = 1 then Some EGO_CONTINUOUS_RX
                    else if m = 2 then Some EGO_JAM else None)"

fun ego_handler :: "world \<Rightarrow> ego_mode_t \<Rightarrow> ego_state_t \<Rightarrow> ego \<Rightarrow> ego option" where
  "ego_handler w EGO_FOLLOW EGO_ST_INIT = init_state"
| "ego_handler w EGO_FOLLOW EGO_ST_START_RX = start_rf_state w"
| "ego_handler w EGO_FOLLOW EGO_ST_CAP = cap_state w"
| "ego_handler w EGO_FOLLOW EGO_ST_SLEEP = sleep_state w"
| "ego_handler w EGO_FOLLOW EGO_ST_START_JAMMING = nop_state"
| "ego_handler w EGO_FOLLOW EGO_ST_JAMMING = nop_state"
| "ego_handler w EGO_CONTINUOUS_RX EGO_ST_INIT = continuous_init_state"
| "ego_handler w EGO_CONTINUOUS_RX EGO_ST_START_RX = start_rf_state w"
| "ego_handler w EGO_CONTINUOUS_RX EGO_ST_CAP = continuous_cap_state w"
| "ego_handler w EGO_CONTINUOUS_RX EGO_ST_SLEEP = nop_state"
| "ego_handler w EGO_CONTINUOUS_RX EGO_ST_START_JAMMING = nop_state"
| "ego_handler w EGO_CONTINUOUS_RX EGO_ST_JAMMING = nop_state"
| "ego_handler w EGO_JAM EGO_ST_INIT = init_state"
| "ego_handler w EGO_JAM EGO_ST_START_RX = start_rf_state w"
| "ego_handler w EGO_JAM EGO_ST_CAP = jam_cap_state w"
| "ego_handler w EGO_JAM EGO_ST_SLEEP = jam_sleep_state w"
| "ego_handler w EGO_JAM EGO_ST_START_JAMMING = start_jamming_state w"
| "ego_handler w EGO_JAM EGO_ST_JAMMING = jamming_state w"

text \<open>The fields without an initialiser are zero.\<close>

definition ego_initial :: ego_fsm_state where
  "ego_initial = \<lparr>ego_state = EGO_ST_INIT, channel_index = 0, sleep_start = 0, sleep_duration = 0,
     timer_active = False, packet_observed = False, anchor = 0\<rparr>"

definition ego_step :: "world \<Rightarrow> ego_mode_t \<Rightarrow> ego \<Rightarrow> ego step option" where
  "ego_step w m = (\<lambda>(s, e). do {
     s \<leftarrow> interrupts w s;
     if requested_mode s \<noteq> MODE_EGO then Some (Leave (s, e))
     else map_option Again (ego_handler w m (ego_state e) (s, e))
   })"

definition ego_main :: "world \<Rightarrow> u8 \<Rightarrow> fw \<Rightarrow> fw option" where
  "ego_main w m s = (case ego_mode_of m of
     None \<Rightarrow> Some (s\<lparr>requested_mode := MODE_IDLE\<rparr>)
   | Some m \<Rightarrow> do {
       let s = ego_init s;
       (s, e) \<leftarrow> loop_opt (ego_step w m) (s, ego_initial);
       Some (ego_deinit w s)
     })"

subsection \<open>The handlers keep the invariant\<close>

lemma length_do_rx: "do_rx w n s = Some (bs, t) \<Longrightarrow> length bs = n"
  by (induction n arbitrary: s bs t) (auto simp: split_beta Let_def split: bind_splits)

lemma do_rx_hist: "do_rx w n s = Some (bs, t) \<Longrightarrow> hist_only s t"
proof (induction n arbitrary: s bs t)
  case (Suc n)
  then obtain s1 bs1 where s1: "reg_wait w SSP1SR (\<lambda>v. v AND SSPSR_RNE \<noteq> 0) s = Some s1"
    and "do_rx w n (snd (reg_read w DIO_SSP_DR s1)) = Some (bs1, t)"
    by (auto simp: split_beta Let_def split: bind_splits)
  then have "hist_only (snd (reg_read w DIO_SSP_DR s1)) t" by (intro Suc.IH)
  moreover have "hist_only s1 (snd (reg_read w DIO_SSP_DR s1))" by (simp add: reg_read_def Let_def)
  ultimately show ?case using hist_only_rd(8) [OF s1] by (blast intro: hist_only_trans)
qed simp

lemma fw_inv_do_rx: "do_rx w n s = Some (bs, t) \<Longrightarrow> fw_inv t = fw_inv s"
  by (rule hist_only_inv [OF do_rx_hist])

text \<open>A packet that \<open>ego_queue\<close> puts into slot \<open>i\<close> of the queue ends with the time stamp and ten
  bytes of the stack.\<close>

lemma ego_queue_leaks_stack:
  assumes "ego_queue w ts s = Some t" and "usb_enqueue (uq s) = Some (i, q)" and "i < length (uq_fifo q)"
  shows "\<exists>rx h. length rx = 36 \<and> pkt_data (uq_fifo (uq t) ! i) = rx @ le_bytes 4 ts @ map (w_stack w h) [0..<10]"
proof -
  obtain rx s1 where rx: "do_rx w 36 (pin_set RXLED s) = Some (rx, s1)"
    and t: "t = pin_clr RXLED (snd (enqueue_with_ts (pkt_type_code EGO_PACKET)
        (rx @ le_bytes 4 ts @ map (w_stack w (hist s1)) [0..<10]) ts s1))"
    using assms(1) by (auto simp: ego_queue_def Let_def split: bind_splits)
  have "uq s1 = uq s" using do_rx_hist [OF rx] by (auto simp: hist_only_def pin_set_def)
  with assms(2,3) length_do_rx [OF rx] show ?thesis
    by (intro exI [of _ rx] exI [of _ "hist s1"])
      (simp add: t enqueue_with_ts_def Let_def pin_clr_def)
qed

lemma fw_inv_enqueue_ts:
  assumes "fw_inv s" and "DMA_SIZE \<le> length buf"
  shows "fw_inv (snd (enqueue_with_ts ty buf ts s))"
proof (cases "usb_enqueue (uq s)")
  case None
  with assms show ?thesis by (simp add: enqueue_with_ts_def)
next
  case (Some r)
  obtain t q where r: "r = (t, q)" by (cases r)
  have wf: "usbq_wf (uq s)" and ps: "list_all pkt_wf (uq_fifo (uq s))" using assms(1) by (simp_all add: fw_inv_def)
  have enq: "usb_enqueue (uq s) = Some (t, q)" using Some r by simp
  have slot: "t < 128" "uq_fifo q = uq_fifo (uq s)" "usbq_wf (q\<lparr>uq_fifo := (uq_fifo (uq s))[t := p]\<rparr>)" for p
    using usb_enqueue_slot [OF wf enq, of p] by auto
  have old: "pkt_wf (uq_fifo (uq s) ! t)"
    using slot ps wf by (auto simp: list_all_length usbq_wf_def)
  have "fw_inv (s\<lparr>uq := q\<lparr>uq_fifo := (uq_fifo q)[t := p]\<rparr>, status := 0\<rparr>)" if "pkt_wf p" for p
    using assms(1) that slot ps by (simp add: fw_inv_def pkt_wf_slot)
  then show ?thesis
    unfolding enqueue_with_ts_def enq option.case prod.case Let_def snd_conv
    using old slot assms(2) by (simp add: pkt_wf_def)
qed

lemma fw_inv_ego_queue: "ego_queue w ts s = Some t \<Longrightarrow> fw_inv s \<Longrightarrow> fw_inv t"
  unfolding ego_queue_def Let_def
  by (auto split: bind_splits simp: fw_inv_do_rx length_do_rx intro!: fw_inv_enqueue_ts)

lemma fw_inv_rf [simp]:
  "fw_inv (ssp_start s) = fw_inv s" "fw_inv (ssp_stop s) = fw_inv s" "fw_inv (ego_init s) = fw_inv s"
  "fw_inv (ego_deinit w s) = fw_inv s" "fw_inv (snd (sync_received w s)) = fw_inv s"
  by (simp_all add: ssp_start_def ssp_stop_def ego_init_def ego_deinit_def sync_received_def split_beta)

lemma fw_inv_rf_on: "rf_on w s = Some t \<Longrightarrow> fw_inv t = fw_inv s"
  by (auto simp: rf_on_def Let_def hist_only_fw_inv split: bind_splits)

definition ego_ok :: "ego \<Rightarrow> bool" where
  "ego_ok = (\<lambda>(s, e). fw_inv s \<and> channel_index e < 4)"

lemma fw_inv_ego_channel: "fw_inv s \<Longrightarrow> i < 4 \<Longrightarrow> fw_inv (s\<lparr>channel := ego_channels ! i\<rparr>)"
proof -
  assume "fw_inv s" and i: "i < 4"
  have "list_all (\<lambda>i. tunable (ego_channels ! i)) [0..<4]" by code_simp
  with i have "tunable (ego_channels ! i)" by (simp add: list_all_iff)
  with \<open>fw_inv s\<close> show ?thesis by (simp add: fw_inv_channel)
qed

lemmas sleep_defs = sleep_ms_def sleep_ms_anchor_def

lemma ego_init_ok: "init_state st = Some st' \<Longrightarrow> ego_ok st \<Longrightarrow> ego_ok st'"
  by (auto simp: init_state_def ego_ok_def Let_def split_beta fw_inv_ego_channel)

lemma ego_start_ok: "start_rf_state w st = Some st' \<Longrightarrow> ego_ok st \<Longrightarrow> ego_ok st'"
  by (auto simp: start_rf_state_def ego_ok_def split_beta fw_inv_rf_on split: bind_splits)

lemma ego_cap_ok:
  assumes "cap_state w st = Some st'" and "ego_ok st"
  shows "ego_ok st'"
proof -
  obtain s e where st: "st = (s, e)" by (cases st)
  define e1 where "e1 = snd (if sleep_elapsed w (s, e)
      then apsnd (\<lambda>e. e\<lparr>ego_state := EGO_ST_SLEEP\<rparr>) (sleep_ms w 4 (s, e)) else (s, e))"
  define s1 where "s1 = snd (sync_received w s)"
  have pair: "(if sleep_elapsed w (s, e)
      then apsnd (\<lambda>e. e\<lparr>ego_state := EGO_ST_SLEEP\<rparr>) (sleep_ms w 4 (s, e)) else (s, e)) = (s, e1)"
    by (simp add: e1_def sleep_ms_def)
  have ok: "fw_inv s1" "channel_index e1 < 4"
    using assms(2) by (simp_all add: st ego_ok_def s1_def e1_def sleep_ms_def)
  let ?leave = "\<lambda>(s, e). if ego_state e \<noteq> EGO_ST_CAP
           then (ssp_stop (rd_strobe w SRFOFF s), e\<lparr>timer_active := True\<rparr>) else (s, e)"
  let ?queue = "if fst (sync_received w s)
      then do { s \<leftarrow> ego_queue w (CLK100NS w s) s1;
                Some (apsnd (\<lambda>e. e\<lparr>ego_state := EGO_ST_SLEEP\<rparr>) (sleep_ms w 6 (s, e1))) }
      else Some (s1, e1)"
  have run: "?queue \<bind> (\<lambda>st. Some (?leave st)) = Some st'"
    using assms(1) unfolding cap_state_def st prod.case Let_def pair s1_def split_beta fst_conv snd_conv .
  then obtain s2 e2 where step: "?queue = Some (s2, e2)" and st': "st' = ?leave (s2, e2)"
    by (cases ?queue) auto
  have "fw_inv s2 \<and> channel_index e2 < 4"
    using step ok by (auto simp: sleep_ms_def split: if_splits bind_splits dest: fw_inv_ego_queue)
  then show ?thesis by (simp add: st' ego_ok_def)
qed

lemma ego_sleep_ok: "sleep_state w st = Some st' \<Longrightarrow> ego_ok st \<Longrightarrow> ego_ok st'"
  by (auto simp: sleep_state_def ego_ok_def Let_def split_beta fw_inv_ego_channel sleep_ms_def split: if_splits)

lemma ego_cont_init_ok: "continuous_init_state st = Some st' \<Longrightarrow> ego_ok st \<Longrightarrow> ego_ok st'"
  by (auto simp: continuous_init_state_def ego_ok_def)

lemma ego_cont_cap_ok: "continuous_cap_state w st = Some st' \<Longrightarrow> ego_ok st \<Longrightarrow> ego_ok st'"
  by (auto simp: continuous_cap_state_def ego_ok_def Let_def split_beta hist_only_fw_inv
      split: if_splits bind_splits dest: fw_inv_ego_queue)

lemma ego_jam_cap_ok: "jam_cap_state w st = Some st' \<Longrightarrow> ego_ok st \<Longrightarrow> ego_ok st'"
  by (auto simp: jam_cap_state_def ego_ok_def Let_def split_beta sleep_ms_def)

lemma ego_start_jam_ok: "start_jamming_state w st = Some st' \<Longrightarrow> ego_ok st \<Longrightarrow> ego_ok st'"
  by (auto simp: start_jamming_state_def ego_ok_def Let_def split_beta hist_only_fw_inv sleep_ms_anchor_def
      split: bind_splits)

lemma ego_jam_ok: "jamming_state w st = Some st' \<Longrightarrow> ego_ok st \<Longrightarrow> ego_ok st'"
  by (auto simp: jamming_state_def ego_ok_def Let_def split_beta fw_inv_ego_channel sleep_ms_anchor_def split: if_splits)

lemma ego_jam_sleep_ok: "jam_sleep_state w st = Some st' \<Longrightarrow> ego_ok st \<Longrightarrow> ego_ok st'"
  by (auto simp: jam_sleep_state_def ego_ok_def Let_def split_beta sleep_ms_anchor_def split: if_splits)

lemmas ego_states_ok = ego_init_ok ego_start_ok ego_cap_ok ego_sleep_ok ego_cont_init_ok ego_cont_cap_ok
  ego_jam_cap_ok ego_start_jam_ok ego_jam_ok ego_jam_sleep_ok

lemma ego_handler_ok: "ego_handler w m q st = Some st' \<Longrightarrow> ego_ok st \<Longrightarrow> ego_ok st'"
  by (cases "(w, m, q)" rule: ego_handler.cases) (auto simp: nop_state_def dest: ego_states_ok)

lemma ego_step_ok:
  assumes "ego_step w m st = Some r" and "ego_ok st"
  shows "ego_ok (step_state r)"
proof -
  obtain s e where st: "st = (s, e)" by (cases st)
  obtain s1 where s1: "interrupts w s = Some s1"
    and r: "(if requested_mode s1 \<noteq> MODE_EGO then Some (Leave (s1, e))
             else map_option Again (ego_handler w m (ego_state e) (s1, e))) = Some r"
    using assms(1) by (auto simp: ego_step_def st split: bind_splits)
  have "ego_ok (s1, e)" using assms(2) fw_inv_interrupts [OF s1] by (simp add: st ego_ok_def)
  with r show ?thesis by (auto split: if_splits dest: ego_handler_ok)
qed

lemma fw_inv_ego: "ego_main w m s = Some t \<Longrightarrow> fw_inv s \<Longrightarrow> fw_inv t"
proof -
  have loop: "ego_ok st'" if "loop_opt (ego_step w k) st = Some st'" "ego_ok st" for k st st'
    using that by (rule loop_opt_invariant [where P = ego_ok]) (auto dest: ego_step_ok)
  assume run: "ego_main w m s = Some t" and inv: "fw_inv s"
  show "fw_inv t"
  proof (cases "ego_mode_of m")
    case None
    with run inv show ?thesis by (auto simp: ego_main_def)
  next
    case (Some k)
    with run obtain s1 e where s1: "loop_opt (ego_step w k) (ego_init s, ego_initial) = Some (s1, e)"
      and t: "t = ego_deinit w s1"
      by (auto simp: ego_main_def Let_def split: bind_splits)
    have "ego_ok (s1, e)" using inv by (intro loop [OF s1]) (simp add: ego_ok_def ego_initial_def)
    then show ?thesis by (simp add: t ego_ok_def)
  qed
qed

subsection \<open>The machine as a transition system\<close>

text \<open>The states a run in a mode can reach; interrupts may change the firmware state between steps.\<close>

inductive ego_reach :: "world \<Rightarrow> ego_mode_t \<Rightarrow> ego \<Rightarrow> bool" for w m where
  start: "fw_inv s \<Longrightarrow> ego_reach w m (s, ego_initial)"
| step: "ego_reach w m st \<Longrightarrow> ego_step w m st = Some (Again st') \<Longrightarrow> ego_reach w m st'"

inductive_cases ego_reach_elim: "ego_reach w m st"

definition ego_states :: "ego_mode_t \<Rightarrow> ego_state_t set" where
  "ego_states m = (case m of
     EGO_FOLLOW \<Rightarrow> {EGO_ST_INIT, EGO_ST_START_RX, EGO_ST_CAP, EGO_ST_SLEEP}
   | EGO_CONTINUOUS_RX \<Rightarrow> {EGO_ST_INIT, EGO_ST_START_RX, EGO_ST_CAP}
   | EGO_JAM \<Rightarrow> UNIV)"

lemma cap_state_next: "cap_state w (s, e) = Some (s', e') \<Longrightarrow> ego_state e = EGO_ST_CAP \<Longrightarrow>
   ego_state e' \<in> {EGO_ST_CAP, EGO_ST_SLEEP}"
  unfolding cap_state_def prod.case Let_def split_beta sleep_ms_def
  by (auto split: bind_splits if_splits)

lemma ego_handler_next:
  "ego_handler w m (ego_state e) (s, e) = Some (s', e') \<Longrightarrow> ego_state e \<in> ego_states m \<Longrightarrow> ego_state e' \<in> ego_states m"
  by (cases m; cases "ego_state e")
    (auto simp: ego_states_def init_state_def start_rf_state_def sleep_state_def continuous_init_state_def
      continuous_cap_state_def nop_state_def Let_def split_beta sleep_ms_def dest!: cap_state_next
      split: bind_splits if_splits)

text \<open>C18: In every state a run of the machine can reach, whatever the radio answers and whatever
  interrupts arrive, the firmware invariant holds and the channel index is below four; following
  never leaves the states INIT, START_RX, CAP and SLEEP and continuous reception never leaves the
  first three, so neither mode ever starts to jam and the empty handlers are never called.\<close>

theorem ego_reach_states:
  assumes "ego_reach w m (s, e)"
  shows "ego_ok (s, e) \<and> ego_state e \<in> ego_states m"
  using assms
proof (induction "(s, e)" arbitrary: s e)
  case (start s)
  then show ?case by (simp add: ego_ok_def ego_initial_def ego_states_def split: ego_mode_t.split)
next
  case (step st s' e')
  obtain s e where st: "st = (s, e)" by (cases st)
  with step.hyps(2) have ih: "ego_ok (s, e)" "ego_state e \<in> ego_states m" by simp_all
  obtain s1 where h: "ego_handler w m (ego_state e) (s1, e) = Some (s', e')"
    using step.hyps(3) by (auto simp: ego_step_def st split: bind_splits if_splits)
  show ?case
    using ego_step_ok [OF step.hyps(3)] ego_handler_next [OF h ih(2)] ih(1) by (simp add: st)
qed

lemma ego_reach_states_witness:
  "ego_ok (fw_initial\<lparr>requested_mode := MODE_EGO, hist := [Tick]\<rparr>, ego_initial\<lparr>ego_state := EGO_ST_START_RX\<rparr>)
   \<and> ego_state (ego_initial\<lparr>ego_state := EGO_ST_START_RX\<rparr>) \<in> ego_states EGO_CONTINUOUS_RX"
proof (rule ego_reach_states)
  let ?s = "fw_initial\<lparr>requested_mode := MODE_EGO\<rparr>"
  have "fw_inv ?s" by (simp add: fw_inv_initial)
  then have "ego_reach lab_world EGO_CONTINUOUS_RX (?s, ego_initial)" by (rule ego_reach.start)
  moreover have "ego_step lab_world EGO_CONTINUOUS_RX (?s, ego_initial)
      = Some (Again (?s\<lparr>hist := [Tick]\<rparr>, ego_initial\<lparr>ego_state := EGO_ST_START_RX\<rparr>))"
    by (simp add: ego_step_def interrupts_def lab_world_def ego_initial_def continuous_init_state_def fw_initial_def)
  ultimately show "ego_reach lab_world EGO_CONTINUOUS_RX
      (fw_initial\<lparr>requested_mode := MODE_EGO, hist := [Tick]\<rparr>, ego_initial\<lparr>ego_state := EGO_ST_START_RX\<rparr>)"
    by (metis ego_reach.step)
qed

end
