(* ===== verification/Rxtx_Main.thy ===== *)
theory Rxtx_Main
  imports Rxtx_LE_Sync Rxtx_Tests Ego Rxtx_Stream
begin

text \<open>
  The main loop of \<^verbatim>\<open>bluetooth_rxtx.c\<close>: bring up the board, then poll the USB and enter the mode
  that the host has requested until it requests another one. The lemmas make the loop a transition
  system and show that the firmware invariant holds in every state of it.
\<close>

definition main_init :: "world \<Rightarrow> fw \<Rightarrow> fw option" where
  "main_init w s = map_option clkn_init (ubertooth_init w s)"

text \<open>The switch of the main loop. The modes that are not listed do nothing.\<close>

fun enter_mode :: "world \<Rightarrow> operating_mode \<Rightarrow> fw \<Rightarrow> fw option" where
  "enter_mode w MODE_RESET s = Some (reset_board s)"
| "enter_mode w MODE_AFH s = bt_stream_rx w (s\<lparr>mode := MODE_AFH\<rparr>)"
| "enter_mode w MODE_RX_SYMBOLS s = bt_stream_rx w (s\<lparr>mode := MODE_RX_SYMBOLS, uq := queue_init (uq s)\<rparr>)"
| "enter_mode w MODE_BT_FOLLOW s = bt_stream_rx w (s\<lparr>mode := MODE_BT_FOLLOW\<rparr>)"
| "enter_mode w MODE_BT_FOLLOW_LE s = bt_follow_le w s"
| "enter_mode w MODE_BT_PROMISC_LE s = bt_promisc_le w s"
| "enter_mode w MODE_BT_SLAVE_LE s = bt_slave_le w s"
| "enter_mode w MODE_TX_TEST s = cc2400_txtest w (s\<lparr>mode := MODE_TX_TEST\<rparr>)"
| "enter_mode w MODE_RANGE_TEST s =
     map_option (\<lambda>s. s\<lparr>requested_mode := MODE_IDLE\<rparr>) (cc2400_rangetest w (s\<lparr>mode := MODE_RANGE_TEST\<rparr>))"
| "enter_mode w MODE_REPEATER s = cc2400_repeater w (s\<lparr>mode := MODE_REPEATER\<rparr>)"
| "enter_mode w MODE_SPECAN s = specan w s"
| "enter_mode w MODE_LED_SPECAN s = led_specan w s"
| "enter_mode w MODE_EGO s = ego_main w (ego_mode s) (s\<lparr>mode := MODE_EGO\<rparr>)"
| "enter_mode w MODE_IDLE s = cc2400_idle w s"
| "enter_mode w MODE_TX_SYMBOLS s = Some s"

text \<open>One turn of the main loop; interrupts come in before the requested mode is looked at.\<close>

definition main_round :: "world \<Rightarrow> fw \<Rightarrow> fw option" where
  "main_round w s = do {
     s \<leftarrow> handle_usb w s;
     s \<leftarrow> interrupts w s;
     if requested_mode s \<noteq> mode s then enter_mode w (requested_mode s) s else Some s
   }"

text \<open>The states at the head of the loop; after \<open>reset\<close> the watchdog restarts the board.\<close>

inductive main_reach :: "world \<Rightarrow> fw \<Rightarrow> bool" for w where
  boot: "main_init w fw_initial = Some s \<Longrightarrow> main_reach w s"
| round: "main_reach w s \<Longrightarrow> \<not> board_reset s \<Longrightarrow> main_round w s = Some t \<Longrightarrow> main_reach w t"

code_pred (modes: i \<Rightarrow> o \<Rightarrow> bool) main_reach .

inductive_cases main_reach_elim: "main_reach w s"

subsection \<open>Every mode keeps the invariant\<close>

lemma fw_inv_idle: "cc2400_idle w s = Some t \<Longrightarrow> fw_inv s \<Longrightarrow> fw_inv t"
  by (simp add: fw_inv_radio)

lemma fw_inv_rx_symbols:
  assumes "bt_stream_rx w (s\<lparr>mode := MODE_RX_SYMBOLS, uq := queue_init (uq s)\<rparr>) = Some t" and "fw_inv s"
  shows "fw_inv t"
proof -
  have "fw_inv ((s\<lparr>mode := MODE_RX_SYMBOLS\<rparr>)\<lparr>uq := queue_init (uq (s\<lparr>mode := MODE_RX_SYMBOLS\<rparr>))\<rparr>)"
    using assms(2) by (intro fw_inv_queue_init) simp
  with assms(1) show ?thesis using fw_inv_stream by force
qed

lemma fw_inv_enter_mode: "enter_mode w m s = Some t \<Longrightarrow> fw_inv s \<Longrightarrow> fw_inv t"
proof (cases m)
  case MODE_REPEATER
  moreover assume "enter_mode w m s = Some t"
  ultimately have False using fw_inv_repeater [of w "s\<lparr>mode := MODE_REPEATER\<rparr>" t] by simp
  then show ?thesis ..
qed (auto dest: fw_inv_stream fw_inv_rx_symbols fw_inv_follow_le fw_inv_promisc fw_inv_slave fw_inv_txtest
    fw_inv_rangetest fw_inv_specan fw_inv_led_specan fw_inv_ego fw_inv_idle)

lemma fw_inv_main_round: "main_round w s = Some t \<Longrightarrow> fw_inv s \<Longrightarrow> fw_inv t"
  by (auto simp: main_round_def split: bind_splits if_splits
      dest: fw_inv_handle_usb fw_inv_interrupts fw_inv_enter_mode)

lemma fw_inv_init [simp]:
  "fw_inv (gpio_init s) = fw_inv s" "fw_inv (cc2400_init w s) = fw_inv s" "fw_inv (clkn_init s) = fw_inv s"
  "fw_inv (feed r s) = fw_inv s"
  using fw_inv_board [of s "gpio_init s"]
  by (simp_all add: cc2400_init_def atest_init_def clkn_init_def feed_def Let_def)

lemma fw_inv_rd_reset: "rd_reset w s = Some t \<Longrightarrow> fw_inv t = fw_inv s"
  by (auto simp: rd_reset_def)

lemma fw_inv_clock_start: "clock_start w s = Some t \<Longrightarrow> fw_inv t = fw_inv s"
  unfolding clock_start_def Let_def
  by (auto simp: fw_inv_rd_reset hist_only_fw_inv split: bind_splits)

lemma fw_inv_main_init: "main_init w s = Some t \<Longrightarrow> fw_inv t = fw_inv s"
  by (auto simp: main_init_def ubertooth_init_def fw_inv_clock_start)

subsection \<open>AFH mode\<close>

text \<open>The operations that set up a stream touch neither the requested mode nor the queue.\<close>

definition mode_queue :: "fw \<Rightarrow> operating_mode \<times> usbq" where
  "mode_queue s = (requested_mode s, uq s)"

lemma mode_queue_simps [simp]:
  "mode_queue (pin_set p s) = mode_queue s" "mode_queue (pin_clr p s) = mode_queue s"
  "mode_queue (reg_write r v s) = mode_queue s" "mode_queue (reg_or r v s) = mode_queue s"
  "mode_queue (reg_clear r v s) = mode_queue s" "mode_queue (reg_writes rs v s) = mode_queue s"
  "mode_queue (s\<lparr>hist := h\<rparr>) = mode_queue s" "mode_queue (s\<lparr>cs_trigger := b\<rparr>) = mode_queue s"
  "mode_queue (s\<lparr>rx_tc := a, rx_err := c\<rparr>) = mode_queue s"
  "mode_queue (s\<lparr>rx_dma_lli1 := l, rx_dma_lli2 := l'\<rparr>) = mode_queue s"
  "mode_queue (dio_ssp_init s) = mode_queue s"
  by (simp_all add: mode_queue_def pin_set_def pin_clr_def reg_write_def reg_or_def reg_clear_def reg_writes_eq
    dio_ssp_init_def pinsel0_ssp_def Let_def)

lemma mode_queue_cs [simp]: "mode_queue (cs_threshold_calc_and_set w s) = mode_queue s"
  by (rule cs_threshold_calc_obtain [of w s]) (simp add: mode_queue_def)

lemma mode_queue_setup:
  "dma_init w s = Some t \<Longrightarrow> mode_queue t = mode_queue s"
  "dio_ssp_stop s = Some t \<Longrightarrow> mode_queue t = mode_queue s"
  "mode_queue (dio_ssp_start s) = mode_queue s"
  "mode_queue (cs_trigger_enable s) = mode_queue s"
  "mode_queue (cs_trigger_disable s) = mode_queue s"
  "hist_only s t \<Longrightarrow> mode_queue t = mode_queue s"
  by (auto simp: dma_init_def dio_ssp_stop_def dio_ssp_start_def cs_trigger_enable_def cs_trigger_disable_def
    Let_def reg_check_Some dma_start_def dma_clear_def hist_only_def split: bind_splits)

lemma mode_queue_rx: "cc2400_rx w s = Some t \<Longrightarrow> mode_queue t = mode_queue s"
  using mode_queue_setup(6) [OF hist_only_rd(1)] 
  by (auto simp: cc2400_rx_def Let_def split: bind_splits if_splits dest!: hist_only_lock mode_queue_setup(6))

text \<open>In AFH mode the streaming loop is left before the first buffer, with an empty queue.\<close>

lemma afh_mode_never_streams:
  assumes "bt_stream_rx w s = Some t" and "requested_mode s = MODE_AFH"
  shows "usbq_list (uq t) = []"
proof -
  define s0 where "s0 = (pin_clr RXLED s)\<lparr>uq := queue_init (uq (pin_clr RXLED s))\<rparr>"
  have s0: "mode_queue s0 = (MODE_AFH, queue_init (uq s))"
    using assms(2) by (simp add: s0_def mode_queue_def pin_clr_def)
  obtain s1 s2 s3 s4 where s1: "dma_init w (dio_ssp_init s0) = Some s1" and s2: "cc2400_rx w (dio_ssp_start s1) = Some s2"
    and s3: "while_opt (\<lambda>s. requested_mode s = MODE_RX_SYMBOLS \<or> requested_mode s = MODE_BT_FOLLOW) (stream_round w)
      (cs_trigger_enable s2) = Some s3"
    and s4: "dio_ssp_stop s3 = Some s4" and t: "t = cs_trigger_disable s4"
    using assms(1) by (auto simp: bt_stream_rx_def Let_def s0_def split: bind_splits)
  have enabled: "mode_queue (cs_trigger_enable s2) = (MODE_AFH, queue_init (uq s))"
    using mode_queue_setup(1) [OF s1] mode_queue_rx [OF s2] s0 by (simp add: mode_queue_setup)
  then have "requested_mode (cs_trigger_enable s2) = MODE_AFH" by (simp add: mode_queue_def)
  with s3 have "s3 = cs_trigger_enable s2" by simp
  then have "mode_queue t = (MODE_AFH, queue_init (uq s))"
    using mode_queue_setup(2) [OF s4] enabled by (simp add: t mode_queue_setup)
  then show ?thesis by (simp add: mode_queue_def queue_init_empty)
qed

subsection \<open>A board that starts\<close>

text \<open>The radio of \<open>lab_world\<close> on a board whose clock status registers show both values in turn.\<close>

definition bench_world :: world where
  "bench_world = lab_world\<lparr>w_reg := (\<lambda>h r. if even (count_list h Tick) then 0 else -1)\<rparr>"

lemma bench_reg_wait:
  assumes "p 0 \<or> p (-1)"
  shows "\<exists>t. reg_wait bench_world r p s = Some t"
proof -
  let ?rd = "\<lambda>h. (w_reg bench_world (h @ [Tick]) r, h @ [Tick])"
  have "\<exists>k. p (fst (?rd (hist s @ replicate k Tick)))"
    using assms by (cases "p (fst (?rd (hist s @ replicate 0 Tick)))")
      (auto simp: bench_world_def intro: exI [of _ 0] exI [of _ "Suc 0"])
  then obtain k where "p (fst (?rd (hist s @ replicate k Tick)))" ..
  then have "\<exists>h. poll ?rd p (hist s) = Some h"
    by (intro poll_returns [where q = Tick and k = k]) auto
  then show ?thesis by (auto simp: reg_wait_def)
qed

lemma lab_get: "fst (cc2400_get lab_radio MAIN h) = ucast (lab_reg 0 (h @ [Spi 24 0x800000]) AND 0xffff)"
  by (rule bit_word_eqI)
    (auto simp: cc2400_get_def cc2400_spi_def Let_def cc2400_spi_wires_def split_beta bit_simps spi_loop_result
      lab_radio_def)

lemma bench_reset: "\<exists>t. rd_reset bench_world s = Some t"
proof -
  have ends: "\<exists>h'. wait_reg lab_radio MAIN (\<lambda>x. x = v) (cc2400_set lab_radio MAIN v h) = Some h'"
    if "v = 0 \<or> v = 0x8000" for v h
    unfolding wait_reg_def
    by (rule poll_returns [where k = 0, OF cc2400_get_hist])
      (use that in \<open>auto simp: lab_get lab_reg_def\<close>)
  from ends [of 0 "hist s"] obtain h1
    where h1: "wait_reg lab_radio MAIN (\<lambda>x. x = 0) (cc2400_set lab_radio MAIN 0 (hist s)) = Some h1" by blast
  from ends [of "0x8000" h1] obtain h2
    where h2: "wait_reg lab_radio MAIN (\<lambda>x. x = 0x8000) (cc2400_set lab_radio MAIN 0x8000 h1) = Some h2" by blast
  have "w_cc bench_world = lab_radio" by (simp add: bench_world_def lab_world_def)
  then have "rd_reset bench_world s = Some (s\<lparr>hist := h2\<rparr>)"
    unfolding rd_reset_def cc2400_reset_def Let_def using h1 h2 by simp
  then show ?thesis by simp
qed

lemma bench_stable: "\<exists>t. rd_wait bench_world XOSC16M_STABLE s = Some t"
proof -
  have "XOSC16M_STABLE (fst (cc2400_status lab_radio (hist s)))"
    by (simp add: XOSC16M_STABLE_def cc2400_status_bit lab_radio_def)
  then have "\<exists>h. wait_status lab_radio XOSC16M_STABLE (hist s) = Some h"
    unfolding wait_status_def by (intro poll_returns [where k = 0, OF cc2400_status_hist]) simp
  then show ?thesis by (auto simp: rd_wait_def bench_world_def lab_world_def)
qed

lemma bind_returns: "\<exists>s. m = Some s \<Longrightarrow> (\<And>s. \<exists>t. f s = Some t) \<Longrightarrow> \<exists>t. m \<bind> f = Some t"
  by auto

lemma bench_waits:
  "p 0 \<or> p (-1) \<Longrightarrow> \<exists>t. reg_wait bench_world r p s = Some t"
  "\<exists>t. rd_reset bench_world s = Some t" "\<exists>t. rd_wait bench_world XOSC16M_STABLE s = Some t"
  using bench_reg_wait bench_reset bench_stable by blast+

lemma bench_boots: "\<exists>t. main_init bench_world s = Some t"
proof -
  have "\<exists>t. clock_start bench_world s = Some t" for s
    unfolding clock_start_def Let_def
    by ((rule bind_returns, (rule bench_waits, simp | rule bench_waits))+) (rule bench_waits, simp)
  then show ?thesis by (auto simp: main_init_def ubertooth_init_def)
qed



end
