(* ===== verification/Rxtx_Hop.thy ===== *)
theory Rxtx_Hop
  imports Rxtx_Main
begin

text \<open>
  Hopping, tracking and timing: what a hop programs into the radio, the order of the sweep, the
  connection interval kept by the timer interrupt, the transitions of the link state and the cache
  of access addresses.
\<close>

subsection \<open>What a hop tells the radio\<close>

text \<open>The value last written to a register of the radio.\<close>

definition last_write :: "u8 \<Rightarrow> hw_hist \<Rightarrow> u16 option" where
  "last_write reg h =
     foldl (\<lambda>v x. case x of Spi n d \<Rightarrow> if n = 24 \<and> drop_bit 16 d = ucast reg then Some (ucast d) else v | _ \<Rightarrow> v) None h"

lemma last_write_short [simp]:
  "last_write reg (h @ [Spi 8 d]) = last_write reg h"
  "last_write reg (h @ replicate k (Spi 8 d)) = last_write reg h"
proof -
  show one: "last_write reg (h @ [Spi 8 d]) = last_write reg h" for h by (simp add: last_write_def)
  show "last_write reg (h @ replicate k (Spi 8 d)) = last_write reg h"
  proof (induction k arbitrary: h)
    case (Suc k)
    then show ?case using Suc [of "h @ [Spi 8 d]"] one by simp
  qed simp
qed

lemma spi_word:
  "drop_bit 16 (push_bit 16 (ucast (q :: u8)) OR ucast (v :: u16) :: u32) = ucast q"
  "ucast (push_bit 16 (ucast (q :: u8)) OR ucast (v :: u16) :: u32) = v"
  by (rule bit_word_eqI; auto simp: bit_simps dest: bit_imp_le_length)+

lemma ucast_reg_eq: "(ucast (q :: u8) :: u32) = ucast reg \<longleftrightarrow> q = reg"
proof
  assume "(ucast q :: u32) = ucast reg"
  then have "(ucast (ucast q :: u32) :: u8) = ucast (ucast reg :: u32)" by simp
  then show "q = reg" by (simp add: ucast_up_ucast_id is_up)
qed simp

lemma last_write_set [simp]:
  "last_write reg (h @ [Spi 24 (push_bit 16 (ucast q) OR ucast v)]) = (if q = reg then Some v else last_write reg h)"
  unfolding last_write_def foldl_append foldl.simps hw_op.case spi_word ucast_reg_eq by simp

lemma last_write_cc2400_set:
  "last_write reg (cc2400_set cc q v h) = (if q = reg then Some v else last_write reg h)"
  unfolding cc2400_set_hist by (rule last_write_set)

lemma last_write_wait: "rd_wait w p s = Some t \<Longrightarrow> last_write reg (hist t) = last_write reg (hist s)"
  by (drule rd_wait_Some) (auto simp del: replicate_Suc)

text \<open>The register transfers of a retuning.\<close>

lemma hop_retune_radio:
  assumes "hop_retune w s = Some t"
  shows "last_write FSDIV (hist t) = Some (channel s - 1) \<and> last (hist t) = Spi 8 (ucast SRX)
    \<and> (\<exists>h i n. t = s\<lparr>cs_threshold_cur := i, cs_no_squelch := n, dma_discard := True, hist := h\<rparr>)"
proof -
  obtain s1 where s1: "rd_off w s = Some s1" and run:
      "(let s2 = rd_set w FSDIV (channel s1 - 1) s1;
            s3 = (if hop_mode s2 \<noteq> HOP_NONE then cs_threshold_calc_and_set w s2 else s2)
        in rd_wait w FS_LOCK (rd_strobe w SFSON s3) \<bind> (\<lambda>s. Some (rd_strobe w SRX (s\<lparr>dma_discard := True\<rparr>)))) = Some t"
    using assms by (auto simp: hop_retune_def Let_def split: bind_splits)
  from s1 obtain h1 where h1: "s1 = s\<lparr>hist := h1\<rparr>"
    using hist_only_rd(9) unfolding hist_only_def by blast
  define s2 where "s2 = rd_set w FSDIV (channel s1 - 1) s1"
  define s3 where "s3 = (if hop_mode s2 \<noteq> HOP_NONE then cs_threshold_calc_and_set w s2 else s2)"
  have w2: "last_write FSDIV (hist s2) = Some (channel s - 1)"
  proof -
    have "hist s2 = h1 @ [Spi 24 (push_bit 16 (ucast FSDIV) OR ucast (channel s - 1))]"
      by (simp add: s2_def h1)
    then show ?thesis by (simp only: last_write_set simp_thms if_True)
  qed
  have w3: "last_write FSDIV (hist s3) = Some (channel s - 1)
      \<and> (\<exists>h i n. s3 = s\<lparr>hist := h, cs_threshold_cur := i, cs_no_squelch := n\<rparr>)"
  proof (cases "hop_mode s2 = HOP_NONE")
    case True
    have "s2 = s\<lparr>hist := hist s2, cs_threshold_cur := cs_threshold_cur s, cs_no_squelch := cs_no_squelch s\<rparr>"
      by (simp add: s2_def h1)
    then have "\<exists>h i n. s2 = s\<lparr>hist := h, cs_threshold_cur := i, cs_no_squelch := n\<rparr>" by blast
    with True w2 show ?thesis unfolding s3_def by simp
  next
    case False
    obtain level where "cs_threshold_calc_and_set w s2 = s2\<lparr>hist := cc2400_set (w_cc w) RSSI (rssi_reg_value level) (hist s2),
        cs_threshold_cur := level, cs_no_squelch := (level = -120)\<rparr>"
      by (rule cs_threshold_calc_obtain)
    with False have s3: "s3 = s2\<lparr>hist := cc2400_set (w_cc w) RSSI (rssi_reg_value level) (hist s2),
        cs_threshold_cur := level, cs_no_squelch := (level = -120)\<rparr>"
      unfolding s3_def by (simp only: if_True not_False_eq_True)
    have "last_write FSDIV (hist s3) = Some (channel s - 1)"
      unfolding s3 by (simp add: last_write_cc2400_set w2 del: cc2400_set_hist)
    moreover have "\<exists>h i n. s3 = s\<lparr>hist := h, cs_threshold_cur := i, cs_no_squelch := n\<rparr>"
      unfolding s3 s2_def h1 by auto
    ultimately show ?thesis by simp
  qed
  obtain s4 where s4: "rd_wait w FS_LOCK (rd_strobe w SFSON s3) = Some s4"
    and t: "t = rd_strobe w SRX (s4\<lparr>dma_discard := True\<rparr>)"
    using run unfolding Let_def s2_def [symmetric] s3_def [symmetric]
    by (cases "rd_wait w FS_LOCK (rd_strobe w SFSON s3)") simp_all
  have "last_write FSDIV (hist s4) = Some (channel s - 1)"
    using last_write_wait [OF s4] w3 by simp
  moreover obtain h4 where "s4 = s3\<lparr>hist := h4\<rparr>"
    using hist_only_rd(5) [OF s4] by (auto simp: hist_only_def)
  moreover from this w3 obtain i n where "s4 = s\<lparr>cs_threshold_cur := i, cs_no_squelch := n, hist := h4\<rparr>"
    by auto
  then have "t = s\<lparr>cs_threshold_cur := i, cs_no_squelch := n, dma_discard := True, hist := h4 @ [Spi 8 (ucast SRX)]\<rparr>"
    by (simp add: t)
  then have "\<exists>h i n. t = s\<lparr>cs_threshold_cur := i, cs_no_squelch := n, dma_discard := True, hist := h\<rparr>" by blast
  ultimately show ?thesis by (simp add: t)
qed

lemma hop_select_frame:
  assumes "hop_select s = Some t"
  shows "do_hop t = do_hop s \<and> last_hop t = last_hop s \<and> hop_mode t = hop_mode s"
proof -
  let ?P = "\<lambda>t. do_hop t = do_hop s \<and> last_hop t = last_hop s \<and> hop_mode t = hop_mode s"
  have sweep: "?P t" if "hop_sweep u = Some t" "?P u" for u t
    using that unfolding hop_sweep_def
    by (rule loop_opt_invariant [where P = ?P]) (auto simp: Let_def split: bind_splits if_splits)
  have afh: "?P t" if "hop_afh u = Some t" "?P u" for u t
    using that unfolding hop_afh_def
    by (rule loop_opt_invariant [where P = ?P]) (auto simp: Let_def split: bind_splits if_splits)
  show ?thesis
    using assms unfolding hop_select_def
    by (cases "hop_mode s") (auto simp: Let_def split_beta pin_set_def dest: sweep afh)
qed

text \<open>C13: A hop in any hopping mode tunes the radio to the channel it has selected: when it is over,
  the frequency register was last written with one less than that channel, the last command was
  to receive, the request is cleared, its time is noted and the data received in between is marked
  to be discarded.\<close>

theorem hop_tunes_radio:
  assumes "hop w s = Some t" and "hop_mode s \<noteq> HOP_NONE"
  shows "last_write FSDIV (hist t) = Some (channel t - 1) \<and> last (hist t) = Spi 8 (ucast SRX)
    \<and> \<not> do_hop t \<and> last_hop t = clkn s \<and> dma_discard t
    \<and> map_option channel (hop_select (s\<lparr>do_hop := False, last_hop := clkn s\<rparr>)) = Some (channel t)"
proof -
  obtain u where u: "hop_select (s\<lparr>do_hop := False, last_hop := clkn s\<rparr>) = Some u" and t: "hop_retune w u = Some t"
    using assms by (auto simp: hop_def Let_def split: bind_splits)
  from hop_retune_radio [OF t] hop_select_frame [OF u] u show ?thesis by auto
qed

lemma lab_fs_lock: "FS_LOCK (fst (cc2400_status lab_radio h)) \<longleftrightarrow> lab_lock h"
proof -
  have "lab_lock (h @ [Spi 8 0]) = lab_lock h" by (simp add: lab_lock_def)
  then show ?thesis by (simp add: FS_LOCK_def cc2400_status_bit lab_radio_def)
qed

lemma lab_wait:
  assumes "p (fst (cc2400_status lab_radio (hist s)))"
  shows "\<exists>t. rd_wait lab_world p s = Some t"
proof -
  have "\<exists>h. poll (cc2400_status lab_radio) p (hist s) = Some h"
    using assms by (intro poll_returns [where k = 0, OF cc2400_status_hist]) simp
  then show ?thesis by (auto simp: rd_wait_def wait_status_def lab_world_def)
qed

lemma lab_retune: "\<exists>t. hop_retune lab_world s = Some t"
proof -
  have off: "\<exists>t. rd_off lab_world s = Some t" for s
    unfolding rd_off_def by (rule lab_wait) (simp add: lab_fs_lock, simp add: lab_lock_def)
  have on: "\<exists>t. rd_wait lab_world FS_LOCK (rd_strobe lab_world SFSON s) = Some t" for s
    by (rule lab_wait) (simp add: lab_fs_lock, simp add: lab_lock_def)
  show ?thesis
    unfolding hop_retune_def Let_def by (rule bind_returns, rule off, rule bind_returns, rule on) blast
qed

lemma hop_tunes_radio_witness:
  "\<exists>t. hop lab_world (fw_initial\<lparr>hop_mode := HOP_DIRECT, hop_direct_channel := 2404\<rparr>) = Some t
     \<and> last_write FSDIV (hist t) = Some 2403"
proof -
  let ?s = "fw_initial\<lparr>hop_mode := HOP_DIRECT, hop_direct_channel := 2404\<rparr>"
  obtain u where u: "hop_select (?s\<lparr>do_hop := False, last_hop := clkn ?s\<rparr>) = Some u" and ch: "channel u = 2404"
    by (simp add: hop_select_def Let_def pin_set_def)
  obtain t where "hop_retune lab_world u = Some t" using lab_retune by blast
  with u have t: "hop lab_world ?s = Some t" by (simp add: hop_def Let_def)
  from hop_tunes_radio [OF t] u ch have "last_write FSDIV (hist t) = Some (2404 - 1)" by simp
  with t show ?thesis by auto
qed

subsection \<open>The sweep\<close>

text \<open>In terms of offsets from 2402 MHz, a step of the sweep adds 32 modulo 79.\<close>

lemma sweep_step_offset:
  assumes "o1 < 79"
  shows "sweep_step (2402 + of_nat o1) = 2402 + of_nat ((o1 + 32) mod 79)"
proof -
  have "list_all (\<lambda>k. sweep_step (2402 + of_nat k) = 2402 + of_nat ((k + 32) mod 79)) [0..<79]" by code_simp
  with assms show ?thesis by (simp add: list_all_iff)
qed

lemma sweep_offset: "o1 < 79 \<Longrightarrow> (sweep_step ^^ n) (2402 + of_nat o1) = 2402 + of_nat ((o1 + 32 * n) mod 79)"
proof (induction n)
  case (Suc n)
  then show ?case by (simp add: sweep_step_offset mod_add_left_eq) (simp add: algebra_simps)
qed simp

lemma mod_79_inj:
  assumes "(o1 + 32 * a) mod 79 = (o1 + 32 * b) mod (79 :: nat)" and "b \<le> a" and "a < 79"
  shows "a = b"
proof -
  have "79 dvd (o1 + 32 * a) - (o1 + 32 * b)"
    using assms(1,2) mod_eq_dvd_iff_nat [of "o1 + 32 * b" "o1 + 32 * a" 79] by simp
  then have "79 dvd 32 * (a - b)" by (simp add: diff_mult_distrib2)
  moreover have "coprime 79 (32 :: nat)" by code_simp
  ultimately have "79 dvd a - b" by (simp add: coprime_dvd_mult_right_iff)
  with assms(2,3) show ?thesis
    by (metis diff_is_0_eq dvd_imp_le le_antisym less_imp_diff_less linorder_not_less not_gr_zero)
qed

text \<open>Starting from any of the 79 Bluetooth channels, 79 consecutive steps of the sweep visit each
  of them exactly once.\<close>

theorem sweep_visits_all:
  assumes "2402 \<le> ch" and "ch \<le> 2480"
  shows "bij_betw (\<lambda>n. (sweep_step ^^ n) ch) {..<79} {2402..2480}"
proof -
  define o1 where "o1 = unat (ch - 2402)"
  have ch: "ch = 2402 + of_nat o1" by (simp add: o1_def)
  have o1: "o1 < 79"
  proof -
    have "ch - 2402 \<le> 2480 - 2402" using assms by (intro word_le_minus_mono_left) simp_all
    then show ?thesis unfolding o1_def by (simp add: word_le_nat_alt)
  qed
  let ?f = "\<lambda>n. (2402 :: u16) + of_nat ((o1 + 32 * n) mod 79)"
  have f: "(sweep_step ^^ n) ch = ?f n" for n
    unfolding ch by (rule sweep_offset [OF o1])
  have unat: "unat (2402 + of_nat k :: u16) = 2402 + k" if "k < 79" for k
    using that by (simp add: unat_word_ariths unat_of_nat)
  have inj: "inj_on ?f {..<79}"
  proof (rule inj_onI)
    fix a b :: nat assume ab: "a \<in> {..<79}" "b \<in> {..<79}" "?f a = ?f b"
    then have "unat (?f a) = unat (?f b)" by simp
    then have "(o1 + 32 * a) mod 79 = (o1 + 32 * b) mod 79" by (simp add: unat)
    with ab show "a = b"
      using mod_79_inj [of o1 a b] mod_79_inj [of o1 b a] by (cases "b \<le> a") auto
  qed
  have sub: "?f ` {..<79} \<subseteq> {2402..2480}"
    by (auto simp: word_le_nat_alt unat)
  have "card {2402..2480 :: u16} \<le> 79"
  proof -
    have "unat ` {2402..2480 :: u16} \<subseteq> {2402..2480}" by (auto simp: word_le_nat_alt)
    then have "card (unat ` {2402..2480 :: u16}) \<le> card {2402..2480 :: nat}" by (intro card_mono) simp_all
    moreover have "card (unat ` {2402..2480 :: u16}) = card {2402..2480 :: u16}"
      by (intro card_image inj_onI) (simp add: word_unat_eq_iff)
    ultimately show ?thesis by simp
  qed
  then have "?f ` {..<79} = {2402..2480}"
    using sub inj by (intro card_seteq) (simp_all add: card_image)
  with inj show ?thesis unfolding bij_betw_def f by blast
qed

lemma sweep_visits_all_witness: "bij_betw (\<lambda>n. (sweep_step ^^ n) 2441) {..<79} {2402..2480}"
  by (rule sweep_visits_all) simp_all

subsection \<open>The connection interval\<close>

text \<open>The state after \<open>n\<close> timer interrupts, as far as the hop trigger depends on it.\<close>

lemma timer_keeps:
  assumes "hop_mode s = HOP_BTLE" and "clkn_offset s = 0"
  shows "hop_mode (TIMER0_IRQHandler True s) = HOP_BTLE" "clkn_offset (TIMER0_IRQHandler True s) = 0"
    "clkn (TIMER0_IRQHandler True s) = clkn s + 1"
    "link_state (le (TIMER0_IRQHandler True s)) = link_state (le s)"
    "conn_epoch (le (TIMER0_IRQHandler True s)) = conn_epoch (le s)"
    "conn_interval (le (TIMER0_IRQHandler True s)) = conn_interval (le s)"
  using assms by (simp_all add: TIMER0_IRQHandler_def hop_trigger_def Let_def reg_write_def pin_clr_def)

lemma timer_le:
  assumes "hop_mode s = HOP_BTLE" and "clkn_offset s = 0" and "link_state (le s) = LINK_CONNECTED"
  shows "(clkn s + 1 - conn_epoch (le s)) AND 3 \<noteq> 0 \<Longrightarrow>
      do_hop (TIMER0_IRQHandler True s) = do_hop s
      \<and> interval_timer (le (TIMER0_IRQHandler True s)) = interval_timer (le s)
      \<and> conn_count (le (TIMER0_IRQHandler True s)) = conn_count (le s)"
    and "(clkn s + 1 - conn_epoch (le s)) AND 3 = 0 \<Longrightarrow> interval_timer (le s) \<noteq> 1 \<Longrightarrow>
      do_hop (TIMER0_IRQHandler True s) = do_hop s
      \<and> interval_timer (le (TIMER0_IRQHandler True s)) = interval_timer (le s) - 1
      \<and> conn_count (le (TIMER0_IRQHandler True s)) = conn_count (le s)"
    and "(clkn s + 1 - conn_epoch (le s)) AND 3 = 0 \<Longrightarrow> interval_timer (le s) = 1 \<Longrightarrow>
      do_hop (TIMER0_IRQHandler True s)
      \<and> interval_timer (le (TIMER0_IRQHandler True s)) = conn_interval (le s)
      \<and> conn_count (le (TIMER0_IRQHandler True s)) = conn_count (le s) + 1"
  using assms by (simp_all add: TIMER0_IRQHandler_def hop_trigger_def Let_def reg_write_def pin_clr_def)

lemma and_3_zero: "(y :: u32) AND 3 = 0 \<longleftrightarrow> unat y mod 4 = 0"
proof -
  have "y AND 3 = take_bit 2 y" by (simp add: take_bit_eq_mask mask_eq_decr_exp)
  then have "unat (y AND 3) = take_bit 2 (unat y)" by (simp only: unsigned_take_bit_eq)
  then have "unat (y AND 3) = unat y mod 4" by (simp add: take_bit_eq_mod)
  then show ?thesis by (metis unat_eq_0)
qed

lemma and_3_add:
  assumes "(x :: u32) AND 3 = 0"
  shows "(x + of_nat n) AND 3 = 0 \<longleftrightarrow> n mod 4 = 0"
proof -
  have "unat (x + of_nat n) mod 4 = (unat x + n) mod 4"
    by (simp add: unat_word_ariths unat_of_nat mod_add_right_eq mod_mod_cancel)
  with assms show ?thesis unfolding and_3_zero by presburger
qed

text \<open>The state \<open>n\<close> ticks after \<open>s\<close>, before the hop.\<close>

definition counting_down :: "fw \<Rightarrow> nat \<Rightarrow> fw \<Rightarrow> bool" where
  "counting_down s n u \<longleftrightarrow> hop_mode u = HOP_BTLE \<and> clkn_offset u = 0 \<and> link_state (le u) = LINK_CONNECTED
     \<and> clkn u = clkn s + of_nat n \<and> conn_epoch (le u) = conn_epoch (le s)
     \<and> conn_interval (le u) = conn_interval (le s) \<and> \<not> do_hop u
     \<and> interval_timer (le u) = of_nat (unat (interval_timer (le s)) - n div 4) \<and> conn_count (le u) = conn_count (le s)"

lemma counting_aligned:
  assumes "counting_down s n u" and "(clkn s - conn_epoch (le s)) AND 3 = 0"
  shows "(clkn u + 1 - conn_epoch (le u)) AND 3 = 0 \<longleftrightarrow> Suc n mod 4 = 0"
  using assms(1) and_3_add [OF assms(2), of "Suc n"] by (simp add: counting_down_def algebra_simps)

lemma counting_last:
  assumes "counting_down s n u"
  shows "interval_timer (le u) = 1 \<longleftrightarrow> unat (interval_timer (le s)) - n div 4 = 1"
proof -
  let ?k = "unat (interval_timer (le s))"
  have "?k < 2 ^ 16" using unsigned_less [of "interval_timer (le s)"] by simp
  then have k: "unat (of_nat (?k - n div 4) :: u16) = ?k - n div 4" by (simp add: unsigned_of_nat take_bit_nat_eq_self)
  have left: "interval_timer (le u) = of_nat (?k - n div 4)" using assms by (simp add: counting_down_def)
  show ?thesis unfolding left word_unat_eq_iff k by simp
qed

lemma counting_step:
  assumes u: "counting_down s n u" and "(clkn s - conn_epoch (le s)) AND 3 = 0"
    and n: "Suc n < 4 * unat (interval_timer (le s))"
  shows "counting_down s (Suc n) (TIMER0_IRQHandler True u)"
proof (cases "Suc n mod 4 = 0")
  case True
  let ?k = "unat (interval_timer (le s))"
  have "?k - n div 4 \<noteq> 1" and d: "Suc n div 4 = Suc (n div 4)" and k: "n div 4 < ?k"
    using True n by presburger+
  then have "interval_timer (le u) \<noteq> 1" using counting_last [OF u] by simp
  moreover have "(of_nat (?k - n div 4) :: u16) - 1 = of_nat (?k - Suc (n div 4))"
    using k by (simp add: of_nat_diff algebra_simps)
  ultimately show ?thesis
    using u timer_keeps [of u] timer_le(2) [of u] counting_aligned [OF assms(1,2)] True
    unfolding counting_down_def d by simp
next
  case False
  then have "Suc n div 4 = n div 4" by presburger
  with False show ?thesis
    using u timer_keeps [of u] timer_le(1) [of u] counting_aligned [OF assms(1,2)]
    unfolding counting_down_def by simp
qed

text \<open>C21: While a connection is being followed, the timer interrupt requests a hop exactly once per
  connection interval: starting at a multiple of four clock ticks after the epoch with \<open>k\<close> units
  left on the interval timer, the request comes with the \<open>4 k\<close>-th tick and not before, the
  connection event counter advances by one and the timer is loaded with the next interval.\<close>

theorem le_hop_interval:
  assumes "hop_mode s = HOP_BTLE" and "clkn_offset s = 0" and "link_state (le s) = LINK_CONNECTED"
    and "(clkn s - conn_epoch (le s)) AND 3 = 0" and "\<not> do_hop s" and "0 < interval_timer (le s)"
  shows "(\<forall>n < 4 * unat (interval_timer (le s)). \<not> do_hop ((TIMER0_IRQHandler True ^^ n) s))
    \<and> do_hop ((TIMER0_IRQHandler True ^^ (4 * unat (interval_timer (le s)))) s)
    \<and> conn_count (le ((TIMER0_IRQHandler True ^^ (4 * unat (interval_timer (le s)))) s)) = conn_count (le s) + 1
    \<and> interval_timer (le ((TIMER0_IRQHandler True ^^ (4 * unat (interval_timer (le s)))) s)) = conn_interval (le s)"
proof -
  let ?T = "TIMER0_IRQHandler True"
  let ?k = "unat (interval_timer (le s))"
  have k: "0 < ?k" using assms(6) by (simp add: word_less_nat_alt)
  have run: "counting_down s n ((?T ^^ n) s)" if "n < 4 * ?k" for n
    using that
  proof (induction n)
    case 0
    then show ?case using assms by (simp add: counting_down_def)
  next
    case (Suc n)
    then show ?case using counting_step [of s n "(?T ^^ n) s"] assms(4) by simp
  qed
  obtain m where m: "4 * ?k = Suc m" and m4: "m < 4 * ?k" "Suc m mod 4 = 0" "?k - m div 4 = 1"
  proof
    show "4 * ?k = Suc (4 * ?k - 1)" and "4 * ?k - 1 < 4 * ?k" using k by simp_all
    show "Suc (4 * ?k - 1) mod 4 = 0" and "?k - (4 * ?k - 1) div 4 = 1" using k by presburger+
  qed
  let ?u = "(?T ^^ m) s"
  have u: "counting_down s m ?u" by (rule run [OF m4(1)])
  then have "interval_timer (le ?u) = 1" using counting_last m4(3) by blast
  then have "do_hop (?T ?u) \<and> interval_timer (le (?T ?u)) = conn_interval (le s) \<and> conn_count (le (?T ?u)) = conn_count (le s) + 1"
    using u timer_le(3) [of ?u] counting_aligned [OF u assms(4)] m4(2) by (simp add: counting_down_def)
  then show ?thesis using run unfolding m by (simp add: counting_down_def)
qed

lemma le_hop_interval_witness:
  "do_hop ((TIMER0_IRQHandler True ^^ 8)
     (fw_initial\<lparr>hop_mode := HOP_BTLE, le := le_initial\<lparr>link_state := LINK_CONNECTED, interval_timer := 2, conn_interval := 6\<rparr>\<rparr>))"
proof -
  let ?s = "fw_initial\<lparr>hop_mode := HOP_BTLE, le := le_initial\<lparr>link_state := LINK_CONNECTED, interval_timer := 2, conn_interval := 6\<rparr>\<rparr>"
  have "unat (interval_timer (le ?s)) = 2" by simp
  moreover have "(clkn ?s - conn_epoch (le ?s)) AND 3 = 0" "\<not> do_hop ?s" "clkn_offset ?s = 0"
    by (simp_all add: fw_initial_def le_initial_def)
  ultimately show ?thesis using le_hop_interval [of ?s] by simp
qed

subsection \<open>The link state\<close>

text \<open>Whether a packet is a connection request that the follower accepts: of type 5 and, when the
  user has set a target, from or to it.\<close>

definition connect_accepted :: "u8 list \<Rightarrow> le_state \<Rightarrow> bool" where
  "connect_accepted p l \<longleftrightarrow> p ! 4 AND 0x0F = 5 \<and>
     (target_set l \<longrightarrow> le_target l = take 6 (drop 6 p) \<or> le_target l = take 6 (drop 12 p))"

lemma le_set_aa_link [simp]: "link_state (le_set_access_address aa l) = link_state l"
  by (simp add: le_set_access_address_def Let_def)

text \<open>C22: The follower moves through the link states in order: a listening follower waits for a
  connection request it accepts, the first packet after it makes the connection established, and
  no packet takes an established or an inactive link anywhere else. The follower asks for a hop
  exactly when it accepts the request, and it then looks for the access address of the connection.\<close>

theorem follow_link_transitions:
  "link_state (le (connection_follow_cb p s)) = (case link_state (le s) of
       LINK_LISTENING \<Rightarrow> if connect_accepted p (le s) then LINK_CONN_PENDING else LINK_LISTENING
     | LINK_CONN_PENDING \<Rightarrow> LINK_CONNECTED
     | q \<Rightarrow> q)
   \<and> do_hop (connection_follow_cb p s) = (do_hop s \<or> link_state (le s) = LINK_LISTENING \<and> connect_accepted p (le s))
   \<and> access_address (le (connection_follow_cb p s)) =
       (if link_state (le s) = LINK_LISTENING \<and> connect_accepted p (le s)
        then from_le (map (\<lambda>i. p ! (18 + i)) [0..<4]) else access_address (le s))"
proof -
  have aa: "foldl (\<lambda>aa i. aa OR push_bit (i * 8) (ucast (p ! (18 + i)))) 0 [0..<4] = (from_le (map (\<lambda>i. p ! (18 + i)) [0..<4]) :: u32)"
    by (simp add: upt_conv_Cons push_bit_or or.assoc)
  show ?thesis
    by (cases "link_state (le s)")
      (auto simp: aa connection_follow_cb_def follow_pending_def follow_connected_def follow_listening_def
        connect_accepted_def Let_def le_set_access_address_def)
qed

subsection \<open>The cache of access addresses\<close>

lemma aa_find_None: "aa_find i aa es = None \<longleftrightarrow> aa \<notin> fst ` set es"
  by (induction es arbitrary: i) auto

lemma aa_find_Some:
  "aa_find i aa es = Some j \<Longrightarrow> i \<le> j \<and> j < i + length es \<and> fst (es ! (j - i)) = aa
     \<and> (\<forall>k<j - i. fst (es ! k) \<noteq> aa)"
proof (induction es arbitrary: i)
  case (Cons e es)
  show ?case
  proof (cases "fst e = aa")
    case False
    then have "aa_find (Suc i) aa es = Some j" using Cons.prems by simp
    note ih = Cons.IH [OF this]
    then obtain d where "j = Suc (i + d)" by (metis add_Suc le_Suc_ex)
    with ih False show ?thesis by (auto simp: less_Suc_eq_0_disj)
  qed (use Cons.prems in auto)
qed simp

text \<open>The second loop finds the first of the least used entries.\<close>

lemma aa_victim_least:
  "0 \<le> mx \<Longrightarrow> \<forall>e\<in>set es. 0 \<le> snd e \<Longrightarrow>
   aa_victim i mx killme es = killme \<and> (\<forall>e\<in>set es. mx \<le> snd e)
   \<or> (\<exists>k<length es. aa_victim i mx killme es = int (i + k) \<and> snd (es ! k) < mx \<and> (\<forall>e\<in>set es. snd (es ! k) \<le> snd e))"
proof (induction es arbitrary: i mx killme)
  case (Cons e es)
  show ?case
  proof (cases "snd e < mx")
    case True
    have "aa_victim (Suc i) (snd e) (int i) es = int i \<and> (\<forall>e'\<in>set es. snd e \<le> snd e')
      \<or> (\<exists>k<length es. aa_victim (Suc i) (snd e) (int i) es = int (Suc i + k) \<and> snd (es ! k) < snd e
          \<and> (\<forall>e'\<in>set es. snd (es ! k) \<le> snd e'))"
      using Cons.prems by (intro Cons.IH) simp_all
    then show ?thesis
    proof (elim disjE exE conjE)
      assume "aa_victim (Suc i) (snd e) (int i) es = int i" "\<forall>e'\<in>set es. snd e \<le> snd e'"
      with True show ?thesis by (intro disjI2 exI [of _ 0]) simp
    next
      fix k assume "k < length es" "aa_victim (Suc i) (snd e) (int i) es = int (Suc i + k)" "snd (es ! k) < snd e"
        "\<forall>e'\<in>set es. snd (es ! k) \<le> snd e'"
      with True show ?thesis by (intro disjI2 exI [of _ "Suc k"]) simp
    qed
  next
    case False
    have "aa_victim (Suc i) mx killme es = killme \<and> (\<forall>e'\<in>set es. mx \<le> snd e')
      \<or> (\<exists>k<length es. aa_victim (Suc i) mx killme es = int (Suc i + k) \<and> snd (es ! k) < mx
          \<and> (\<forall>e'\<in>set es. snd (es ! k) \<le> snd e'))"
      using Cons.prems by (intro Cons.IH) simp_all
    then show ?thesis
    proof (elim disjE exE conjE)
      assume "aa_victim (Suc i) mx killme es = killme" "\<forall>e'\<in>set es. mx \<le> snd e'"
      with False Cons.prems show ?thesis by simp
    next
      fix k assume "k < length es" "aa_victim (Suc i) mx killme es = int (Suc i + k)" "snd (es ! k) < mx"
        "\<forall>e'\<in>set es. snd (es ! k) \<le> snd e'"
      with False Cons.prems show ?thesis by (intro disjI2 exI [of _ "Suc k"]) auto
    qed
  qed
qed simp

text \<open>The cache of access addresses counts: seeing an address that is cached adds one to the
  count of its first entry and changes nothing else; an address that is not cached takes, with
  count one, the place of an entry with the smallest count.\<close>

theorem see_aa_lfu:
  assumes "es \<noteq> []" and "\<forall>e\<in>set es. 0 \<le> snd e \<and> snd e < 2 ^ 31 - 1"
  shows "if aa \<in> fst ` set es
    then \<exists>i<length es. fst (es ! i) = aa \<and> (\<forall>j<i. fst (es ! j) \<noteq> aa) \<and> see_aa aa es = es[i := (aa, snd (es ! i) + 1)]
    else \<exists>i<length es. (\<forall>e\<in>set es. snd (es ! i) \<le> snd e) \<and> see_aa aa es = es[i := (aa, 1)]"
proof (cases "aa \<in> fst ` set es")
  case True
  then obtain i where i: "aa_find 0 aa es = Some i" using aa_find_None [of 0 aa es] by auto
  note found = aa_find_Some [OF i]
  then have "s32 (snd (es ! i) + 1) = snd (es ! i) + 1" using assms(2) by (intro s32_id) (auto dest: nth_mem)
  with found i True show ?thesis by (auto simp: see_aa_def intro!: exI [of _ i])
next
  case False
  then have none: "aa_find 0 aa es = None" by (simp add: aa_find_None)
  obtain e es' where es: "es = e # es'" using assms(1) by (cases es) auto
  have first: "aa_victim 0 (-1) (-1) es = aa_victim 1 (snd e) 0 es'" by (simp add: es)
  have "aa_victim 1 (snd e) 0 es' = 0 \<and> (\<forall>e'\<in>set es'. snd e \<le> snd e')
      \<or> (\<exists>k<length es'. aa_victim 1 (snd e) 0 es' = int (1 + k) \<and> snd (es' ! k) < snd e \<and> (\<forall>e'\<in>set es'. snd (es' ! k) \<le> snd e'))"
    using assms(2) by (intro aa_victim_least) (simp_all add: es)
  then have "\<exists>i<length es. aa_victim 0 (-1) (-1) es = int i \<and> (\<forall>e\<in>set es. snd (es ! i) \<le> snd e)"
  proof (elim disjE exE conjE)
    assume "aa_victim 1 (snd e) 0 es' = 0" "\<forall>e'\<in>set es'. snd e \<le> snd e'"
    then show ?thesis unfolding first by (intro exI [of _ 0]) (simp add: es)
  next
    fix k assume "k < length es'" "aa_victim 1 (snd e) 0 es' = int (1 + k)" "snd (es' ! k) < snd e"
      "\<forall>e'\<in>set es'. snd (es' ! k) \<le> snd e'"
    then show ?thesis unfolding first by (intro exI [of _ "Suc k"]) (simp add: es)
  qed
  then obtain i where "i < length es" "aa_victim 0 (-1) (-1) es = int i" "\<forall>e\<in>set es. snd (es ! i) \<le> snd e" by blast
  with none False show ?thesis by (auto simp: see_aa_def)
qed

lemma see_aa_lfu_witness:
  "\<exists>i<3. see_aa 9 [(5, 2), (6, 1), (7, 4)] = [(5, 2), (6, 1), (7, 4)][i := (9, 1)] \<and> i = (1 :: nat)"
proof -
  let ?es = "[(5, 2), (6, 1), (7, 4)] :: (u32 \<times> int) list"
  obtain i where i: "i < length ?es" "\<forall>e\<in>set ?es. snd (?es ! i) \<le> snd e" "see_aa 9 ?es = ?es[i := (9, 1)]"
    using see_aa_lfu [of ?es 9] by auto
  then have "i = 0 \<or> i = 1 \<or> i = 2" by auto
  with i have "i = 1" by auto
  with i show ?thesis by auto
qed

end
