(* ===== verification/Usb_Std.thy ===== *)
theory Usb_Std
  imports Rxtx_Vendor
begin

text \<open>
  The standard requests of the USB stack, \<^verbatim>\<open>firmware/common/lpcusb/target/usbstdreq.c\<close>, with the
  descriptors of \<^verbatim>\<open>ubertooth_usb.c\<close>: descriptor lookup, configuration, the requests to device,
  interface and endpoint, and the Microsoft OS descriptors. Pointers are a memory object and an
  offset; reading or writing outside the object is undefined (\<open>None\<close>). What the stack does to the USB
  hardware is appended to \<open>us_log\<close>.
\<close>

subsection \<open>State\<close>

record setup_packet =
  bmRequestType :: u8
  bRequest :: u8
  wValue :: u16
  wIndex :: u16
  wLength :: u16

text \<open>The layout of the structure in memory.\<close>

definition setup_bytes :: "setup_packet \<Rightarrow> u8 list" where
  "setup_bytes p = [bmRequestType p, bRequest p] @ le_bytes 2 (wValue p) @ le_bytes 2 (wIndex p)
     @ le_bytes 2 (wLength p)"

definition setup_of_bytes :: "u8 list \<Rightarrow> setup_packet" where
  "setup_of_bytes bs = \<lparr>bmRequestType = bs ! 0, bRequest = bs ! 1, wValue = from_le [bs ! 2, bs ! 3],
     wIndex = from_le [bs ! 4, bs ! 5], wLength = from_le [bs ! 6, bs ! 7]\<rparr>"

definition REQTYPE_GET_DIR :: "u8 \<Rightarrow> u8" where
  "REQTYPE_GET_DIR x = drop_bit 7 x AND 0x01"

definition REQTYPE_GET_TYPE :: "u8 \<Rightarrow> u8" where
  "REQTYPE_GET_TYPE x = drop_bit 5 x AND 0x03"

definition REQTYPE_GET_RECIP :: "u8 \<Rightarrow> u8" where
  "REQTYPE_GET_RECIP x = x AND 0x1F"

text \<open>The objects that \<open>pbData\<close> can point into; \<open>Null\<close> at offset 0 is the null pointer.\<close>

datatype usb_mem = Null | Std_store | Vendor_store | Desc | Os_string | Ext_feature | Ext_properties

type_synonym ptr = "usb_mem \<times> nat"

datatype req_handler = Standard_handler | Vendor_handler

datatype usb_hw =
    Ep_write u8 "u8 list" | Ep_stall u8 bool | Ep_config u8 u16 | Config_device bool | Set_address u8
  | Hw_init | Hw_connect bool

record usbdev =
  us_Setup :: setup_packet
  us_pbData :: ptr
  us_iResidue :: int
  us_iLen :: int
  us_handlers :: "req_handler option list"
  us_stores :: "ptr list"
  us_bConfiguration :: u8
  us_bMsVendorIndex :: u8
  us_std_data :: "u8 list"
  us_os_string :: "u8 list"
  us_ext_properties :: "u8 list"
  us_log :: "usb_hw list"
  us_fw :: fw

definition hw_do :: "usb_hw \<Rightarrow> usbdev \<Rightarrow> usbdev" where
  "hw_do x s = s\<lparr>us_log := us_log s @ [x]\<rparr>"

subsection \<open>Descriptors\<close>

definition LE_WORD :: "u16 \<Rightarrow> u8 list" where
  "LE_WORD x = [ucast (x AND 0xFF), ucast (drop_bit 8 x)]"

text \<open>Characters followed by a zero byte each.\<close>

definition utf16 :: "string \<Rightarrow> u8 list" where
  "utf16 cs = concat (map (\<lambda>c. [of_char c, 0]) cs)"

definition ascii :: "string \<Rightarrow> u8 list" where
  "ascii cs = map of_char cs"

definition abDescriptors :: "u8 list" where
  "abDescriptors =
     [0x12, 1] @ LE_WORD 0x0200 @ [0xFF, 0x00, 0x00, 64] @ LE_WORD 0x1D50 @ LE_WORD 0x6002
       @ LE_WORD 0x0101 @ [0x01, 0x02, 0x03, 0x01]
     @ [0x09, 2] @ LE_WORD 0x20 @ [0x01, 0x01, 0x00, 0x80, 0x6e]
     @ [0x09, 4, 0x00, 0x00, 0x02, 0xFF, 0x00, 0x00, 0x00]
     @ [0x07, 5, 0x82, 0x02] @ LE_WORD 64 @ [0]
     @ [0x07, 5, 0x05, 0x02] @ LE_WORD 64 @ [0]
     @ [0x04, 3] @ LE_WORD 0x0409
     @ [0x5C, 3] @ utf16 ''http://github.com/greatscottgadgets/ubertooth''
     @ [0x1E, 3] @ utf16 ''bluetooth_rxtx''
     @ [0x12, 3] @ utf16 ''00000001''
     @ [0]"

definition abOsStringDescriptor :: "u8 list" where
  "abOsStringDescriptor = [0x12, 3] @ utf16 ''MSFT100A''"

definition abExtendedOsFeatureDescriptor :: "u8 list" where
  "abExtendedOsFeatureDescriptor =
     [0x28, 0x00, 0x00, 0x00, 0x00, 0x01, 0x04, 0x00, 0x01, 0, 0, 0, 0, 0, 0, 0, 0x00, 0x01]
     @ ascii ''WINUSB'' @ [0, 0] @ replicate 8 0 @ replicate 6 0"

definition abExtendedPropertiesFeatureDescriptor :: "u8 list" where
  "abExtendedPropertiesFeatureDescriptor =
     [0x92, 0x00, 0x00, 0x00, 0x00, 0x01, 0x05, 0x00, 0x01, 0x00, 0x88, 0x00, 0x00, 0x00,
      0x07, 0x00, 0x00, 0x00, 0x2a, 0x00]
     @ utf16 ''DeviceInterfaceGUIDs'' @ [0, 0]
     @ [0x50, 0x00, 0x00, 0x00]
     @ utf16 ''{01234567-0123-4567-89ab-0123456789ab}'' @ [0, 0, 0, 0]"

subsection \<open>Memory\<close>

fun mem_get :: "usb_mem \<Rightarrow> usbdev \<Rightarrow> u8 list" where
  "mem_get Null s = []"
| "mem_get Std_store s = us_std_data s"
| "mem_get Vendor_store s = abVendorReqData (us_fw s)"
| "mem_get Desc s = abDescriptors"
| "mem_get Os_string s = us_os_string s"
| "mem_get Ext_feature s = abExtendedOsFeatureDescriptor"
| "mem_get Ext_properties s = us_ext_properties s"

text \<open>Only the data stores and the tables in RAM can be written.\<close>

fun mem_set :: "usb_mem \<Rightarrow> u8 list \<Rightarrow> usbdev \<Rightarrow> usbdev option" where
  "mem_set Std_store bs s = Some (s\<lparr>us_std_data := bs\<rparr>)"
| "mem_set Vendor_store bs s = Some (s\<lparr>us_fw := (us_fw s)\<lparr>abVendorReqData := bs\<rparr>\<rparr>)"
| "mem_set Os_string bs s = Some (s\<lparr>us_os_string := bs\<rparr>)"
| "mem_set Ext_properties bs s = Some (s\<lparr>us_ext_properties := bs\<rparr>)"
| "mem_set _ bs s = None"

fun store_at :: "ptr \<Rightarrow> u8 list \<Rightarrow> usbdev \<Rightarrow> usbdev option" where
  "store_at (m, off) bs s =
     (if bs = [] then Some s
      else if off + length bs \<le> length (mem_get m s) then mem_set m (put_at off bs (mem_get m s)) s
      else None)"

fun load_at :: "ptr \<Rightarrow> nat \<Rightarrow> usbdev \<Rightarrow> u8 list option" where
  "load_at (m, off) n s =
     (if n = 0 then Some []
      else if off + n \<le> length (mem_get m s) then Some (take n (drop off (mem_get m s))) else None)"

subsection \<open>Descriptor lookup\<close>

abbreviation (input) DESC_CONFIGURATION :: u8 where "DESC_CONFIGURATION \<equiv> 2"
abbreviation (input) DESC_STRING :: u8 where "DESC_STRING \<equiv> 3"
abbreviation (input) DESC_INTERFACE :: u8 where "DESC_INTERFACE \<equiv> 4"
abbreviation (input) DESC_ENDPOINT :: u8 where "DESC_ENDPOINT \<equiv> 5"
abbreviation (input) DESC_STRING_OS :: u8 where "DESC_STRING_OS \<equiv> 0xEE"

text \<open>\<open>pab[i]\<close> for the byte at offset \<open>i\<close> of the block.\<close>

definition byte_of :: "u8 list \<Rightarrow> nat \<Rightarrow> u8 option" where
  "byte_of ds i = (if i < length ds then Some (ds ! i) else None)"

definition word_of :: "u8 list \<Rightarrow> nat \<Rightarrow> int option" where
  "word_of ds i = do { l \<leftarrow> byte_of ds i; h \<leftarrow> byte_of ds (i + 1); Some (uint l OR push_bit 8 (uint h)) }"

text \<open>The search of \<open>USBGetDescriptor\<close>: the inner option says whether the descriptor exists.\<close>

function find_descriptor :: "u8 list \<Rightarrow> u8 \<Rightarrow> u8 \<Rightarrow> int \<Rightarrow> nat \<Rightarrow> (nat \<times> int) option option" where
  "find_descriptor ds bType bIndex iCurIndex pab =
     (case byte_of ds pab of
        None \<Rightarrow> None
      | Some bLength \<Rightarrow>
          if bLength = 0 then Some None
          else (case byte_of ds (pab + 1) of
              None \<Rightarrow> None
            | Some ty \<Rightarrow>
                if ty = bType \<and> iCurIndex = uint bIndex
                then if bType = DESC_CONFIGURATION
                     then map_option (\<lambda>n. Some (pab, n)) (word_of ds (pab + 2))
                     else Some (Some (pab, uint bLength))
                else find_descriptor ds bType bIndex (if ty = bType then iCurIndex + 1 else iCurIndex)
                       (pab + unat bLength)))"
  by pat_completeness auto

lemma unat_pos: "w \<noteq> 0 \<Longrightarrow> 0 < unat (w::'a::len word)"
  by (simp add: unat_gt_0)

termination find_descriptor
  by (relation "measure (\<lambda>(ds, _, _, _, pab). length ds - pab)")
    (auto simp: byte_of_def split: if_splits intro!: diff_less_mono2 unat_pos)

declare find_descriptor.simps [simp del]

definition USBGetOsStringDescriptor :: "usbdev \<Rightarrow> int \<times> ptr \<times> usbdev" where
  "USBGetOsStringDescriptor s =
     (let n = length (us_os_string s)
      in (int n, (Os_string, 0), s\<lparr>us_os_string := (us_os_string s)[n - 2 := us_bMsVendorIndex s]\<rparr>))"

type_synonym handled = "(bool \<times> int \<times> ptr \<times> usbdev) option"

definition USBGetDescriptor :: "u16 \<Rightarrow> int \<Rightarrow> ptr \<Rightarrow> usbdev \<Rightarrow> handled" where
  "USBGetDescriptor wTypeIndex iLen p s =
     (let bType = ucast (drop_bit 8 wTypeIndex AND 0xFF) :: u8;
          bIndex = ucast (wTypeIndex AND 0xFF) :: u8
      in if bType = DESC_STRING \<and> bIndex = DESC_STRING_OS
         then let (n, q, s) = USBGetOsStringDescriptor s in Some (True, n, q, s)
         else (case find_descriptor abDescriptors bType bIndex 0 0 of
             None \<Rightarrow> None
           | Some None \<Rightarrow> Some (False, iLen, p, s)
           | Some (Some (off, n)) \<Rightarrow> Some (True, n, (Desc, off), s)))"

subsection \<open>Configuration\<close>

text \<open>The loop of \<open>USBSetConfiguration\<close>: the endpoints it configures.\<close>

function config_endpoints :: "u8 list \<Rightarrow> u8 \<Rightarrow> u8 \<Rightarrow> u8 \<Rightarrow> u8 \<Rightarrow> nat \<Rightarrow> usb_hw list option" where
  "config_endpoints ds bConfigIndex bAltSetting bCurConfig bCurAltSetting pab =
     (case byte_of ds pab of
        None \<Rightarrow> None
      | Some bLength \<Rightarrow>
          if bLength = 0 then Some []
          else (case byte_of ds (pab + 1) of
              None \<Rightarrow> None
            | Some ty \<Rightarrow>
                if ty = DESC_CONFIGURATION
                then (case byte_of ds (pab + 5) of None \<Rightarrow> None
                      | Some c \<Rightarrow> config_endpoints ds bConfigIndex bAltSetting c bCurAltSetting (pab + unat bLength))
                else if ty = DESC_INTERFACE
                then (case byte_of ds (pab + 3) of None \<Rightarrow> None
                      | Some a \<Rightarrow> config_endpoints ds bConfigIndex bAltSetting bCurConfig a (pab + unat bLength))
                else if ty = DESC_ENDPOINT \<and> bCurConfig = bConfigIndex \<and> bCurAltSetting = bAltSetting
                then (case byte_of ds (pab + 2) of None \<Rightarrow> None
                      | Some bEP \<Rightarrow> (case word_of ds (pab + 4) of None \<Rightarrow> None
                          | Some n \<Rightarrow> map_option ((#) (Ep_config bEP (word_of_int n)))
                              (config_endpoints ds bConfigIndex bAltSetting bCurConfig bCurAltSetting (pab + unat bLength))))
                else config_endpoints ds bConfigIndex bAltSetting bCurConfig bCurAltSetting (pab + unat bLength)))"
  by pat_completeness auto

termination config_endpoints
  by (relation "measure (\<lambda>(ds, _, _, _, _, pab). length ds - pab)")
    (auto simp: byte_of_def split: if_splits intro!: diff_less_mono2 unat_pos)

declare config_endpoints.simps [simp del]

definition USBSetConfiguration :: "u8 \<Rightarrow> u8 \<Rightarrow> usbdev \<Rightarrow> usbdev option" where
  "USBSetConfiguration bConfigIndex bAltSetting s =
     (if bConfigIndex = 0 then Some (hw_do (Config_device False) s)
      else map_option (\<lambda>es. hw_do (Config_device True) (s\<lparr>us_log := us_log s @ es\<rparr>))
             (config_endpoints abDescriptors bConfigIndex bAltSetting 0xFF 0xFF 0))"

subsection \<open>Standard requests\<close>

abbreviation (input) REQ_GET_STATUS :: u8 where "REQ_GET_STATUS \<equiv> 0x00"
abbreviation (input) REQ_CLEAR_FEATURE :: u8 where "REQ_CLEAR_FEATURE \<equiv> 0x01"
abbreviation (input) REQ_SET_FEATURE :: u8 where "REQ_SET_FEATURE \<equiv> 0x03"
abbreviation (input) REQ_SET_ADDRESS :: u8 where "REQ_SET_ADDRESS \<equiv> 0x05"
abbreviation (input) REQ_GET_DESCRIPTOR :: u8 where "REQ_GET_DESCRIPTOR \<equiv> 0x06"
abbreviation (input) REQ_GET_CONFIGURATION :: u8 where "REQ_GET_CONFIGURATION \<equiv> 0x08"
abbreviation (input) REQ_SET_CONFIGURATION :: u8 where "REQ_SET_CONFIGURATION \<equiv> 0x09"
abbreviation (input) REQ_GET_INTERFACE :: u8 where "REQ_GET_INTERFACE \<equiv> 0x0A"
abbreviation (input) REQ_SET_INTERFACE :: u8 where "REQ_SET_INTERFACE \<equiv> 0x0B"

abbreviation (input) FEA_ENDPOINT_HALT :: u16 where "FEA_ENDPOINT_HALT \<equiv> 0x00"

text \<open>\<open>pbData[0] = ...; *piLen = n\<close>: an answer written to the data store.\<close>

definition answer :: "u8 list \<Rightarrow> ptr \<Rightarrow> usbdev \<Rightarrow> handled" where
  "answer bs p s = map_option (\<lambda>s. (True, int (length bs), p, s)) (store_at p bs s)"

definition HandleStdDeviceReq :: "setup_packet \<Rightarrow> int \<Rightarrow> ptr \<Rightarrow> usbdev \<Rightarrow> handled" where
  "HandleStdDeviceReq su iLen p s =
     (if bRequest su = REQ_GET_STATUS then answer [0, 0] p s
      else if bRequest su = REQ_SET_ADDRESS then
        Some (True, iLen, p, hw_do (Set_address (ucast (wValue su))) s)
      else if bRequest su = REQ_GET_DESCRIPTOR then USBGetDescriptor (wValue su) iLen p s
      else if bRequest su = REQ_GET_CONFIGURATION then answer [us_bConfiguration s] p s
      else if bRequest su = REQ_SET_CONFIGURATION then
        map_option (\<lambda>s. (True, iLen, p, s\<lparr>us_bConfiguration := ucast (wValue su AND 0xFF)\<rparr>))
          (USBSetConfiguration (ucast (wValue su AND 0xFF)) 0 s)
      else Some (False, iLen, p, s))"

definition HandleStdInterfaceReq :: "setup_packet \<Rightarrow> int \<Rightarrow> ptr \<Rightarrow> usbdev \<Rightarrow> handled" where
  "HandleStdInterfaceReq su iLen p s =
     (if bRequest su = REQ_GET_STATUS then answer [0, 0] p s
      else if bRequest su = REQ_GET_INTERFACE then answer [0] p s
      else if bRequest su = REQ_SET_INTERFACE then
        (if wValue su \<noteq> 0 then Some (False, iLen, p, s) else Some (True, 0, p, s))
      else Some (False, iLen, p, s))"

text \<open>\<open>es\<close> is the status byte of an endpoint, as a function of what has been done to the hardware.\<close>

definition HandleStdEndPointReq ::
  "(usb_hw list \<Rightarrow> u8 \<Rightarrow> u8) \<Rightarrow> setup_packet \<Rightarrow> int \<Rightarrow> ptr \<Rightarrow> usbdev \<Rightarrow> handled"
where
  "HandleStdEndPointReq es su iLen p s =
     (if bRequest su = REQ_GET_STATUS then
        answer [if bit (es (us_log s) (ucast (wIndex su))) 1 then 1 else 0, 0] p s
      else if bRequest su = REQ_CLEAR_FEATURE \<and> wValue su = FEA_ENDPOINT_HALT then
        Some (True, iLen, p, hw_do (Ep_stall (ucast (wIndex su)) False) s)
      else if bRequest su = REQ_SET_FEATURE \<and> wValue su = FEA_ENDPOINT_HALT then
        Some (True, iLen, p, hw_do (Ep_stall (ucast (wIndex su)) True) s)
      else Some (False, iLen, p, s))"

text \<open>The firmware installs no custom request handler.\<close>

definition USBHandleStandardRequest ::
  "(usb_hw list \<Rightarrow> u8 \<Rightarrow> u8) \<Rightarrow> setup_packet \<Rightarrow> int \<Rightarrow> ptr \<Rightarrow> usbdev \<Rightarrow> handled"
where
  "USBHandleStandardRequest es su iLen p s =
     (let recip = REQTYPE_GET_RECIP (bmRequestType su)
      in if recip = 0 then HandleStdDeviceReq su iLen p s
         else if recip = 1 then HandleStdInterfaceReq su iLen p s
         else if recip = 2 then HandleStdEndPointReq es su iLen p s
         else Some (False, iLen, p, s))"

subsection \<open>Microsoft OS descriptors\<close>

text \<open>The outer result says whether the filter handled the request, the first component of \<open>handled\<close>
  whether it succeeded.\<close>

definition USBFilterOsVendorMessage ::
  "setup_packet \<Rightarrow> int \<Rightarrow> ptr \<Rightarrow> usbdev \<Rightarrow> (bool \<times> int \<times> ptr) option"
where
  "USBFilterOsVendorMessage su iLen p s =
     (if us_bMsVendorIndex s = 0 then None
      else if bRequest su = us_bMsVendorIndex s then
        (let table = (if wIndex su = 4 then Some (Ext_feature, int (length abExtendedOsFeatureDescriptor))
                      else if wIndex su = 5 then Some (Ext_properties, int (length (us_ext_properties s)))
                      else None)
         in case table of
              None \<Rightarrow> Some (False, iLen, p)
            | Some (m, n) \<Rightarrow>
                (let iPageOffset = uint (drop_bit 8 (wValue su) AND 0xFF) * 0x10000
                 in if n < iPageOffset then Some (False, n, (m, 0))
                    else Some (True, min (n - iPageOffset) (uint (wLength su)), (m, nat iPageOffset))))
      else None)"

text \<open>The copy loop stops at the end of the string or after 38 characters; two bytes after the last
  character are cleared.\<close>

definition USBRegisterWinusbInterface :: "u8 \<Rightarrow> u8 list option \<Rightarrow> usbdev \<Rightarrow> usbdev" where
  "USBRegisterWinusbInterface bVendorRequestIndex pcInterfaceGuid s =
     (let s = s\<lparr>us_bMsVendorIndex := bVendorRequestIndex\<rparr>
      in case pcInterfaceGuid of
           None \<Rightarrow> s
         | Some guid \<Rightarrow>
             (let cs = takeWhile (\<lambda>c. c \<noteq> 0) (take 38 guid);
                  tbl = fold (\<lambda>i t. t[0x42 + 2 * i := cs ! i]) [0..<length cs] (us_ext_properties s);
                  cur = 0x42 + 2 * length cs
              in s\<lparr>us_ext_properties := tbl[cur := 0, cur + 2 := 0]\<rparr>))"

subsection \<open>The descriptors of the device\<close>

text \<open>The reference: the offsets of all descriptors of a block, if it is well formed, and the one with
  a given type and index.\<close>

function desc_offsets :: "u8 list \<Rightarrow> nat \<Rightarrow> nat list option" where
  "desc_offsets ds off =
     (case byte_of ds off of
        None \<Rightarrow> None
      | Some l \<Rightarrow> if l = 0 then Some []
          else if byte_of ds (off + 1) = None then None
          else map_option ((#) off) (desc_offsets ds (off + unat l)))"
  by pat_completeness auto

termination desc_offsets
  by (relation "measure (\<lambda>(ds, off). length ds - off)")
    (auto simp: byte_of_def split: if_splits intro!: diff_less_mono2 unat_pos)

declare desc_offsets.simps [simp del]

definition desc_size :: "u8 list \<Rightarrow> nat \<Rightarrow> int option" where
  "desc_size ds off = (if ds ! (off + 1) = DESC_CONFIGURATION then word_of ds (off + 2) else Some (uint (ds ! off)))"

definition nth_descriptor :: "u8 list \<Rightarrow> nat list \<Rightarrow> u8 \<Rightarrow> nat \<Rightarrow> nat option" where
  "nth_descriptor ds offs ty k =
     (let m = filter (\<lambda>off. ds ! (off + 1) = ty) offs in if k < length m then Some (m ! k) else None)"

lemma nth_descriptor_Cons:
  "nth_descriptor ds (off # offs) ty k =
     (if ds ! (off + 1) = ty then (case k of 0 \<Rightarrow> Some off | Suc k \<Rightarrow> nth_descriptor ds offs ty k)
      else nth_descriptor ds offs ty k)"
  by (simp add: nth_descriptor_def Let_def split: nat.split)

lemma find_descriptor_nth:
  assumes "desc_offsets ds off = Some offs" and "i \<le> uint bIndex"
  shows "find_descriptor ds ty bIndex i off =
    (case nth_descriptor ds offs ty (nat (uint bIndex - i)) of
       None \<Rightarrow> Some None
     | Some o1 \<Rightarrow> map_option (\<lambda>n. Some (o1, n)) (desc_size ds o1))"
  using assms
proof (induction ds ty bIndex i off arbitrary: offs rule: find_descriptor.induct)
  case (1 ds ty bIndex i off)
  note simps = find_descriptor.simps [of ds ty bIndex i off] desc_offsets.simps [of ds off]
  show ?case
  proof (cases "byte_of ds off = Some 0")
    case True
    then have "offs = []" using "1.prems"(1) simps by simp
    then show ?thesis unfolding simps using True by (simp add: nth_descriptor_def)
  next
    case False
    then obtain l ty' rest where l: "byte_of ds off = Some l" "l \<noteq> 0" "byte_of ds (off + 1) = Some ty'"
      and rest: "desc_offsets ds (off + unat l) = Some rest" and offs: "offs = off # rest"
      using "1.prems"(1) simps by (auto split: option.splits if_splits)
    have at: "ds ! off = l" "ds ! (off + 1) = ty'" using l by (auto simp: byte_of_def split: if_splits)
    show ?thesis
    proof (cases "ty' = ty \<and> i = uint bIndex")
      case True
      then show ?thesis
        unfolding simps offs using l at by (simp add: nth_descriptor_Cons desc_size_def del: One_nat_def)
    next
      case False
      let ?i = "if ty' = ty then i + 1 else i"
      have "?i \<le> uint bIndex" using False "1.prems"(2) by auto
      from "1.IH" [OF l(1,2,3) False rest this]
      have IH: "find_descriptor ds ty bIndex ?i (off + unat l) =
          (case nth_descriptor ds rest ty (nat (uint bIndex - ?i)) of None \<Rightarrow> Some None
           | Some o1 \<Rightarrow> map_option (\<lambda>n. Some (o1, n)) (desc_size ds o1))" by blast
      have "nth_descriptor ds offs ty (nat (uint bIndex - i)) = nth_descriptor ds rest ty (nat (uint bIndex - ?i))"
      proof (cases "ty' = ty")
        case True
        then have "nat (uint bIndex - i) = Suc (nat (uint bIndex - ?i))" using False "1.prems"(2) by auto
        then show ?thesis using True at by (simp add: offs nth_descriptor_Cons del: One_nat_def)
      next
        case ty: False
        then show ?thesis using at by (simp add: offs nth_descriptor_Cons del: One_nat_def)
      qed
      with IH False l show ?thesis unfolding simps by (auto simp del: One_nat_def)
    qed
  qed
qed

lemma device_offsets: "desc_offsets abDescriptors 0 = Some [0, 18, 27, 36, 43, 50, 54, 146, 176]"
  by code_simp

text \<open>A descriptor that is found lies inside the block, with the size that is announced.\<close>

lemma device_block: "length abDescriptors = 195"
  by code_simp

lemma device_sizes:
  "map (desc_size abDescriptors) [0, 18, 27, 36, 43, 50, 54, 146, 176]
   = map Some [18, 32, 9, 7, 7, 4, 92, 30, 18]"
  by code_simp

lemma device_size_in:
  assumes "off \<in> set [0, 18, 27, 36, 43, 50, 54, 146, 176]"
  shows "\<exists>m. desc_size abDescriptors off = Some (int m) \<and> off + m \<le> length abDescriptors"
  using assms device_sizes unfolding device_block
  by (intro exI [of _ "nat (the (desc_size abDescriptors off))"]) auto

definition is_os_string :: "u16 \<Rightarrow> bool" where
  "is_os_string v \<longleftrightarrow> ucast (drop_bit 8 v AND 0xFF) = DESC_STRING \<and> ucast (v AND 0xFF) = DESC_STRING_OS"

lemma USBGetDescriptor_find:
  "\<not> is_os_string v \<Longrightarrow> USBGetDescriptor v n p s =
     (case find_descriptor abDescriptors (ucast (drop_bit 8 v AND 0xFF)) (ucast (v AND 0xFF)) 0 0 of
        None \<Rightarrow> None
      | Some None \<Rightarrow> Some (False, n, p, s)
      | Some (Some (off, n)) \<Rightarrow> Some (True, n, (Desc, off), s))"
  unfolding is_os_string_def USBGetDescriptor_def Let_def by (rule if_not_P)

lemma USBGetDescriptor_nth:
  assumes "desc_offsets abDescriptors 0 = Some offs" and "\<not> is_os_string v"
  shows "case nth_descriptor abDescriptors offs (ucast (drop_bit 8 v AND 0xFF)) (unat (ucast (v AND 0xFF) :: u8)) of
      None \<Rightarrow> USBGetDescriptor v n p s = Some (False, n, p, s)
    | Some off \<Rightarrow> (\<exists>m. USBGetDescriptor v n p s = Some (True, int m, (Desc, off), s)
        \<and> desc_size abDescriptors off = Some (int m) \<and> off + m \<le> length abDescriptors)"
proof -
  define ty :: u8 where "ty = ucast (drop_bit 8 v AND 0xFF)"
  define i :: u8 where "i = ucast (v AND 0xFF)"
  have nat: "nat (uint i - 0) = unat i" by simp
  note find = find_descriptor_nth [OF assms(1), of 0 i ty, unfolded nat]
  note get = USBGetDescriptor_find [OF assms(2), folded ty_def i_def]
  show ?thesis
    unfolding ty_def [symmetric] i_def [symmetric]
  proof (cases "nth_descriptor abDescriptors offs ty (unat i)")
    case None
    then show "case nth_descriptor abDescriptors offs ty (unat i) of
        None \<Rightarrow> USBGetDescriptor v n p s = Some (False, n, p, s)
      | Some off \<Rightarrow> (\<exists>m. USBGetDescriptor v n p s = Some (True, int m, (Desc, off), s)
        \<and> desc_size abDescriptors off = Some (int m) \<and> off + m \<le> length abDescriptors)"
      using find by (simp add: get)
  next
    case (Some off)
    then have "off \<in> set offs"
      by (auto simp: nth_descriptor_def Let_def split: if_splits dest!: nth_mem)
    moreover have "offs = [0, 18, 27, 36, 43, 50, 54, 146, 176]"
      using assms(1) unfolding device_offsets by (rule option.inject [THEN iffD1, symmetric])
    ultimately obtain k where k: "desc_size abDescriptors off = Some (int k)" "off + k \<le> length abDescriptors"
      using device_size_in by blast
    then have "USBGetDescriptor v n p s = Some (True, int k, (Desc, off), s)"
      using find Some by (simp add: get)
    with Some k show "case nth_descriptor abDescriptors offs ty (unat i) of
        None \<Rightarrow> USBGetDescriptor v n p s = Some (False, n, p, s)
      | Some off \<Rightarrow> (\<exists>m. USBGetDescriptor v n p s = Some (True, int m, (Desc, off), s)
        \<and> desc_size abDescriptors off = Some (int m) \<and> off + m \<le> length abDescriptors)"
      by simp
  qed
qed

text \<open>The only configuration realises the two bulk endpoints; any other non-zero value is accepted all
  the same and realises none.\<close>

lemma config_endpoints_device:
  "config_endpoints abDescriptors 1 0 0xFF 0xFF 0 = Some [Ep_config 0x82 64, Ep_config 0x05 64]"
  by code_simp

lemma USBSetConfiguration_1:
  "USBSetConfiguration 1 0 s =
     Some (s\<lparr>us_log := us_log s @ [Ep_config 0x82 64, Ep_config 0x05 64, Config_device True]\<rparr>)"
  by (simp add: USBSetConfiguration_def config_endpoints_device hw_do_def)

end
