(* ===== verification/Usb_Hw.thy ===== *)
theory Usb_Hw
  imports Usb_Std
begin

text \<open>
  The register layer of the USB stack, \<^verbatim>\<open>firmware/common/lpcusb/target/usbhw_lpc.c\<close>, in the build for the
  LPC17xx. The history of register accesses is the state; the controller answers a read with an
  arbitrary function of it, the chip. A wait that never ends is \<open>None\<close>. The DMA functions at the
  end of the file, which nothing calls, are left out.
\<close>

subsection \<open>Registers\<close>

datatype usb_reg =
    USBDevIntSt | USBDevIntEn | USBDevIntClr | USBDevIntPri | USBCmdCode | USBCmdData
  | USBReEp | USBEpIn | USBMaxPSize | USBEpIntSt | USBEpIntEn | USBEpIntClr | USBEpIntPri
  | USBCtrl | USBTxPLen | USBTxData | USBRxPLen | USBRxData
  | USBClkCtrl | USBClkSt | PINSEL1 | PINSEL3 | PINSEL4 | PCONP

datatype usb_io = Reg_rd usb_reg u32 | Reg_wr usb_reg u32

type_synonym usb_chip = "usb_io list \<Rightarrow> usb_reg \<Rightarrow> u32"

definition hw_read :: "usb_chip \<Rightarrow> usb_reg \<Rightarrow> usb_io list \<Rightarrow> u32 \<times> usb_io list" where
  "hw_read c r h = (c h r, h @ [Reg_rd r (c h r)])"

definition hw_write :: "usb_reg \<Rightarrow> u32 \<Rightarrow> usb_io list \<Rightarrow> usb_io list" where
  "hw_write r v h = h @ [Reg_wr r v]"

text \<open>\<open>r = (r & m) | v\<close>.\<close>

definition hw_update :: "usb_chip \<Rightarrow> usb_reg \<Rightarrow> u32 \<Rightarrow> u32 \<Rightarrow> usb_io list \<Rightarrow> usb_io list" where
  "hw_update c r m v h = (let (x, h) = hw_read c r h in hw_write r ((x AND m) OR v) h)"

text \<open>\<open>while ((r & bits) != bits)\<close>.\<close>

definition hw_poll :: "usb_chip \<Rightarrow> usb_reg \<Rightarrow> u32 \<Rightarrow> usb_io list \<Rightarrow> usb_io list option" where
  "hw_poll c r bits = loop_opt (\<lambda>h. let (v, h) = hw_read c r h
     in Some (if v AND bits \<noteq> bits then Again h else Leave h))"

abbreviation (input) FRAME :: u32 where "FRAME \<equiv> 0x1"
abbreviation (input) EP_SLOW :: u32 where "EP_SLOW \<equiv> 0x4"
abbreviation (input) DEV_STAT :: u32 where "DEV_STAT \<equiv> 0x8"
abbreviation (input) CCEMTY :: u32 where "CCEMTY \<equiv> 0x10"
abbreviation (input) CDFULL :: u32 where "CDFULL \<equiv> 0x20"
abbreviation (input) EP_RLZED :: u32 where "EP_RLZED \<equiv> 0x100"

subsection \<open>Commands to the protocol engine\<close>

definition Wait4DevInt :: "usb_chip \<Rightarrow> u32 \<Rightarrow> usb_io list \<Rightarrow> usb_io list option" where
  "Wait4DevInt c dwIntr h = map_option (hw_write USBDevIntClr dwIntr) (hw_poll c USBDevIntSt dwIntr h)"

definition USBHwCmd :: "usb_chip \<Rightarrow> u8 \<Rightarrow> usb_io list \<Rightarrow> usb_io list option" where
  "USBHwCmd c bCmd h = Wait4DevInt c CCEMTY
     (hw_write USBCmdCode (0x500 OR push_bit 16 (ucast bCmd)) (hw_write USBDevIntClr (CDFULL OR CCEMTY) h))"

definition USBHwCmdWrite :: "usb_chip \<Rightarrow> u8 \<Rightarrow> u16 \<Rightarrow> usb_io list \<Rightarrow> usb_io list option" where
  "USBHwCmdWrite c bCmd bData h = do {
     h \<leftarrow> USBHwCmd c bCmd h;
     Wait4DevInt c CCEMTY (hw_write USBCmdCode (0x100 OR push_bit 16 (ucast bData)) h) }"

definition USBHwCmdRead :: "usb_chip \<Rightarrow> u8 \<Rightarrow> usb_io list \<Rightarrow> (u8 \<times> usb_io list) option" where
  "USBHwCmdRead c bCmd h = do {
     h \<leftarrow> USBHwCmd c bCmd h;
     h \<leftarrow> Wait4DevInt c CDFULL (hw_write USBCmdCode (0x200 OR push_bit 16 (ucast bCmd)) h);
     let (v, h) = hw_read c USBCmdData h;
     Some (ucast v, h) }"

subsection \<open>Endpoints\<close>

definition EP2IDX :: "u8 \<Rightarrow> u8" where
  "EP2IDX bEP = push_bit 1 (bEP AND 0xF) OR drop_bit 7 (bEP AND 0x80)"

definition IDX2EP :: "u8 \<Rightarrow> u8" where
  "IDX2EP idx = (push_bit 7 idx AND 0x80) OR (drop_bit 1 idx AND 0xF)"

definition USBHwEPRealize :: "usb_chip \<Rightarrow> u8 \<Rightarrow> u16 \<Rightarrow> usb_io list \<Rightarrow> usb_io list option" where
  "USBHwEPRealize c idx wMaxPSize h =
     Wait4DevInt c EP_RLZED
       (hw_write USBMaxPSize (ucast wMaxPSize)
         (hw_write USBEpIn (ucast idx)
           (hw_update c USBReEp (- 1) (push_bit (unat idx) 1) h)))"

definition USBHwEPEnable :: "usb_chip \<Rightarrow> u8 \<Rightarrow> bool \<Rightarrow> usb_io list \<Rightarrow> usb_io list option" where
  "USBHwEPEnable c idx fEnable = USBHwCmdWrite c (0x40 OR idx) (if fEnable then 0 else 0x20)"

definition USBHwEPConfig :: "usb_chip \<Rightarrow> u8 \<Rightarrow> u16 \<Rightarrow> usb_io list \<Rightarrow> usb_io list option" where
  "USBHwEPConfig c bEP wMaxPacketSize h =
     Option.bind (USBHwEPRealize c (EP2IDX bEP) wMaxPacketSize h) (USBHwEPEnable c (EP2IDX bEP) True)"

definition USBHwSetAddress :: "usb_chip \<Rightarrow> u8 \<Rightarrow> usb_io list \<Rightarrow> usb_io list option" where
  "USBHwSetAddress c bAddr = USBHwCmdWrite c 0xD0 (0x80 OR ucast bAddr)"

definition USBHwConnect :: "usb_chip \<Rightarrow> bool \<Rightarrow> usb_io list \<Rightarrow> usb_io list option" where
  "USBHwConnect c fConnect = USBHwCmdWrite c 0xFE (if fConnect then 1 else 0)"

definition USBHwNakIntEnable :: "usb_chip \<Rightarrow> u8 \<Rightarrow> usb_io list \<Rightarrow> usb_io list option" where
  "USBHwNakIntEnable c bIntBits = USBHwCmdWrite c 0xF3 (ucast bIntBits)"

definition USBHwEPGetStatus :: "usb_chip \<Rightarrow> u8 \<Rightarrow> usb_io list \<Rightarrow> (u8 \<times> usb_io list) option" where
  "USBHwEPGetStatus c bEP = USBHwCmdRead c (0x00 OR EP2IDX bEP)"

definition USBHwEPStall :: "usb_chip \<Rightarrow> u8 \<Rightarrow> bool \<Rightarrow> usb_io list \<Rightarrow> usb_io list option" where
  "USBHwEPStall c bEP fStall = USBHwCmdWrite c (0x40 OR EP2IDX bEP) (if fStall then 1 else 0)"

definition USBHwConfigDevice :: "usb_chip \<Rightarrow> bool \<Rightarrow> usb_io list \<Rightarrow> usb_io list option" where
  "USBHwConfigDevice c fConfigured = USBHwCmdWrite c 0xD8 (if fConfigured then 1 else 0)"

subsection \<open>Packets\<close>

text \<open>\<open>mem\<close> is the memory from \<open>pbBuf\<close> on. Whole words are written, so bytes behind the packet are read.\<close>

definition write_words :: "usb_chip \<Rightarrow> (nat \<Rightarrow> u8) \<Rightarrow> nat \<times> usb_io list \<Rightarrow> (nat \<times> usb_io list) option" where
  "write_words c mem = loop_opt (\<lambda>(k, h). let (v, h) = hw_read c USBCtrl h
     in Some (if bit v 1
              then Again (k + 4, hw_write USBTxData (from_le [mem k, mem (k + 1), mem (k + 2), mem (k + 3)]) h)
              else Leave (k, h)))"

definition USBHwEPWrite :: "usb_chip \<Rightarrow> u8 \<Rightarrow> (nat \<Rightarrow> u8) \<Rightarrow> u32 \<Rightarrow> usb_io list \<Rightarrow> (u32 \<times> usb_io list) option" where
  "USBHwEPWrite c bEP mem iLen h = do {
     (k, h) \<leftarrow> write_words c mem (0, hw_write USBTxPLen iLen (hw_write USBCtrl (2 OR push_bit 2 (ucast (bEP AND 0xF))) h));
     h \<leftarrow> USBHwCmd c (0x00 OR EP2IDX bEP) (hw_write USBCtrl 0 h);
     h \<leftarrow> USBHwCmd c 0xFA h;
     Some (iLen, h) }"

text \<open>One byte of the received packet; the bytes stored at \<open>pbBuf\<close> are collected, none through a null
  pointer.\<close>

definition read_byte ::
  "usb_chip \<Rightarrow> bool \<Rightarrow> u32 \<Rightarrow> nat \<Rightarrow> u32 \<times> u8 list \<times> usb_io list \<Rightarrow> u32 \<times> u8 list \<times> usb_io list"
where
  "read_byte c null iMaxLen i = (\<lambda>(dwData, out, h).
     let (dwData, h) = (if i mod 4 = 0 then hw_read c USBRxData h else (dwData, h));
         out = (if \<not> null \<and> i < unat iMaxLen then out @ [ucast (dwData AND 0xFF)] else out)
     in (drop_bit 8 dwData, out, h))"

definition read_packet ::
  "usb_chip \<Rightarrow> u8 \<Rightarrow> bool \<Rightarrow> u32 \<Rightarrow> nat \<Rightarrow> usb_io list \<Rightarrow> (int \<times> u8 list \<times> usb_io list) option"
where
  "read_packet c bEP null iMaxLen n h =
     (let (dwData, out, h) = fold (read_byte c null iMaxLen) [0..<n] (0, [], h)
      in do {
        h \<leftarrow> USBHwCmd c (0x00 OR EP2IDX bEP) (hw_write USBCtrl 0 h);
        h \<leftarrow> USBHwCmd c 0xF2 h;
        Some (int n, out, h) })"

text \<open>The wait for a packet ends with the value of \<open>USBRxPLen\<close> that has \<open>PKT_RDY\<close>.\<close>

definition wait_packet :: "usb_chip \<Rightarrow> u32 \<times> usb_io list \<Rightarrow> (u32 \<times> usb_io list) option" where
  "wait_packet c = loop_opt (\<lambda>(dwLen, h). let (dwLen, h) = hw_read c USBRxPLen h
     in Some (if bit dwLen 11 then Leave (dwLen, h) else Again (dwLen, h)))"

definition USBHwEPRead ::
  "usb_chip \<Rightarrow> u8 \<Rightarrow> bool \<Rightarrow> u32 \<Rightarrow> usb_io list \<Rightarrow> (int \<times> u8 list \<times> usb_io list) option"
where
  "USBHwEPRead c bEP null iMaxLen h = do {
     (dwLen, h) \<leftarrow> wait_packet c (0, hw_write USBCtrl (1 OR push_bit 2 (ucast (bEP AND 0xF))) h);
     if \<not> bit dwLen 10 then Some (-1, [], h)
     else read_packet c bEP null iMaxLen (unat (dwLen AND 0x3FF)) h }"

definition USBHwISOCEPRead ::
  "usb_chip \<Rightarrow> u8 \<Rightarrow> bool \<Rightarrow> u32 \<Rightarrow> usb_io list \<Rightarrow> (int \<times> u8 list \<times> usb_io list) option"
where
  "USBHwISOCEPRead c bEP null iMaxLen h =
     (let (dwLen, h) = hw_read c USBRxPLen (hw_write USBCtrl (1 OR push_bit 2 (ucast (bEP AND 0xF))) h)
      in if \<not> bit dwLen 11 then Some (-1, [], hw_write USBCtrl 0 h)
         else if \<not> bit dwLen 10 then Some (-1, [], hw_write USBCtrl 0 h)
         else read_packet c bEP null iMaxLen (unat (dwLen AND 0x3FF)) h)"

subsection \<open>Interrupts\<close>

text \<open>The installed handlers are of any type; what they do is a parameter of the interrupt handler.
  \<open>uh_sys\<close> is the state of the rest of the program.\<close>

record ('h, 's) usbhw =
  uh_io :: "usb_io list"
  uh_dev :: "'h option"
  uh_ep :: "'h option list"
  uh_frame :: "'h option"
  uh_sys :: 's

datatype usb_event = Frame_event u16 | Dev_event u8 | Ep_event u8 u8

definition hw_io :: "(usb_io list \<Rightarrow> usb_io list) \<Rightarrow> ('h, 's) usbhw \<Rightarrow> ('h, 's) usbhw" where
  "hw_io f s = s\<lparr>uh_io := f (uh_io s)\<rparr>"

definition USBHwRegisterEPIntHandler :: "usb_chip \<Rightarrow> u8 \<Rightarrow> 'h \<Rightarrow> ('h, 's) usbhw \<Rightarrow> ('h, 's) usbhw" where
  "USBHwRegisterEPIntHandler c bEP h s =
     (let idx = EP2IDX bEP
      in hw_io (hw_update c USBDevIntEn (- 1) EP_SLOW)
           (hw_io (hw_update c USBEpIntEn (- 1) (push_bit (unat idx) 1))
             (s\<lparr>uh_ep := (uh_ep s)[unat idx div 2 := Some h]\<rparr>)))"

definition USBHwRegisterDevIntHandler :: "usb_chip \<Rightarrow> 'h \<Rightarrow> ('h, 's) usbhw \<Rightarrow> ('h, 's) usbhw" where
  "USBHwRegisterDevIntHandler c h s = hw_io (hw_update c USBDevIntEn (- 1) DEV_STAT) (s\<lparr>uh_dev := Some h\<rparr>)"

definition USBHwRegisterFrameHandler :: "usb_chip \<Rightarrow> 'h \<Rightarrow> ('h, 's) usbhw \<Rightarrow> ('h, 's) usbhw" where
  "USBHwRegisterFrameHandler c h s = hw_io (hw_update c USBDevIntEn (- 1) FRAME) (s\<lparr>uh_frame := Some h\<rparr>)"

text \<open>Status bits independent of the hardware.\<close>

definition ep_status :: "u8 \<Rightarrow> u8" where
  "ep_status st = (if bit st 0 then 0x01 else 0) OR (if bit st 1 then 0x02 else 0) OR (if bit st 2 then 0x04 else 0)
     OR (if bit st 4 then 0x10 else 0) OR (if bit st 3 then 0x08 else 0)"

definition dev_status :: "u8 \<Rightarrow> u8" where
  "dev_status st = (if bit st 0 then 0x01 else 0) OR (if bit st 2 then 0x04 else 0) OR (if bit st 4 then 0x10 else 0)"

type_synonym ('h, 's) usb_calls = "'h \<Rightarrow> usb_event \<Rightarrow> ('h, 's) usbhw \<Rightarrow> ('h, 's) usbhw option"

definition call_installed ::
  "('h, 's) usb_calls \<Rightarrow> 'h option \<Rightarrow> usb_event \<Rightarrow> ('h, 's) usbhw \<Rightarrow> ('h, 's) usbhw option"
where
  "call_installed call h ev s = (case h of None \<Rightarrow> Some s | Some f \<Rightarrow> call f ev s)"

definition frame_interrupt :: "usb_chip \<Rightarrow> ('h, 's) usb_calls \<Rightarrow> ('h, 's) usbhw \<Rightarrow> ('h, 's) usbhw option" where
  "frame_interrupt c call s =
     (let s = hw_io (hw_write USBDevIntClr FRAME) s
      in if uh_frame s = None then Some s
         else do {
           (wFrame, io) \<leftarrow> USBHwCmdRead c 0xF5 (uh_io s);
           let s = s\<lparr>uh_io := io\<rparr>;
           call_installed call (uh_frame s) (Frame_event (ucast wFrame)) s })"

definition device_interrupt :: "usb_chip \<Rightarrow> ('h, 's) usb_calls \<Rightarrow> ('h, 's) usbhw \<Rightarrow> ('h, 's) usbhw option" where
  "device_interrupt c call s = do {
     let s = hw_io (hw_write USBDevIntClr DEV_STAT) s;
     (bDevStat, io) \<leftarrow> USBHwCmdRead c 0xFE (uh_io s);
     let s = s\<lparr>uh_io := io\<rparr>;
     if bit bDevStat 1 \<or> bit bDevStat 3 \<or> bit bDevStat 4
     then call_installed call (uh_dev s) (Dev_event (dev_status bDevStat)) s
     else Some s }"

definition endpoint_interrupt ::
  "usb_chip \<Rightarrow> ('h, 's) usb_calls \<Rightarrow> nat \<Rightarrow> ('h, 's) usbhw \<Rightarrow> ('h, 's) usbhw option"
where
  "endpoint_interrupt c call i s =
     (let (pending, io) = hw_read c USBEpIntSt (uh_io s); s = s\<lparr>uh_io := io\<rparr>
      in if \<not> bit pending i then Some s
         else do {
           io \<leftarrow> Wait4DevInt c CDFULL (hw_write USBEpIntClr (push_bit i 1) (uh_io s));
           let (v, io) = hw_read c USBCmdData io;
           let s = s\<lparr>uh_io := io\<rparr>;
           call_installed call (uh_ep s ! (i div 2)) (Ep_event (IDX2EP (of_nat i)) (ep_status (ucast v))) s })"

definition USBHwISR :: "usb_chip \<Rightarrow> ('h, 's) usb_calls \<Rightarrow> ('h, 's) usbhw \<Rightarrow> ('h, 's) usbhw option" where
  "USBHwISR c call s = do {
     let (dwStatus, io) = hw_read c USBDevIntSt (uh_io s);
     let s = s\<lparr>uh_io := io\<rparr>;
     s \<leftarrow> (if dwStatus AND FRAME \<noteq> 0 then frame_interrupt c call s else Some s);
     s \<leftarrow> (if dwStatus AND DEV_STAT \<noteq> 0 then device_interrupt c call s else Some s);
     if dwStatus AND EP_SLOW \<noteq> 0
     then for_each (endpoint_interrupt c call) [0..<32] (hw_io (hw_write USBDevIntClr EP_SLOW) s)
     else Some s }"

subsection \<open>Start\<close>

definition USBHwInit :: "usb_chip \<Rightarrow> usb_io list \<Rightarrow> usb_io list option" where
  "USBHwInit c h = do {
     let h = hw_update c PINSEL4 (NOT (push_bit 18 3)) (push_bit 18 1) h;
     let h = hw_update c PINSEL3 (NOT (push_bit 4 3)) (push_bit 4 1) h;
     let h = hw_update c PINSEL3 (NOT (push_bit 28 3)) (push_bit 28 2) h;
     let h = hw_update c PINSEL1 (NOT (push_bit 26 3)) (push_bit 26 1) h;
     let h = hw_update c PINSEL1 (NOT (push_bit 28 3)) (push_bit 28 1) h;
     let h = hw_update c PCONP (- 1) (push_bit 31 1) h;
     let h = hw_update c USBClkCtrl (- 1) 0x12 h;
     h \<leftarrow> hw_poll c USBClkSt 0x02 h;
     h \<leftarrow> hw_poll c USBClkSt 0x10 h;
     let h = hw_write USBDevIntPri 0 (hw_write USBDevIntClr 0xFFFFFFFF (hw_write USBDevIntEn 0 h));
     let h = hw_write USBEpIntPri 0 (hw_write USBEpIntClr 0xFFFFFFFF (hw_write USBEpIntEn 0 h));
     USBHwNakIntEnable c 0 h }"

end
