(* ===== verification/Usb_Wire.thy ===== *)
theory Usb_Wire
  imports Usb_Hw Usb_Control
begin

text \<open>
  The register layer against the rest of the USB stack. \<open>engine\<close> is what the controller makes of a
  history of register accesses: the endpoint that is selected, the words written to and read from
  the packet buffers, and the list of things done to the bus, in the terms of \<open>us_log\<close>. With a
  controller that answers as its manual says, each function of \<^verbatim>\<open>usbhw_lpc.c\<close> returns and has done
  exactly what the stack above it assumes.
\<close>

subsection \<open>What the controller sees\<close>

record usb_engine =
  en_cmd :: u8
  en_sel :: u8
  en_idx :: u32
  en_size :: u32
  en_fresh :: bool
  en_ctrl :: u32
  en_txlen :: u32
  en_tx :: "u8 list"
  en_rx :: nat
  en_cleared :: "u8 \<Rightarrow> nat"
  en_log :: "usb_hw list"

definition engine_log :: "usb_hw \<Rightarrow> usb_engine \<Rightarrow> usb_engine" where
  "engine_log x e = e\<lparr>en_log := en_log e @ [x]\<rparr>"

text \<open>A command selects an endpoint, validates the transmit buffer of the selected one or releases its
  receive buffer.\<close>

definition engine_command :: "u8 \<Rightarrow> usb_engine \<Rightarrow> usb_engine" where
  "engine_command b e =
     (let e = e\<lparr>en_cmd := b\<rparr>
      in if b < 0x20 then e\<lparr>en_sel := b\<rparr>
         else if b = 0xFA then engine_log (Ep_write (IDX2EP (en_sel e)) (take (unat (en_txlen e)) (en_tx e))) e
         else if b = 0xF2 then e\<lparr>en_cleared := (en_cleared e)(en_sel e := Suc (en_cleared e (en_sel e)))\<rparr>
         else e)"

text \<open>The data of a command. The status of an endpoint that has just been realised enables it.\<close>

definition engine_data :: "u16 \<Rightarrow> usb_engine \<Rightarrow> usb_engine" where
  "engine_data d e =
     (if en_cmd e = 0xD0 then engine_log (Set_address (ucast d AND 0x7F)) e
      else if en_cmd e = 0xD8 then engine_log (Config_device (bit d 0)) e
      else if en_cmd e = 0xFE then engine_log (Hw_connect (bit d 0)) e
      else if en_cmd e = 0xF3 then engine_log Hw_init e
      else if 0x40 \<le> en_cmd e \<and> en_cmd e < 0x60 then
        (if en_fresh e \<and> d = 0
         then engine_log (Ep_config (IDX2EP (ucast (en_idx e))) (ucast (en_size e))) (e\<lparr>en_fresh := False\<rparr>)
         else engine_log (Ep_stall (IDX2EP (en_cmd e AND 0x1F)) (bit d 0)) e)
      else e)"

fun engine_step :: "usb_io \<Rightarrow> usb_engine \<Rightarrow> usb_engine" where
  "engine_step (Reg_rd r v) e = (if r = USBRxData then e\<lparr>en_rx := Suc (en_rx e)\<rparr> else e)"
| "engine_step (Reg_wr r v) e =
     (case r of
        USBCtrl \<Rightarrow> e\<lparr>en_ctrl := v, en_rx := 0\<rparr>
      | USBTxPLen \<Rightarrow> e\<lparr>en_txlen := v, en_tx := []\<rparr>
      | USBTxData \<Rightarrow> e\<lparr>en_tx := en_tx e @ le_bytes 4 v\<rparr>
      | USBEpIn \<Rightarrow> e\<lparr>en_idx := v\<rparr>
      | USBMaxPSize \<Rightarrow> e\<lparr>en_size := v, en_fresh := True\<rparr>
      | USBCmdCode \<Rightarrow>
          (if drop_bit 8 v AND 0xFF = 0x05 then engine_command (ucast (drop_bit 16 v)) e
           else if drop_bit 8 v AND 0xFF = 0x01 then engine_data (ucast (drop_bit 16 v)) e
           else e)
      | _ \<Rightarrow> e)"

definition engine_start :: usb_engine where
  "engine_start = \<lparr>en_cmd = 0, en_sel = 0, en_idx = 0, en_size = 0, en_fresh = False, en_ctrl = 0,
     en_txlen = 0, en_tx = [], en_rx = 0, en_cleared = (\<lambda>_. 0), en_log = []\<rparr>"

definition engine :: "usb_io list \<Rightarrow> usb_engine" where
  "engine h = fold engine_step h engine_start"

lemma engine_snoc [simp]: "engine (h @ [x]) = engine_step x (engine h)"
  by (simp add: engine_def)

lemma engine_write: "engine (hw_write r v h) = engine_step (Reg_wr r v) (engine h)"
  by (simp add: hw_write_def)

lemma engine_read: "r \<noteq> USBRxData \<Longrightarrow> engine (snd (hw_read c r h)) = engine h"
  by (simp add: hw_read_def)

lemma engine_update: "r \<noteq> USBRxData \<Longrightarrow> engine (hw_update c r m v h)
    = engine_step (Reg_wr r ((c h r AND m) OR v)) (engine h)"
  by (simp add: hw_update_def hw_read_def engine_write Let_def)

subsection \<open>A controller that keeps to its manual\<close>

text \<open>The history after \<open>n\<close> more reads of a register.\<close>

definition polls :: "usb_chip \<Rightarrow> usb_reg \<Rightarrow> nat \<Rightarrow> usb_io list \<Rightarrow> usb_io list" where
  "polls c r n h = ((\<lambda>h. snd (hw_read c r h)) ^^ n) h"

text \<open>A status bit that is waited for comes up in the end; write-enable is kept until the whole packet
  is in the buffer.\<close>

definition usb_controller :: "usb_chip \<Rightarrow> bool" where
  "usb_controller c \<longleftrightarrow>
     (\<forall>h r bits. (r = USBDevIntSt \<or> r = USBClkSt) \<longrightarrow> (\<exists>n. c (polls c r n h) r AND bits = bits))
     \<and> (\<forall>h. bit (c h USBCtrl) 1
           \<longleftrightarrow> bit (en_ctrl (engine h)) 1 \<and> length (en_tx (engine h)) < unat (en_txlen (engine h)))"

lemma hw_poll_returns:
  assumes "c (polls c r n h) r AND bits = bits"
  shows "\<exists>k. hw_poll c r bits h = Some (polls c r k h)"
  using assms
proof (induction n arbitrary: h)
  case 0
  then have "hw_poll c r bits h = Some (polls c r 1 h)"
    by (subst hw_poll_def, subst loop_opt.simps) (simp add: polls_def hw_read_def)
  then show ?case by blast
next
  case (Suc n)
  let ?h = "snd (hw_read c r h)"
  have "hw_poll c r bits h = (if c h r AND bits = bits then Some ?h else hw_poll c r bits ?h)"
    by (subst hw_poll_def, subst loop_opt.simps) (simp add: hw_read_def hw_poll_def)
  moreover have p: "polls c r k ?h = polls c r (Suc k) h" for k
    by (simp add: polls_def funpow_Suc_right del: funpow.simps)
  moreover have "?h = polls c r 1 h" by (simp add: polls_def)
  moreover have "\<exists>k. hw_poll c r bits ?h = Some (polls c r k ?h)"
    using Suc.prems by (intro Suc.IH) (simp only: p)
  ultimately show ?case by metis
qed

text \<open>What does not depend on reads of the register is the same after a poll.\<close>

lemma polls_keep:
  assumes "\<And>h v. F (h @ [Reg_rd r v]) = F h"
  shows "F (polls c r n h) = F h"
  by (induction n) (simp_all add: polls_def hw_read_def assms)

subsection \<open>Commands\<close>

lemma cmd_code_bits:
  fixes b :: "'a::len word" and p :: u32
  assumes "LENGTH('a) \<le> 16" and "p < 0x10000"
  shows "drop_bit 8 (p OR push_bit 16 (ucast b)) AND 0xFF = drop_bit 8 p AND (0xFF :: u32)"
    and "drop_bit 16 (p OR push_bit 16 (ucast b)) = (ucast b :: u32)"
proof -
  have m: "(0xFF :: u32) = mask 8" by (simp add: mask_eq_exp_minus_1)
  have "p AND mask 16 = p" using assms(2) by (intro less_mask_eq) simp
  then have hi: "\<not> bit p (16 + n)" for n by (metis bit_and_iff bit_mask_iff not_add_less1)
  show "drop_bit 8 (p OR push_bit 16 (ucast b)) AND 0xFF = drop_bit 8 p AND (0xFF :: u32)"
    unfolding m by (rule bit_word_eqI) (auto simp: bit_simps)
  show "drop_bit 16 (p OR push_bit 16 (ucast b)) = (ucast b :: u32)"
    by (rule bit_word_eqI) (use assms(1) hi in \<open>auto simp: bit_simps dest: bit_imp_le_length\<close>)
qed

lemma usb_controller_poll:
  assumes "usb_controller c" and "r = USBDevIntSt \<or> r = USBClkSt"
  shows "\<exists>h'. hw_poll c r bits h = Some h' \<and> engine h' = engine h"
proof -
  obtain n where "c (polls c r n h) r AND bits = bits" using assms unfolding usb_controller_def by blast
  then obtain k where "hw_poll c r bits h = Some (polls c r k h)"
    using hw_poll_returns [where c = c and r = r and n = n and h = h and bits = bits] by blast
  moreover have "engine (polls c r k h) = engine h" using assms(2) by (intro polls_keep) auto
  ultimately show ?thesis by blast
qed

lemma Wait4DevInt_engine:
  assumes "usb_controller c"
  shows "\<exists>h'. Wait4DevInt c bits h = Some h' \<and> engine h' = engine h"
  using usb_controller_poll [OF assms, of USBDevIntSt bits h] by (auto simp: Wait4DevInt_def engine_write)

lemma ucast_down_up [simp]:
  "ucast (ucast (b :: u8) :: u32) = b" "ucast (ucast (d :: u16) :: u32) = d"
  by (rule bit_word_eqI, simp add: bit_simps bit_imp_le_length)+

lemma USBHwCmd_engine:
  assumes "usb_controller c"
  shows "\<exists>h'. USBHwCmd c b h = Some h' \<and> engine h' = engine_command b (engine h)"
proof -
  let ?h = "hw_write USBCmdCode (0x500 OR push_bit 16 (ucast b)) (hw_write USBDevIntClr (CDFULL OR CCEMTY) h)"
  have "engine ?h = engine_command b (engine h)"
    using cmd_code_bits [of "0x500" b] by (simp add: engine_write)
  then show ?thesis using Wait4DevInt_engine [OF assms, of CCEMTY ?h] by (simp add: USBHwCmd_def)
qed

lemma USBHwCmdWrite_engine:
  assumes "usb_controller c"
  shows "\<exists>h'. USBHwCmdWrite c b d h = Some h' \<and> engine h' = engine_data d (engine_command b (engine h))"
proof -
  obtain h1 where h1: "USBHwCmd c b h = Some h1" "engine h1 = engine_command b (engine h)"
    using USBHwCmd_engine [OF assms] by blast
  let ?h = "hw_write USBCmdCode (0x100 OR push_bit 16 (ucast d)) h1"
  have "engine ?h = engine_data d (engine h1)"
    using cmd_code_bits [of "0x100" d] by (simp add: engine_write)
  then show ?thesis using Wait4DevInt_engine [OF assms, of CCEMTY ?h] h1 by (simp add: USBHwCmdWrite_def)
qed

subsection \<open>Endpoints\<close>

text \<open>An endpoint address has a number and a direction.\<close>

definition endpoints :: "u8 list" where
  "endpoints = [0, 1, 2, 3, 4, 5, 6, 7, 8, 9, 10, 11, 12, 13, 14, 15,
     0x80, 0x81, 0x82, 0x83, 0x84, 0x85, 0x86, 0x87, 0x88, 0x89, 0x8A, 0x8B, 0x8C, 0x8D, 0x8E, 0x8F]"

definition endpoint :: "u8 \<Rightarrow> bool" where
  "endpoint bEP \<longleftrightarrow> bEP \<in> set endpoints"

lemma endpoint_index:
  assumes "endpoint bEP"
  shows "IDX2EP (EP2IDX bEP) = bEP" and "EP2IDX bEP < 0x20" and "0x40 \<le> 0x40 OR EP2IDX bEP"
    and "0x40 OR EP2IDX bEP < 0x60" and "(0x40 OR EP2IDX bEP) AND 0x1F = EP2IDX bEP"
  using assms by (auto simp: endpoint_def endpoints_def EP2IDX_def IDX2EP_def)

subsection \<open>Sending\<close>

lemma le_bytes_from_le: "le_bytes 4 (from_le [a, b, c, d] :: u32) = [a, b, c, d]"
proof (rule nth_equalityI)
  fix i assume "i < length (le_bytes 4 (from_le [a, b, c, d] :: u32))"
  then have i: "i < 4" by simp
  show "le_bytes 4 (from_le [a, b, c, d] :: u32) ! i = [a, b, c, d] ! i"
  proof (rule bit_word_eqI)
    fix n assume "n < LENGTH(8)"
    then have "(8 * i + n) div 8 = i" "(8 * i + n) mod 8 = n" "8 * i + n < 32" using i by simp_all
    then show "bit (le_bytes 4 (from_le [a, b, c, d] :: u32) ! i) n = bit ([a, b, c, d] ! i) n"
      using i \<open>n < LENGTH(8)\<close> by (simp add: bit_byte_at bit_from_le del: from_le.simps)
  qed
qed simp

lemma write_words_unroll:
  "write_words c mem (k, h) =
     (let (v, h) = hw_read c USBCtrl h
      in if bit v 1
         then write_words c mem (k + 4, hw_write USBTxData (from_le [mem k, mem (k + 1), mem (k + 2), mem (k + 3)]) h)
         else Some (k, h))"
  unfolding write_words_def by (subst loop_opt.simps) (simp add: hw_read_def del: from_le.simps)

lemma write_words_engine:
  assumes c: "usb_controller c"
    and "bit (en_ctrl (engine h)) 1" and "en_tx (engine h) = map mem [0..<k]"
  shows "\<exists>k' h'. write_words c mem (k, h) = Some (k', h') \<and> unat (en_txlen (engine h)) \<le> k'
     \<and> engine h' = (engine h)\<lparr>en_tx := map mem [0..<k']\<rparr>"
  using assms(2,3)
proof (induction "unat (en_txlen (engine h)) - k" arbitrary: k h rule: less_induct)
  case less
  let ?h = "snd (hw_read c USBCtrl h)"
  have e: "engine ?h = engine h" by (rule engine_read) simp
  have bit: "bit (c h USBCtrl) 1 \<longleftrightarrow> k < unat (en_txlen (engine h))"
    using c less.prems unfolding usb_controller_def by simp
  let ?w = "hw_write USBTxData (from_le [mem k, mem (k + 1), mem (k + 2), mem (k + 3)]) ?h"
  have unroll: "write_words c mem (k, h)
      = (if k < unat (en_txlen (engine h)) then write_words c mem (k + 4, ?w) else Some (k, ?h))"
    by (subst write_words_unroll) (simp add: bit [simplified] hw_read_def del: from_le.simps)
  show ?case
  proof (cases "k < unat (en_txlen (engine h))")
    case True
    have upt: "[0..<k + 4] = [0..<k] @ [k, k + 1, k + 2, k + 3]"
      using upt_add_eq_append [of 0 k 4] by (simp add: upt_conv_Cons)
    have w: "engine ?w = (engine h)\<lparr>en_tx := map mem [0..<k + 4]\<rparr>"
      using less.prems(2) by (simp add: engine_write e le_bytes_from_le upt del: from_le.simps)
    have "\<exists>k' h'. write_words c mem (k + 4, ?w) = Some (k', h') \<and> unat (en_txlen (engine ?w)) \<le> k'
       \<and> engine h' = (engine ?w)\<lparr>en_tx := map mem [0..<k']\<rparr>"
      by (rule less.hyps) (use True less.prems w in simp_all)
    then show ?thesis using True unroll w by auto
  next
    case False
    then show ?thesis using unroll e less.prems(2) by (intro exI [of _ k] exI [of _ ?h]) simp
  qed
qed

lemma USBHwEPWrite_engine:
  assumes c: "usb_controller c" and ep: "endpoint bEP"
  shows "\<exists>h'. USBHwEPWrite c bEP mem iLen h = Some (iLen, h')
     \<and> en_log (engine h') = en_log (engine h) @ [Ep_write bEP (map mem [0..<unat iLen])]
     \<and> en_fresh (engine h') = en_fresh (engine h) \<and> en_cleared (engine h') = en_cleared (engine h)"
proof -
  let ?h = "hw_write USBTxPLen iLen (hw_write USBCtrl (2 OR push_bit 2 (ucast (bEP AND 0xF))) h)"
  have b: "bit (2 OR push_bit 2 (ucast (bEP AND 0xF)) :: u32) 1" by (simp add: bit_simps)
  obtain k h1 where h1: "write_words c mem (0, ?h) = Some (k, h1)" "unat iLen \<le> k"
    "engine h1 = (engine ?h)\<lparr>en_tx := map mem [0..<k]\<rparr>"
    using write_words_engine [OF c, of ?h mem 0] b by (auto simp: engine_write)
  obtain h2 where h2: "USBHwCmd c (0x00 OR EP2IDX bEP) (hw_write USBCtrl 0 h1) = Some h2"
    "engine h2 = engine_command (EP2IDX bEP) (engine (hw_write USBCtrl 0 h1))"
    using USBHwCmd_engine [OF c, of "0x00 OR EP2IDX bEP" "hw_write USBCtrl 0 h1"] by auto
  obtain h3 where h3: "USBHwCmd c 0xFA h2 = Some h3" "engine h3 = engine_command 0xFA (engine h2)"
    using USBHwCmd_engine [OF c] by blast
  have "take (unat iLen) (map mem [0..<k]) = map mem [0..<unat iLen]" using h1(2) by (simp add: take_map)
  then show ?thesis
    using h1 h2 h3 endpoint_index [OF ep]
    by (simp add: USBHwEPWrite_def engine_write engine_command_def engine_log_def Let_def)
qed

subsection \<open>The events of the stack\<close>

text \<open>The functions behind the events of \<open>us_log\<close>. \<open>pad\<close> is the memory behind a packet.\<close>

fun hw_issue :: "usb_chip \<Rightarrow> (nat \<Rightarrow> u8) \<Rightarrow> usb_hw \<Rightarrow> usb_io list \<Rightarrow> usb_io list option" where
  "hw_issue c pad (Ep_write bEP bs) h =
     map_option snd (USBHwEPWrite c bEP (\<lambda>i. if i < length bs then bs ! i else pad i) (of_nat (length bs)) h)"
| "hw_issue c pad (Ep_stall bEP f) h = USBHwEPStall c bEP f h"
| "hw_issue c pad (Ep_config bEP n) h = USBHwEPConfig c bEP n h"
| "hw_issue c pad (Config_device f) h = USBHwConfigDevice c f h"
| "hw_issue c pad (Set_address a) h = USBHwSetAddress c a h"
| "hw_issue c pad Hw_init h = USBHwInit c h"
| "hw_issue c pad (Hw_connect f) h = USBHwConnect c f h"

fun event_ok :: "usb_hw \<Rightarrow> bool" where
  "event_ok (Ep_write bEP bs) \<longleftrightarrow> endpoint bEP \<and> length bs < 1024"
| "event_ok (Ep_stall bEP f) \<longleftrightarrow> endpoint bEP"
| "event_ok (Ep_config bEP n) \<longleftrightarrow> endpoint bEP"
| "event_ok (Set_address a) \<longleftrightarrow> a < 0x80"
| "event_ok _ \<longleftrightarrow> True"

text \<open>One event is one entry of the controller's list.\<close>

definition issued :: "usb_hw list \<Rightarrow> usb_io list \<Rightarrow> usb_io list \<Rightarrow> bool" where
  "issued xs h h' \<longleftrightarrow> en_log (engine h') = en_log (engine h) @ xs \<and> \<not> en_fresh (engine h')
     \<and> en_cleared (engine h') = en_cleared (engine h)"

lemma issued_command:
  assumes "usb_controller c" and "\<not> en_fresh (engine h)"
    and "engine_data d (engine_command b (engine h)) = engine_log x (engine h\<lparr>en_cmd := b\<rparr>)"
  shows "\<exists>h'. USBHwCmdWrite c b d h = Some h' \<and> issued [x] h h'"
  using USBHwCmdWrite_engine [OF assms(1), of b d h] assms(2,3) by (auto simp: issued_def engine_log_def)

lemma set_address_value:
  fixes a :: u8
  assumes "a < 0x80"
  shows "(ucast (0x80 OR ucast a :: u16) :: u8) AND 0x7F = a"
proof -
  have m: "a AND mask 7 = a" using assms by (intro less_mask_eq) simp
  have "(ucast (push_bit 7 1 OR ucast a :: u16) :: u8) AND mask 7 = a AND mask 7"
    by (rule bit_word_eqI) (simp add: bit_simps del: push_bit_of_1, auto)
  moreover have "push_bit 7 (1 :: u16) = 0x80" and "mask 7 = (0x7F :: u8)" by (simp_all add: mask_eq_exp_minus_1)
  ultimately have "(ucast (0x80 OR ucast a :: u16) :: u8) AND 0x7F = a AND mask 7" by (simp only:)
  with m show ?thesis by simp
qed

lemma USBHwEPConfig_issued:
  assumes c: "usb_controller c" and ep: "endpoint bEP"
  shows "\<exists>h'. USBHwEPConfig c bEP n h = Some h' \<and> issued [Ep_config bEP n] h h'"
proof -
  let ?i = "EP2IDX bEP"
  let ?h = "hw_write USBMaxPSize (ucast n) (hw_write USBEpIn (ucast ?i) (hw_update c USBReEp (- 1) (push_bit (unat ?i) 1) h))"
  obtain h1 where h1: "Wait4DevInt c EP_RLZED ?h = Some h1" "engine h1 = engine ?h"
    using Wait4DevInt_engine [OF c] by blast
  have e: "engine h1 = (engine h)\<lparr>en_idx := ucast ?i, en_size := ucast n, en_fresh := True\<rparr>"
    unfolding h1(2) by (simp add: engine_write engine_update)
  obtain h2 where "USBHwCmdWrite c (0x40 OR ?i) 0 h1 = Some h2" and
    h2: "engine h2 = engine_data 0 (engine_command (0x40 OR ?i) (engine h1))"
    using USBHwCmdWrite_engine [OF c] by blast
  moreover have "issued [Ep_config bEP n] h h2"
    using endpoint_index [OF ep] by (auto simp: issued_def h2 e engine_command_def engine_data_def engine_log_def Let_def)
  ultimately show ?thesis using h1(1) by (simp add: USBHwEPConfig_def USBHwEPRealize_def USBHwEPEnable_def)
qed

lemma USBHwInit_issued:
  assumes c: "usb_controller c" and "\<not> en_fresh (engine h)"
  shows "\<exists>h'. USBHwInit c h = Some h' \<and> issued [Hw_init] h h'"
proof -
  define h0 where "h0 = hw_update c USBClkCtrl (- 1) 0x12 (hw_update c PCONP (- 1) (push_bit 31 1)
     (hw_update c PINSEL1 (NOT (push_bit 28 3)) (push_bit 28 1) (hw_update c PINSEL1 (NOT (push_bit 26 3)) (push_bit 26 1)
     (hw_update c PINSEL3 (NOT (push_bit 28 3)) (push_bit 28 2) (hw_update c PINSEL3 (NOT (push_bit 4 3)) (push_bit 4 1)
     (hw_update c PINSEL4 (NOT (push_bit 18 3)) (push_bit 18 1) h))))))"
  have e0: "engine h0 = engine h" unfolding h0_def by (simp add: engine_update)
  obtain h1 where h1: "hw_poll c USBClkSt 0x02 h0 = Some h1" "engine h1 = engine h0"
    using usb_controller_poll [OF c] by blast
  obtain h2 where h2: "hw_poll c USBClkSt 0x10 h1 = Some h2" "engine h2 = engine h1"
    using usb_controller_poll [OF c] by blast
  define h3 where "h3 = hw_write USBEpIntPri 0 (hw_write USBEpIntClr 0xFFFFFFFF (hw_write USBEpIntEn 0
     (hw_write USBDevIntPri 0 (hw_write USBDevIntClr 0xFFFFFFFF (hw_write USBDevIntEn 0 h2)))))"
  have e3: "engine h3 = engine h" unfolding h3_def by (simp add: engine_write h2(2) h1(2) e0)
  have run: "USBHwInit c h = USBHwNakIntEnable c 0 h3"
    unfolding USBHwInit_def Let_def h0_def [symmetric] by (simp add: h1(1) h2(1) h3_def)
  have "\<exists>h'. USBHwCmdWrite c 0xF3 0 h3 = Some h' \<and> issued [Hw_init] h3 h'"
    using c by (rule issued_command) (simp_all add: e3 assms(2) engine_command_def engine_data_def engine_log_def)
  then show ?thesis by (simp add: run USBHwNakIntEnable_def issued_def e3)
qed

lemma USBHwEPStall_issued:
  assumes "usb_controller c" and "\<not> en_fresh (engine h)" and "endpoint bEP"
  shows "\<exists>h'. USBHwEPStall c bEP f h = Some h' \<and> issued [Ep_stall bEP f] h h'"
  unfolding USBHwEPStall_def using assms(1,2)
proof (rule issued_command)
  let ?b = "0x40 OR EP2IDX bEP" and ?d = "if f then 1 else 0 :: u16"
  have b: "0x40 \<le> ?b" "?b < 0x60" "?b AND 0x1F = EP2IDX bEP" "IDX2EP (EP2IDX bEP) = bEP"
    using endpoint_index [OF assms(3)] by blast+
  then have "?b \<noteq> 0xD0 \<and> ?b \<noteq> 0xD8 \<and> ?b \<noteq> 0xFE \<and> ?b \<noteq> 0xF3 \<and> ?b \<noteq> 0xFA \<and> ?b \<noteq> 0xF2 \<and> \<not> ?b < 0x20"
    using order.strict_trans1 [OF b(1), of "0x20"] by auto
  then have "engine_command ?b (engine h) = engine h\<lparr>en_cmd := ?b\<rparr>" by (simp add: engine_command_def)
  then show "engine_data ?d (engine_command ?b (engine h)) = engine_log (Ep_stall bEP f) (engine h\<lparr>en_cmd := ?b\<rparr>)"
    using \<open>?b \<noteq> 0xD0 \<and> _\<close> b assms(2) by (simp add: engine_data_def)
qed

lemma simple_command_issued:
  assumes "usb_controller c" and "\<not> en_fresh (engine h)"
  shows "\<exists>h'. USBHwConfigDevice c f h = Some h' \<and> issued [Config_device f] h h'"
    and "\<exists>h'. USBHwConnect c f h = Some h' \<and> issued [Hw_connect f] h h'"
    and "a < 0x80 \<Longrightarrow> \<exists>h'. USBHwSetAddress c a h = Some h' \<and> issued [Set_address a] h h'"
  unfolding USBHwConfigDevice_def USBHwConnect_def USBHwSetAddress_def
  using assms by (rule issued_command; simp add: engine_command_def engine_data_def set_address_value)+

lemma Ep_write_issued:
  assumes c: "usb_controller c" and fresh: "\<not> en_fresh (engine h)" and ep: "endpoint bEP" and "length bs < 1024"
  shows "\<exists>h'. hw_issue c pad (Ep_write bEP bs) h = Some h' \<and> issued [Ep_write bEP bs] h h'"
proof -
  define mem where "mem = (\<lambda>i. if i < length bs then bs ! i else pad i)"
  define n :: u32 where "n = of_nat (length bs)"
  have "unat n = length bs mod 2 ^ 32" unfolding n_def unat_of_nat by simp
  also have "\<dots> = length bs" by (intro mod_less order.strict_trans [OF assms(4)]) simp
  finally have "unat n = length bs" .
  then have bs: "map mem [0..<unat n] = bs" by (intro nth_equalityI) (simp_all add: mem_def)
  obtain h' where "USBHwEPWrite c bEP mem n h = Some (n, h')"
    "en_log (engine h') = en_log (engine h) @ [Ep_write bEP (map mem [0..<unat n])]"
    "en_fresh (engine h') = en_fresh (engine h)" "en_cleared (engine h') = en_cleared (engine h)"
    using USBHwEPWrite_engine [OF c ep, of mem n h] by (elim exE conjE) (rule that)
  moreover have "hw_issue c pad (Ep_write bEP bs) h = map_option snd (USBHwEPWrite c bEP mem n h)"
    by (simp only: hw_issue.simps mem_def n_def)
  ultimately have "hw_issue c pad (Ep_write bEP bs) h = Some h'" and "issued [Ep_write bEP bs] h h'"
    using fresh unfolding bs by (simp_all only: issued_def option.map snd_conv simp_thms)
  then show ?thesis by blast
qed

lemma hw_issue_issued:
  assumes c: "usb_controller c" and fresh: "\<not> en_fresh (engine h)" and ok: "event_ok x"
  shows "\<exists>h'. hw_issue c pad x h = Some h' \<and> issued [x] h h'"
proof (cases x)
  case (Ep_write bEP bs)
  then show ?thesis using Ep_write_issued [OF c fresh] ok by simp
next
  case (Ep_stall bEP f)
  then show ?thesis using USBHwEPStall_issued [OF c fresh] ok by simp
next
  case (Ep_config bEP n)
  then show ?thesis using USBHwEPConfig_issued [OF c] ok by simp
next
  case Hw_init
  then show ?thesis using USBHwInit_issued [OF c fresh] by simp
next
  case (Config_device f)
  then show ?thesis using simple_command_issued(1) [OF c fresh] by simp
next
  case (Hw_connect f)
  then show ?thesis using simple_command_issued(2) [OF c fresh] by simp
next
  case (Set_address a)
  then show ?thesis using simple_command_issued(3) [OF c fresh] ok by simp
qed


text \<open>A controller that raises every bit at once.\<close>

definition bench_chip :: "(u8 \<Rightarrow> nat \<Rightarrow> u8 list option) \<Rightarrow> usb_chip" where
  "bench_chip arrived h r =
     (let e = engine h; ep = push_bit 1 (ucast (drop_bit 2 (en_ctrl e)));
          pkt = arrived ep (en_cleared e ep)
      in if r = USBDevIntSt \<or> r = USBClkSt then - 1
         else if r = USBCtrl then if bit (en_ctrl e) 1 \<and> length (en_tx e) < unat (en_txlen e) then 2 else 0
         else if r = USBRxPLen then (case pkt of None \<Rightarrow> 0x800 | Some bs \<Rightarrow> 0xC00 OR (of_nat (length bs) AND 0x3FF))
         else if r = USBRxData then (case pkt of None \<Rightarrow> 0 | Some bs \<Rightarrow> from_le (take 4 (drop (4 * en_rx e) bs)))
         else 0)"

lemma bench_chip_controller: "usb_controller (bench_chip arrived)"
proof -
  have "bench_chip arrived (polls (bench_chip arrived) r 0 h) r AND bits = bits" if "r = USBDevIntSt \<or> r = USBClkSt" for h r bits
    using that by (auto simp: bench_chip_def)
  moreover have "bit (2 :: u32) 1" by simp
  ultimately show ?thesis unfolding usb_controller_def
    by (auto simp: bench_chip_def Let_def simp del: One_nat_def intro: exI [of _ 0])
qed


subsection \<open>Receiving\<close>

text \<open>The packets of an endpoint arrive one after the other; \<open>arrived idx k\<close> is the one after \<open>k\<close> buffers of
  the endpoint have been released, \<open>None\<close> if it is not valid. With read-enable the controller announces
  it in the end and hands it out word by word.\<close>

definition rx_packet :: "(u8 \<Rightarrow> nat \<Rightarrow> u8 list option) \<Rightarrow> usb_engine \<Rightarrow> u8 list option" where
  "rx_packet arrived e =
     (let idx = push_bit 1 (ucast (drop_bit 2 (en_ctrl e))) in arrived idx (en_cleared e idx))"

definition rx_controller :: "usb_chip \<Rightarrow> (u8 \<Rightarrow> nat \<Rightarrow> u8 list option) \<Rightarrow> bool" where
  "rx_controller c arrived \<longleftrightarrow>
     (\<forall>h. bit (en_ctrl (engine h)) 0 \<longrightarrow>
        (\<exists>n. bit (c (polls c USBRxPLen n h) USBRxPLen) 11)
        \<and> (bit (c h USBRxPLen) 11 \<longrightarrow>
             (case rx_packet arrived (engine h) of
                None \<Rightarrow> \<not> bit (c h USBRxPLen) 10
              | Some bs \<Rightarrow> bit (c h USBRxPLen) 10 \<and> unat (c h USBRxPLen AND 0x3FF) = length bs))
        \<and> (\<forall>bs. rx_packet arrived (engine h) = Some bs
             \<longrightarrow> c h USBRxData = from_le (take 4 (drop (4 * en_rx (engine h)) bs))))"

lemma from_le_head:
  "ucast ((from_le (b # bs) :: u32) AND 0xFF) = b"
  "length bs \<le> 3 \<Longrightarrow> drop_bit 8 (from_le (b # bs) :: u32) = from_le bs"
proof -
  have m: "(0xFF :: u32) = mask 8" by (simp add: mask_eq_exp_minus_1)
  show "ucast ((from_le (b # bs) :: u32) AND 0xFF) = b"
    unfolding m by (rule bit_word_eqI) (auto simp: bit_simps bit_from_le simp del: from_le.simps)
  have d: "(8 + n) div 8 = Suc (n div 8)" for n :: nat by simp
  show "length bs \<le> 3 \<Longrightarrow> drop_bit 8 (from_le (b # bs) :: u32) = from_le bs"
    by (rule bit_word_eqI) (auto simp: bit_simps bit_from_le d simp del: from_le.simps)
qed

lemma wait_packet_returns:
  assumes "bit (c (polls c USBRxPLen n h) USBRxPLen) 11"
  shows "\<exists>h1. wait_packet c (v, h) = Some (c h1 USBRxPLen, h1 @ [Reg_rd USBRxPLen (c h1 USBRxPLen)])
     \<and> bit (c h1 USBRxPLen) 11 \<and> engine h1 = engine h"
  using assms
proof (induction n arbitrary: h v)
  case 0
  then show ?case
    unfolding wait_packet_def by (subst loop_opt.simps) (auto simp: polls_def hw_read_def intro: exI [of _ h])
next
  case (Suc n)
  let ?h = "snd (hw_read c USBRxPLen h)"
  have e: "engine ?h = engine h" by (rule engine_read) simp
  have "wait_packet c (v, h) = (if bit (c h USBRxPLen) 11 then Some (c h USBRxPLen, ?h) else wait_packet c (c h USBRxPLen, ?h))"
    unfolding wait_packet_def by (subst loop_opt.simps) (simp add: hw_read_def)
  moreover have "\<exists>h1. wait_packet c (c h USBRxPLen, ?h) = Some (c h1 USBRxPLen, h1 @ [Reg_rd USBRxPLen (c h1 USBRxPLen)])
     \<and> bit (c h1 USBRxPLen) 11 \<and> engine h1 = engine ?h"
    using Suc.prems by (intro Suc.IH) (simp add: polls_def funpow_Suc_right del: funpow.simps)
  ultimately show ?case using e by (auto simp: hw_read_def)
qed

lemma read_bytes:
  assumes c: "rx_controller c arrived" and "bit (en_ctrl (engine h)) 0"
    and "rx_packet arrived (engine h) = Some bs" and "en_rx (engine h) = 0" and "i \<le> length bs"
  shows "\<exists>w h'. fold (read_byte c null n) [0..<i] (0, [], h) = (w, if null then [] else take (min i (unat n)) bs, h')
     \<and> engine h' = (engine h)\<lparr>en_rx := (i + 3) div 4\<rparr>
     \<and> (i mod 4 \<noteq> 0 \<longrightarrow> w = from_le (take (4 - i mod 4) (drop i bs)))"
  using assms(5)
proof (induction i)
  case 0
  then show ?case using assms(4) by simp
next
  case (Suc i)
  then obtain w h1 where IH: "fold (read_byte c null n) [0..<i] (0, [], h) = (w, if null then [] else take (min i (unat n)) bs, h1)"
    "engine h1 = (engine h)\<lparr>en_rx := (i + 3) div 4\<rparr>"
    "i mod 4 \<noteq> 0 \<longrightarrow> w = from_le (take (4 - i mod 4) (drop i bs))" by auto
  define w1 where "w1 = (if i mod 4 = 0 then c h1 USBRxData else w)"
  define h2 where "h2 = (if i mod 4 = 0 then snd (hw_read c USBRxData h1) else h1)"
  have "rx_packet arrived (engine h1) = Some bs" "bit (en_ctrl (engine h1)) 0"
    using assms(2,3) by (simp_all add: IH(2) rx_packet_def)
  then have data: "c h1 USBRxData = from_le (take 4 (drop (4 * en_rx (engine h1)) bs))"
    using c unfolding rx_controller_def by blast
  have "4 * ((i + 3) div 4) = i" if "i mod 4 = 0" using that by presburger
  then have w1: "w1 = from_le (take (4 - i mod 4) (drop i bs))" using data IH(2,3) by (auto simp: w1_def)
  obtain m where m: "4 - i mod 4 = Suc m" "m \<le> 3" by (cases "4 - i mod 4") (auto simp: le_diff_conv)
  have split: "take (4 - i mod 4) (drop i bs) = bs ! i # take m (drop (Suc i) bs)"
    using Suc.prems m(1) by (simp add: Cons_nth_drop_Suc [symmetric])
  have head: "ucast (w1 AND 0xFF) = bs ! i" and tail: "drop_bit 8 w1 = from_le (take m (drop (Suc i) bs))"
    unfolding w1 split using from_le_head m(2) by (simp_all del: from_le.simps)
  have rx: "engine h2 = (engine h)\<lparr>en_rx := (Suc i + 3) div 4\<rparr>"
  proof (cases "i mod 4 = 0")
    case True
    then have "Suc ((i + 3) div 4) = (Suc i + 3) div 4" by presburger
    with True IH(2) show ?thesis by (simp add: h2_def hw_read_def)
  next
    case False
    then have "(i + 3) div 4 = (Suc i + 3) div 4" by presburger
    with False IH(2) show ?thesis by (simp add: h2_def)
  qed
  have out: "(if \<not> null \<and> i < unat n then (if null then [] else take (min i (unat n)) bs) @ [bs ! i]
      else (if null then [] else take (min i (unat n)) bs)) = (if null then [] else take (min (Suc i) (unat n)) bs)"
    using Suc.prems by (auto simp: min_def take_Suc_conv_app_nth)
  have "fold (read_byte c null n) [0..<Suc i] (0, [], h) = (drop_bit 8 w1, if null then [] else take (min (Suc i) (unat n)) bs, h2)"
    using IH(1) out head by (simp add: read_byte_def w1_def h2_def hw_read_def split: if_splits)
  moreover have "Suc i mod 4 \<noteq> 0 \<longrightarrow> m = 4 - Suc i mod 4" using m(1) by (auto simp: mod_Suc)
  ultimately show ?case using rx tail by auto
qed

lemma read_packet_engine:
  assumes c: "usb_controller c" and rx: "rx_controller c arrived" and "endpoint bEP"
    and "bit (en_ctrl (engine h)) 0" and "rx_packet arrived (engine h) = Some bs" and "en_rx (engine h) = 0"
  shows "\<exists>h'. read_packet c bEP null n (length bs) h = Some (int (length bs), if null then [] else take (unat n) bs, h')
     \<and> en_log (engine h') = en_log (engine h) \<and> en_ctrl (engine h') = 0
     \<and> en_cleared (engine h') = (en_cleared (engine h))(EP2IDX bEP := Suc (en_cleared (engine h) (EP2IDX bEP)))"
proof -
  obtain w h1 where h1: "fold (read_byte c null n) [0..<length bs] (0, [], h) = (w, if null then [] else take (unat n) bs, h1)"
    "engine h1 = (engine h)\<lparr>en_rx := (length bs + 3) div 4\<rparr>"
    using read_bytes [OF rx assms(4,5,6) order.refl, of null n] by (auto simp: take_all_iff min_def split: if_splits)
  obtain h2 where h2: "USBHwCmd c (0x00 OR EP2IDX bEP) (hw_write USBCtrl 0 h1) = Some h2"
    "engine h2 = engine_command (0x00 OR EP2IDX bEP) (engine (hw_write USBCtrl 0 h1))"
    using USBHwCmd_engine [OF c] by blast
  obtain h3 where h3: "USBHwCmd c 0xF2 h2 = Some h3" "engine h3 = engine_command 0xF2 (engine h2)"
    using USBHwCmd_engine [OF c] by blast
  show ?thesis
    using h1 h2 h3 endpoint_index(2) [OF assms(3)]
    by (simp add: read_packet_def engine_write engine_command_def Let_def)
qed

lemma read_enabled:
  assumes "endpoint bEP" and "\<not> bit bEP 7"
  shows "push_bit 1 (ucast (drop_bit 2 (1 OR push_bit 2 (ucast (bEP AND 0xF)) :: u32))) = EP2IDX bEP"
  using assms by (auto simp: endpoint_def endpoints_def EP2IDX_def)


lemma bench_chip_rx:
  assumes "\<And>i k bs. arrived i k = Some bs \<Longrightarrow> length bs < 1024"
  shows "rx_controller (bench_chip arrived) arrived"
proof -
  let ?c = "bench_chip arrived"
  have m: "(0x3FF :: u32) = mask 10" by (simp add: mask_eq_exp_minus_1)
  have len: "unat ((0xC00 OR (of_nat n AND 0x3FF)) AND (0x3FF :: u32)) = n" if "n < 1024" for n
  proof -
    have "(0xC00 OR (of_nat n AND 0x3FF)) AND 0x3FF = (of_nat n AND 0x3FF :: u32)"
      by (simp add: word_ao_dist)
    also have "\<dots> = of_nat (take_bit 10 n)" unfolding m by (simp add: take_bit_eq_mask [symmetric] of_nat_take_bit)
    also have "take_bit 10 n = n" using that by (simp add: take_bit_nat_eq_self)
    finally show ?thesis using that by (simp add: unat_of_nat)
  qed
  have pkt: "rx_packet arrived (engine h) = None \<Longrightarrow> ?c h USBRxPLen = 0x800"
    "rx_packet arrived (engine h) = Some bs \<Longrightarrow> ?c h USBRxPLen = 0xC00 OR (of_nat (length bs) AND 0x3FF)"
    "rx_packet arrived (engine h) = Some bs \<Longrightarrow> ?c h USBRxData = from_le (take 4 (drop (4 * en_rx (engine h)) bs))"
    for h bs by (simp_all add: bench_chip_def rx_packet_def Let_def)
  have b: "bit (0xC00 OR x :: u32) 11" "bit (0xC00 OR x :: u32) 10" for x by (simp_all add: bit_simps)
  show ?thesis
    unfolding rx_controller_def
  proof (intro allI impI conjI)
    fix h
    have "bit (?c h USBRxPLen) 11" by (cases "rx_packet arrived (engine h)") (simp_all add: pkt b)
    then have "bit (?c (polls ?c USBRxPLen 0 h) USBRxPLen) 11" by (simp add: polls_def)
    then show "\<exists>n. bit (?c (polls ?c USBRxPLen n h) USBRxPLen) 11" by blast
    show "case rx_packet arrived (engine h) of None \<Rightarrow> \<not> bit (?c h USBRxPLen) 10
        | Some bs \<Rightarrow> bit (?c h USBRxPLen) 10 \<and> unat (?c h USBRxPLen AND 0x3FF) = length bs"
    proof (cases "rx_packet arrived (engine h)")
      case (Some bs)
      then have "length bs < 1024" using assms by (auto simp: rx_packet_def Let_def)
      then show ?thesis using Some len by (simp add: pkt(2) b)
    qed (simp add: pkt(1))
    show "?c h USBRxData = from_le (take 4 (drop (4 * en_rx (engine h)) bs))"
      if "rx_packet arrived (engine h) = Some bs" for bs using that by (rule pkt(3))
  qed
qed


end
