(* ===== verification/Usb_Isr.thy ===== *)
theory Usb_Isr
  imports Usb_Wire
begin

text \<open>
  The interrupt handler of the USB controller with the handlers that \<^verbatim>\<open>usbinit.c\<close> installs: which
  handler is called for which endpoint.
\<close>

subsection \<open>Installed handlers\<close>

datatype hw_handler = Reset_handler | Control_handler

text \<open>The registrations of \<open>USBInit\<close>, after \<open>USBHwInit\<close>.\<close>

definition USBInit_handlers :: "usb_chip \<Rightarrow> (hw_handler, 's) usbhw \<Rightarrow> (hw_handler, 's) usbhw" where
  "USBInit_handlers c s =
     USBHwRegisterEPIntHandler c 0x80 Control_handler
       (USBHwRegisterEPIntHandler c 0x00 Control_handler (USBHwRegisterDevIntHandler c Reset_handler s))"

lemma USBInit_handlers_table:
  assumes "uh_ep s = replicate 16 None"
  shows "uh_ep (USBInit_handlers c s) = Some Control_handler # replicate 15 None"
    and "uh_dev (USBInit_handlers c s) = Some Reset_handler" and "uh_frame (USBInit_handlers c s) = uh_frame s"
  using assms by (simp_all add: USBInit_handlers_def USBHwRegisterEPIntHandler_def USBHwRegisterDevIntHandler_def
      hw_io_def EP2IDX_def Let_def replicate_Suc [of 15, simplified])

subsection \<open>Dispatch\<close>

text \<open>The interrupts that have been acknowledged, in order.\<close>

fun ack_of :: "usb_io \<Rightarrow> u32 list" where
  "ack_of (Reg_wr r v) = (if r = USBEpIntClr then [v] else [])"
| "ack_of (Reg_rd r v) = []"

definition acks :: "usb_io list \<Rightarrow> u32 list" where
  "acks h = concat (map ack_of h)"

lemma acks_simps [simp]: "acks [] = []" "acks (x # h) = ack_of x @ acks h" "acks (g @ h) = acks g @ acks h"
  by (simp_all add: acks_def)

lemma Wait4DevInt_acks:
  assumes "usb_controller c"
  shows "\<exists>h'. Wait4DevInt c bits h = Some h' \<and> acks h' = acks h"
proof -
  obtain n where "c (polls c USBDevIntSt n h) USBDevIntSt AND bits = bits" using assms unfolding usb_controller_def by blast
  then obtain k where "hw_poll c USBDevIntSt bits h = Some (polls c USBDevIntSt k h)"
    using hw_poll_returns [where c = c and r = USBDevIntSt and n = n and h = h and bits = bits] by blast
  moreover have "acks (polls c USBDevIntSt k h) = acks h" by (rule polls_keep) simp
  ultimately show ?thesis by (simp add: Wait4DevInt_def hw_write_def)
qed

text \<open>Calls that are only recorded.\<close>

definition recorded :: "('h, ('h \<times> usb_event) list) usb_calls" where
  "recorded f ev s = Some (s\<lparr>uh_sys := uh_sys s @ [(f, ev)]\<rparr>)"

text \<open>An interrupt of an endpoint in \<open>pend\<close> is pending until it is acknowledged.\<close>

definition pending_since :: "usb_chip \<Rightarrow> nat set \<Rightarrow> usb_io list \<Rightarrow> bool" where
  "pending_since c pend h0 \<longleftrightarrow>
     (\<forall>h i. i < 32 \<longrightarrow> (bit (c h USBEpIntSt) i \<longleftrightarrow> i \<in> pend \<and> push_bit i 1 \<notin> set (drop (length (acks h0)) (acks h))))"

text \<open>What is called for endpoint index \<open>i\<close> with status \<open>st i\<close>.\<close>

definition ep_call :: "'h option list \<Rightarrow> (nat \<Rightarrow> u8) \<Rightarrow> nat \<Rightarrow> ('h \<times> usb_event) list" where
  "ep_call tab st i =
     (case tab ! (i div 2) of None \<Rightarrow> [] | Some f \<Rightarrow> [(f, Ep_event (IDX2EP (of_nat i)) (ep_status (st i)))])"

lemma single_bit_eq: "i < 32 \<Longrightarrow> (2 ^ i :: u32) = 2 ^ j \<longleftrightarrow> i = j"
proof
  assume i: "i < 32" and eq: "(2 ^ i :: u32) = 2 ^ j"
  have "bit (2 ^ i :: u32) i" using i by (simp add: bit_exp_iff)
  then show "i = j" unfolding eq by (simp add: bit_exp_iff)
qed simp

lemma endpoint_interrupts:
  assumes c: "usb_controller c" "pending_since c pend h0"
    and "distinct xs" and "set xs \<subseteq> {..<32}"
    and "acks (uh_io s) = acks h0 @ done" and "\<forall>i \<in> set xs. push_bit i 1 \<notin> set done"
  shows "\<exists>s' st. for_each (endpoint_interrupt c recorded) xs s = Some s'
     \<and> uh_sys s' = uh_sys s @ concat (map (ep_call (uh_ep s) st) (filter (\<lambda>i. i \<in> pend) xs))
     \<and> acks (uh_io s') = acks (uh_io s) @ map (\<lambda>i. push_bit i 1) (filter (\<lambda>i. i \<in> pend) xs)"
  using assms(3-6)
proof (induction xs arbitrary: s "done")
  case (Cons i xs)
  let ?s = "s\<lparr>uh_io := snd (hw_read c USBEpIntSt (uh_io s))\<rparr>"
  have io: "acks (uh_io ?s) = acks h0 @ done" using Cons.prems(3) by (simp add: hw_read_def)
  have pend: "bit (c (uh_io s) USBEpIntSt) i \<longleftrightarrow> i \<in> pend"
    using c(2) Cons.prems unfolding pending_since_def by simp
  show ?case
  proof (cases "i \<in> pend")
    case False
    then have "endpoint_interrupt c recorded i s = Some ?s"
      using pend by (simp add: endpoint_interrupt_def hw_read_def)
    then show ?thesis using Cons.IH [of ?s "done"] Cons.prems io False by (simp add: hw_read_def)
  next
    case True
    obtain h1 where h1: "Wait4DevInt c CDFULL (hw_write USBEpIntClr (push_bit i 1) (uh_io ?s)) = Some h1"
      "acks h1 = acks (hw_write USBEpIntClr (push_bit i 1) (uh_io ?s))"
      using Wait4DevInt_acks [OF c(1)] by blast
    let ?st = "ucast (c h1 USBCmdData) :: u8"
    let ?t = "s\<lparr>uh_io := snd (hw_read c USBCmdData h1), uh_sys := uh_sys s @ ep_call (uh_ep s) (\<lambda>_. ?st) i\<rparr>"
    have "endpoint_interrupt c recorded i s = Some ?t"
      using pend True h1(1)
      by (simp add: endpoint_interrupt_def hw_read_def call_installed_def recorded_def ep_call_def split: option.split)
    moreover have acks: "acks (uh_io ?t) = acks h0 @ (done @ [push_bit i 1])"
      using h1(2) io by (simp add: hw_read_def hw_write_def)
    moreover have "push_bit j 1 \<noteq> (push_bit i 1 :: u32)" if "j \<in> set xs" for j
      using that Cons.prems(1,2) single_bit_eq [of j i] by auto
    ultimately obtain s' st where run: "for_each (endpoint_interrupt c recorded) (i # xs) s = Some s'"
      "uh_sys s' = uh_sys ?t @ concat (map (ep_call (uh_ep s) st) (filter (\<lambda>i. i \<in> pend) xs))"
      "acks (uh_io s') = acks (uh_io ?t) @ map (\<lambda>i. push_bit i 1) (filter (\<lambda>i. i \<in> pend) xs)"
      using Cons.IH [of ?t "done @ [push_bit i 1]"] Cons.prems by auto
    define st' where "st' = st(i := ?st)"
    have "ep_call (uh_ep s) st j = ep_call (uh_ep s) st' j" if "j \<in> set xs" for j
      using that Cons.prems(1) by (cases "j = i") (simp_all add: st'_def ep_call_def split: option.split)
    then have "concat (map (ep_call (uh_ep s) st) (filter (\<lambda>i. i \<in> pend) xs))
        = concat (map (ep_call (uh_ep s) st') (filter (\<lambda>i. i \<in> pend) xs))"
      by (intro arg_cong [where f = concat] map_cong refl) simp
    moreover have "ep_call (uh_ep s) (\<lambda>_. ?st) i = ep_call (uh_ep s) st' i" by (simp add: st'_def ep_call_def split: option.split)
    ultimately have "uh_sys s' = uh_sys s @ concat (map (ep_call (uh_ep s) st') (filter (\<lambda>i. i \<in> pend) (i # xs)))"
      using run(2) True by simp
    then show ?thesis using run(1,3) acks Cons.prems(3) True by (intro exI [of _ s'] exI [of _ st']) simp
  qed
qed simp


text \<open>A controller with an interrupt of endpoint 0 that is pending from the start.\<close>

definition isr_chip :: usb_chip where
  "isr_chip h r =
     (if r = USBDevIntSt \<and> h = [] then EP_SLOW
      else if r = USBEpIntSt then if 1 \<in> set (acks h) then 0 else 1
      else if r = USBCmdData then 0x05
      else bench_chip (\<lambda>_ _. None) h r)"

lemma isr_chip_controller: "usb_controller isr_chip"
proof -
  have "isr_chip (polls isr_chip r 1 h) r AND bits = bits" if "r = USBDevIntSt \<or> r = USBClkSt" for h r bits
    using that by (auto simp: isr_chip_def bench_chip_def polls_def hw_read_def)
  moreover have "isr_chip h USBCtrl = bench_chip (\<lambda>_ _. None) h USBCtrl" for h by (simp add: isr_chip_def)
  ultimately show ?thesis using bench_chip_controller [of "\<lambda>_ _. None"] unfolding usb_controller_def by metis
qed

lemma isr_chip_pending: "pending_since isr_chip {0} []"
  unfolding pending_since_def
proof (intro allI impI)
  fix h and i :: nat assume "i < 32"
  show "bit (isr_chip h USBEpIntSt) i \<longleftrightarrow> i \<in> {0} \<and> push_bit i 1 \<notin> set (drop (length (acks [])) (acks h))"
    by (cases "i = 0") (auto simp: isr_chip_def bit_1_iff)
qed


end
