(* ===== verification/Host_Control.thy ===== *)
theory Host_Control
  imports Interface Fw_State
begin

text \<open>
  The commands of the host library, \<^verbatim>\<open>host/libubertooth/src/ubertooth_control.c\<close>. A command is a
  control transfer and the evaluation of its result. libusb is a parameter: the synchronous
  transfer returns a negative error code or the number of bytes, with as many bytes received; the
  asynchronous one gets the buffer with setup packet and data. A command returns its result, the
  lines it prints to the standard error stream, and the new state of the device; \<open>None\<close> is a read of
  a byte that the device has not sent.
\<close>

record 'd libusb =
  lu_control :: "bool \<Rightarrow> usb_request \<Rightarrow> 'd \<Rightarrow> int \<times> u8 list \<times> 'd"
  lu_submit :: "u8 list \<Rightarrow> 'd \<Rightarrow> int \<times> 'd"

abbreviation (input) LIBUSB_SUCCESS :: int where "LIBUSB_SUCCESS \<equiv> 0"
abbreviation (input) LIBUSB_ERROR_ACCESS :: int where "LIBUSB_ERROR_ACCESS \<equiv> -3"
abbreviation (input) LIBUSB_ERROR_NO_DEVICE :: int where "LIBUSB_ERROR_NO_DEVICE \<equiv> -4"
abbreviation (input) LIBUSB_ERROR_TIMEOUT :: int where "LIBUSB_ERROR_TIMEOUT \<equiv> -7"
abbreviation (input) LIBUSB_ERROR_OVERFLOW :: int where "LIBUSB_ERROR_OVERFLOW \<equiv> -8"
abbreviation (input) LIBUSB_ERROR_PIPE :: int where "LIBUSB_ERROR_PIPE \<equiv> -9"
abbreviation (input) LIBUSB_ERROR_INTERRUPTED :: int where "LIBUSB_ERROR_INTERRUPTED \<equiv> -10"
abbreviation (input) LIBUSB_ERROR_OTHER :: int where "LIBUSB_ERROR_OTHER \<equiv> -99"

type_synonym 'd outcome = "(int \<times> string list \<times> 'd) option"

subsection \<open>Printing\<close>

definition digit :: "nat \<Rightarrow> char" where
  "digit n = char_of (if n < 10 then 48 + n else 87 + n)"

function dec_nat :: "nat \<Rightarrow> string" where
  "dec_nat n = (if n < 10 then [digit n] else dec_nat (n div 10) @ [digit (n mod 10)])"
  by pat_completeness auto
termination by (relation "measure id") auto

declare dec_nat.simps [simp del]

text \<open>\<open>%d\<close> and \<open>%08x\<close>.\<close>

definition dec :: "int \<Rightarrow> string" where
  "dec n = (if n < 0 then CHR ''-'' # dec_nat (nat (- n)) else dec_nat (nat n))"

definition hex8 :: "u32 \<Rightarrow> string" where
  "hex8 w = map (\<lambda>i. digit (unat (drop_bit (4 * i) w AND 0xF))) (rev [0..<8])"

definition show_libusb_error :: "int \<Rightarrow> string" where
  "show_libusb_error error_code =
     (let (error_name, error_hint) =
        (if error_code = LIBUSB_ERROR_TIMEOUT then (''Timeout'', '''')
         else if error_code = LIBUSB_ERROR_NO_DEVICE then (''No Device'', ''Check Ubertooth is connected to host'')
         else if error_code = LIBUSB_ERROR_ACCESS then (''Insufficient Permissions'', '''')
         else if error_code = LIBUSB_ERROR_OVERFLOW then (''Overflow'', ''Try resetting the Ubertooth'')
         else (''Command Error'', ''''))
      in ''libUSB Error: '' @ error_name @ '': '' @ error_hint @ '' ('' @ dec error_code @ '')'')"

definition unsupported :: string where
  "unsupported = ''control message unsupported''"

subsection \<open>Transfers\<close>

definition control_in :: "'d libusb \<Rightarrow> usb_cmd \<Rightarrow> u16 \<Rightarrow> nat \<Rightarrow> 'd \<Rightarrow> int \<times> u8 list \<times> 'd" where
  "control_in u c v n d =
     lu_control u True \<lparr>rq_request = cmd_code c, rq_value = v, rq_index = 0, rq_length = n, rq_data = []\<rparr> d"

definition control_out :: "'d libusb \<Rightarrow> usb_cmd \<Rightarrow> u16 \<Rightarrow> u16 \<Rightarrow> u8 list \<Rightarrow> 'd \<Rightarrow> int \<times> u8 list \<times> 'd" where
  "control_out u c v i bs d =
     lu_control u False \<lparr>rq_request = cmd_code c, rq_value = v, rq_index = i, rq_length = length bs, rq_data = bs\<rparr> d"

text \<open>The two ways in which a result is tested: every error through \<open>show_libusb_error\<close>, or a stall
  reported as an unsupported message.\<close>

definition plain_status :: "int \<times> u8 list \<times> 'd \<Rightarrow> 'd outcome" where
  "plain_status = (\<lambda>(r, bs, d). Some (if r < 0 then (r, [show_libusb_error r], d) else (0, [], d)))"

definition report :: "int \<Rightarrow> string list" where
  "report r = (if r = LIBUSB_ERROR_PIPE then [unsupported] else [show_libusb_error r])"

definition pipe_status :: "int \<times> u8 list \<times> 'd \<Rightarrow> 'd outcome" where
  "pipe_status = (\<lambda>(r, bs, d). Some (if r < 0 then (r, report r, d) else (0, [], d)))"

text \<open>With \<open>r != LIBUSB_SUCCESS\<close> instead of \<open>r < 0\<close>.\<close>

definition strict_status :: "int \<times> u8 list \<times> 'd \<Rightarrow> 'd outcome" where
  "strict_status = (\<lambda>(r, bs, d). Some (if r \<noteq> LIBUSB_SUCCESS then (r, report r, d) else (0, [], d)))"

text \<open>The first \<open>n\<close> bytes of the local buffer are read if the transfer did not fail.\<close>

definition fetched :: "(int \<Rightarrow> string list) \<Rightarrow> nat \<Rightarrow> (u8 list \<Rightarrow> int) \<Rightarrow> int \<times> u8 list \<times> 'd \<Rightarrow> 'd outcome" where
  "fetched err n val = (\<lambda>(r, bs, d).
     if r < 0 then Some (r, err r, d)
     else if length bs < n then None
     else Some (val bs, [], d))"

definition plain_error :: "int \<Rightarrow> string list" where
  "plain_error r = [show_libusb_error r]"

definition byte_val :: "u8 list \<Rightarrow> int" where
  "byte_val bs = uint (bs ! 0)"

text \<open>\<open>data[0] | data[1] << 8 | ...\<close>, as \<open>int\<close>.\<close>

definition int32_val :: "u8 list \<Rightarrow> int" where
  "int32_val bs = s32 (uint (from_le (take 4 bs) :: u32))"

text \<open>A transfer submitted without waiting: setup packet and data in one buffer.\<close>

definition control_setup :: "bool \<Rightarrow> usb_cmd \<Rightarrow> u16 \<Rightarrow> u8 list" where
  "control_setup din c n = [if din then 0xC0 else 0x40, cmd_code c] @ le_bytes 2 (0 :: u16) @ le_bytes 2 (0 :: u16)
     @ le_bytes 2 n"

definition ubertooth_cmd_sync :: "'d libusb \<Rightarrow> bool \<Rightarrow> u8 \<Rightarrow> u8 list \<Rightarrow> u16 \<Rightarrow> 'd \<Rightarrow> 'd outcome" where
  "ubertooth_cmd_sync u din command bs n d =
     pipe_status (lu_control u din \<lparr>rq_request = command, rq_value = 0, rq_index = 0, rq_length = unat n,
       rq_data = (if din then [] else take (unat n) bs)\<rparr> d)"

definition ubertooth_cmd_async :: "'d libusb \<Rightarrow> usb_cmd \<Rightarrow> u8 list \<Rightarrow> u16 \<Rightarrow> 'd \<Rightarrow> 'd outcome" where
  "ubertooth_cmd_async u c bs n d =
     (let (r, d) = lu_submit u (control_setup False c n @ take (unat n) bs) d
      in Some (r, if r < 0 then [show_libusb_error r] else [], d))"

text \<open>The completion callback of asynchronous commands.\<close>

definition callback :: "int \<Rightarrow> string list" where
  "callback st = (if st \<noteq> 0 then [show_libusb_error st] else [])"

subsection \<open>Modes and switches\<close>

definition cmd_ping :: "'d libusb \<Rightarrow> 'd \<Rightarrow> 'd outcome" where
  "cmd_ping u d = plain_status (control_in u UBERTOOTH_PING 0 0 d)"

definition cmd_rx_syms :: "'d libusb \<Rightarrow> 'd \<Rightarrow> 'd outcome" where
  "cmd_rx_syms u d = plain_status (control_out u UBERTOOTH_RX_SYMBOLS 0 0 [] d)"

definition cmd_specan :: "'d libusb \<Rightarrow> u16 \<Rightarrow> u16 \<Rightarrow> 'd \<Rightarrow> 'd outcome" where
  "cmd_specan u low high d = plain_status (control_out u UBERTOOTH_SPECAN low high [] d)"

definition cmd_led_specan :: "'d libusb \<Rightarrow> u16 \<Rightarrow> 'd \<Rightarrow> 'd outcome" where
  "cmd_led_specan u threshold d = plain_status (control_out u UBERTOOTH_LED_SPECAN threshold 0 [] d)"

definition cmd_set_usrled :: "'d libusb \<Rightarrow> u16 \<Rightarrow> 'd \<Rightarrow> 'd outcome" where
  "cmd_set_usrled u state d = plain_status (control_out u UBERTOOTH_SET_USRLED state 0 [] d)"

definition cmd_get_usrled :: "'d libusb \<Rightarrow> 'd \<Rightarrow> 'd outcome" where
  "cmd_get_usrled u d = fetched plain_error 1 byte_val (control_in u UBERTOOTH_GET_USRLED 0 1 d)"

definition cmd_set_rxled :: "'d libusb \<Rightarrow> u16 \<Rightarrow> 'd \<Rightarrow> 'd outcome" where
  "cmd_set_rxled u state d = plain_status (control_out u UBERTOOTH_SET_RXLED state 0 [] d)"

definition cmd_get_rxled :: "'d libusb \<Rightarrow> 'd \<Rightarrow> 'd outcome" where
  "cmd_get_rxled u d = fetched plain_error 1 byte_val (control_in u UBERTOOTH_GET_RXLED 0 1 d)"

definition cmd_set_txled :: "'d libusb \<Rightarrow> u16 \<Rightarrow> 'd \<Rightarrow> 'd outcome" where
  "cmd_set_txled u state d = plain_status (control_out u UBERTOOTH_SET_TXLED state 0 [] d)"

definition cmd_get_txled :: "'d libusb \<Rightarrow> 'd \<Rightarrow> 'd outcome" where
  "cmd_get_txled u d = fetched plain_error 1 byte_val (control_in u UBERTOOTH_GET_TXLED 0 1 d)"

definition cmd_get_modulation :: "'d libusb \<Rightarrow> 'd \<Rightarrow> 'd outcome" where
  "cmd_get_modulation u d = fetched plain_error 1 byte_val (control_in u UBERTOOTH_GET_MOD 0 1 d)"

definition cmd_set_modulation :: "'d libusb \<Rightarrow> u16 \<Rightarrow> 'd \<Rightarrow> 'd outcome" where
  "cmd_set_modulation u m d = pipe_status (control_out u UBERTOOTH_SET_MOD m 0 [] d)"

definition cmd_get_channel :: "'d libusb \<Rightarrow> 'd \<Rightarrow> 'd outcome" where
  "cmd_get_channel u d =
     fetched report 2 (\<lambda>bs. uint (bs ! 0) OR push_bit 8 (uint (bs ! 1))) (control_in u UBERTOOTH_GET_CHANNEL 0 2 d)"

definition cmd_set_channel :: "'d libusb \<Rightarrow> u16 \<Rightarrow> 'd \<Rightarrow> 'd outcome" where
  "cmd_set_channel u ch d = pipe_status (control_out u UBERTOOTH_SET_CHANNEL ch 0 [] d)"

definition cmd_stop :: "'d libusb \<Rightarrow> 'd \<Rightarrow> 'd outcome" where
  "cmd_stop u d = pipe_status (control_out u UBERTOOTH_STOP 0 0 [] d)"

definition cmd_set_paen :: "'d libusb \<Rightarrow> u16 \<Rightarrow> 'd \<Rightarrow> 'd outcome" where
  "cmd_set_paen u state d = pipe_status (control_out u UBERTOOTH_SET_PAEN state 0 [] d)"

definition cmd_set_hgm :: "'d libusb \<Rightarrow> u16 \<Rightarrow> 'd \<Rightarrow> 'd outcome" where
  "cmd_set_hgm u state d = pipe_status (control_out u UBERTOOTH_SET_HGM state 0 [] d)"

definition cmd_tx_test :: "'d libusb \<Rightarrow> 'd \<Rightarrow> 'd outcome" where
  "cmd_tx_test u d = pipe_status (control_out u UBERTOOTH_TX_TEST 0 0 [] d)"

definition cmd_get_palevel :: "'d libusb \<Rightarrow> 'd \<Rightarrow> 'd outcome" where
  "cmd_get_palevel u d = fetched plain_error 1 byte_val (control_in u UBERTOOTH_GET_PALEVEL 0 1 d)"

definition cmd_set_palevel :: "'d libusb \<Rightarrow> u16 \<Rightarrow> 'd \<Rightarrow> 'd outcome" where
  "cmd_set_palevel u level d = strict_status (control_out u UBERTOOTH_SET_PALEVEL level 0 [] d)"

definition cmd_range_test :: "'d libusb \<Rightarrow> 'd \<Rightarrow> 'd outcome" where
  "cmd_range_test u d = strict_status (control_out u UBERTOOTH_RANGE_TEST 0 0 [] d)"

definition cmd_repeater :: "'d libusb \<Rightarrow> 'd \<Rightarrow> 'd outcome" where
  "cmd_repeater u d = strict_status (control_out u UBERTOOTH_REPEATER 0 0 [] d)"

definition cmd_get_board_id :: "'d libusb \<Rightarrow> 'd \<Rightarrow> 'd outcome" where
  "cmd_get_board_id u d = fetched report 1 byte_val (control_in u UBERTOOTH_GET_BOARD_ID 0 1 d)"

definition cmd_set_squelch :: "'d libusb \<Rightarrow> u16 \<Rightarrow> 'd \<Rightarrow> 'd outcome" where
  "cmd_set_squelch u level d = strict_status (control_out u UBERTOOTH_SET_SQUELCH level 0 [] d)"

definition cmd_get_squelch :: "'d libusb \<Rightarrow> 'd \<Rightarrow> 'd outcome" where
  "cmd_get_squelch u d = fetched plain_error 1 byte_val (control_in u UBERTOOTH_GET_SQUELCH 0 1 d)"

definition cmd_get_crc_verify :: "'d libusb \<Rightarrow> 'd \<Rightarrow> 'd outcome" where
  "cmd_get_crc_verify u d = fetched plain_error 1 byte_val (control_in u UBERTOOTH_GET_CRC_VERIFY 0 1 d)"

definition cmd_set_crc_verify :: "'d libusb \<Rightarrow> int \<Rightarrow> 'd \<Rightarrow> 'd outcome" where
  "cmd_set_crc_verify u verify d = plain_status (control_out u UBERTOOTH_SET_CRC_VERIFY (word_of_int verify) 0 [] d)"

definition cmd_btle_sniffing :: "'d libusb \<Rightarrow> u16 \<Rightarrow> 'd \<Rightarrow> 'd outcome" where
  "cmd_btle_sniffing u num d = pipe_status (control_out u UBERTOOTH_BTLE_SNIFFING num 0 [] d)"

definition cmd_btle_promisc :: "'d libusb \<Rightarrow> 'd \<Rightarrow> 'd outcome" where
  "cmd_btle_promisc u d = pipe_status (control_out u UBERTOOTH_BTLE_PROMISC 0 0 [] d)"

definition cmd_set_jam_mode :: "'d libusb \<Rightarrow> int \<Rightarrow> 'd \<Rightarrow> 'd outcome" where
  "cmd_set_jam_mode u m d = pipe_status (control_out u UBERTOOTH_JAM_MODE (word_of_int m) 0 [] d)"

definition cmd_ego :: "'d libusb \<Rightarrow> int \<Rightarrow> 'd \<Rightarrow> 'd outcome" where
  "cmd_ego u m d = pipe_status (control_out u UBERTOOTH_EGO (word_of_int m) 0 [] d)"

definition cmd_afh :: "'d libusb \<Rightarrow> 'd \<Rightarrow> 'd outcome" where
  "cmd_afh u d = pipe_status (control_out u UBERTOOTH_AFH 0 0 [] d)"

definition cmd_clear_afh_map :: "'d libusb \<Rightarrow> 'd \<Rightarrow> 'd outcome" where
  "cmd_clear_afh_map u d = pipe_status (control_out u UBERTOOTH_CLEAR_AFHMAP 0 0 [] d)"

text \<open>The device restarts before it answers, so these two expect an error.\<close>

definition restart_status :: "int \<times> u8 list \<times> 'd \<Rightarrow> 'd outcome" where
  "restart_status = (\<lambda>(r, bs, d). Some
     (if r \<noteq> 0 \<and> r \<noteq> LIBUSB_ERROR_PIPE \<and> r \<noteq> LIBUSB_ERROR_OTHER \<and> r \<noteq> LIBUSB_ERROR_NO_DEVICE
      then (r, [show_libusb_error r], d) else (0, [], d)))"

definition cmd_set_isp :: "'d libusb \<Rightarrow> 'd \<Rightarrow> 'd outcome" where
  "cmd_set_isp u d = restart_status (control_out u UBERTOOTH_SET_ISP 0 0 [] d)"

definition cmd_reset :: "'d libusb \<Rightarrow> 'd \<Rightarrow> 'd outcome" where
  "cmd_reset u d = restart_status (control_out u UBERTOOTH_RESET 0 0 [] d)"

text \<open>Here success is reported as an error as well.\<close>

definition cmd_flash :: "'d libusb \<Rightarrow> 'd \<Rightarrow> 'd outcome" where
  "cmd_flash u d =
     (let (r, bs, d) = control_out u UBERTOOTH_FLASH 0 0 [] d
      in Some (if r \<noteq> LIBUSB_ERROR_PIPE \<and> r \<noteq> LIBUSB_ERROR_OTHER then (r, [show_libusb_error r], d) else (0, [], d)))"

subsection \<open>Identification\<close>

definition cmd_get_partnum :: "'d libusb \<Rightarrow> 'd \<Rightarrow> 'd outcome" where
  "cmd_get_partnum u d =
     (let (r, bs, d) = control_in u UBERTOOTH_GET_PARTNUM 0 5 d
      in if r < 0 then Some (r, [show_libusb_error r], d)
         else if bs = [] then None
         else if bs ! 0 \<noteq> 0 then Some (0, [''result not zero: '' @ dec (uint (bs ! 0))], d)
         else if length bs < 5 then None
         else Some (int32_val (drop 1 bs), [], d))"

definition serial_word :: "u8 list \<Rightarrow> nat \<Rightarrow> u32" where
  "serial_word serial i = from_le [serial ! i, serial ! (i + 1), serial ! (i + 2), serial ! (i + 3)]"

definition print_serial :: "u8 list \<Rightarrow> string" where
  "print_serial serial = ''Serial No: '' @ hex8 (serial_word serial 1) @ hex8 (serial_word serial 5)
     @ hex8 (serial_word serial 9) @ hex8 (serial_word serial 13)"

text \<open>The second component is what has been stored at the caller's pointer.\<close>

definition cmd_get_serial :: "'d libusb \<Rightarrow> 'd \<Rightarrow> (int \<times> u8 list \<times> string list \<times> 'd) option" where
  "cmd_get_serial u d =
     (let (r, bs, d) = control_in u UBERTOOTH_GET_SERIAL 0 17 d
      in if r < 0 then Some (r, bs, [show_libusb_error r], d)
         else if bs = [] then None
         else if bs ! 0 \<noteq> 0 then Some (1, bs, [''result not zero: '' @ dec (uint (bs ! 0))], d)
         else Some (0, bs, [], d))"

text \<open>The string that the two queries below leave in a buffer of \<open>len\<close> bytes after an error.\<close>

definition error_string :: "nat \<Rightarrow> int \<Rightarrow> u8 list option" where
  "error_string len r = (if len = 0 then None else Some (take (len - 2) (map of_char (''error: '' @ dec r))))"

definition cmd_get_rev_num :: "'d libusb \<Rightarrow> nat \<Rightarrow> 'd \<Rightarrow> (u8 list \<times> string list \<times> 'd) option" where
  "cmd_get_rev_num u len d =
     (let (r, bs, d) = control_in u UBERTOOTH_GET_REV_NUM 0 258 d
      in if r < 0 then map_option (\<lambda>v. (v, report r, d)) (error_string len r)
         else if length bs < 2 then None
         else if length bs = 2 then
           (let v = dec_nat (unat (from_le bs :: u16))
            in if length v < len then Some (map of_char v, [], d) else None)
         else if len = 0 then None
         else (let n = min (length bs - 3) (min (len - 1) (unat (bs ! 2)))
               in Some (take n (drop 3 bs), [], d)))"

definition cmd_get_compile_info :: "'d libusb \<Rightarrow> nat \<Rightarrow> 'd \<Rightarrow> (u8 list \<times> string list \<times> 'd) option" where
  "cmd_get_compile_info u len d =
     (let (r, bs, d) = control_in u UBERTOOTH_GET_COMPILE_INFO 0 256 d
      in if r < 0 then map_option (\<lambda>v. (v, report r, d)) (error_string len r)
         else if bs = [] \<or> len = 0 then None
         else (let n = min (length bs - 1) (min (len - 1) (unat (bs ! 0)))
               in Some (take n (drop 1 bs), [], d)))"

subsection \<open>Data\<close>

definition cmd_get_rangeresult :: "'d libusb \<Rightarrow> 'd \<Rightarrow> (int \<times> rangetest_result option \<times> string list \<times> 'd) option" where
  "cmd_get_rangeresult u d =
     (let (r, bs, d) = control_in u UBERTOOTH_RANGE_CHECK 0 5 d
      in if r < LIBUSB_SUCCESS then Some (r, None, report r, d)
         else if length bs < 5 then None
         else Some (0, Some \<lparr>rr_valid = bs ! 0, rr_request_pa = bs ! 1, rr_request_num = bs ! 2,
                             rr_reply_pa = bs ! 3, rr_reply_num = bs ! 4\<rparr>, [], d))"

text \<open>\<open>btbb_gen_syncword\<close> is a parameter.\<close>

definition cmd_set_bdaddr :: "(u64 \<Rightarrow> u64) \<Rightarrow> 'd libusb \<Rightarrow> u64 \<Rightarrow> 'd \<Rightarrow> 'd outcome" where
  "cmd_set_bdaddr gen_syncword u address d =
     (let syncword = gen_syncword (address AND 0xffffff);
          (r, bs, d) = control_out u UBERTOOTH_SET_BDADDR 0 0 (le_bytes 8 address @ le_bytes 8 syncword) d
      in Some (if r < 0 then (r, report r, d)
               else if r < 16 then (1, [''Only '' @ dec r @ '' of '' @ dec 16 @ '' bytes transferred''], d)
               else (0, [], d)))"

definition cmd_start_hopping :: "'d libusb \<Rightarrow> u32 \<Rightarrow> u32 \<Rightarrow> 'd \<Rightarrow> 'd outcome" where
  "cmd_start_hopping u offset offset100ns d =
     (case ubertooth_cmd_async u UBERTOOTH_START_HOPPING
             (rev (le_bytes 4 offset) @ [byte_at 1 offset100ns, byte_at 0 offset100ns]) 6 d of
        None \<Rightarrow> None
      | Some (r, out, d) \<Rightarrow> Some (if r < 0 then (r, out @ report r, d) else (0, out, d)))"

definition cmd_trim_clock :: "'d libusb \<Rightarrow> u16 \<Rightarrow> 'd \<Rightarrow> 'd outcome" where
  "cmd_trim_clock u offset d = ubertooth_cmd_async u UBERTOOTH_TRIM_CLOCK [byte_at 1 offset, byte_at 0 offset] 2 d"

definition cmd_set_clock :: "'d libusb \<Rightarrow> u32 \<Rightarrow> 'd \<Rightarrow> 'd outcome" where
  "cmd_set_clock u v d = pipe_status (control_out u UBERTOOTH_SET_CLOCK 0 0 (le_bytes 4 v) d)"

text \<open>These two return an unsigned number, the error code too.\<close>

definition unsigned32 :: "'d outcome \<Rightarrow> 'd outcome" where
  "unsigned32 = map_option (\<lambda>(r, out, d). (uint (word_of_int r :: u32), out, d))"

definition cmd_get_clock :: "'d libusb \<Rightarrow> 'd \<Rightarrow> 'd outcome" where
  "cmd_get_clock u d = unsigned32 (fetched plain_error 4 int32_val (control_in u UBERTOOTH_GET_CLOCK 0 4 d))"

definition cmd_get_access_address :: "'d libusb \<Rightarrow> 'd \<Rightarrow> 'd outcome" where
  "cmd_get_access_address u d =
     unsigned32 (fetched plain_error 4 int32_val (control_in u UBERTOOTH_GET_ACCESS_ADDRESS 0 4 d))"

definition cmd_set_access_address :: "'d libusb \<Rightarrow> u32 \<Rightarrow> 'd \<Rightarrow> 'd outcome" where
  "cmd_set_access_address u aa d = pipe_status (control_out u UBERTOOTH_SET_ACCESS_ADDRESS 0 0 (le_bytes 4 aa) d)"

text \<open>The two asynchronous commands that do not look at the result of the submission.\<close>

definition cmd_set_afh_map :: "'d libusb \<Rightarrow> u8 list \<Rightarrow> 'd \<Rightarrow> 'd outcome" where
  "cmd_set_afh_map u m d =
     (if length m < 10 then None
      else Some (0, [], snd (lu_submit u (control_setup False UBERTOOTH_SET_AFHMAP 10 @ take 10 m) d)))"

definition cmd_hop :: "'d libusb \<Rightarrow> 'd \<Rightarrow> 'd outcome" where
  "cmd_hop u d = Some (0, [], snd (lu_submit u (control_setup False UBERTOOTH_HOP 0) d))"

definition cmd_do_something :: "'d libusb \<Rightarrow> u8 list \<Rightarrow> 'd \<Rightarrow> 'd outcome" where
  "cmd_do_something u bs d = pipe_status (control_out u UBERTOOTH_DO_SOMETHING 0 0 bs d)"

text \<open>These return the number of bytes, which are stored at the caller's pointer.\<close>

definition cmd_do_something_reply :: "'d libusb \<Rightarrow> nat \<Rightarrow> 'd \<Rightarrow> int \<times> u8 list \<times> string list \<times> 'd" where
  "cmd_do_something_reply u len d =
     (let (r, bs, d) = control_in u UBERTOOTH_DO_SOMETHING_REPLY 0 len d
      in (r, bs, if r < 0 then report r else [], d))"

definition cmd_poll :: "'d libusb \<Rightarrow> 'd \<Rightarrow> int \<times> u8 list \<times> string list \<times> 'd" where
  "cmd_poll u d =
     (let (r, bs, d) = control_in u UBERTOOTH_POLL 0 64 d
      in (r, bs, if r < 0 then [show_libusb_error r] else [], d))"

definition cmd_read_register :: "'d libusb \<Rightarrow> u8 \<Rightarrow> 'd \<Rightarrow> 'd outcome" where
  "cmd_read_register u reg d =
     fetched report 2 (\<lambda>bs. push_bit 8 (uint (bs ! 0)) OR uint (bs ! 1))
       (control_in u UBERTOOTH_READ_REGISTER (ucast reg) 2 d)"

definition cmd_btle_slave :: "'d libusb \<Rightarrow> u8 list \<Rightarrow> 'd \<Rightarrow> 'd outcome" where
  "cmd_btle_slave u mac d =
     (if length mac < 6 then None else pipe_status (control_out u UBERTOOTH_BTLE_SLAVE 0 0 (take 6 mac) d))"

definition cmd_btle_set_target :: "'d libusb \<Rightarrow> u8 list \<Rightarrow> 'd \<Rightarrow> 'd outcome" where
  "cmd_btle_set_target u mac d =
     (if length mac < 6 then None else pipe_status (control_out u UBERTOOTH_BTLE_SET_TARGET 0 0 (take 6 mac) d))"

end
