(* ===== verification/Sliding_Window.thy ===== *)
theory Sliding_Window
  imports Ubt_Prelude
begin

text \<open>
  The contract of a history of fixed length, as its readers use it: adding an element drops the
  oldest one. The host keeps three: the packets of its ring buffer, their unpacked symbols, and the
  signal strengths of each channel.
\<close>

locale sliding_window =
  fixes view :: "'s \<Rightarrow> 'a list"
    and inv :: "'s \<Rightarrow> bool"
    and ok :: "'x \<Rightarrow> bool"
    and push :: "'x \<Rightarrow> 's \<Rightarrow> 's"
    and val :: "'x \<Rightarrow> 'a"
    and cap :: nat
  assumes length_view: "inv s \<Longrightarrow> length (view s) = cap"
    and push_inv: "inv s \<Longrightarrow> ok x \<Longrightarrow> inv (push x s)"
    and push_view: "inv s \<Longrightarrow> ok x \<Longrightarrow> view (push x s) = tl (view s @ [val x])"
begin

lemma fold_inv: "inv s \<Longrightarrow> list_all ok xs \<Longrightarrow> inv (fold push xs s)"
  by (induction xs arbitrary: s) (simp_all add: push_inv)

text \<open>After any additions the window holds the end of everything that was ever in it.\<close>

lemma fold_view: "inv s \<Longrightarrow> list_all ok xs \<Longrightarrow> view (fold push xs s) = drop (length xs) (view s @ map val xs)"
proof (induction xs arbitrary: s)
  case Nil
  then show ?case by simp
next
  case (Cons x xs)
  then show ?case
    by (cases "view s") (simp_all add: push_inv push_view del: drop_append)
qed

text \<open>Once \<open>cap\<close> elements have been added, the initial contents no longer matter.\<close>

lemma fold_full:
  assumes "inv s" and "list_all ok xs" and "cap \<le> length xs"
  shows "view (fold push xs s) = map val (drop (length xs - cap) xs)"
  using assms by (simp add: fold_view length_view drop_map)

lemma newest:
  assumes "inv s" and "list_all ok xs" and "xs \<noteq> []" and "0 < cap"
  shows "last (view (fold push xs s)) = val (last xs)"
proof -
  have "length xs < length (view s @ map val xs)" using assms length_view [of s] by simp
  then have "last (drop (length xs) (view s @ map val xs)) = last (view s @ map val xs)" by (rule last_drop)
  then show ?thesis using assms by (simp add: fold_view last_map)
qed

end

text \<open>A circular buffer of \<open>n\<close> slots, read from the slot after the one written last.\<close>

definition ring_view :: "nat \<Rightarrow> 'a list \<Rightarrow> nat \<Rightarrow> 'a list" where
  "ring_view n xs cur = map (\<lambda>i. xs ! ((cur + 1 + i) mod n)) [0..<n]"

lemma length_ring_view [simp]: "length (ring_view n xs cur) = n"
  by (simp add: ring_view_def)

lemma ring_view_advance:
  assumes "length xs = n" and "0 < n" and "cur < n"
  shows "ring_view n (xs[(cur + 1) mod n := x]) ((cur + 1) mod n) = tl (ring_view n xs cur @ [x])"
proof (rule nth_equalityI)
  show "length (ring_view n (xs[(cur + 1) mod n := x]) ((cur + 1) mod n)) = length (tl (ring_view n xs cur @ [x]))"
    by simp
  fix i assume "i < length (ring_view n (xs[(cur + 1) mod n := x]) ((cur + 1) mod n))"
  then have i: "i < n" by simp
  have slot: "((cur + 1) mod n + 1 + i) mod n = (cur + 1 + Suc i) mod n"
    using mod_add_left_eq [of "cur + 1" n "Suc i"] by simp
  have l: "ring_view n (xs[(cur + 1) mod n := x]) ((cur + 1) mod n) ! i
      = xs[(cur + 1) mod n := x] ! ((cur + 1 + Suc i) mod n)"
    using i unfolding ring_view_def by (simp only: nth_map length_upt diff_zero nth_upt add_0 slot)
  show "ring_view n (xs[(cur + 1) mod n := x]) ((cur + 1) mod n) ! i = tl (ring_view n xs cur @ [x]) ! i"
  proof (cases "Suc i = n")
    case True
    then have "(cur + 1 + Suc i) mod n = (cur + 1) mod n" by (simp only: mod_add_self2)
    with True i assms show ?thesis
      unfolding l by (simp add: nth_tl nth_append)
  next
    case False
    with i have "Suc i < n" by simp
    have "(cur + 1 + Suc i) mod n \<noteq> (cur + 1) mod n"
    proof
      assume "(cur + 1 + Suc i) mod n = (cur + 1) mod n"
      then have "n dvd Suc i" using mod_eq_dvd_iff_nat [of "cur + 1" "cur + 1 + Suc i" n] by simp
      with \<open>Suc i < n\<close> show False by (simp add: nat_dvd_not_less)
    qed
    then have "xs[(cur + 1) mod n := x] ! ((cur + 1 + Suc i) mod n) = xs ! ((cur + 1 + Suc i) mod n)" by simp
    moreover have "i < n - 1" using \<open>Suc i < n\<close> by simp
    moreover have "ring_view n xs cur ! Suc i = xs ! ((cur + 1 + Suc i) mod n)"
      unfolding ring_view_def using \<open>Suc i < n\<close> by (simp only: nth_map length_upt diff_zero nth_upt add_0)
    ultimately show ?thesis
      using \<open>Suc i < n\<close> unfolding l by (simp add: nth_tl nth_append)
  qed
qed

end
