(* ===== verification/Host_Ring.thy ===== *)
theory Host_Ring
  imports Interface Sliding_Window
begin

text \<open>
  The ring buffer of the host library, \<^verbatim>\<open>host/libubertooth/src/ubertooth_ringbuffer.c\<close>: ten banks, each
  a packet as it arrived and its 400 symbols, one byte per bit. \<open>malloc\<close> returns memory with arbitrary
  contents, or nothing.
\<close>

abbreviation (input) PKT_LEN :: nat where "PKT_LEN \<equiv> 64"
abbreviation (input) SYM_LEN :: nat where "SYM_LEN \<equiv> 50"
abbreviation (input) SYM_OFFSET :: nat where "SYM_OFFSET \<equiv> 14"
abbreviation (input) PKTS_PER_XFER :: nat where "PKTS_PER_XFER \<equiv> 8"
abbreviation (input) NUM_BANKS :: nat where "NUM_BANKS \<equiv> 10"
abbreviation (input) XFER_LEN :: nat where "XFER_LEN \<equiv> 512"
abbreviation (input) BANK_LEN :: nat where "BANK_LEN \<equiv> 400"

record ringbuffer =
  current_bank :: u8
  rb_usb :: "usb_pkt_rx list"
  rb_bt :: "u8 list list"

definition host_unpack_symbols :: "u8 list \<Rightarrow> u8 list \<Rightarrow> u8 list" where
  "host_unpack_symbols buf unpacked =
     fold (\<lambda>i u. fold (\<lambda>j u. u[i * 8 + j := ucast (drop_bit 7 (push_bit j (ucast (buf ! i) :: u32) AND 0x80))]) [0..<8] u)
       [0..<SYM_LEN] unpacked"

definition ringbuffer_init :: "ringbuffer option \<Rightarrow> ringbuffer option" where
  "ringbuffer_init malloc = map_option (\<lambda>rb. rb\<lparr>current_bank := 0\<rparr>) malloc"

text \<open>The bank that index \<open>i\<close> stands for; the accessors return pointers into the banks, here the bank.\<close>

definition bank_index :: "ringbuffer \<Rightarrow> u8 \<Rightarrow> nat" where
  "bank_index rb index = (unat (current_bank rb) + 1 + unat index) mod NUM_BANKS"

definition ringbuffer_get_usb :: "ringbuffer \<Rightarrow> u8 \<Rightarrow> usb_pkt_rx" where
  "ringbuffer_get_usb rb index = rb_usb rb ! bank_index rb index"

definition ringbuffer_top_usb :: "ringbuffer \<Rightarrow> usb_pkt_rx" where
  "ringbuffer_top_usb rb = ringbuffer_get_usb rb (of_nat NUM_BANKS - 1)"

definition ringbuffer_bottom_usb :: "ringbuffer \<Rightarrow> usb_pkt_rx" where
  "ringbuffer_bottom_usb rb = ringbuffer_get_usb rb 0"

definition ringbuffer_get_bt :: "ringbuffer \<Rightarrow> u8 \<Rightarrow> u8 list" where
  "ringbuffer_get_bt rb index = rb_bt rb ! bank_index rb index"

definition ringbuffer_top_bt :: "ringbuffer \<Rightarrow> u8 list" where
  "ringbuffer_top_bt rb = ringbuffer_get_bt rb (of_nat NUM_BANKS - 1)"

definition ringbuffer_bottom_bt :: "ringbuffer \<Rightarrow> u8 list" where
  "ringbuffer_bottom_bt rb = ringbuffer_get_bt rb 0"

definition ringbuffer_add :: "usb_pkt_rx \<Rightarrow> ringbuffer \<Rightarrow> ringbuffer" where
  "ringbuffer_add rx rb =
     (let rb = rb\<lparr>current_bank := of_nat ((unat (current_bank rb) + 1) mod NUM_BANKS)\<rparr>;
          top = bank_index rb (of_nat NUM_BANKS - 1);
          rb = rb\<lparr>rb_usb := (rb_usb rb)[top := rx]\<rparr>
      in rb\<lparr>rb_bt := (rb_bt rb)[top := host_unpack_symbols (pkt_data (ringbuffer_top_usb rb)) (ringbuffer_top_bt rb)]\<rparr>)"

subsection \<open>Symbols\<close>

text \<open>The bits of a list of bytes in the order of the air, most significant bit first.\<close>

definition symbols :: "u8 list \<Rightarrow> u8 list" where
  "symbols bs = concat (map (\<lambda>b. map (\<lambda>j. if bit b (7 - j) then 1 else 0) [0..<8]) bs)"

lemma symbol_bit: "ucast (drop_bit 7 (push_bit j (ucast b :: u32) AND 0x80)) = (if j < 8 \<and> bit (b::u8) (7 - j) then 1 else 0 :: u8)"
proof -
  have b80: "bit (0x80 :: u32) k \<longleftrightarrow> k = 7" for k
    using bit_push_bit_iff [of 7 "1 :: u32" k] by (auto simp: bit_simps)
  show ?thesis
    by (rule bit_word_eqI) (auto simp: bit_simps b80 intro: gr0I)
qed

lemma length_symbols [simp]: "length (symbols bs) = 8 * length bs"
  by (simp add: symbols_def length_concat comp_def sum_list_triv)

lemma nth_symbols: "k < 8 * length bs \<Longrightarrow> symbols bs ! k = (if bit (bs ! (k div 8)) (7 - k mod 8) then 1 else 0)"
proof (induction bs arbitrary: k)
  case Nil
  then show ?case by simp
next
  case (Cons b bs)
  show ?case
  proof (cases "k < 8")
    case True
    then show ?thesis by (simp add: symbols_def nth_append)
  next
    case False
    then obtain m where m: "k = m + 8" by (metis add.commute le_Suc_ex linorder_not_less)
    moreover have "(m + 8) div 8 = Suc (m div 8)" by simp
    ultimately show ?thesis using Cons by (simp add: symbols_def nth_append)
  qed
qed

lemma length_unpack_inner [simp]: "length (fold (\<lambda>j u. u[f j := g j]) js u) = length u"
  by (induction js arbitrary: u) simp_all

lemma nth_unpack_inner:
  "k < length u \<Longrightarrow> fold (\<lambda>j u. u[i * 8 + j := g j]) [0..<n] u ! k
     = (if i * 8 \<le> k \<and> k < i * 8 + n then g (k - i * 8) else u ! k)"
  by (induction n arbitrary: u) (auto simp: nth_list_update less_Suc_eq)

lemma unpack_rows:
  assumes "8 * n \<le> length u"
  shows "length (fold (\<lambda>i u. fold (\<lambda>j u. u[i * 8 + j := g i j]) [0..<8] u) [0..<n] u) = length u
    \<and> (\<forall>k<length u. fold (\<lambda>i u. fold (\<lambda>j u. u[i * 8 + j := g i j]) [0..<8] u) [0..<n] u ! k
         = (if k < 8 * n then g (k div 8) (k mod 8) else u ! k))"
  using assms
proof (induction n)
  case 0
  then show ?case by simp
next
  case (Suc n)
  have "k div 8 = n \<and> k mod 8 = k - n * 8" if "n * 8 \<le> k" "k < n * 8 + 8" for k
    using that by (simp add: div_nat_eqI modulo_nat_def) presburger
  with Suc show ?case by (auto simp: nth_unpack_inner)
qed

text \<open>A bank holds exactly the symbols of its packet: nothing of what was in the memory is left.\<close>

lemma unpack_symbols_eq:
  assumes "length buf = SYM_LEN" and "length u = BANK_LEN"
  shows "host_unpack_symbols buf u = symbols buf"
proof (rule nth_equalityI)
  let ?g = "\<lambda>i j. ucast (drop_bit 7 (push_bit j (ucast (buf ! i) :: u32) AND 0x80)) :: u8"
  note rows = unpack_rows [of SYM_LEN u ?g, folded host_unpack_symbols_def]
  show "length (host_unpack_symbols buf u) = length (symbols buf)" using rows assms by simp
  fix k assume "k < length (host_unpack_symbols buf u)"
  then have "k < 400" using rows assms by simp
  then have "host_unpack_symbols buf u ! k = ?g (k div 8) (k mod 8)" using rows assms by simp
  with \<open>k < 400\<close> assms(1) show "host_unpack_symbols buf u ! k = symbols buf ! k"
    unfolding symbol_bit by (simp add: nth_symbols)
qed

subsection \<open>The ring buffer is a history of ten banks\<close>

definition rb_wf :: "ringbuffer \<Rightarrow> bool" where
  "rb_wf rb \<longleftrightarrow> unat (current_bank rb) < NUM_BANKS \<and> length (rb_usb rb) = NUM_BANKS
     \<and> length (rb_bt rb) = NUM_BANKS \<and> list_all (\<lambda>b. length b = BANK_LEN) (rb_bt rb)"

definition rb_packets :: "ringbuffer \<Rightarrow> usb_pkt_rx list" where
  "rb_packets rb = map (ringbuffer_get_usb rb \<circ> of_nat) [0..<NUM_BANKS]"

definition rb_symbols :: "ringbuffer \<Rightarrow> u8 list list" where
  "rb_symbols rb = map (ringbuffer_get_bt rb \<circ> of_nat) [0..<NUM_BANKS]"

lemma rb_views:
  "rb_packets rb = ring_view NUM_BANKS (rb_usb rb) (unat (current_bank rb))"
  "rb_symbols rb = ring_view NUM_BANKS (rb_bt rb) (unat (current_bank rb))"
  by (simp_all add: rb_packets_def rb_symbols_def ring_view_def ringbuffer_get_usb_def ringbuffer_get_bt_def
    bank_index_def unat_of_nat take_bit_nat_eq_self)

text \<open>An accessor never leaves the array, whatever its index.\<close>

lemma bank_index_less: "bank_index rb i < NUM_BANKS"
  by (simp add: bank_index_def)

lemma top_index: "unat (current_bank rb) < NUM_BANKS \<Longrightarrow> bank_index rb (of_nat NUM_BANKS - 1) = unat (current_bank rb)"
  by (simp add: bank_index_def)

definition add_packet :: "usb_pkt_rx \<Rightarrow> ringbuffer \<Rightarrow> ringbuffer" where
  "add_packet p rb =
     (let t = (unat (current_bank rb) + 1) mod NUM_BANKS
      in \<lparr>current_bank = of_nat t, rb_usb = (rb_usb rb)[t := p], rb_bt = (rb_bt rb)[t := symbols (pkt_data p)]\<rparr>)"

lemma ringbuffer_add_eq:
  assumes "rb_wf rb" and "pkt_wf p"
  shows "ringbuffer_add p rb = add_packet p rb"
proof -
  let ?t = "(unat (current_bank rb) + 1) mod NUM_BANKS"
  have t: "unat (of_nat ?t :: u8) = ?t" "?t < NUM_BANKS"
    by (simp_all add: unat_of_nat take_bit_nat_eq_self)
  have "length (rb_bt rb ! ?t) = BANK_LEN" using assms(1) t(2) by (simp add: rb_wf_def list_all_length)
  moreover have "length (pkt_data p) = SYM_LEN" using assms(2) by (simp add: pkt_wf_def)
  ultimately have "host_unpack_symbols (pkt_data p) (rb_bt rb ! ?t) = symbols (pkt_data p)" by (rule unpack_symbols_eq [rotated])
  then show ?thesis
    using assms(1) t unfolding ringbuffer_add_def add_packet_def Let_def
    by (simp add: ringbuffer_top_usb_def ringbuffer_top_bt_def ringbuffer_get_usb_def ringbuffer_get_bt_def
      bank_index_def rb_wf_def)
qed

lemma add_packet_wf: "rb_wf rb \<Longrightarrow> pkt_wf p \<Longrightarrow> rb_wf (add_packet p rb)"
  by (auto simp: rb_wf_def add_packet_def Let_def pkt_wf_def unat_of_nat take_bit_nat_eq_self list_all_length
    nth_list_update)

lemma add_packet_views:
  assumes "rb_wf rb"
  shows "rb_packets (add_packet p rb) = tl (rb_packets rb @ [p])"
    and "rb_symbols (add_packet p rb) = tl (rb_symbols rb @ [symbols (pkt_data p)])"
  using assms ring_view_advance [of "rb_usb rb" NUM_BANKS "unat (current_bank rb)" p]
    ring_view_advance [of "rb_bt rb" NUM_BANKS "unat (current_bank rb)" "symbols (pkt_data p)"]
  by (simp_all add: rb_views rb_wf_def add_packet_def Let_def unat_of_nat take_bit_nat_eq_self)

interpretation rb_usb: sliding_window rb_packets rb_wf pkt_wf ringbuffer_add id NUM_BANKS
  by unfold_locales
    (simp_all add: rb_views(1) ringbuffer_add_eq add_packet_wf add_packet_views(1) [unfolded rb_views(1)])

interpretation rb_bt: sliding_window rb_symbols rb_wf pkt_wf ringbuffer_add "symbols \<circ> pkt_data" NUM_BANKS
  by unfold_locales
    (simp_all add: rb_views(2) ringbuffer_add_eq add_packet_wf add_packet_views(2) [unfolded rb_views(2)])

text \<open>A freshly allocated buffer has the right shape, whatever it contains.\<close>

definition rb_shape :: "ringbuffer \<Rightarrow> bool" where
  "rb_shape rb \<longleftrightarrow> length (rb_usb rb) = NUM_BANKS \<and> length (rb_bt rb) = NUM_BANKS
     \<and> list_all (\<lambda>b. length b = BANK_LEN) (rb_bt rb)"

lemma ringbuffer_init_wf: "ringbuffer_init (Some m) = Some rb \<Longrightarrow> rb_shape m \<Longrightarrow> rb_wf rb"
  by (auto simp: ringbuffer_init_def rb_wf_def rb_shape_def)

lemma top_is_last:
  "ringbuffer_top_usb rb = last (rb_packets rb)" "ringbuffer_top_bt rb = last (rb_symbols rb)"
  by (simp_all add: ringbuffer_top_usb_def ringbuffer_top_bt_def rb_packets_def rb_symbols_def last_map)

lemma bottom_is_first:
  "ringbuffer_bottom_usb rb = hd (rb_packets rb)" "ringbuffer_bottom_bt rb = hd (rb_symbols rb)"
  by (simp_all add: ringbuffer_bottom_usb_def ringbuffer_bottom_bt_def rb_packets_def rb_symbols_def hd_map upt_conv_Cons)

text \<open>C23: The ring buffer of the host is the history of the last ten packets: after any sequence of at
  least ten packets, whatever the memory held before, index \<open>i\<close> is the packet that came \<open>9 - i\<close>
  packets before the newest, with exactly its 400 symbols, so the ten banks in order are the unbroken
  symbol stream of those packets.\<close>

theorem ringbuffer_history:
  assumes "ringbuffer_init (Some m) = Some rb" and "rb_shape m" and "list_all pkt_wf ps" and "NUM_BANKS \<le> length ps"
  shows "rb_packets (fold ringbuffer_add ps rb) = drop (length ps - NUM_BANKS) ps
     \<and> rb_symbols (fold ringbuffer_add ps rb) = map (symbols \<circ> pkt_data) (drop (length ps - NUM_BANKS) ps)
     \<and> concat (rb_symbols (fold ringbuffer_add ps rb)) = symbols (concat (map pkt_data (drop (length ps - NUM_BANKS) ps)))"
proof -
  have wf: "rb_wf rb" using ringbuffer_init_wf assms(1,2) .
  have "concat (map (symbols \<circ> pkt_data) qs) = symbols (concat (map pkt_data qs))" for qs
    by (induction qs) (simp_all add: symbols_def)
  then show ?thesis
    using rb_usb.fold_full [OF wf assms(3,4)] rb_bt.fold_full [OF wf assms(3,4)] by simp
qed

lemma ringbuffer_history_witness:
  "rb_packets (fold ringbuffer_add (replicate 10 pkt_zero)
      \<lparr>current_bank = 0, rb_usb = replicate 10 (pkt_zero\<lparr>pkt_type := 9\<rparr>), rb_bt = replicate 10 (replicate 400 7)\<rparr>)
   = replicate 10 pkt_zero"
proof -
  let ?m = "\<lparr>current_bank = 0, rb_usb = replicate 10 (pkt_zero\<lparr>pkt_type := 9\<rparr>), rb_bt = replicate 10 (replicate 400 7)\<rparr> :: ringbuffer"
  have "ringbuffer_init (Some ?m) = Some ?m" by (simp add: ringbuffer_init_def)
  moreover have "rb_shape ?m" by (simp add: rb_shape_def list_all_length)
  moreover have "list_all pkt_wf (replicate 10 pkt_zero)" by (simp add: list_all_length)
  ultimately show ?thesis
    using ringbuffer_history [of ?m ?m "replicate 10 pkt_zero"] by simp
qed

end
