(* ===== verification/Host_Receive.thy ===== *)
theory Host_Receive
  imports Host_Control Host_Ring Loops
begin

text \<open>
  The receive path of the host library, \<^verbatim>\<open>host/libubertooth/src/ubertooth.c\<close>: opening a device, the
  double buffer between libusb's bulk transfers and the packet loop, streams from a device and from
  a file, and the two dump callbacks. libusb, signals and the clock are parameters: each call of
  \<open>libusb_handle_events\<close> takes the next event, which may complete the pending transfer with some
  bytes. A callback is a function on the state of the library; \<open>None\<close> is an undefined access or a
  loop that does not end.
\<close>

subsection \<open>State\<close>

datatype usb_buf = Rx_buf1 | Rx_buf2

abbreviation (input) BUFFER_SIZE :: nat where "BUFFER_SIZE \<equiv> 102400"

text \<open>The device handle carries the device. A transfer has the buffer it fills and whether it is
  submitted.\<close>

record 'd ubertooth =
  ut_packets :: ringbuffer
  ut_devh :: "'d option"
  ut_rx_xfer :: "(usb_buf \<times> bool) option"
  ut_bufs :: "usb_buf \<Rightarrow> u8 list"
  ut_empty_usb_buf :: "usb_buf option"
  ut_full_usb_buf :: "usb_buf option"
  ut_usb_really_full :: bool
  ut_stop_ubertooth :: bool
  ut_abs_start_ns :: u64
  ut_start_clk100ns :: u32
  ut_last_clk100ns :: u64
  ut_clk100ns_upper :: u64
  ut_pcapng_bredr :: bool
  ut_pcapng_le :: bool
  ut_timeout_dev :: bool
  ut_systime :: u32
  ut_infile :: bool
  ut_dumpfile :: "u8 list option"
  ut_stdout :: "u8 list"
  ut_stderr :: "string list"
  ut_events :: nat
  ut_clock :: nat

type_synonym ('d, 'm) rx_callback = "('d, 'm) ubertooth_scheme \<Rightarrow> ('d, 'm) ubertooth_scheme option"

datatype xfer_status =
    XFER_COMPLETED | XFER_ERROR | XFER_TIMED_OUT | XFER_CANCELLED | XFER_STALL | XFER_NO_DEVICE | XFER_OVERFLOW

text \<open>One call of \<open>libusb_handle_events\<close>: whether the alarm went off before it, its result, the
  status and data of a transfer that completes in it, and the result of submitting that again.\<close>

record bulk_event =
  be_alarm :: bool
  be_result :: int
  be_done :: "(xfer_status \<times> u8 list) option"
  be_submit :: int

definition err_line :: "string \<Rightarrow> ('d, 'm) ubertooth_scheme \<Rightarrow> ('d, 'm) ubertooth_scheme" where
  "err_line l ut = ut\<lparr>ut_stderr := ut_stderr ut @ [l]\<rparr>"

subsection \<open>Signals\<close>

definition stop_transfers :: "('d, 'm) ubertooth_scheme \<Rightarrow> ('d, 'm) ubertooth_scheme" where
  "stop_transfers ut = (if ut_timeout_dev ut then ut\<lparr>ut_stop_ubertooth := True\<rparr> else ut)"

definition ubertooth_set_timeout :: "('d, 'm) ubertooth_scheme \<Rightarrow> ('d, 'm) ubertooth_scheme" where
  "ubertooth_set_timeout ut = ut\<lparr>ut_timeout_dev := True\<rparr>"

subsection \<open>Bulk transfers\<close>

definition rx_xfer_status :: "xfer_status \<Rightarrow> string" where
  "rx_xfer_status st = ''rx_xfer status: '' @ (case st of
      XFER_ERROR \<Rightarrow> ''Transfer error. (1)''
    | XFER_TIMED_OUT \<Rightarrow> ''Transfer timed out. (2)''
    | XFER_CANCELLED \<Rightarrow> ''Transfer cancelled. (3)''
    | XFER_STALL \<Rightarrow> ''Halt condition detected, or control request not supported. (4)''
    | XFER_NO_DEVICE \<Rightarrow> ''Device disconnected. (5)''
    | XFER_OVERFLOW \<Rightarrow> ''Device sent more data than requested. (6)''
    | XFER_COMPLETED \<Rightarrow> '' (0)'')"

definition submit_failed :: "int \<Rightarrow> string" where
  "submit_failed r = ''Failed to submit USB transfer ('' @ dec r @ '')''"

text \<open>\<open>libusb_submit_transfer(ut->rx_xfer)\<close> with its result \<open>r\<close>.\<close>

definition submit_xfer :: "int \<Rightarrow> ('d, 'm) ubertooth_scheme \<Rightarrow> ('d, 'm) ubertooth_scheme" where
  "submit_xfer r ut =
     (let ut = ut\<lparr>ut_rx_xfer := map_option (\<lambda>(b, _). (b, 0 \<le> r)) (ut_rx_xfer ut)\<rparr>
      in if r < 0 then err_line (submit_failed r) ut else ut)"

definition cb_xfer :: "xfer_status \<Rightarrow> int \<Rightarrow> ('d, 'm) ubertooth_scheme \<Rightarrow> ('d, 'm) ubertooth_scheme" where
  "cb_xfer st submit ut =
     (if st \<noteq> XFER_COMPLETED then
        (if st = XFER_TIMED_OUT then submit_xfer submit ut
         else (if st \<noteq> XFER_CANCELLED then err_line (rx_xfer_status st) ut else ut)\<lparr>ut_rx_xfer := None\<rparr>)
      else
        (let ut = (if ut_usb_really_full ut
                   then (err_line ''uh oh, full_usb_buf not emptied'' ut)\<lparr>ut_stop_ubertooth := True\<rparr> else ut)
         in if ut_stop_ubertooth ut then ut
            else submit_xfer submit
              (ut\<lparr>ut_full_usb_buf := ut_empty_usb_buf ut, ut_empty_usb_buf := ut_full_usb_buf ut,
                  ut_usb_really_full := True,
                  ut_rx_xfer := (case (ut_full_usb_buf ut, ut_rx_xfer ut) of
                      (Some b, Some (_, s)) \<Rightarrow> Some (b, s) | _ \<Rightarrow> None)\<rparr>)))"

text \<open>A completed transfer has written its bytes, at most \<open>XFER_LEN\<close>, to the start of its buffer; it
  is no longer submitted when the callback runs.\<close>

definition take_event :: "bulk_event \<Rightarrow> ('d, 'm) ubertooth_scheme \<Rightarrow> ('d, 'm) ubertooth_scheme" where
  "take_event e ut =
     (let ut = ut\<lparr>ut_events := Suc (ut_events ut)\<rparr>
      in if be_alarm e then stop_transfers ut else ut)"

definition fill_buf :: "usb_buf \<Rightarrow> u8 list \<Rightarrow> ('d, 'm) ubertooth_scheme \<Rightarrow> ('d, 'm) ubertooth_scheme" where
  "fill_buf b bs ut =
     ut\<lparr>ut_bufs := (ut_bufs ut)(b := put_at 0 (take XFER_LEN bs) (ut_bufs ut b)),
        ut_rx_xfer := Some (b, False)\<rparr>"

definition libusb_handle_events ::
  "(nat \<Rightarrow> bulk_event) \<Rightarrow> ('d, 'm) ubertooth_scheme \<Rightarrow> int \<times> ('d, 'm) ubertooth_scheme"
where
  "libusb_handle_events lu ut =
     (let e = lu (ut_events ut);
          ut = take_event e ut
      in (be_result e,
          case (be_done e, ut_rx_xfer ut) of
            (Some (st, bs), Some (b, True)) \<Rightarrow> cb_xfer st (be_submit e) (fill_buf b bs ut)
          | _ \<Rightarrow> ut))"

text \<open>The two buffers are arrays of this function with arbitrary contents \<open>g\<close>; the pointers to them
  are kept after it has returned.\<close>

definition ubertooth_bulk_init ::
  "(usb_buf \<Rightarrow> u8 list) \<Rightarrow> int \<Rightarrow> ('d, 'm) ubertooth_scheme \<Rightarrow> int \<times> ('d, 'm) ubertooth_scheme"
where
  "ubertooth_bulk_init g r ut =
     (let ut = ut\<lparr>ut_bufs := g, ut_empty_usb_buf := Some Rx_buf1, ut_full_usb_buf := Some Rx_buf2,
                  ut_usb_really_full := False, ut_rx_xfer := Some (Rx_buf1, 0 \<le> r)\<rparr>
      in if r < 0 then (-1, err_line (''rx_xfer submission: '' @ dec r) ut) else (0, ut))"

definition ubertooth_bulk_wait :: "(nat \<Rightarrow> bulk_event) \<Rightarrow> ('d, 'm) rx_callback" where
  "ubertooth_bulk_wait lu =
     loop_opt (\<lambda>ut.
       if ut_usb_really_full ut then Some (Leave ut)
       else (let (r, ut) = libusb_handle_events lu ut
             in Some (if r < 0 then if r = LIBUSB_ERROR_INTERRUPTED then Leave ut
                                    else Again (err_line (show_libusb_error r) ut)
                      else Again ut)))"

text \<open>\<open>full_usb_buf + PKT_LEN * i\<close>, as a packet.\<close>

definition rx_block :: "u8 list \<Rightarrow> nat \<Rightarrow> usb_pkt_rx" where
  "rx_block buf i = pkt_of_bytes (take PKT_LEN (drop (PKT_LEN * i) buf))"

definition deliver :: "('d, 'm) rx_callback \<Rightarrow> usb_pkt_rx \<Rightarrow> ('d, 'm) rx_callback" where
  "deliver cb rx ut = cb (ut\<lparr>ut_packets := ringbuffer_add rx (ut_packets ut)\<rparr>)"

text \<open>The loop over the received blocks; the result says whether it was left because of a stop. The
  cancellation it asks for takes effect in a later event.\<close>

fun receive_blocks ::
  "('d, 'm) rx_callback \<Rightarrow> nat list \<Rightarrow> ('d, 'm) ubertooth_scheme \<Rightarrow> (bool \<times> ('d, 'm) ubertooth_scheme) option"
where
  "receive_blocks cb [] ut = Some (False, ut)"
| "receive_blocks cb (i # is) ut =
     (case ut_full_usb_buf ut of
        None \<Rightarrow> None
      | Some b \<Rightarrow>
          (let rx = rx_block (ut_bufs ut b) i
           in case (if pkt_type rx \<noteq> pkt_type_code KEEP_ALIVE then deliver cb rx ut else Some ut) of
                None \<Rightarrow> None
              | Some ut \<Rightarrow> if ut_stop_ubertooth ut then Some (True, ut) else receive_blocks cb is ut))"

text \<open>The first half of \<open>ubertooth_bulk_receive\<close>: without a full buffer it handles events once.\<close>

definition receive_poll :: "(nat \<Rightarrow> bulk_event) \<Rightarrow> ('d, 'm) ubertooth_scheme \<Rightarrow> ('d, 'm) ubertooth_scheme" where
  "receive_poll lu ut =
     (if ut_usb_really_full ut then ut
      else (let (r, ut) = libusb_handle_events lu ut
            in if r < 0 \<and> r \<noteq> LIBUSB_ERROR_INTERRUPTED then err_line (show_libusb_error r) ut else ut))"

definition ubertooth_bulk_receive ::
  "(nat \<Rightarrow> bulk_event) \<Rightarrow> ('d, 'm) rx_callback \<Rightarrow> ('d, 'm) ubertooth_scheme \<Rightarrow> (int \<times> ('d, 'm) ubertooth_scheme) option"
where
  "ubertooth_bulk_receive lu cb ut =
     (let ut = receive_poll lu ut
      in if ut_usb_really_full ut
         then map_option (\<lambda>(stop, ut). if stop then (1, ut) else (0, ut\<lparr>ut_usb_really_full := False\<rparr>))
                (receive_blocks cb [0..<PKTS_PER_XFER] ut)
         else Some (-1, ut))"

subsection \<open>Streams\<close>

text \<open>A command on the device; without a device the handle is null.\<close>

definition on_device ::
  "('d \<Rightarrow> 'd outcome) \<Rightarrow> ('d, 'm) ubertooth_scheme \<Rightarrow> (int \<times> ('d, 'm) ubertooth_scheme) option"
where
  "on_device cmd ut =
     (case ut_devh ut of
        None \<Rightarrow> None
      | Some d \<Rightarrow> map_option (\<lambda>(r, out, d). (r, ut\<lparr>ut_devh := Some d, ut_stderr := ut_stderr ut @ out\<rparr>)) (cmd d))"

text \<open>One round of the loop of \<open>stream_rx_usb\<close>, and the loop.\<close>

definition receive_round ::
  "(nat \<Rightarrow> bulk_event) \<Rightarrow> ('d, 'm) rx_callback \<Rightarrow> ('d, 'm) ubertooth_scheme \<Rightarrow> ('d, 'm) ubertooth_scheme step option"
where
  "receive_round lu cb ut = do {
     ut \<leftarrow> ubertooth_bulk_wait lu ut;
     (r, ut) \<leftarrow> ubertooth_bulk_receive lu cb ut;
     Some (if r = 1 then Leave ut else Again ut) }"

definition receive_loop ::
  "(nat \<Rightarrow> bulk_event) \<Rightarrow> ('d, 'm) rx_callback \<Rightarrow> ('d, 'm) rx_callback"
where
  "receive_loop lu cb = loop_opt (receive_round lu cb)"

definition stream_rx_usb ::
  "'d libusb \<Rightarrow> (nat \<Rightarrow> bulk_event) \<Rightarrow> (usb_buf \<Rightarrow> u8 list) \<Rightarrow> int \<Rightarrow> ('d, 'm) rx_callback
     \<Rightarrow> ('d, 'm) ubertooth_scheme \<Rightarrow> (int \<times> ('d, 'm) ubertooth_scheme) option"
where
  "stream_rx_usb u lu g submit cb ut =
     (let (r, ut) = ubertooth_bulk_init g submit ut
      in if r < 0 then Some (r, ut)
         else do {
           (r, ut) \<leftarrow> on_device (cmd_rx_syms u) ut;
           if r < 0 then Some (r, ut) else map_option (Pair 1) (receive_loop lu cb ut) })"

text \<open>A file is what is left of it to read; a record is a big-endian time and a packet.\<close>

function stream_rx_file :: "('d, 'm) rx_callback \<Rightarrow> u8 list \<Rightarrow> ('d, 'm) rx_callback" where
  "stream_rx_file cb fp ut =
     (if length fp < 4 then Some ut
      else
        (let ut = ut\<lparr>ut_systime := from_le (rev (take 4 fp))\<rparr>
         in if length fp < 4 + PKT_LEN then Some ut
            else (case deliver cb (pkt_of_bytes (take PKT_LEN (drop 4 fp))) ut of
                    None \<Rightarrow> None
                  | Some ut \<Rightarrow> stream_rx_file cb (drop (4 + PKT_LEN) fp) ut)))"
  by pat_completeness auto

termination stream_rx_file
  by (relation "measure (\<lambda>(_, fp, _). length fp)") auto

declare stream_rx_file.simps [simp del]

subsection \<open>Dumping\<close>

text \<open>\<open>fwrite\<close> to the dump file if there is one, otherwise to the standard output.\<close>

definition dump_write :: "u8 list \<Rightarrow> ('d, 'm) ubertooth_scheme \<Rightarrow> ('d, 'm) ubertooth_scheme" where
  "dump_write bs ut =
     (case ut_dumpfile ut of
        None \<Rightarrow> ut\<lparr>ut_stdout := ut_stdout ut @ bs\<rparr>
      | Some f \<Rightarrow> ut\<lparr>ut_dumpfile := Some (f @ bs)\<rparr>)"

definition timestamp_line :: "('d, 'm) ubertooth_scheme \<Rightarrow> ('d, 'm) ubertooth_scheme" where
  "timestamp_line ut = err_line (''rx block timestamp ''
     @ dec_nat (unat (pkt_clk100ns (ringbuffer_top_usb (ut_packets ut)))) @ '' * 100 nanoseconds'') ut"

definition cb_dump_bitstream :: "('d, 'm) rx_callback" where
  "cb_dump_bitstream ut =
     Some (dump_write (map (\<lambda>b. b + 0x30) (take BANK_LEN (ringbuffer_top_bt (ut_packets ut))) @ [10])
       (timestamp_line ut))"

text \<open>\<open>time\<close> is the clock of the host, by the number of times it has been read.\<close>

definition cb_dump_full :: "(nat \<Rightarrow> u32) \<Rightarrow> ('d, 'm) rx_callback" where
  "cb_dump_full time ut =
     (let ut = timestamp_line ut;
          time_be = rev (le_bytes 4 (time (ut_clock ut)));
          ut = ut\<lparr>ut_clock := Suc (ut_clock ut)\<rparr>
      in Some (dump_write (time_be @ pkt_bytes (ringbuffer_top_usb (ut_packets ut))) ut))"

definition rx_dump ::
  "'d libusb \<Rightarrow> (nat \<Rightarrow> bulk_event) \<Rightarrow> (usb_buf \<Rightarrow> u8 list) \<Rightarrow> int \<Rightarrow> (nat \<Rightarrow> u32) \<Rightarrow> bool
     \<Rightarrow> ('d, 'm) ubertooth_scheme \<Rightarrow> (int \<times> ('d, 'm) ubertooth_scheme) option"
where
  "rx_dump u lu g submit time bitstream ut =
     (if bitstream then stream_rx_usb u lu g submit cb_dump_bitstream ut
      else stream_rx_usb u lu g submit (cb_dump_full time) ut)"

end
