(* ===== verification/Host_Callback.thy ===== *)
theory Host_Callback
  imports Host_Receive
begin

text \<open>
  The packet callbacks of the host library, \<^verbatim>\<open>host/libubertooth/src/ubertooth_callback.c\<close>. libbtbb, which
  finds and decodes Bluetooth packets, is the record \<open>btbb\<close>; its packets and piconets are of any
  type. A pointer into an array that is handed to it is the rest of that array. Printed lines are
  values of \<open>report\<close>. \<open>time\<close> and \<open>now\<close> are the clocks of the host. \<open>char\<close> is signed, as on the hosts the
  library is built for. The code under \<^verbatim>\<open>ENABLE_PCAP\<close> is left out.
\<close>

subsection \<open>The library libbtbb\<close>

datatype piconet_flag = BTBB_LAP_VALID | BTBB_UAP_VALID | BTBB_CLK27_VALID

record ('p, 'n, 'l) btbb =
  bb_LAP_ANY :: u32
  bb_UAP_ANY :: u8
  bb_init :: "int \<Rightarrow> int"
  bb_find_ac :: "u8 list \<Rightarrow> int \<Rightarrow> u32 \<Rightarrow> int \<Rightarrow> int \<times> 'p option"
  bb_set_modulation :: "'p \<Rightarrow> 'p"
  bb_set_transport :: "'p \<Rightarrow> 'p"
  bb_set_data :: "u8 list \<Rightarrow> int \<Rightarrow> u8 \<Rightarrow> u32 \<Rightarrow> 'p \<Rightarrow> 'p"
  bb_process_packet :: "'p \<Rightarrow> 'n option \<Rightarrow> int \<times> 'p \<times> 'n option"
  bb_get_flag :: "piconet_flag \<Rightarrow> 'n \<Rightarrow> bool"
  bb_get_lap :: "'n \<Rightarrow> u32"
  bb_get_uap :: "'n \<Rightarrow> u8"
  bb_get_clk_offset :: "'n \<Rightarrow> u32"
  bb_get_bdaddr :: "'n \<Rightarrow> u64"
  bb_set_channel_seen :: "u8 \<Rightarrow> 'n \<Rightarrow> bool \<times> 'n"
  bb_clear_channel_seen :: "u8 \<Rightarrow> 'n \<Rightarrow> bool \<times> 'n"
  bb_get_channel_seen :: "u8 \<Rightarrow> 'n \<Rightarrow> bool"
  bb_get_afh_map :: "'n \<Rightarrow> u8 list"
  ll_decode :: "u8 list \<Rightarrow> u16 \<Rightarrow> u32 \<Rightarrow> 'l"
  ll_offenses :: "'l \<Rightarrow> u32"
  ll_is_data :: "'l \<Rightarrow> bool"
  ll_access_address :: "'l \<Rightarrow> u32"

subsection \<open>State\<close>

abbreviation (input) NUM_BREDR_CHANNELS :: nat where "NUM_BREDR_CHANNELS \<equiv> 79"
abbreviation (input) RSSI_HISTORY_LEN :: nat where "RSSI_HISTORY_LEN \<equiv> NUM_BANKS"
abbreviation (input) CLK_TUNE_TIME :: int where "CLK_TUNE_TIME \<equiv> 2250"
abbreviation (input) ROLLOVER :: u32 where "ROLLOVER \<equiv> 3276800000"
abbreviation (input) max_ac_errors :: int where "max_ac_errors \<equiv> 2"

text \<open>What the callbacks print.\<close>

datatype ('p, 'l) report =
    Promisc_access_address u32 | Promisc_crc_init u32 | Promisc_hop_interval u16
  | Promisc_hop_increment u8 | Promisc_unknown u8
  | Btle_line u32 int u32 u32 int "u8 list" 'l
  | Ego_line u32 u32 int "u8 list"
  | Br_line u32 'p u32 int int int
  | Rx_line u32 'p u32 u16 int int int
  | Trim_line int
  | Afh_activating int | Afh_used u8 | Afh_unused nat | Afh_map "u8 list" | Afh_bits u32 "bool list"

text \<open>The static variables of the file, the argument of the callbacks and their output. \<open>cb_last_seen\<close>
  and \<open>cb_counter\<close> are those of \<open>cb_afh_monitor\<close>, the ones with \<open>_r\<close> those of \<open>cb_afh_r\<close>.\<close>

record ('d, 'p, 'n, 'l) rx_state = "'d ubertooth" +
  cb_rssi_history :: "int list list"
  cb_calibrated :: bool
  cb_btle_prev_ts :: u32
  cb_ego_prev_ts :: u32
  cb_packet_counter_max :: u32
  cb_last_seen :: "u64 list"
  cb_counter :: u64
  cb_last_seen_r :: "u64 list"
  cb_counter_r :: u64
  cb_pn :: "'n option"
  cb_pcap_bredr :: "(u64 \<times> int \<times> int \<times> u32 \<times> u8 \<times> 'p) list"
  cb_pcap_le :: "(u64 \<times> int \<times> int \<times> u32 \<times> 'l) list"
  cb_lines :: "('p, 'l) report list"

text \<open>The initialiser gives the first entry of the first channel only; the rest is zero.\<close>

definition rssi_history_initial :: "int list list" where
  "rssi_history_initial = ((-128) # replicate (RSSI_HISTORY_LEN - 1) 0)
     # replicate (NUM_BREDR_CHANNELS - 1) (replicate RSSI_HISTORY_LEN 0)"

definition print_line :: "('p, 'l) report \<Rightarrow> ('d, 'p, 'n, 'l) rx_state \<Rightarrow> ('d, 'p, 'n, 'l) rx_state" where
  "print_line l ut = ut\<lparr>cb_lines := cb_lines ut @ [l]\<rparr>"

subsection \<open>Signal strength\<close>

definition cc2400_rssi_to_dbm :: "int \<Rightarrow> int" where
  "cc2400_rssi_to_dbm rssi =
     (if rssi < -48 then -120
      else if rssi \<le> -45 then s8 (6 * (rssi + 28))
      else if rssi \<le> 30 then s8 ((99 * (rssi - 62)) sdiv 110)
      else if rssi \<le> 35 then s8 ((60 * (rssi - 35)) sdiv 11)
      else 0)"

definition push_rssi :: "usb_pkt_rx \<Rightarrow> int list \<Rightarrow> int list" where
  "push_rssi rx h = drop 1 h @ [sint (pkt_rssi_max rx)]"

definition determine_signal_and_noise ::
  "usb_pkt_rx \<Rightarrow> ('d, 'p, 'n, 'l) rx_state \<Rightarrow> (int \<times> int \<times> ('d, 'p, 'n, 'l) rx_state) option"
where
  "determine_signal_and_noise rx ut =
     (let c = unat (pkt_channel rx)
      in if NUM_BREDR_CHANNELS \<le> c then None
         else
           (let h = push_rssi rx (cb_rssi_history ut ! c);
                rssi = fold max (drop 1 h) (h ! 0)
            in Some (cc2400_rssi_to_dbm rssi, cc2400_rssi_to_dbm (sint (pkt_rssi_avg rx)),
                     ut\<lparr>cb_rssi_history := (cb_rssi_history ut)[c := h]\<rparr>)))"

subsection \<open>Time\<close>

definition track_clk100ns :: "(nat \<Rightarrow> u64) \<Rightarrow> usb_pkt_rx \<Rightarrow> ('d, 'm) ubertooth_scheme \<Rightarrow> ('d, 'm) ubertooth_scheme" where
  "track_clk100ns now rx ut =
     (let ut = (if ut_start_clk100ns ut = 0
                then ut\<lparr>ut_start_clk100ns := pkt_clk100ns rx, ut_last_clk100ns := ucast (pkt_clk100ns rx),
                        ut_abs_start_ns := now (ut_clock ut), ut_clock := Suc (ut_clock ut)\<rparr>
                else ut);
          ut = (if ucast (pkt_clk100ns rx) < ut_last_clk100ns ut
                then ut\<lparr>ut_clk100ns_upper := ut_clk100ns_upper ut + 1\<rparr> else ut)
      in ut\<lparr>ut_last_clk100ns := ucast (pkt_clk100ns rx)\<rparr>)"

definition now_ns_from_clk100ns ::
  "(nat \<Rightarrow> u64) \<Rightarrow> usb_pkt_rx \<Rightarrow> ('d, 'm) ubertooth_scheme \<Rightarrow> u64 \<times> ('d, 'm) ubertooth_scheme"
where
  "now_ns_from_clk100ns now rx ut =
     (let ut = track_clk100ns now rx ut
      in (ut_abs_start_ns ut + 100 * ucast ((pkt_clk100ns rx - ut_start_clk100ns ut) AND 0xffffffff)
            + push_bit 32 (100 * ut_clk100ns_upper ut), ut))"

text \<open>\<open>if (infile == NULL) systime = time(NULL)\<close>, and the record written to a dump file.\<close>

definition take_time :: "(nat \<Rightarrow> u32) \<Rightarrow> ('d, 'm) ubertooth_scheme \<Rightarrow> ('d, 'm) ubertooth_scheme" where
  "take_time time ut =
     (if ut_infile ut then ut else ut\<lparr>ut_systime := time (ut_clock ut), ut_clock := Suc (ut_clock ut)\<rparr>)"

definition dump_packet :: "usb_pkt_rx \<Rightarrow> ('d, 'm) ubertooth_scheme \<Rightarrow> ('d, 'm) ubertooth_scheme" where
  "dump_packet rx ut =
     (if ut_dumpfile ut = None then ut
      else dump_write (rev (le_bytes 4 (ut_systime ut)) @ pkt_bytes rx) ut)"

text \<open>Some of the time since the last packet; \<open>prev\<close> is the static variable \<open>prev_ts\<close>.\<close>

definition ts_difference :: "u32 \<Rightarrow> u32 \<Rightarrow> u32" where
  "ts_difference prev rx_ts = (if rx_ts < prev then rx_ts + ROLLOVER else rx_ts) - prev"

subsection \<open>Classic Bluetooth\<close>

text \<open>The symbols from the newest bank on to the end of the array of banks.\<close>

definition top_symbols :: "ringbuffer \<Rightarrow> u8 list" where
  "top_symbols rb = drop (bank_index rb (of_nat NUM_BANKS - 1) * BANK_LEN) (concat (rb_bt rb))"

definition search_lap :: "('p, 'n, 'l) btbb \<Rightarrow> 'n option \<Rightarrow> u32" where
  "search_lap bb pn = (case pn of Some n \<Rightarrow> if bb_get_flag bb BTBB_LAP_VALID n then bb_get_lap bb n else bb_LAP_ANY bb
                                | None \<Rightarrow> bb_LAP_ANY bb)"

definition search_uap :: "('p, 'n, 'l) btbb \<Rightarrow> 'n option \<Rightarrow> u8" where
  "search_uap bb pn = (case pn of Some n \<Rightarrow> if bb_get_flag bb BTBB_UAP_VALID n then bb_get_uap bb n else bb_UAP_ANY bb
                                | None \<Rightarrow> bb_UAP_ANY bb)"

text \<open>\<open>btbb_pcapng_append_packet\<close> on an open file.\<close>

definition append_bredr ::
  "u64 \<Rightarrow> int \<Rightarrow> int \<Rightarrow> u32 \<Rightarrow> u8 \<Rightarrow> 'p \<Rightarrow> ('d, 'p, 'n, 'l) rx_state \<Rightarrow> ('d, 'p, 'n, 'l) rx_state"
where
  "append_bredr ns sig noise lap uap pkt ut =
     (if ut_pcapng_bredr ut then ut\<lparr>cb_pcap_bredr := cb_pcap_bredr ut @ [(ns, sig, noise, lap, uap, pkt)]\<rparr> else ut)"

definition cb_br_rx ::
  "('p, 'n, 'l) btbb \<Rightarrow> (nat \<Rightarrow> u32) \<Rightarrow> (nat \<Rightarrow> u64) \<Rightarrow> ('d, 'p, 'n, 'l) rx_state \<Rightarrow> ('d, 'p, 'n, 'l) rx_state option"
where
  "cb_br_rx bb time now ut =
     (let rx = ringbuffer_top_usb (ut_packets ut)
      in if unat (pkt_channel rx) > NUM_BREDR_CHANNELS - 1 then Some ut
         else
           let (nowns, ut) = now_ns_from_clk100ns now rx ut
           in do {
             (signal_level, noise_level, ut) \<leftarrow> determine_signal_and_noise rx ut;
             let snr = s8 (signal_level - noise_level);
             let lap = search_lap bb (cb_pn ut);
             let uap = search_uap bb (cb_pn ut);
             let syms = top_symbols (ut_packets ut);
             (case bb_find_ac bb syms (int BANK_LEN - 64) lap max_ac_errors of
                (offset, found) \<Rightarrow>
                  if offset < 0 then Some ut
                  else (case found of
                    None \<Rightarrow> None
                  | Some pkt \<Rightarrow>
                      let pkt = bb_set_transport bb (bb_set_modulation bb pkt);
                          clkn = push_bit 20 (ucast (pkt_clkn_high rx))
                                 + (pkt_clk100ns rx + of_int (offset * 10)) div 3125;
                          pkt = bb_set_data bb (drop (nat offset) syms) (int NUM_BANKS * int BANK_LEN - offset)
                                  (pkt_channel rx) clkn pkt;
                          ut = take_time time ut;
                          ut = dump_packet (ringbuffer_top_usb (ut_packets ut)) ut;
                          ut = print_line (Br_line (ut_systime ut) pkt (pkt_clk100ns rx) signal_level noise_level snr) ut;
                          ut = append_bredr nowns signal_level noise_level lap uap pkt ut;
                          (r, pkt, pn) = bb_process_packet bb pkt (cb_pn ut);
                          ut = ut\<lparr>cb_pn := pn\<rparr>
                      in Some (if r < 0 then ut\<lparr>ut_stop_ubertooth := True\<rparr> else ut))) })"

text \<open>The trim that moves the first bit of an access code to \<open>CLK_TUNE_TIME\<close> after the edge of the clock.\<close>

definition clk_offset_of :: "usb_pkt_rx \<Rightarrow> int \<Rightarrow> u16" where
  "clk_offset_of rx offset = ucast ((pkt_clk100ns rx + of_int (offset * 10) + 6250 - 4000) mod 6250)"

definition clk_trim :: "u16 \<Rightarrow> int option" where
  "clk_trim clk_offset =
     (if int (unat clk_offset) < CLK_TUNE_TIME then Some (6250 + int (unat clk_offset) - CLK_TUNE_TIME)
      else if int (unat clk_offset) > CLK_TUNE_TIME then Some (int (unat clk_offset) - CLK_TUNE_TIME)
      else None)"

definition calibrate :: "'d libusb \<Rightarrow> u16 \<Rightarrow> ('d, 'p, 'n, 'l) rx_state \<Rightarrow> ('d, 'p, 'n, 'l) rx_state option" where
  "calibrate u clk_offset ut = do {
     ut \<leftarrow> (case clk_trim clk_offset of
              None \<Rightarrow> Some ut
            | Some t \<Rightarrow> map_option snd (on_device (cmd_trim_clock u (of_int t)) (print_line (Trim_line t) ut)));
     Some (ut\<lparr>cb_calibrated := True\<rparr>) }"

definition all_symbols :: "ringbuffer \<Rightarrow> u8 list" where
  "all_symbols rb = concat (map (\<lambda>i. take BANK_LEN (ringbuffer_get_bt rb (of_nat i))) [0..<NUM_BANKS])"

text \<open>What \<open>cb_rx\<close> does with a packet found at \<open>offset\<close>.\<close>

definition rx_found ::
  "('p, 'n, 'l) btbb \<Rightarrow> 'd libusb \<Rightarrow> (nat \<Rightarrow> u32) \<Rightarrow> usb_pkt_rx \<Rightarrow> u64 \<Rightarrow> int \<Rightarrow> int \<Rightarrow> int \<Rightarrow> 'p
     \<Rightarrow> ('d, 'p, 'n, 'l) rx_state \<Rightarrow> ('d, 'p, 'n, 'l) rx_state option"
where
  "rx_found bb u time rx nowns signal_level noise_level offset pkt ut =
     (let snr = s8 (signal_level - noise_level);
          lap = search_lap bb (cb_pn ut);
          uap = search_uap bb (cb_pn ut);
          clk_offset = clk_offset_of rx offset;
          pkt = bb_set_transport bb (bb_set_modulation bb pkt);
          clkn = push_bit 20 (ucast (pkt_clkn_high rx)) + (pkt_clk100ns rx + of_int (offset * 10) - 4000) div 3125;
          pkt = bb_set_data bb (drop (nat offset) (all_symbols (ut_packets ut)))
                  (int NUM_BANKS * int BANK_LEN - offset) (pkt_channel rx) clkn pkt;
          ut = take_time time ut;
          ut = print_line (Rx_line (time (ut_clock ut)) pkt clkn clk_offset signal_level noise_level snr)
                 (ut\<lparr>ut_clock := Suc (ut_clock ut)\<rparr>)
      in if \<not> ut_infile ut \<and> \<not> cb_calibrated ut then calibrate u clk_offset ut
         else
           (let ut = append_bredr nowns signal_level noise_level lap uap pkt (dump_packet rx ut);
                (r, pkt, pn) = bb_process_packet bb pkt (cb_pn ut);
                ut = ut\<lparr>cb_pn := pn\<rparr>
            in if \<not> ut_infile ut \<and> r < 0
               then (case pn of
                       None \<Rightarrow> None
                     | Some n \<Rightarrow> map_option snd (on_device (cmd_start_hopping u (bb_get_clk_offset bb n) 0) ut))
               else Some ut))"

definition cb_rx ::
  "('p, 'n, 'l) btbb \<Rightarrow> 'd libusb \<Rightarrow> (nat \<Rightarrow> u32) \<Rightarrow> (nat \<Rightarrow> u64)
     \<Rightarrow> ('d, 'p, 'n, 'l) rx_state \<Rightarrow> ('d, 'p, 'n, 'l) rx_state option"
where
  "cb_rx bb u time now ut =
     (let rx = ringbuffer_bottom_usb (ut_packets ut)
      in if bit (pkt_status rx) 5 then Some ut
         else if unat (pkt_channel rx) > NUM_BREDR_CHANNELS - 1 then Some ut
         else
           let (nowns, ut) = now_ns_from_clk100ns now rx ut
           in do {
             (signal_level, noise_level, ut) \<leftarrow> determine_signal_and_noise rx ut;
             (case bb_find_ac bb (all_symbols (ut_packets ut)) (int BANK_LEN) (search_lap bb (cb_pn ut)) max_ac_errors of
                (offset, found) \<Rightarrow>
                  if offset < 0 then Some ut
                  else (case found of
                    None \<Rightarrow> None
                  | Some pkt \<Rightarrow> rx_found bb u time rx nowns signal_level noise_level offset pkt ut)) })"

subsection \<open>Adaptive hopping\<close>

text \<open>The search of the three callbacks; they need a piconet.\<close>

definition afh_packet :: "('p, 'n, 'l) btbb \<Rightarrow> 'n \<Rightarrow> ('d, 'm) ubertooth_scheme \<Rightarrow> bool" where
  "afh_packet bb n ut \<longleftrightarrow>
     0 \<le> fst (bb_find_ac bb (top_symbols (ut_packets ut)) (int BANK_LEN - 64) (bb_get_lap bb n) max_ac_errors)"

definition hop_on :: "'d libusb \<Rightarrow> ('d, 'm) ubertooth_scheme \<Rightarrow> ('d, 'm) ubertooth_scheme option" where
  "hop_on u ut = map_option snd (on_device (cmd_hop u) ut)"

text \<open>\<open>channel\<close> is a byte, so the neighbours wrap around when they are passed to libbtbb.\<close>

definition afh_fill ::
  "('p, 'n, 'l) btbb \<Rightarrow> u8 \<Rightarrow> u8 \<Rightarrow> int \<Rightarrow> 'n \<times> ('d, 'p, 'n, 'l) rx_state \<Rightarrow> 'n \<times> ('d, 'p, 'n, 'l) rx_state"
where
  "afh_fill bb near far shown = (\<lambda>(n, ut).
     if \<not> bb_get_channel_seen bb near n \<and> bb_get_channel_seen bb far n
     then (snd (bb_set_channel_seen bb near n), print_line (Afh_activating shown) ut) else (n, ut))"

definition cb_afh_initial ::
  "('p, 'n, 'l) btbb \<Rightarrow> 'd libusb \<Rightarrow> ('d, 'p, 'n, 'l) rx_state \<Rightarrow> ('d, 'p, 'n, 'l) rx_state option"
where
  "cb_afh_initial bb u ut =
     (case cb_pn ut of
        None \<Rightarrow> None
      | Some n \<Rightarrow>
          if \<not> afh_packet bb n ut then Some ut
          else
            (let channel = pkt_channel (ringbuffer_top_usb (ut_packets ut));
                 (new, n) = bb_set_channel_seen bb channel n
             in do {
               ut \<leftarrow> (if new then
                        (let (n, ut) = afh_fill bb (channel + 1) (channel + 2) (int (unat channel) + 1) (n, ut);
                             (n, ut) = afh_fill bb (channel - 1) (channel - 2) (int (unat channel) - 1) (n, ut)
                         in do {
                           (r, ut) \<leftarrow> on_device (cmd_set_afh_map u (bb_get_afh_map bb n)) (ut\<lparr>cb_pn := Some n\<rparr>);
                           Some (print_line (Afh_map (bb_get_afh_map bb n)) ut) })
                      else Some (ut\<lparr>cb_pn := Some n\<rparr>));
               hop_on u ut }))"

text \<open>The loop that forgets the channels not seen in the last packets. With \<open>say\<close> it prints them.\<close>

definition afh_forget ::
  "('p, 'n, 'l) btbb \<Rightarrow> bool \<Rightarrow> u64 list \<Rightarrow> u64 \<Rightarrow> nat \<Rightarrow> 'n \<times> ('d, 'p, 'n, 'l) rx_state \<Rightarrow> 'n \<times> ('d, 'p, 'n, 'l) rx_state"
where
  "afh_forget bb say last_seen counter i = (\<lambda>(n, ut).
     if counter - last_seen ! i \<ge> ucast (cb_packet_counter_max ut)
     then (case bb_clear_channel_seen bb (of_nat i) n of
             (cleared, n) \<Rightarrow>
               (n, if cleared \<and> say then print_line (Afh_map (bb_get_afh_map bb n)) (print_line (Afh_unused i) ut) else ut))
     else (n, ut))"

definition cb_afh_monitor ::
  "('p, 'n, 'l) btbb \<Rightarrow> 'd libusb \<Rightarrow> ('d, 'p, 'n, 'l) rx_state \<Rightarrow> ('d, 'p, 'n, 'l) rx_state option"
where
  "cb_afh_monitor bb u ut =
     (case cb_pn ut of
        None \<Rightarrow> None
      | Some n \<Rightarrow>
          if \<not> afh_packet bb n ut then Some ut
          else
            (let ut = ut\<lparr>cb_counter := cb_counter ut + 1\<rparr>;
                 channel = pkt_channel (ringbuffer_top_usb (ut_packets ut))
             in if 79 \<le> unat channel then None
                else
                  let ut = ut\<lparr>cb_last_seen := (cb_last_seen ut)[unat channel := cb_counter ut]\<rparr>;
                      (new, n) = bb_set_channel_seen bb channel n;
                      ut = (if new then print_line (Afh_map (bb_get_afh_map bb n)) (print_line (Afh_used channel) ut) else ut);
                      (n, ut) = fold (afh_forget bb True (cb_last_seen ut) (cb_counter ut)) [0..<79] (n, ut)
                  in hop_on u (ut\<lparr>cb_pn := Some n\<rparr>)))"

definition cb_afh_r ::
  "('p, 'n, 'l) btbb \<Rightarrow> 'd libusb \<Rightarrow> ('d, 'p, 'n, 'l) rx_state \<Rightarrow> ('d, 'p, 'n, 'l) rx_state option"
where
  "cb_afh_r bb u ut =
     (case cb_pn ut of
        None \<Rightarrow> None
      | Some n \<Rightarrow>
          if \<not> afh_packet bb n ut then Some ut
          else
            (let ut = ut\<lparr>cb_counter_r := cb_counter_r ut + 1\<rparr>;
                 channel = pkt_channel (ringbuffer_top_usb (ut_packets ut))
             in if 79 \<le> unat channel then None
                else
                  let ut = ut\<lparr>cb_last_seen_r := (cb_last_seen_r ut)[unat channel := cb_counter_r ut]\<rparr>;
                      n = snd (bb_set_channel_seen bb channel n);
                      (n, ut) = fold (afh_forget bb False (cb_last_seen_r ut) (cb_counter_r ut)) [0..<79] (n, ut)
                  in hop_on u (ut\<lparr>cb_pn := Some n\<rparr>)))"

subsection \<open>Low Energy and remote controls\<close>

definition promisc_line :: "u8 list \<Rightarrow> ('p, 'l) report" where
  "promisc_line data =
     (let st = data ! 0; val = drop 1 data
      in if st = 0 then Promisc_access_address (from_le (take 4 val))
         else if st = 1 then Promisc_crc_init (from_le (take 4 val))
         else if st = 2 then Promisc_hop_interval (from_le (take 2 val))
         else if st = 3 then Promisc_hop_increment (val ! 0)
         else Promisc_unknown st)"

text \<open>The bytes printed after a packet: from the header to the checksum, inside the data.\<close>

definition btle_bytes :: "u8 list \<Rightarrow> u8 list" where
  "btle_bytes data =
     (let len = unat (data ! 5 AND 0x3f) + 6 + 3;
          len = (if len > 50 then 50 else len)
      in map (\<lambda>i. data ! i) [4..<len])"

definition cb_btle ::
  "('p, 'n, 'l) btbb \<Rightarrow> (nat \<Rightarrow> u32) \<Rightarrow> (nat \<Rightarrow> u64) \<Rightarrow> u32 option
     \<Rightarrow> ('d, 'p, 'n, 'l) rx_state \<Rightarrow> ('d, 'p, 'n, 'l) rx_state option"
where
  "cb_btle bb time now allowed ut =
     (let rx = ringbuffer_top_usb (ut_packets ut)
      in if pkt_type rx = pkt_type_code LE_PROMISC then Some (print_line (promisc_line (pkt_data rx)) ut)
         else
           let (nowns, ut) = now_ns_from_clk100ns now rx ut
           in if unat (pkt_channel rx) > NUM_BREDR_CHANNELS - 1 then Some ut
           else
             let ut = dump_packet rx (take_time time ut);
                 pkt = ll_decode bb (pkt_data rx) (ucast (pkt_channel rx) + 2402) (pkt_clk100ns rx)
             in if (case allowed of None \<Rightarrow> False | Some a \<Rightarrow> a < ll_offenses bb pkt) then Some ut
             else do {
               let refAA = (if ll_is_data bb pkt then 0 else 0x8e89bed6);
               (sig, noise, ut) \<leftarrow> determine_signal_and_noise rx ut;
               let ut = (if ut_pcapng_le ut then ut\<lparr>cb_pcap_le := cb_pcap_le ut @ [(nowns, sig, noise, refAA, pkt)]\<rparr> else ut);
               let ts_diff = ts_difference (cb_btle_prev_ts ut) (pkt_clk100ns rx);
               let ut = ut\<lparr>cb_btle_prev_ts := pkt_clk100ns rx\<rparr>;
               Some (print_line (Btle_line (ut_systime ut) (int (unat (pkt_channel rx)) + 2402) (ll_access_address bb pkt)
                       ts_diff (sint (pkt_rssi_min rx) - 54) (btle_bytes (pkt_data rx)) pkt) ut) })"

definition cb_ego :: "('d, 'p, 'n, 'l) rx_state \<Rightarrow> ('d, 'p, 'n, 'l) rx_state option" where
  "cb_ego ut =
     (let rx = ringbuffer_top_usb (ut_packets ut);
          ts_diff = ts_difference (cb_ego_prev_ts ut) (pkt_clk100ns rx);
          ut = ut\<lparr>cb_ego_prev_ts := pkt_clk100ns rx\<rparr>
      in Some (print_line (Ego_line (pkt_clk100ns rx) ts_diff (int (unat (pkt_channel rx)) + 2402)
                 (map (\<lambda>i. pkt_data rx ! i) [0..<36])) ut))"

end
