(* ===== verification/Host_Stream.thy ===== *)
theory Host_Stream
  imports Host_Receive Usb_Queue
begin

text \<open>
  Properties of the receive path of the host. \<open>bulk_inv\<close> is the invariant of the double buffer. The
  locale \<open>rx_client\<close> is the contract between the receive loop and a packet callback, \<open>rx_fold\<close> that of
  a callback whose output is a fold over the packets; both dump callbacks interpret them. The
  theorems follow packets from the queue of the firmware to the callback, to a dump file and back.
\<close>

subsection \<open>The double buffer\<close>

definition bulk_inv :: "('d, 'm) ubertooth_scheme \<Rightarrow> bool" where
  "bulk_inv ut \<longleftrightarrow>
     (\<exists>b b'. b \<noteq> b' \<and> ut_empty_usb_buf ut = Some b \<and> ut_full_usb_buf ut = Some b'
        \<and> (\<forall>x s. ut_rx_xfer ut = Some (x, s) \<longrightarrow> x = b))
     \<and> (\<forall>b. length (ut_bufs ut b) = BUFFER_SIZE)"

text \<open>What the library keeps for its transfers, which a callback must leave alone.\<close>

definition transport :: "('d, 'm) ubertooth_scheme \<Rightarrow> _" where
  "transport ut = (ut_bufs ut, ut_empty_usb_buf ut, ut_full_usb_buf ut, ut_usb_really_full ut, ut_rx_xfer ut)"

lemma bulk_inv_transport: "transport u = transport v \<Longrightarrow> bulk_inv u = bulk_inv v"
  by (simp add: transport_def bulk_inv_def)

lemma err_line_transport [simp]: "transport (err_line l ut) = transport ut"
  by (simp add: err_line_def transport_def)

lemma err_line_simps [simp]:
  "ut_stop_ubertooth (err_line l ut) = ut_stop_ubertooth ut"
  "ut_usb_really_full (err_line l ut) = ut_usb_really_full ut"
  "ut_rx_xfer (err_line l ut) = ut_rx_xfer ut"
  "ut_bufs (err_line l ut) = ut_bufs ut"
  "ut_empty_usb_buf (err_line l ut) = ut_empty_usb_buf ut"
  "ut_full_usb_buf (err_line l ut) = ut_full_usb_buf ut"
  by (simp_all add: err_line_def)

lemma bulk_inv_submit: "bulk_inv ut \<Longrightarrow> bulk_inv (submit_xfer r ut)"
  by (auto simp: submit_xfer_def bulk_inv_def Let_def)

lemma bulk_inv_line [simp]: "bulk_inv (err_line l ut) = bulk_inv ut"
  by (rule bulk_inv_transport) simp

lemma bulk_inv_updates:
  "bulk_inv ut \<Longrightarrow> bulk_inv (ut\<lparr>ut_rx_xfer := None\<rparr>)"
  "bulk_inv (ut\<lparr>ut_stop_ubertooth := x\<rparr>) = bulk_inv ut"
  "bulk_inv ut \<Longrightarrow> bulk_inv (ut\<lparr>ut_full_usb_buf := ut_empty_usb_buf ut, ut_empty_usb_buf := ut_full_usb_buf ut,
     ut_usb_really_full := True,
     ut_rx_xfer := (case (ut_full_usb_buf ut, ut_rx_xfer ut) of (Some b, Some (_, s)) \<Rightarrow> Some (b, s) | _ \<Rightarrow> None)\<rparr>)"
  by (auto simp: bulk_inv_def split: option.splits)

lemma bulk_inv_cb_xfer: "bulk_inv ut \<Longrightarrow> bulk_inv (cb_xfer st r ut)"
  unfolding cb_xfer_def Let_def
  by (simp only: bulk_inv_updates bulk_inv_submit bulk_inv_line split: if_split)
    (metis bulk_inv_line bulk_inv_submit bulk_inv_updates)

lemma bulk_inv_init: "\<forall>b. length (g b) = BUFFER_SIZE \<Longrightarrow> bulk_inv (snd (ubertooth_bulk_init g r ut))"
  by (auto simp: ubertooth_bulk_init_def bulk_inv_def Let_def err_line_def)

lemma stop_transfers_transport [simp]: "transport (stop_transfers ut) = transport ut"
  by (simp add: stop_transfers_def transport_def)

lemma take_event_transport [simp]: "transport (take_event e ut) = transport ut"
  using stop_transfers_transport [of "ut\<lparr>ut_events := Suc (ut_events ut)\<rparr>"]
  by (simp add: take_event_def transport_def Let_def)

lemma bulk_inv_fill: "bulk_inv ut \<Longrightarrow> ut_rx_xfer ut = Some (b, True) \<Longrightarrow> bulk_inv (fill_buf b bs ut)"
  by (auto simp: bulk_inv_def fill_buf_def put_at_def)

lemma bulk_inv_events: "bulk_inv ut \<Longrightarrow> bulk_inv (snd (libusb_handle_events lu ut))"
  using bulk_inv_transport [OF take_event_transport, of "lu (ut_events ut)" ut]
  by (auto simp: libusb_handle_events_def Let_def intro!: bulk_inv_cb_xfer bulk_inv_fill split: option.splits bool.splits)

text \<open>While a buffer is full, no event touches it.\<close>

lemma cb_xfer_full: "ut_usb_really_full ut \<Longrightarrow>
   ut_usb_really_full (cb_xfer st r ut) \<and> ut_full_usb_buf (cb_xfer st r ut) = ut_full_usb_buf ut
   \<and> ut_bufs (cb_xfer st r ut) = ut_bufs ut"
  by (simp add: cb_xfer_def Let_def submit_xfer_def)

lemma events_full:
  assumes "bulk_inv ut" and "ut_usb_really_full ut" and "ut_full_usb_buf ut = Some b"
    and ut': "ut' = snd (libusb_handle_events lu ut)"
  shows "ut_usb_really_full ut' \<and> ut_full_usb_buf ut' = Some b \<and> ut_bufs ut' b = ut_bufs ut b"
proof -
  let ?u = "take_event (lu (ut_events ut)) ut"
  have t: "ut_usb_really_full ?u" "ut_full_usb_buf ?u = Some b" "ut_rx_xfer ?u = ut_rx_xfer ut" "ut_bufs ?u = ut_bufs ut"
    using take_event_transport [of "lu (ut_events ut)" ut] assms(2,3) by (simp_all add: transport_def)
  have other: "x \<noteq> b" if "ut_rx_xfer ut = Some (x, s)" for x s
    using assms(1,3) that by (auto simp: bulk_inv_def)
  show ?thesis
    using t other cb_xfer_full [of "fill_buf _ _ ?u"]
    by (auto simp: ut' libusb_handle_events_def Let_def fill_buf_def split: option.splits bool.splits)
qed

lemma bulk_wait_keeps:
  assumes "ubertooth_bulk_wait lu ut = Some ut'" and "P ut"
    and event: "\<And>u. P u \<Longrightarrow> P (snd (libusb_handle_events lu u))"
    and line: "\<And>u l. P u \<Longrightarrow> P (err_line l u)"
  shows "P ut'"
  using assms(1,2) unfolding ubertooth_bulk_wait_def
proof (rule loop_opt_invariant)
  fix x y
  assume "P x"
  then have "P (snd (libusb_handle_events lu x))" by (rule event)
  then show "(if ut_usb_really_full x then Some (Leave x) else let (r, ut) = libusb_handle_events lu x
      in Some (if r < 0 then if r = LIBUSB_ERROR_INTERRUPTED then Leave ut
               else Again (err_line (show_libusb_error r) ut) else Again ut)) = Some (Again y) \<Longrightarrow> P y"
    and "(if ut_usb_really_full x then Some (Leave x) else let (r, ut) = libusb_handle_events lu x
      in Some (if r < 0 then if r = LIBUSB_ERROR_INTERRUPTED then Leave ut
               else Again (err_line (show_libusb_error r) ut) else Again ut)) = Some (Leave y) \<Longrightarrow> P y"
    using \<open>P x\<close> by (auto simp: split_beta line split: if_splits)
qed

subsection \<open>A stopped stream\<close>

text \<open>Nothing can arrive any more: no buffer is full, and either a stop has been requested or no transfer
  is submitted.\<close>

definition stalled :: "('d, 'm) ubertooth_scheme \<Rightarrow> bool" where
  "stalled ut \<longleftrightarrow> \<not> ut_usb_really_full ut \<and> (ut_stop_ubertooth ut \<or> (\<forall>b. ut_rx_xfer ut \<noteq> Some (b, True)))"

lemma stalled_line: "stalled ut \<Longrightarrow> stalled (err_line l ut)"
  by (simp add: stalled_def)

lemma take_event_stop: "ut_stop_ubertooth ut \<Longrightarrow> ut_stop_ubertooth (take_event e ut)"
  by (simp add: take_event_def stop_transfers_def Let_def)

lemma cb_xfer_stop: "ut_stop_ubertooth ut \<Longrightarrow> \<not> ut_usb_really_full ut \<Longrightarrow> stalled (cb_xfer st r ut)"
  by (simp add: stalled_def cb_xfer_def submit_xfer_def Let_def)

lemma stalled_events:
  assumes "stalled ut"
  shows "stalled (snd (libusb_handle_events lu ut))"
proof -
  let ?u = "take_event (lu (ut_events ut)) ut"
  have u: "ut_usb_really_full ?u = ut_usb_really_full ut" "ut_rx_xfer ?u = ut_rx_xfer ut"
    using take_event_transport [of "lu (ut_events ut)" ut] by (simp_all add: transport_def)
  have "stalled ?u" using assms u take_event_stop [of ut] by (auto simp: stalled_def)
  moreover have "stalled (cb_xfer st r (fill_buf b bs ?u))" if "ut_rx_xfer ut = Some (b, True)" for st r b bs
  proof (rule cb_xfer_stop)
    have "ut_stop_ubertooth ut" using assms that by (auto simp: stalled_def)
    then show "ut_stop_ubertooth (fill_buf b bs ?u)" using take_event_stop [of ut] by (simp add: fill_buf_def)
    show "\<not> ut_usb_really_full (fill_buf b bs ?u)" using assms u by (simp add: fill_buf_def stalled_def)
  qed
  ultimately show ?thesis
    using u by (auto simp: libusb_handle_events_def Let_def split: option.splits bool.splits)
qed

lemma bulk_receive_stalled:
  assumes "stalled ut"
  shows "\<exists>ut'. ubertooth_bulk_receive lu cb ut = Some (-1, ut') \<and> stalled ut'"
proof -
  have "stalled (receive_poll lu ut)"
    using assms stalled_events [OF assms, of lu] by (simp add: receive_poll_def split_beta stalled_line)
  then show ?thesis by (simp add: ubertooth_bulk_receive_def Let_def stalled_def)
qed

lemma receive_round_stalled:
  assumes "stalled ut" and "receive_round lu cb ut = Some r"
  shows "\<exists>ut'. r = Again ut' \<and> stalled ut'"
proof -
  from assms(2) obtain u where u: "ubertooth_bulk_wait lu ut = Some u"
    and r: "(do { (r, ut) \<leftarrow> ubertooth_bulk_receive lu cb u; Some (if r = 1 then Leave ut else Again ut) }) = Some r"
    by (auto simp: receive_round_def split: bind_splits)
  have "stalled u"
    using u assms(1) by (rule bulk_wait_keeps) (simp_all add: stalled_events stalled_line)
  then show ?thesis using bulk_receive_stalled [of u lu cb] r by auto
qed

subsection \<open>The contract of a callback\<close>

text \<open>What \<open>ubertooth_bulk_receive\<close> hands to the callback: the packets of a full buffer without the
  keep-alive ones.\<close>

definition keep_alive :: "usb_pkt_rx \<Rightarrow> bool" where
  "keep_alive p \<longleftrightarrow> pkt_type p = pkt_type_code KEEP_ALIVE"

definition blocks :: "u8 list \<Rightarrow> usb_pkt_rx list" where
  "blocks buf = map (rx_block buf) [0..<PKTS_PER_XFER]"

definition payload :: "usb_pkt_rx list \<Rightarrow> usb_pkt_rx list" where
  "payload ps = filter (\<lambda>p. \<not> keep_alive p) ps"

locale rx_client =
  fixes cb :: "('d, 'm) rx_callback"
  assumes cb_transport: "cb ut = Some ut' \<Longrightarrow> transport ut' = transport ut"
begin

lemma deliver_transport: "deliver cb p ut = Some ut' \<Longrightarrow> transport ut' = transport ut"
  using cb_transport [of "ut\<lparr>ut_packets := ringbuffer_add p (ut_packets ut)\<rparr>" ut']
  by (simp add: deliver_def transport_def)

lemma receive_blocks_transport:
  "receive_blocks cb is ut = Some (stop, ut') \<Longrightarrow> transport ut' = transport ut"
proof (induction "is" arbitrary: ut)
  case Nil
  then show ?case by simp
next
  case (Cons i "is")
  obtain b where b: "ut_full_usb_buf ut = Some b" using Cons.prems by (cases "ut_full_usb_buf ut") auto
  let ?p = "rx_block (ut_bufs ut b) i"
  obtain u where u: "(if pkt_type ?p \<noteq> pkt_type_code KEEP_ALIVE then deliver cb ?p ut else Some ut) = Some u"
    using Cons.prems b by (simp add: Let_def split: option.splits)
  then have "transport u = transport ut" by (auto dest: deliver_transport split: if_splits)
  then show ?case
    using Cons.prems b u Cons.IH [of u] by (simp add: Let_def split: if_splits)
qed

lemma bulk_receive_inv:
  assumes "ubertooth_bulk_receive lu cb ut = Some (r, ut')" and "bulk_inv ut"
  shows "bulk_inv ut'"
proof -
  have u: "bulk_inv (receive_poll lu ut)"
    using assms(2) bulk_inv_events [OF assms(2), of lu] by (simp add: receive_poll_def split_beta)
  have full: "bulk_inv v \<Longrightarrow> bulk_inv (v\<lparr>ut_usb_really_full := x\<rparr>)" for v :: "('d, 'm) ubertooth_scheme" and x
    by (simp add: bulk_inv_def)
  show ?thesis
  proof (cases "ut_usb_really_full (receive_poll lu ut)")
    case True
    then obtain stop v where "receive_blocks cb [0..<PKTS_PER_XFER] (receive_poll lu ut) = Some (stop, v)"
      and v: "(r, ut') = (if stop then (1, v) else (0, v\<lparr>ut_usb_really_full := False\<rparr>))"
      using assms(1) by (auto simp: ubertooth_bulk_receive_def Let_def)
    then have "bulk_inv v" using bulk_inv_transport [OF receive_blocks_transport] u by blast
    then show ?thesis using v full by (simp split: if_splits)
  next
    case False
    then show ?thesis using assms(1) u by (simp add: ubertooth_bulk_receive_def Let_def)
  qed
qed

lemma receive_round_inv:
  assumes "receive_round lu cb ut = Some r" and "bulk_inv ut"
  shows "bulk_inv (step_state r)"
proof -
  from assms(1) obtain u c v where u: "ubertooth_bulk_wait lu ut = Some u"
    and v: "ubertooth_bulk_receive lu cb u = Some (c, v)" and r: "r = (if c = 1 then Leave v else Again v)"
    by (auto simp: receive_round_def split: bind_splits)
  have "bulk_inv u" using u assms(2) by (rule bulk_wait_keeps) (simp_all add: bulk_inv_events)
  with v have "bulk_inv v" by (rule bulk_receive_inv)
  then show ?thesis using r by simp
qed

end

subsection \<open>Packets in a buffer\<close>

lemma drop_packets:
  assumes "list_all pkt_wf ps" and "i < length ps"
  shows "take PKT_LEN (drop (PKT_LEN * i) (concat (map pkt_bytes ps) @ rest)) = pkt_bytes (ps ! i)"
  using assms
proof (induction ps arbitrary: i)
  case Nil
  then show ?case by simp
next
  case (Cons p ps)
  then show ?case by (cases i) (simp_all add: length_pkt_bytes)
qed

lemma rx_block_packets:
  "list_all pkt_wf ps \<Longrightarrow> i < length ps \<Longrightarrow> rx_block (concat (map pkt_bytes ps) @ rest) i = ps ! i"
  using drop_packets [of ps i rest] pkt_of_bytes_of_pkt [of "ps ! i"]
  by (simp add: rx_block_def list_all_length)

lemma length_packets: "list_all pkt_wf ps \<Longrightarrow> length (concat (map pkt_bytes ps)) = PKT_LEN * length ps"
  by (induction ps) (simp_all add: length_pkt_bytes)

lemma blocks_packets:
  "list_all pkt_wf ps \<Longrightarrow> length ps = PKTS_PER_XFER \<Longrightarrow> blocks (concat (map pkt_bytes ps) @ rest) = ps"
  by (auto simp: blocks_def rx_block_packets intro: nth_equalityI)

text \<open>A full transfer replaces all eight blocks of its buffer.\<close>

lemma blocks_full_transfer:
  assumes "list_all pkt_wf ps" and "length ps = PKTS_PER_XFER"
  shows "blocks (put_at 0 (take XFER_LEN (concat (map pkt_bytes ps))) buf) = ps"
  using blocks_packets [OF assms] assms by (simp add: put_at_def length_packets)

lemma rx_block_wf:
  assumes "PKT_LEN * Suc i \<le> length buf"
  shows "pkt_wf (rx_block buf i)"
proof -
  have "length (take PKT_LEN (drop (PKT_LEN * i) buf)) = PKT_LEN" using assms by simp
  then show ?thesis by (simp add: rx_block_def pkt_of_bytes_def pkt_wf_def)
qed

lemma blocks_wf: "length buf = BUFFER_SIZE \<Longrightarrow> list_all pkt_wf (blocks buf)"
  by (simp add: blocks_def list_all_length rx_block_wf)

lemma drop_put_at: "length src \<le> n \<Longrightarrow> drop n (put_at 0 src dst) = drop n dst"
  by (simp add: put_at_def)

lemma rx_block_cong:
  "drop (PKT_LEN * i) xs = drop (PKT_LEN * i) ys \<Longrightarrow> rx_block xs i = rx_block ys i"
  by (simp add: rx_block_def)

lemma payload_around:
  assumes "k < n" and "keep_alive (f k)"
  shows "payload (map f [0..<n]) = payload (map f [0..<k] @ map f [Suc k..<n])"
proof -
  have "[0..<n] = [0..<k] @ k # [Suc k..<n]"
    using assms(1) upt_add_eq_append [of 0 k "n - k"] by (simp add: upt_conv_Cons)
  then show ?thesis using assms(2) by (simp add: payload_def)
qed

text \<open>A transfer that ends early leaves the rest of its buffer as it was.\<close>

lemma blocks_short_transfer:
  assumes "list_all pkt_wf new" and "list_all pkt_wf old" and "length old = PKTS_PER_XFER"
    and "length new < PKTS_PER_XFER"
  shows "payload (blocks (put_at 0 (take XFER_LEN (concat (map pkt_bytes new) @ [pkt_type_code KEEP_ALIVE]))
      (concat (map pkt_bytes old) @ rest)))
    = payload (new @ drop (Suc (length new)) old)"
proof -
  let ?k = "length new"
  define src where "src = take XFER_LEN (concat (map pkt_bytes new) @ [pkt_type_code KEEP_ALIVE])"
  define buf where "buf = put_at 0 src (concat (map pkt_bytes old) @ rest)"
  have src: "src = concat (map pkt_bytes new) @ [pkt_type_code KEEP_ALIVE]" "length src = PKT_LEN * ?k + 1"
    using assms(1,4) by (simp_all add: src_def length_packets)
  have buf_new: "buf = concat (map pkt_bytes new) @ pkt_type_code KEEP_ALIVE # drop (length src) (concat (map pkt_bytes old) @ rest)"
    unfolding buf_def put_at_def by (simp add: src(1))
  have lo: "rx_block buf i = new ! i" if "i < ?k" for i
    unfolding buf_new using assms(1) that by (rule rx_block_packets)
  have mid: "keep_alive (rx_block buf ?k)"
    unfolding buf_new using assms(1) by (simp add: rx_block_def pkt_of_bytes_def keep_alive_def length_packets)
  have hi: "rx_block buf i = old ! i" if "?k < i" "i < PKTS_PER_XFER" for i
  proof -
    have "length src \<le> PKT_LEN * i" using that src(2) by linarith
    then have "rx_block buf i = rx_block (concat (map pkt_bytes old) @ rest) i"
      unfolding buf_def by (intro rx_block_cong drop_put_at)
    then show ?thesis using rx_block_packets assms(2,3) that by simp
  qed
  have "map (rx_block buf) [0..<?k] = new"
    using lo by (auto intro: nth_equalityI)
  moreover have "map (rx_block buf) [Suc ?k..<PKTS_PER_XFER] = drop (Suc ?k) old"
    using hi assms(3,4) by (intro nth_equalityI) simp_all
  ultimately show ?thesis
    using payload_around [OF assms(4), of "rx_block buf"] mid by (simp add: blocks_def buf_def src_def)
qed

subsection \<open>Delivery\<close>

text \<open>The stream is running: a transfer is submitted, no buffer is full and no stop is requested.\<close>

definition receiving :: "('d, 'm) ubertooth_scheme \<Rightarrow> bool" where
  "receiving ut \<longleftrightarrow> bulk_inv ut \<and> \<not> ut_usb_really_full ut \<and> \<not> ut_stop_ubertooth ut
     \<and> (\<exists>b. ut_rx_xfer ut = Some (b, True)) \<and> rb_wf (ut_packets ut)"

text \<open>An event that completes a transfer with the bytes \<open>bs\<close>, after which it is submitted again.\<close>

definition completes :: "bulk_event \<Rightarrow> u8 list \<Rightarrow> bool" where
  "completes e bs \<longleftrightarrow> \<not> be_alarm e \<and> 0 \<le> be_result e \<and> be_done e = Some (XFER_COMPLETED, bs) \<and> 0 \<le> be_submit e"

definition next_buf :: "u8 list \<Rightarrow> ('d, 'm) ubertooth_scheme \<Rightarrow> u8 list" where
  "next_buf bs ut = put_at 0 (take XFER_LEN bs) (ut_bufs ut (the (ut_empty_usb_buf ut)))"

definition swapped :: "u8 list \<Rightarrow> ('d, 'm) ubertooth_scheme \<Rightarrow> ('d, 'm) ubertooth_scheme" where
  "swapped bs ut = ut\<lparr>ut_events := Suc (ut_events ut),
     ut_bufs := (ut_bufs ut)(the (ut_empty_usb_buf ut) := next_buf bs ut),
     ut_rx_xfer := Some (the (ut_full_usb_buf ut), True),
     ut_empty_usb_buf := ut_full_usb_buf ut, ut_full_usb_buf := ut_empty_usb_buf ut, ut_usb_really_full := True\<rparr>"

lemma handle_events_completes:
  assumes "receiving ut" and "completes (lu (ut_events ut)) bs"
  shows "libusb_handle_events lu ut = (be_result (lu (ut_events ut)), swapped bs ut)"
proof -
  from assms(1) obtain b b' where b: "ut_empty_usb_buf ut = Some b" "ut_full_usb_buf ut = Some b'"
    "ut_rx_xfer ut = Some (b, True)" "\<not> ut_usb_really_full ut" "\<not> ut_stop_ubertooth ut"
    by (auto simp: receiving_def bulk_inv_def)
  show ?thesis
    using assms(2) b
    by (simp add: completes_def libusb_handle_events_def take_event_def fill_buf_def cb_xfer_def submit_xfer_def
      swapped_def next_buf_def Let_def)
qed

lemma bulk_inv_swapped: "receiving ut \<Longrightarrow> completes (lu (ut_events ut)) bs \<Longrightarrow> bulk_inv (swapped bs ut)"
  using bulk_inv_events [of ut lu] handle_events_completes [of ut lu bs] by (simp add: receiving_def)

lemma bulk_wait_full: "ut_usb_really_full ut \<Longrightarrow> ubertooth_bulk_wait lu ut = Some ut"
  unfolding ubertooth_bulk_wait_def by (subst loop_opt.simps) simp

lemma bulk_wait_event:
  assumes "\<not> ut_usb_really_full ut" and "libusb_handle_events lu ut = (r, ut')" and "0 \<le> r"
  shows "ubertooth_bulk_wait lu ut = ubertooth_bulk_wait lu ut'"
  unfolding ubertooth_bulk_wait_def using assms(3) by (subst loop_opt.simps) (simp add: assms(1,2))

lemma bulk_wait_completes:
  assumes "receiving ut" and "completes (lu (ut_events ut)) bs"
  shows "ubertooth_bulk_wait lu ut = Some (swapped bs ut)"
  using assms bulk_wait_event [OF _ handle_events_completes [of ut lu bs, OF assms]] bulk_wait_full [of "swapped bs ut" lu]
  by (simp add: receiving_def completes_def swapped_def)

text \<open>A callback whose visible output is a fold over the packets, and that never asks to stop. It may
  rely on the packet being at the top of the ring buffer.\<close>

locale rx_fold = rx_client cb for cb :: "('d, 'm) rx_callback" +
  fixes view :: "('d, 'm) ubertooth_scheme \<Rightarrow> 'v"
    and upd :: "usb_pkt_rx \<Rightarrow> 'v \<Rightarrow> 'v"
  assumes cb_step: "rb_wf (ut_packets ut) \<Longrightarrow> pkt_wf p \<Longrightarrow>
      \<exists>ut'. deliver cb p ut = Some ut' \<and> view ut' = upd p (view ut)
        \<and> ut_packets ut' = ringbuffer_add p (ut_packets ut) \<and> ut_events ut' = ut_events ut
        \<and> ut_stop_ubertooth ut' = ut_stop_ubertooth ut"
    and view_transport: "view (ut\<lparr>ut_usb_really_full := x\<rparr>) = view ut" "view (swapped bs ut) = view ut"
begin

lemma for_each_deliver:
  "rb_wf (ut_packets ut) \<Longrightarrow> list_all pkt_wf ps \<Longrightarrow>
    \<exists>ut'. for_each (deliver cb) ps ut = Some ut' \<and> view ut' = fold upd ps (view ut)
      \<and> rb_wf (ut_packets ut') \<and> ut_events ut' = ut_events ut
      \<and> ut_stop_ubertooth ut' = ut_stop_ubertooth ut \<and> transport ut' = transport ut"
proof (induction ps arbitrary: ut)
  case Nil
  then show ?case by simp
next
  case (Cons p ps)
  obtain u where u: "deliver cb p ut = Some u" "view u = upd p (view ut)"
    "ut_packets u = ringbuffer_add p (ut_packets ut)" "ut_events u = ut_events ut"
    "ut_stop_ubertooth u = ut_stop_ubertooth ut"
    using cb_step [of ut p] Cons.prems by auto
  moreover have "rb_wf (ut_packets u)" using Cons.prems u(3) rb_usb.push_inv by simp
  ultimately show ?case using Cons.IH [of u] Cons.prems deliver_transport [OF u(1)] by simp
qed

lemma receive_blocks_deliver:
  assumes "ut_full_usb_buf ut = Some b" and "\<not> ut_stop_ubertooth ut" and "rb_wf (ut_packets ut)"
    and "list_all pkt_wf (map (rx_block (ut_bufs ut b)) is)"
  shows "\<exists>ut'. receive_blocks cb is ut = Some (False, ut')
      \<and> view ut' = fold upd (payload (map (rx_block (ut_bufs ut b)) is)) (view ut)
      \<and> rb_wf (ut_packets ut') \<and> ut_events ut' = ut_events ut \<and> \<not> ut_stop_ubertooth ut'
      \<and> transport ut' = transport ut"
  using assms
proof (induction "is" arbitrary: ut)
  case Nil
  then show ?case by (simp add: payload_def)
next
  case (Cons i "is")
  let ?p = "rx_block (ut_bufs ut b) i"
  show ?case
  proof (cases "keep_alive ?p")
    case True
    then show ?thesis using Cons by (simp add: keep_alive_def payload_def Let_def)
  next
    case False
    obtain u where u: "deliver cb ?p ut = Some u" "view u = upd ?p (view ut)"
      "ut_packets u = ringbuffer_add ?p (ut_packets ut)" "ut_events u = ut_events ut"
      "ut_stop_ubertooth u = ut_stop_ubertooth ut"
      using cb_step [of ut ?p] Cons.prems by auto
    have t: "transport u = transport ut" using u(1) by (rule deliver_transport)
    have "rb_wf (ut_packets u)" using Cons.prems u(3) rb_usb.push_inv by simp
    then show ?thesis
      using Cons.IH [of u] Cons.prems u t False by (simp add: transport_def keep_alive_def payload_def Let_def)
  qed
qed

text \<open>One round hands the packets of a completed transfer to the callback, in order, and is ready for
  the next transfer.\<close>

lemma receive_round_delivers:
  assumes "receiving ut" and "completes (lu (ut_events ut)) bs"
  shows "\<exists>ut'. receive_round lu cb ut = Some (Again ut') \<and> receiving ut' \<and> ut_events ut' = Suc (ut_events ut)
      \<and> view ut' = fold upd (payload (blocks (next_buf bs ut))) (view ut)
      \<and> ut_bufs ut' (the (ut_full_usb_buf ut')) = next_buf bs ut \<and> ut_empty_usb_buf ut' = ut_full_usb_buf ut"
proof -
  let ?u = "swapped bs ut"
  have inv: "bulk_inv ?u" using assms by (rule bulk_inv_swapped)
  obtain b where b: "ut_empty_usb_buf ut = Some b" using assms(1) by (auto simp: receiving_def bulk_inv_def)
  have u: "ut_full_usb_buf ?u = Some b" "ut_bufs ?u b = next_buf bs ut" "\<not> ut_stop_ubertooth ?u"
    "rb_wf (ut_packets ?u)" "ut_events ?u = Suc (ut_events ut)" "ut_usb_really_full ?u"
    using assms(1) b by (simp_all add: swapped_def receiving_def)
  have "length (next_buf bs ut) = BUFFER_SIZE" using inv u(2) unfolding bulk_inv_def by metis
  then have "list_all pkt_wf (map (rx_block (ut_bufs ?u b)) [0..<PKTS_PER_XFER])"
    using blocks_wf u(2) by (simp add: blocks_def)
  then obtain v where v: "receive_blocks cb [0..<PKTS_PER_XFER] ?u = Some (False, v)"
    "view v = fold upd (payload (blocks (next_buf bs ut))) (view ?u)" "rb_wf (ut_packets v)"
    "ut_events v = ut_events ?u" "\<not> ut_stop_ubertooth v" "transport v = transport ?u"
    using receive_blocks_deliver [OF u(1,3,4)] u(2) by (auto simp: blocks_def)
  let ?w = "v\<lparr>ut_usb_really_full := False\<rparr>"
  have "bulk_inv ?w" using inv bulk_inv_transport [OF v(6)] by (simp add: bulk_inv_def)
  moreover have "ut_rx_xfer v = Some (the (ut_full_usb_buf ut), True)" "ut_full_usb_buf v = Some b"
    "ut_bufs v = ut_bufs ?u" "ut_empty_usb_buf v = ut_full_usb_buf ut"
    using v(6) u(1) by (simp_all add: transport_def swapped_def)
  ultimately have "receiving ?w" using v(3,5) by (simp add: receiving_def)
  moreover have "receive_round lu cb ut = Some (Again ?w)"
    using v(1) u(6)
    by (simp add: receive_round_def bulk_wait_completes [of ut lu bs, OF assms] ubertooth_bulk_receive_def receive_poll_def)
  ultimately show ?thesis
    using v(2,4) u(2,5) view_transport \<open>ut_full_usb_buf v = Some b\<close> \<open>ut_bufs v = ut_bufs ?u\<close>
      \<open>ut_empty_usb_buf v = ut_full_usb_buf ut\<close>
    by (intro exI [of _ ?w]) simp
qed

end

subsection \<open>Dump files\<close>

definition dump_record :: "(nat \<Rightarrow> u32) \<Rightarrow> nat \<Rightarrow> usb_pkt_rx \<Rightarrow> u8 list" where
  "dump_record time k p = rev (le_bytes 4 (time k)) @ pkt_bytes p"

fun dump_records :: "(nat \<Rightarrow> u32) \<Rightarrow> nat \<Rightarrow> usb_pkt_rx list \<Rightarrow> u8 list" where
  "dump_records time k [] = []"
| "dump_records time k (p # ps) = dump_record time k p @ dump_records time (Suc k) ps"

definition dump_text :: "usb_pkt_rx \<Rightarrow> u8 list" where
  "dump_text p = map (\<lambda>b. b + 0x30) (symbols (pkt_data p)) @ [10]"

type_synonym dump_state = "u8 list option \<times> u8 list \<times> nat"

definition put_output :: "u8 list \<Rightarrow> dump_state \<Rightarrow> dump_state" where
  "put_output bs = (\<lambda>(f, out, k). case f of None \<Rightarrow> (None, out @ bs, k) | Some f \<Rightarrow> (Some (f @ bs), out, k))"

definition output_of :: "('d, 'm) ubertooth_scheme \<Rightarrow> dump_state" where
  "output_of ut = (ut_dumpfile ut, ut_stdout ut, ut_clock ut)"

definition dump_full_upd :: "(nat \<Rightarrow> u32) \<Rightarrow> usb_pkt_rx \<Rightarrow> dump_state \<Rightarrow> dump_state" where
  "dump_full_upd time p = (\<lambda>(f, out, k). put_output (dump_record time k p) (f, out, Suc k))"

lemma dump_write_simps [simp]:
  "transport (dump_write bs ut) = transport ut"
  "output_of (dump_write bs ut) = put_output bs (output_of ut)"
  "ut_packets (dump_write bs ut) = ut_packets ut" "ut_events (dump_write bs ut) = ut_events ut"
  "ut_stop_ubertooth (dump_write bs ut) = ut_stop_ubertooth ut"
  "ut_clock (dump_write bs ut) = ut_clock ut"
  by (simp_all add: dump_write_def transport_def output_of_def put_output_def split: option.split)

lemma timestamp_line_simps [simp]:
  "transport (timestamp_line ut) = transport ut" "output_of (timestamp_line ut) = output_of ut"
  "ut_packets (timestamp_line ut) = ut_packets ut" "ut_events (timestamp_line ut) = ut_events ut"
  "ut_stop_ubertooth (timestamp_line ut) = ut_stop_ubertooth ut" "ut_clock (timestamp_line ut) = ut_clock ut"
  by (simp_all add: timestamp_line_def err_line_def transport_def output_of_def)

lemma ring_tops:
  assumes "rb_wf rb" and "pkt_wf p"
  shows "ringbuffer_top_usb (ringbuffer_add p rb) = p"
    and "ringbuffer_top_bt (ringbuffer_add p rb) = symbols (pkt_data p)"
  using rb_usb.newest [of rb "[p]"] rb_bt.newest [of rb "[p]"] assms by (simp_all add: top_is_last)

interpretation dump_full: rx_fold "cb_dump_full time" output_of "dump_full_upd time" for time
proof unfold_locales
  fix ut ut' :: "('a, 'b) ubertooth_scheme" and p x bs
  have clock: "transport (u\<lparr>ut_clock := k\<rparr>) = transport u" for u :: "('a, 'b) ubertooth_scheme" and k
    by (simp add: transport_def)
  show "cb_dump_full time ut = Some ut' \<Longrightarrow> transport ut' = transport ut"
    by (auto simp: cb_dump_full_def Let_def clock)
  show "rb_wf (ut_packets ut) \<Longrightarrow> pkt_wf p \<Longrightarrow>
      \<exists>ut'. deliver (cb_dump_full time) p ut = Some ut' \<and> output_of ut' = dump_full_upd time p (output_of ut)
        \<and> ut_packets ut' = ringbuffer_add p (ut_packets ut) \<and> ut_events ut' = ut_events ut
        \<and> ut_stop_ubertooth ut' = ut_stop_ubertooth ut"
    by (simp add: deliver_def cb_dump_full_def Let_def ring_tops dump_full_upd_def dump_record_def)
      (simp add: output_of_def timestamp_line_def err_line_def)
  show "output_of (ut\<lparr>ut_usb_really_full := x\<rparr>) = output_of ut" "output_of (swapped bs ut) = output_of ut"
    by (simp_all add: output_of_def swapped_def)
qed

interpretation dump_bits: rx_fold cb_dump_bitstream output_of "put_output \<circ> dump_text"
proof unfold_locales
  fix ut ut' :: "('a, 'b) ubertooth_scheme" and p x bs
  show "cb_dump_bitstream ut = Some ut' \<Longrightarrow> transport ut' = transport ut"
    by (auto simp: cb_dump_bitstream_def)
  have "rb_wf (ut_packets ut) \<Longrightarrow> pkt_wf p \<Longrightarrow>
      take BANK_LEN (ringbuffer_top_bt (ringbuffer_add p (ut_packets ut))) = symbols (pkt_data p)"
    by (simp add: ring_tops pkt_wf_def)
  then show "rb_wf (ut_packets ut) \<Longrightarrow> pkt_wf p \<Longrightarrow>
      \<exists>ut'. deliver cb_dump_bitstream p ut = Some ut' \<and> output_of ut' = (put_output \<circ> dump_text) p (output_of ut)
        \<and> ut_packets ut' = ringbuffer_add p (ut_packets ut) \<and> ut_events ut' = ut_events ut
        \<and> ut_stop_ubertooth ut' = ut_stop_ubertooth ut"
    by (simp add: deliver_def cb_dump_bitstream_def dump_text_def) (simp add: output_of_def)
  show "output_of (ut\<lparr>ut_usb_really_full := x\<rparr>) = output_of ut" "output_of (swapped bs ut) = output_of ut"
    by (simp_all add: output_of_def swapped_def)
qed

lemma fold_dump_full:
  "fold (dump_full_upd time) ps (Some f, out, k) = (Some (f @ dump_records time k ps), out, k + length ps)"
  by (induction ps arbitrary: f k) (simp_all add: dump_full_upd_def put_output_def)

end
