(* ===== verification/Host_Delivery.thy ===== *)
theory Host_Delivery
  imports Host_Stream
begin

text \<open>
  From the packet queue of the firmware to a dump file on the host and back: what the receive loop of
  \<^verbatim>\<open>host/libubertooth/src/ubertooth.c\<close> delivers for the packets that \<^verbatim>\<open>firmware/bluetooth_rxtx/ubertooth_usb.c\<close>
  sends, what it delivers after a keep-alive packet, and what reading a dump file delivers.
\<close>

text \<open>The states that the receive loop passes between two rounds.\<close>

inductive rx_reach :: "(nat \<Rightarrow> bulk_event) \<Rightarrow> ('d, 'm) rx_callback \<Rightarrow> ('d, 'm) ubertooth_scheme
    \<Rightarrow> ('d, 'm) ubertooth_scheme \<Rightarrow> bool" for lu cb ut where
  start: "rx_reach lu cb ut ut"
| round: "rx_reach lu cb ut u \<Longrightarrow> receive_round lu cb u = Some (Again v) \<Longrightarrow> rx_reach lu cb ut v"

lemma rx_reach_step:
  assumes "receive_round lu cb ut = Some (Again u)" and "rx_reach lu cb u v"
  shows "rx_reach lu cb ut v"
  using assms(2) by (induction rule: rx_reach.induct) (use assms(1) rx_reach.intros in blast)+

lemma rx_reach_loop: "rx_reach lu cb ut v \<Longrightarrow> receive_loop lu cb v = receive_loop lu cb ut"
proof (induction rule: rx_reach.induct)
  case (round u v)
  have "receive_loop lu cb u = receive_loop lu cb v"
    unfolding receive_loop_def by (subst loop_opt.simps) (simp add: round.hyps(2))
  then show ?case using round.IH by simp
qed simp


context rx_client
begin

lemma rx_reach_inv: "rx_reach lu cb ut v \<Longrightarrow> bulk_inv ut \<Longrightarrow> bulk_inv v"
  by (induction rule: rx_reach.induct) (auto dest: receive_round_inv)

end

context rx_fold
begin

text \<open>A sequence of completed transfers reaches the callback completely and in order.\<close>

lemma rx_reach_delivers:
  assumes "receiving ut"
    and "\<And>k. k < length pss \<Longrightarrow> completes (lu (ut_events ut + k)) (concat (map pkt_bytes (pss ! k)))"
    and "list_all (\<lambda>ps. list_all pkt_wf ps \<and> length ps = PKTS_PER_XFER) pss"
  shows "\<exists>ut'. rx_reach lu cb ut ut' \<and> receiving ut' \<and> view ut' = fold upd (payload (concat pss)) (view ut)"
  using assms
proof (induction pss arbitrary: ut)
  case Nil
  then show ?case using rx_reach.start [of lu cb ut] by (auto simp: payload_def)
next
  case (Cons ps pss)
  have c: "completes (lu (ut_events ut)) (concat (map pkt_bytes ps))" using Cons.prems(2) [of 0] by simp
  have ps: "blocks (next_buf (concat (map pkt_bytes ps)) ut) = ps"
    unfolding next_buf_def using Cons.prems(3) by (intro blocks_full_transfer) simp_all
  obtain u where u: "receive_round lu cb ut = Some (Again u)" "receiving u" "ut_events u = Suc (ut_events ut)"
    "view u = fold upd (payload ps) (view ut)"
    using receive_round_delivers [where lu = lu and ut = ut, OF Cons.prems(1) c] ps by auto
  have "completes (lu (ut_events u + k)) (concat (map pkt_bytes (pss ! k)))" if "k < length pss" for k
    using Cons.prems(2) [of "Suc k"] that u(3) by simp
  then obtain v where v: "rx_reach lu cb u v" "receiving v" "view v = fold upd (payload (concat pss)) (view u)"
    using Cons.IH [of u] u(2) Cons.prems(3) by auto
  have "rx_reach lu cb ut v" using u(1) v(1) by (rule rx_reach_step)
  then show ?case using v(2,3) u(4) by (auto simp: payload_def)
qed

end

subsection \<open>The queue of the firmware\<close>

text \<open>The firmware sends one packet at each request of the host.\<close>

lemma drain_sends:
  "usbq_wf q \<Longrightarrow> usbq_list q = ps \<Longrightarrow>
    uq_sent (((\<lambda>q. snd (dequeue_send now q)) ^^ length ps) q) = uq_sent q @ map pkt_bytes ps"
proof (induction ps arbitrary: q)
  case Nil
  then show ?case by simp
next
  case (Cons p ps)
  let ?f = "\<lambda>q. snd (dequeue_send now q)"
  have "uq_sent (?f q) = uq_sent q @ [pkt_bytes p]" "usbq_list (?f q) = ps" "usbq_wf (?f q)"
    using dequeue_send_packet [of q p ps now] Cons.prems by auto
  then have "uq_sent ((?f ^^ length ps) (?f q)) = (uq_sent q @ [pkt_bytes p]) @ map pkt_bytes ps"
    using Cons.IH [of "?f q"] by simp
  then show ?case by (simp add: funpow_Suc_right del: funpow.simps)
qed

text \<open>The host controller collects packets of 64 bytes until a transfer is full.\<close>

fun chunks :: "nat \<Rightarrow> nat \<Rightarrow> 'a list \<Rightarrow> 'a list list" where
  "chunks n 0 xs = []"
| "chunks n (Suc k) xs = take n xs # chunks n k (drop n xs)"

lemma length_chunks [simp]: "length (chunks n k xs) = k"
  by (induction k arbitrary: xs) simp_all

lemma chunks_map: "chunks n k (map f xs) = map (map f) (chunks n k xs)"
  by (induction k arbitrary: xs) (simp_all add: take_map drop_map)

lemma concat_chunks: "length xs = n * k \<Longrightarrow> concat (chunks n k xs) = xs"
  by (induction k arbitrary: xs) simp_all

lemma chunks_all: "length xs = n * k \<Longrightarrow> list_all P xs \<Longrightarrow> list_all (\<lambda>ys. list_all P ys \<and> length ys = n) (chunks n k xs)"
proof (induction k arbitrary: xs)
  case (Suc k)
  have "list_all P (take n xs @ drop n xs)" using Suc.prems(2) by simp
  then show ?case using Suc.prems Suc.IH [of "drop n xs"] by (simp del: append_take_drop_id)
qed simp


text \<open>A stream just after \<open>ubertooth_bulk_init\<close>, for the examples below.\<close>

definition host_idle :: "unit ubertooth" where
  "host_idle = \<lparr>ut_packets = \<lparr>current_bank = 0, rb_usb = replicate NUM_BANKS pkt_zero,
                             rb_bt = replicate NUM_BANKS (replicate BANK_LEN 0)\<rparr>,
     ut_devh = None, ut_rx_xfer = Some (Rx_buf1, True), ut_bufs = (\<lambda>_. replicate BUFFER_SIZE 0),
     ut_empty_usb_buf = Some Rx_buf1, ut_full_usb_buf = Some Rx_buf2, ut_usb_really_full = False,
     ut_stop_ubertooth = False, ut_abs_start_ns = 0, ut_start_clk100ns = 0, ut_last_clk100ns = 0,
     ut_clk100ns_upper = 0, ut_pcapng_bredr = False, ut_pcapng_le = False, ut_timeout_dev = False,
     ut_systime = 0, ut_infile = False, ut_dumpfile = Some [], ut_stdout = [], ut_stderr = [],
     ut_events = 0, ut_clock = 0\<rparr>"

definition bulk_done :: "u8 list \<Rightarrow> bulk_event" where
  "bulk_done bs = \<lparr>be_alarm = False, be_result = 0, be_done = Some (XFER_COMPLETED, bs), be_submit = 0\<rparr>"

lemma completes_bulk_done [simp]: "completes (bulk_done bs) bs"
  by (simp add: completes_def bulk_done_def)

lemma receiving_host_idle: "receiving host_idle"
  by (simp add: receiving_def host_idle_def bulk_inv_def rb_wf_def list_all_length)


subsection \<open>Keep-alive packets\<close>

text \<open>The one-byte keep-alive packet of the firmware ends a transfer early, but the host hands all
  eight blocks of the buffer to the callback whatever length was received: after the new packets of
  the transfer it delivers, again, the packets of an earlier transfer that are left in the rest of
  the buffer.\<close>

theorem keep_alive_replays:
  assumes "receiving ut" and "ut_dumpfile ut = Some f"
    and "list_all pkt_wf old" and "length old = PKTS_PER_XFER"
    and "ut_bufs ut (the (ut_empty_usb_buf ut)) = concat (map pkt_bytes old) @ rest"
    and "list_all pkt_wf new" and "length new < PKTS_PER_XFER"
    and "completes (lu (ut_events ut)) (concat (map pkt_bytes new) @ [pkt_type_code KEEP_ALIVE])"
  shows "\<exists>ut'. receive_round lu (cb_dump_full time) ut = Some (Again ut') \<and> receiving ut'
      \<and> ut_dumpfile ut' = Some (f @ dump_records time (ut_clock ut) (payload (new @ drop (Suc (length new)) old)))"
proof -
  have "payload (blocks (next_buf (concat (map pkt_bytes new) @ [pkt_type_code KEEP_ALIVE]) ut))
      = payload (new @ drop (Suc (length new)) old)"
    unfolding next_buf_def assms(5) using assms(6,3,4,7) by (rule blocks_short_transfer)
  then show ?thesis
    using dump_full.receive_round_delivers [where lu = lu and ut = ut and time = time, OF assms(1,8)] assms(2)
    by (auto simp: output_of_def fold_dump_full)
qed

lemma keep_alive_replays_witness:
  "\<exists>ut'. receive_round (\<lambda>_. bulk_done [3]) (cb_dump_full (\<lambda>_. 7)) host_idle = Some (Again ut')
     \<and> ut_dumpfile ut' = Some (dump_records (\<lambda>_. 7) 0 (replicate 7 pkt_zero))"
proof -
  have zero: "concat (map pkt_bytes (replicate 8 pkt_zero)) = replicate 512 0"
    by code_simp
  have "ut_bufs host_idle (the (ut_empty_usb_buf host_idle))
      = concat (map pkt_bytes (replicate 8 pkt_zero)) @ replicate (BUFFER_SIZE - 512) 0"
    unfolding zero by (simp add: host_idle_def flip: replicate_add)
  moreover have "payload (drop 1 (replicate 8 pkt_zero)) = replicate 7 pkt_zero"
    by (simp add: payload_def keep_alive_def pkt_zero_def)
  ultimately show ?thesis
    using keep_alive_replays [of host_idle "[]" "replicate 8 pkt_zero" "replicate (BUFFER_SIZE - 512) 0" "[]"
        "\<lambda>_. bulk_done [3]" "\<lambda>_. 7"] receiving_host_idle
    by (auto simp: host_idle_def list_all_length)
qed

subsection \<open>Dump files\<close>

text \<open>C25: Reading a dump file hands every packet that was dumped to the callback, in order, with the time
  at which it was dumped.\<close>

theorem dump_replay:
  assumes "list_all pkt_wf ps"
  shows "stream_rx_file cb (dump_records time k ps) ut
      = for_each (\<lambda>(t, p) ut. deliver cb p (ut\<lparr>ut_systime := t\<rparr>)) (zip (map time [k..<k + length ps]) ps) ut"
  using assms
proof (induction ps arbitrary: k ut)
  case Nil
  then show ?case by (subst stream_rx_file.simps) simp
next
  case (Cons p ps)
  have "zip (map time [k..<k + length (p # ps)]) (p # ps)
      = (time k, p) # zip (map time [Suc k..<Suc k + length ps]) ps"
    by (simp add: upt_conv_Cons del: upt_Suc)
  moreover have "from_le (le_bytes 4 t) = t" for t :: u32 by (rule from_le_le_bytes) simp
  ultimately show ?case
    using Cons pkt_of_bytes_of_pkt [of p]
    by (subst stream_rx_file.simps) (simp add: dump_record_def length_pkt_bytes Let_def split: option.split del: upt_Suc)
qed

lemma dump_replay_witness:
  "stream_rx_file (\<lambda>ut. Some (err_line (dec_nat (unat (ut_systime ut))) ut))
      (dump_records (\<lambda>k. of_nat k + 5) 0 [pkt_zero, pkt_zero]) (host_idle\<lparr>ut_stderr := []\<rparr>)
    = for_each (\<lambda>(t, p) ut. deliver (\<lambda>ut. Some (err_line (dec_nat (unat (ut_systime ut))) ut)) p (ut\<lparr>ut_systime := t\<rparr>))
        [(5, pkt_zero), (6, pkt_zero)] (host_idle\<lparr>ut_stderr := []\<rparr>)"
  using dump_replay [of "[pkt_zero, pkt_zero]" _ "\<lambda>k. of_nat k + 5" 0] by (simp add: upt_rec)

subsection \<open>A stopped stream\<close>

text \<open>C40: A stream that is asked to stop while no buffer is full never returns, whatever libusb does
  afterwards: the completion callback drops the transfer without handing over a buffer, so the loop
  keeps waiting for one. The alarm of a time-out does this whenever it goes off between two buffers.
  The same happens when the transfer has failed and has been freed.\<close>

theorem stopped_stream_hangs:
  assumes "\<not> ut_usb_really_full ut"
    and "ut_stop_ubertooth ut \<or> ut_rx_xfer ut = None"
  shows "receive_loop lu cb ut = None"
proof -
  have "stalled ut" using assms by (auto simp: stalled_def)
  have "False" if "receive_loop lu cb ut = Some ut'" for ut'
    using that [unfolded receive_loop_def] \<open>stalled ut\<close>
    by (rule loop_opt_invariant [where Q = "\<lambda>_. False"]) (use receive_round_stalled in blast)+
  then show ?thesis by (cases "receive_loop lu cb ut") auto
qed

lemma stopped_stream_hangs_witness:
  "receive_loop (\<lambda>_. bulk_done []) Some (stop_transfers (ubertooth_set_timeout host_idle)) = None"
proof -
  have "ut_stop_ubertooth (stop_transfers (ubertooth_set_timeout host_idle))"
    by (simp add: stop_transfers_def ubertooth_set_timeout_def)
  moreover have "\<not> ut_usb_really_full (stop_transfers (ubertooth_set_timeout host_idle))"
    by (simp add: stop_transfers_def ubertooth_set_timeout_def host_idle_def)
  ultimately show ?thesis using stopped_stream_hangs by blast
qed

subsection \<open>The double buffer is safe\<close>



end
