(* ===== verification/Usb_Transfer.thy ===== *)
theory Usb_Transfer
  imports Usb_Control
begin

text \<open>
  A control transfer cut into packets does what \<open>usb_vendor_request\<close> does with the whole request:
  the data of an OUT transfer arrives in the buffer of the firmware before its handler runs, the
  reply of an IN transfer comes back in order and complete, and a request that the handler refuses
  is a stall for the host.
\<close>

subsection \<open>The handler does not look at the buffer of the endpoint\<close>

definition set_buf :: "u8 list \<Rightarrow> fw \<Rightarrow> fw" where
  "set_buf x s = s\<lparr>abVendorReqData := x\<rparr>"

lemma set_buf_select [simp]:
  "hist (set_buf x s) = hist s" "pins (set_buf x s) = pins s" "regs (set_buf x s) = regs s"
  "dfu_requested (set_buf x s) = dfu_requested s" "board_reset (set_buf x s) = board_reset s"
  "requested_mode (set_buf x s) = requested_mode s" "low_freq (set_buf x s) = low_freq s"
  "high_freq (set_buf x s) = high_freq s" "rssi_threshold (set_buf x s) = rssi_threshold s"
  "cs_threshold_req (set_buf x s) = cs_threshold_req s"
  "cs_threshold_cur (set_buf x s) = cs_threshold_cur s"
  "cs_no_squelch (set_buf x s) = cs_no_squelch s" "bt (set_buf x s) = bt s"
  "clkn_offset (set_buf x s) = clkn_offset s" "hop_mode (set_buf x s) = hop_mode s"
  "dma_discard (set_buf x s) = dma_discard s" "clk100ns_offset (set_buf x s) = clk100ns_offset s"
  "do_hop (set_buf x s) = do_hop s" "clkn (set_buf x s) = clkn s" "uq (set_buf x s) = uq s"
  "le (set_buf x s) = le s" "jam_mode (set_buf x s) = jam_mode s"
  "ego_mode (set_buf x s) = ego_mode s" "modulation (set_buf x s) = modulation s"
  "channel (set_buf x s) = channel s" "requested_channel (set_buf x s) = requested_channel s"
  "slave_mac_address (set_buf x s) = slave_mac_address s" "mode (set_buf x s) = mode s"
  "rssi_iirs (set_buf x s) = rssi_iirs s" "rr (set_buf x s) = rr s"
  by (simp_all add: set_buf_def)

lemma set_buf_update [simp]:
  "(set_buf x s)\<lparr>hist := v_hist\<rparr> = set_buf x (s\<lparr>hist := v_hist\<rparr>)"
  "(set_buf x s)\<lparr>pins := v_pins\<rparr> = set_buf x (s\<lparr>pins := v_pins\<rparr>)"
  "(set_buf x s)\<lparr>regs := v_regs\<rparr> = set_buf x (s\<lparr>regs := v_regs\<rparr>)"
  "(set_buf x s)\<lparr>dfu_requested := v_dfu_requested\<rparr> = set_buf x (s\<lparr>dfu_requested := v_dfu_requested\<rparr>)"
  "(set_buf x s)\<lparr>board_reset := v_board_reset\<rparr> = set_buf x (s\<lparr>board_reset := v_board_reset\<rparr>)"
  "(set_buf x s)\<lparr>requested_mode := v_requested_mode\<rparr> = set_buf x (s\<lparr>requested_mode := v_requested_mode\<rparr>)"
  "(set_buf x s)\<lparr>low_freq := v_low_freq\<rparr> = set_buf x (s\<lparr>low_freq := v_low_freq\<rparr>)"
  "(set_buf x s)\<lparr>high_freq := v_high_freq\<rparr> = set_buf x (s\<lparr>high_freq := v_high_freq\<rparr>)"
  "(set_buf x s)\<lparr>rssi_threshold := v_rssi_threshold\<rparr> = set_buf x (s\<lparr>rssi_threshold := v_rssi_threshold\<rparr>)"
  "(set_buf x s)\<lparr>cs_threshold_req := v_cs_threshold_req\<rparr> = set_buf x (s\<lparr>cs_threshold_req := v_cs_threshold_req\<rparr>)"
  "(set_buf x s)\<lparr>cs_threshold_cur := v_cs_threshold_cur\<rparr> = set_buf x (s\<lparr>cs_threshold_cur := v_cs_threshold_cur\<rparr>)"
  "(set_buf x s)\<lparr>cs_no_squelch := v_cs_no_squelch\<rparr> = set_buf x (s\<lparr>cs_no_squelch := v_cs_no_squelch\<rparr>)"
  "(set_buf x s)\<lparr>bt := v_bt\<rparr> = set_buf x (s\<lparr>bt := v_bt\<rparr>)"
  "(set_buf x s)\<lparr>clkn_offset := v_clkn_offset\<rparr> = set_buf x (s\<lparr>clkn_offset := v_clkn_offset\<rparr>)"
  "(set_buf x s)\<lparr>hop_mode := v_hop_mode\<rparr> = set_buf x (s\<lparr>hop_mode := v_hop_mode\<rparr>)"
  "(set_buf x s)\<lparr>dma_discard := v_dma_discard\<rparr> = set_buf x (s\<lparr>dma_discard := v_dma_discard\<rparr>)"
  "(set_buf x s)\<lparr>clk100ns_offset := v_clk100ns_offset\<rparr> = set_buf x (s\<lparr>clk100ns_offset := v_clk100ns_offset\<rparr>)"
  "(set_buf x s)\<lparr>do_hop := v_do_hop\<rparr> = set_buf x (s\<lparr>do_hop := v_do_hop\<rparr>)"
  "(set_buf x s)\<lparr>clkn := v_clkn\<rparr> = set_buf x (s\<lparr>clkn := v_clkn\<rparr>)"
  "(set_buf x s)\<lparr>uq := v_uq\<rparr> = set_buf x (s\<lparr>uq := v_uq\<rparr>)"
  "(set_buf x s)\<lparr>le := v_le\<rparr> = set_buf x (s\<lparr>le := v_le\<rparr>)"
  "(set_buf x s)\<lparr>jam_mode := v_jam_mode\<rparr> = set_buf x (s\<lparr>jam_mode := v_jam_mode\<rparr>)"
  "(set_buf x s)\<lparr>ego_mode := v_ego_mode\<rparr> = set_buf x (s\<lparr>ego_mode := v_ego_mode\<rparr>)"
  "(set_buf x s)\<lparr>modulation := v_modulation\<rparr> = set_buf x (s\<lparr>modulation := v_modulation\<rparr>)"
  "(set_buf x s)\<lparr>channel := v_channel\<rparr> = set_buf x (s\<lparr>channel := v_channel\<rparr>)"
  "(set_buf x s)\<lparr>requested_channel := v_requested_channel\<rparr> = set_buf x (s\<lparr>requested_channel := v_requested_channel\<rparr>)"
  "(set_buf x s)\<lparr>slave_mac_address := v_slave_mac_address\<rparr> = set_buf x (s\<lparr>slave_mac_address := v_slave_mac_address\<rparr>)"
  by (simp_all add: set_buf_def)

definition reply_buf :: "u8 list \<Rightarrow> reply \<Rightarrow> reply" where
  "reply_buf x = (\<lambda>(rv, data, len, s). (rv, data, len, set_buf x s))"

lemma reply_buf_simps [simp]:
  "reply_buf x (reply_none data len s) = reply_none data len (set_buf x s)"
  "reply_buf x (reply_bytes bs data s) = reply_bytes bs data (set_buf x s)"
  "reply_buf x (reply_stall data len s) = reply_stall data len (set_buf x s)"
  by (simp_all add: reply_buf_def reply_none_def reply_bytes_def reply_stall_def)

lemma cs_threshold_set_buf [simp]:
  "cs_threshold_set w l n (set_buf x s) = set_buf x (cs_threshold_set w l n s)"
  by (simp add: cs_threshold_set_def Let_def)

lemma cs_threshold_buf [simp]:
  "cs_threshold_calc_and_set w (set_buf x s) = set_buf x (cs_threshold_calc_and_set w s)"
  by (simp only: cs_threshold_calc_and_set_def Let_def set_buf_select cs_threshold_set_buf)

lemma set_channel_buf [simp]: "set_channel w p0 (set_buf x s) = set_buf x (set_channel w p0 s)"
  by (simp add: set_channel_def Let_def)

lemma reg_write_buf [simp]: "reg_write r v (set_buf x s) = set_buf x (reg_write r v s)"
  by (simp add: reg_write_def)

lemma reg_writes_buf [simp]: "reg_writes rs v (set_buf x s) = set_buf x (reg_writes rs v s)"
  unfolding reg_writes_def by (induction rs arbitrary: s) simp_all

lemma pin_buf [simp]:
  "pin_write p v (set_buf x s) = set_buf x (pin_write p v s)" "pin_byte p (set_buf x s) = pin_byte p s"
  "reset_board (set_buf x s) = set_buf x (reset_board s)" "pin_set p (set_buf x s) = set_buf x (pin_set p s)"
  by (simp_all add: pin_write_def pin_byte_def pin_set_def pin_clr_def reset_board_def all_pins_off_def
    outputs_low_def feed_def reg_or_def Let_def)

lemma rd_get_buf [simp]: "rd_get w r (set_buf x s) = apsnd (set_buf x) (rd_get w r s)"
  by (simp add: rd_get_def split_beta)

lemma vendor_groups_buf:
  "vendor_leds c p0 data len (set_buf x s) = map_option (reply_buf x) (vendor_leds c p0 data len s)"
  "vendor_ids w c data len (set_buf x s) = map_option (reply_buf x) (vendor_ids w c data len s)"
  "vendor_amplifier c p0 data len (set_buf x s) = map_option (reply_buf x) (vendor_amplifier c p0 data len s)"
  "vendor_transmit w c p0 data len (set_buf x s) = map_option (reply_buf x) (vendor_transmit w c p0 data len s)"
  "vendor_channel w c p0 data len (set_buf x s) = map_option (reply_buf x) (vendor_channel w c p0 data len s)"
  "vendor_system w c p0 p1 data len (set_buf x s) = map_option (reply_buf x) (vendor_system w c p0 p1 data len s)"
  "vendor_hopping w c data len (set_buf x s) = map_option (reply_buf x) (vendor_hopping w c data len s)"
  "vendor_le w c p0 data len (set_buf x s) = map_option (reply_buf x) (vendor_le w c p0 data len s)"
  "vendor_modes w c p0 p1 data len (set_buf x s) = map_option (reply_buf x) (vendor_modes w c p0 p1 data len s)"
          apply (cases c; simp add: vendor_leds_def)
         apply (cases c; simp add: vendor_ids_def Let_def)
        apply (cases c; simp add: vendor_amplifier_def)
       apply (cases c; simp add: vendor_transmit_def split_beta Let_def)
      apply (cases c; simp add: vendor_channel_def)
     apply (cases c; simp add: vendor_system_def Let_def)
    apply (cases c; simp add: vendor_hopping_def Let_def)
   apply (cases c; simp add: vendor_le_def Let_def split: option.split)
  apply (cases c; simp add: vendor_modes_def Let_def split_beta)
  done

lemma first_reply_map: "first_reply (map (map_option f) rs) (f d) = f (first_reply rs d)"
  by (induction rs d rule: first_reply.induct) simp_all

lemma vendor_request_buf:
  "vendor_request_handler w request p0 p1 data len (set_buf x s)
   = reply_buf x (vendor_request_handler w request p0 p1 data len s)"
proof (cases "cmd_of request")
  case None
  then show ?thesis by (simp add: vendor_request_handler_def)
next
  case (Some c)
  have "vendor_groups w c p0 p1 data len (set_buf x s) = map (map_option (reply_buf x)) (vendor_groups w c p0 p1 data len s)"
    by (simp only: vendor_groups_def vendor_groups_buf list.map)
  then show ?thesis
    by (simp only: vendor_request_groups [OF Some] flip: first_reply_map) (simp only: reply_buf_simps)
qed

subsection \<open>Packets towards the host\<close>

lemma packets_Nil [simp]: "packets [] = []"
  by (simp add: packets.simps)

lemma packets_step: "bs \<noteq> [] \<Longrightarrow> packets bs = take 64 bs # packets (drop 64 bs)"
  by (subst packets.simps) simp

text \<open>Sending changes the data pointer, the residue and the log only.\<close>

definition sending :: "usbdev \<Rightarrow> usbdev \<Rightarrow> bool" where
  "sending s t \<longleftrightarrow> t = s\<lparr>us_pbData := us_pbData t, us_iResidue := us_iResidue t, us_log := us_log t\<rparr>"

lemma sending_refl [simp]: "sending s s"
  by (simp add: sending_def)

lemma sending_trans: "sending s t \<Longrightarrow> sending t u \<Longrightarrow> sending s u"
  unfolding sending_def by (cases s; cases t; cases u) simp

lemma sending_mem: "sending s t \<Longrightarrow> mem_get m t = mem_get m s"
  unfolding sending_def by (cases s; cases t; cases m) simp_all

lemma sending_fw: "sending s t \<Longrightarrow> us_fw t = us_fw s"
  unfolding sending_def by (cases s; cases t) simp

text \<open>One packet of a reply of which \<open>r\<close> bytes at \<open>off\<close> are left.\<close>

lemma DataIn_step:
  assumes "us_pbData s = (m, off)" and "us_iResidue s = int r"
  shows "if off + min 64 r \<le> length (mem_get m s) \<or> r = 0
         then \<exists>t. DataIn s = Some t \<and> sending s t \<and> us_pbData t = (m, off + min 64 r)
                \<and> us_iResidue t = int (r - min 64 r)
                \<and> sent_packet t = Some (take (min 64 r) (drop off (mem_get m s)))
         else DataIn s = None"
proof -
  have c: "nat (min 64 (int r)) = min 64 r" by simp
  show ?thesis
    using assms unfolding DataIn_def Let_def
    by (auto simp: c hw_do_def sending_def sent_packet_def of_nat_diff)
qed

lemma host_read_reply:
  assumes "us_pbData s = (m, off)" and "us_iResidue s = int r" and "sent_packet s = Some p"
    and "length p + r \<le> n" and "length p < 64 \<Longrightarrow> r = 0" and "off + r \<le> length (mem_get m s)"
  shows "\<exists>t. host_read w es n s = Some (p @ take r (drop off (mem_get m s)), t) \<and> sending s t \<and> us_iResidue t = 0"
  using assms
proof (induction r arbitrary: s off p n rule: less_induct)
  case (less r)
  from DataIn_step [OF less.prems(1,2)] less.prems(6)
  obtain t where t: "DataIn s = Some t" "sending s t" "us_pbData t = (m, off + min 64 r)"
    "us_iResidue t = int (r - min 64 r)" "sent_packet t = Some (take (min 64 r) (drop off (mem_get m s)))"
    by (auto split: if_splits)
  show ?case
  proof (cases "length p < 64 \<or> n \<le> length p")
    case True
    then have "r = 0" using less.prems(4,5) by auto
    then show ?thesis
      using True t less.prems(3,4) by (subst host_read.simps) auto
  next
    case False
    let ?r = "r - min 64 r" and ?p = "take (min 64 r) (drop off (mem_get m s))"
    have lp: "length ?p = min 64 r" using less.prems(6) by simp
    show ?thesis
    proof (cases "r = 0")
      case True
      have "\<exists>u. host_read w es (n - length p) t = Some ([], u) \<and> sending t u \<and> us_iResidue u = 0"
        using DataIn_step [of t m "off + min 64 r" 0] t True
        by (subst host_read.simps) (auto split: if_splits)
      then show ?thesis
        using False True t less.prems(3) by (subst host_read.simps) (auto intro: sending_trans)
    next
      case r: False
      have "\<exists>u. host_read w es (n - length p) t = Some (?p @ take ?r (drop (off + min 64 r) (mem_get m t)), u)
              \<and> sending t u \<and> us_iResidue u = 0"
      proof (rule less.IH)
        show "?r < r" using r by simp
        show "length ?p + ?r \<le> n - length p" using lp less.prems(4) by simp
        show "length ?p < 64 \<Longrightarrow> ?r = 0" using lp by auto
        show "off + min 64 r + ?r \<le> length (mem_get m t)"
          using less.prems(6) sending_mem [OF t(2)] by simp
      qed (use t in simp_all)
      moreover have "?p @ take ?r (drop (off + min 64 r) (mem_get m s)) = take r (drop off (mem_get m s))"
        by (metis drop_drop add.commute le_add_diff_inverse min.cobounded2 take_add)
      ultimately show ?thesis
        using False t less.prems(3) sending_mem [OF t(2), of m]
        by (subst host_read.simps) (auto intro: sending_trans)
    qed
  qed
qed

lemma host_read_overread:
  assumes "us_pbData s = (m, off)" and "us_iResidue s = int r" and "sent_packet s = Some p"
    and "length p + r \<le> n" and "length p = 64" and "off \<le> length (mem_get m s)"
    and "length (mem_get m s) < off + r"
  shows "host_read w es n s = None"
  using assms
proof (induction r arbitrary: s off p n rule: less_induct)
  case (less r)
  have go: "\<not> (length p < 64 \<or> n \<le> length p)" using less.prems by auto
  show ?case
  proof (cases "off + min 64 r \<le> length (mem_get m s)")
    case False
    then have "DataIn s = None" using DataIn_step [OF less.prems(1,2)] less.prems(6) by (auto split: if_splits)
    then show ?thesis using less.prems(3) by (subst host_read.simps) simp
  next
    case True
    with DataIn_step [OF less.prems(1,2)] obtain t where
      t: "DataIn s = Some t" "sending s t" "us_pbData t = (m, off + min 64 r)"
      "us_iResidue t = int (r - min 64 r)" "sent_packet t = Some (take (min 64 r) (drop off (mem_get m s)))"
      by (auto split: if_splits)
    have big: "64 < r" using True less.prems(7) by (auto simp: min_def split: if_splits)
    have "host_read w es (n - length p) t = None"
    proof (rule less.IH)
      show "r - min 64 r < r" using big by simp
      show "length (take (min 64 r) (drop off (mem_get m s))) + (r - min 64 r) \<le> n - length p"
        using less.prems(4,5) True by simp
      show "length (take (min 64 r) (drop off (mem_get m s))) = 64" using big True by simp
      show "length (mem_get m t) < off + min 64 r + (r - min 64 r)"
        using less.prems(7) sending_mem [OF t(2), of m] by simp
    qed (use t True sending_mem [OF t(2), of m] in simp_all)
    then show ?thesis using t go less.prems(3) by (subst host_read.simps) simp
  qed
qed

subsection \<open>Packets from the host\<close>

lemma put_at_chunks:
  "off + length bs \<le> length xs \<Longrightarrow>
   put_at (off + min n (length bs)) (drop n bs) (put_at off (take n bs) xs) = put_at off bs xs"
  by (rule nth_equalityI) (auto simp: nth_put_at)

text \<open>The state in which the rest \<open>bs\<close> of the data of a vendor request is awaited.\<close>

definition awaiting :: "nat \<Rightarrow> u8 list \<Rightarrow> usbdev \<Rightarrow> bool" where
  "awaiting off bs s \<longleftrightarrow> us_pbData s = (Vendor_store, off) \<and> us_iResidue s = int (length bs)
     \<and> REQTYPE_GET_TYPE (bmRequestType (us_Setup s)) = 2 \<and> us_stores s ! 2 = (Vendor_store, 0)"

definition received :: "nat \<Rightarrow> u8 list \<Rightarrow> usbdev \<Rightarrow> usbdev" where
  "received off bs s = s\<lparr>us_fw := set_buf (put_at off bs (abVendorReqData (us_fw s))) (us_fw s),
     us_iResidue := 0, us_pbData := (Vendor_store, 0)\<rparr>"

lemma host_write_data:
  assumes "awaiting off bs s" and "bs \<noteq> []" and "off \<le> length (abVendorReqData (us_fw s))"
  shows "host_write w es (packets bs) s =
    (if off + length bs \<le> length (abVendorReqData (us_fw s))
     then call_handler w es False (received off bs s) else None)"
  using assms
proof (induction bs arbitrary: off s rule: packets.induct)
  case (1 bs)
  let ?B = "abVendorReqData (us_fw s)" and ?p = "take 64 bs"
  have s: "us_pbData s = (Vendor_store, off)" "us_iResidue s = int (length bs)"
    "REQTYPE_GET_TYPE (bmRequestType (us_Setup s)) = 2" "us_stores s ! 2 = (Vendor_store, 0)"
    using "1.prems"(1) by (simp_all add: awaiting_def)
  have p: "take (nat (int (length bs))) ?p = ?p" "?p \<noteq> []" using "1.prems"(2) by (simp_all add: min_def)
  show ?case
  proof (cases "off + length ?p \<le> length ?B")
    case False
    then have "ep0_out w es (Some ?p) s = None"
      using "1.prems"(2) s p by (simp add: ep0_out_def ep_read_def)
    moreover have "\<not> off + length bs \<le> length ?B" using False by auto
    ultimately show ?thesis using "1.prems"(2) by (simp add: packets_step)
  next
    case True
    let ?t = "s\<lparr>us_fw := set_buf (put_at off ?p ?B) (us_fw s), us_pbData := (Vendor_store, off + length ?p),
                us_iResidue := int (length bs) - int (length ?p)\<rparr>"
    have st: "store_at (Vendor_store, off) ?p s = Some (s\<lparr>us_fw := set_buf (put_at off ?p ?B) (us_fw s)\<rparr>)"
      using True p(2) by (simp add: set_buf_def)
    show ?thesis
    proof (cases "length bs \<le> 64")
      case last: True
      then have "ep0_out w es (Some ?p) s = call_handler w es False (received off bs s)"
        using "1.prems"(2) s st by (simp add: ep0_out_def ep_read_def received_def)
      with last True "1.prems"(2) show ?thesis
        by (simp add: packets_step split: option.split)
    next
      case False
      then have n: "drop 64 bs \<noteq> []" by simp
      have step: "ep0_out w es (Some ?p) s = Some ?t"
        using "1.prems"(2) s st False by (simp add: ep0_out_def ep_read_def min_def)
      have "host_write w es (packets (drop 64 bs)) ?t =
          (if off + 64 + length (drop 64 bs) \<le> length (abVendorReqData (us_fw ?t))
           then call_handler w es False (received (off + 64) (drop 64 bs) ?t) else None)"
      proof (rule "1.IH")
        show "awaiting (off + 64) (drop 64 bs) ?t"
          using s False by (simp add: awaiting_def of_nat_diff min_def)
      qed (use "1.prems"(2) n True False in \<open>simp_all add: set_buf_def\<close>)
      moreover have "received (off + 64) (drop 64 bs) ?t = received off bs s"
        if "off + length bs \<le> length ?B"
        using that False put_at_chunks [of off bs ?B 64] by (simp add: received_def set_buf_def min_def)
      ultimately show ?thesis
        using "1.prems"(2) step True False by (simp add: packets_step set_buf_def)
    qed
  qed
qed

subsection \<open>Whole transfers\<close>

definition usb_ready :: "usbdev \<Rightarrow> bool" where
  "usb_ready s \<longleftrightarrow> us_handlers s ! 2 = Some Vendor_handler \<and> us_stores s ! 2 = (Vendor_store, 0)
     \<and> us_handlers s ! 0 = Some Standard_handler \<and> us_stores s ! 0 = (Std_store, 0)"

lemma usb_ready_init: "usb_ready (ubertooth_usb_init (usbdev_initial f))"
  by (simp add: usb_ready_def ubertooth_usb_init_def USBInit_def USBRegisterRequestHandler_def
    USBRegisterWinusbInterface_def hw_do_def usbdev_initial_def Let_def)

definition request_wf :: "bool \<Rightarrow> usb_request \<Rightarrow> bool" where
  "request_wf din rq \<longleftrightarrow> rq_length rq < 65536
     \<and> (if din then rq_data rq = [] else rq_length rq = length (rq_data rq))"

text \<open>What the host has seen of a request that \<open>usb_vendor_request\<close> has completed: nothing if it
  stalled, otherwise the data of the reply.\<close>

definition control_reply :: "fw \<Rightarrow> u8 list option" where
  "control_reply t = (case last (hist t) of Reply True bs \<Rightarrow> Some bs | _ \<Rightarrow> None)"

lemma from_le_bytes_2: "from_le [byte_at 0 v, byte_at 1 v] = (v::u16)"
  using from_le_le_bytes [of 2 v] by (simp add: le_bytes_def numeral_2_eq_2)

lemma setup_round_trip [simp]: "setup_of_bytes (setup_bytes p) = p"
proof -
  have "setup_bytes p = [bmRequestType p, bRequest p, byte_at 0 (wValue p), byte_at 1 (wValue p),
      byte_at 0 (wIndex p), byte_at 1 (wIndex p), byte_at 0 (wLength p), byte_at 1 (wLength p)]"
    by (simp add: setup_bytes_def le_bytes_def numeral_2_eq_2)
  then show ?thesis
    by (simp add: setup_of_bytes_def from_le_bytes_2 del: One_nat_def from_le.simps)
qed

lemma length_setup_bytes [simp]: "length (setup_bytes p) = 8"
  by (simp add: setup_bytes_def)

lemma put_at_whole [simp]: "length src = length dst \<Longrightarrow> put_at 0 src dst = src"
  by (simp add: put_at_def)

lemma setup_of_request_simps [simp]:
  "REQTYPE_GET_TYPE (bmRequestType (setup_of_request din rq)) = 2"
  "REQTYPE_GET_DIR (bmRequestType (setup_of_request din rq)) = 1 \<longleftrightarrow> din"
  "bRequest (setup_of_request din rq) = rq_request rq" "wValue (setup_of_request din rq) = rq_value rq"
  "wIndex (setup_of_request din rq) = rq_index rq" "wLength (setup_of_request din rq) = of_nat (rq_length rq)"
  by (simp_all add: setup_of_request_def REQTYPE_GET_TYPE_def REQTYPE_GET_DIR_def)

lemma unat_request_length: "request_wf din rq \<Longrightarrow> unat (of_nat (rq_length rq) :: u16) = rq_length rq"
  by (simp add: request_wf_def unat_of_nat take_bit_nat_eq_self)

text \<open>The handler of vendor requests, reached through the table.\<close>

lemma HandleRequest_vendor:
  assumes "usb_ready s" and "REQTYPE_GET_TYPE (bmRequestType su) = 2" and "us_bMsVendorIndex s \<noteq> bRequest su"
    and "fw_inv (us_fw s)" and "vendor_request_handler w (bRequest su) (wValue su) (wIndex su)
      (abVendorReqData (us_fw s)) (nat n) (us_fw s) = (rv, data, len, f)"
  shows "HandleRequest w es su n (Vendor_store, 0) s
       = Some (rv = 1, int len, (Vendor_store, 0), s\<lparr>us_fw := set_buf data f\<rparr>) \<and> length data = 258"
proof -
  have "length (abVendorReqData (us_fw s)) = 258" using assms(4) by (simp add: fw_inv_def)
  then have "reply_ok (nat n) (rv, data, len, f)"
    using vendor_request_keeps [OF _ assms(4)] assms(5) by metis
  then have "length data = 258" and "length (abVendorReqData f) = 258"
    by (simp_all add: reply_ok_def fw_inv_def)
  then show ?thesis
    using assms
    by (auto simp: HandleRequest_def usb_ready_def USBFilterOsVendorMessage_def usb_vendor_request_handler_def
        set_buf_def split: option.split)
qed

text \<open>An answer of \<open>r\<close> bytes at the data pointer that the handler has set.\<close>

lemma answer_sent:
  assumes "HandleRequest w es (us_Setup s) (us_iLen s) (us_pbData s) s = Some (True, int len, (m, off), s')"
    and "us_Setup s' = us_Setup s" and "us_iResidue s' = us_iResidue s"
    and "r = (if clip then min len (unat (wLength (us_Setup s))) else 0)"
    and "\<not> clip \<Longrightarrow> us_iResidue s = 0" and "r \<le> n" and "off \<le> length (mem_get m s')"
  shows "map_option (apsnd us_fw) (Option.bind (call_handler w es clip s) (host_answer w es din n))
       = (if off + r \<le> length (mem_get m s')
          then Some (Some (take r (drop off (mem_get m s'))), us_fw s') else None)"
proof -
  let ?D = "mem_get m s'"
  define s1 where "s1 = s'\<lparr>us_iLen := int len, us_pbData := (m, off)\<rparr>"
  define s2 where "s2 = (if clip then s1\<lparr>us_iResidue := min (int len) (uint (wLength (us_Setup s1)))\<rparr> else s1)"
  have call: "call_handler w es clip s = DataIn s2"
    unfolding call_handler_def assms(1) option.case prod.case Let_def s2_def s1_def by simp
  have p: "us_pbData s2 = (m, off)" and fw: "us_fw s2 = us_fw s'" and mem: "mem_get m s2 = ?D"
    and res: "us_iResidue s2 = int r"
    using assms(2-5) by (simp_all add: s2_def s1_def of_nat_min) (cases m; simp add: s2_def s1_def)
  show ?thesis
  proof (cases "off + min 64 r \<le> length ?D")
    case False
    then have "DataIn s2 = None" using DataIn_step [OF p res] assms(7) mem by (auto split: if_splits)
    moreover have "\<not> off + r \<le> length ?D" using False by auto
    ultimately show ?thesis by (simp add: call)
  next
    case True
    with DataIn_step [OF p res] mem obtain t where t: "DataIn s2 = Some t" "sending s2 t"
      "us_pbData t = (m, off + min 64 r)" "us_iResidue t = int (r - min 64 r)"
      "sent_packet t = Some (take (min 64 r) (drop off ?D))"
      by (auto split: if_splits)
    let ?p = "take (min 64 r) (drop off ?D)"
    have memt: "mem_get m t = ?D" using sending_mem [OF t(2)] mem by simp
    have lp: "length ?p = min 64 r" using True by simp
    show ?thesis
    proof (cases "off + r \<le> length ?D")
      case r: True
      have "\<exists>u. host_read w es n t = Some (?p @ take (r - min 64 r) (drop (off + min 64 r) (mem_get m t)), u)
          \<and> sending t u \<and> us_iResidue u = 0"
        using lp assms(6) r memt by (intro host_read_reply [OF t(3,4,5)]) auto
      moreover have "?p @ take (r - min 64 r) (drop (off + min 64 r) ?D) = take r (drop off ?D)"
        by (metis drop_drop add.commute le_add_diff_inverse min.cobounded2 take_add)
      ultimately obtain u where u: "host_read w es n t = Some (take r (drop off ?D), u)" "sending t u" "us_iResidue u = 0"
        using memt by auto
      then have "us_fw u = us_fw s'" using sending_fw [OF t(2)] sending_fw [OF u(2)] fw by simp
      with u r show ?thesis by (simp add: call t(1) host_answer_def t(5) ep0_out_def)
    next
      case r: False
      have "host_read w es n t = None"
        using lp assms(6) r memt True by (intro host_read_overread [OF t(3,4,5)]) auto
      with r show ?thesis by (simp add: call t(1) host_answer_def t(5))
    qed
  qed
qed

lemma answer_of_handler:
  assumes "HandleRequest w es (us_Setup s) (us_iLen s) (us_pbData s) s
      = Some (ok, int len, (Vendor_store, 0), s\<lparr>us_fw := set_buf data f\<rparr>)"
    and "length data = 258"
    and "r = (if clip then min len (unat (wLength (us_Setup s))) else 0)"
    and "\<not> clip \<Longrightarrow> us_iResidue s = 0" and "r \<le> n"
  shows "map_option (apsnd us_fw) (Option.bind (call_handler w es clip s) (host_answer w es din n))
       = (if \<not> ok then Some (None, set_buf data f)
          else if r \<le> 258 then Some (Some (take r data), set_buf data f) else None)"
proof (cases ok)
  case False
  then show ?thesis
    using assms(1) by (simp add: call_handler_def StallControlPipe_def hw_do_def host_answer_def sent_packet_def)
next
  case True
  have "mem_get Vendor_store (s\<lparr>us_fw := set_buf data f\<rparr>) = data" by (simp add: set_buf_def)
  with answer_sent [OF assms(1) [unfolded eqTrueI [OF True]] _ _ assms(3-5), of din] assms(2) True
  show ?thesis by simp
qed

lemma handle_setup:
  "USBHandleControlTransfer w es (Setup_packet (Some (setup_bytes su))) s =
    (let s = s\<lparr>us_Setup := su, us_pbData := us_stores s ! unat (REQTYPE_GET_TYPE (bmRequestType su)),
               us_iResidue := uint (wLength su), us_iLen := uint (wLength su)\<rparr>
     in if wLength su = 0 \<or> REQTYPE_GET_DIR (bmRequestType su) = 1
        then call_handler w es True s else Some s)"
  by (simp add: ep0_setup_def Let_def)

lemma request_zero: "request_wf din rq \<Longrightarrow> (of_nat (rq_length rq) :: u16) = 0 \<longleftrightarrow> rq_length rq = 0"
  using unat_request_length [of din rq] by (auto simp flip: unat_eq_zero)

lemma uint_request_length: "request_wf din rq \<Longrightarrow> uint (of_nat (rq_length rq) :: u16) = int (rq_length rq)"
  using unat_request_length [of din rq] by (simp add: uint_nat)

text \<open>The state after the setup packet.\<close>

definition set_up :: "bool \<Rightarrow> usb_request \<Rightarrow> usbdev \<Rightarrow> usbdev" where
  "set_up din rq s = s\<lparr>us_Setup := setup_of_request din rq, us_pbData := (Vendor_store, 0),
              us_iResidue := int (rq_length rq), us_iLen := int (rq_length rq)\<rparr>"

lemma set_up_simps [simp]:
  "us_Setup (set_up din rq s) = setup_of_request din rq" "us_pbData (set_up din rq s) = (Vendor_store, 0)"
  "us_iResidue (set_up din rq s) = int (rq_length rq)" "us_iLen (set_up din rq s) = int (rq_length rq)"
  "us_fw (set_up din rq s) = us_fw s" "us_stores (set_up din rq s) = us_stores s"
  "us_bMsVendorIndex (set_up din rq s) = us_bMsVendorIndex s" "usb_ready (set_up din rq s) = usb_ready s"
  by (simp_all add: set_up_def usb_ready_def)

lemma handle_setup_request:
  assumes "usb_ready s" and "request_wf din rq"
  shows "USBHandleControlTransfer w es (Setup_packet (Some (setup_bytes (setup_of_request din rq)))) s
       = (if rq_length rq = 0 \<or> din then call_handler w es True (set_up din rq s) else Some (set_up din rq s))"
proof -
  have "us_stores s ! 2 = (Vendor_store, 0)" using assms(1) by (simp add: usb_ready_def)
  then show ?thesis
    unfolding handle_setup Let_def setup_of_request_simps uint_request_length [OF assms(2)] request_zero [OF assms(2)]
    by (simp add: set_up_def)
qed

lemma host_control_in:
  assumes "usb_ready s" and "request_wf din rq" and "rq_data rq = []"
  shows "host_control w es din rq s
       = Option.bind (call_handler w es True (set_up din rq s)) (host_answer w es din (if din then rq_length rq else 0))"
proof -
  have dir: "rq_length rq = 0 \<or> din" using assms(2,3) by (auto simp: request_wf_def split: if_splits)
  show ?thesis
    unfolding host_control_def handle_setup_request [OF assms(1,2)] using dir assms(3) by simp
qed

lemma host_control_out:
  assumes "usb_ready s" and "request_wf din rq" and "rq_data rq \<noteq> []"
    and "length (abVendorReqData (us_fw s)) = 258"
  shows "host_control w es din rq s =
    (if length (rq_data rq) \<le> 258
     then Option.bind (call_handler w es False (received 0 (rq_data rq) (set_up din rq s))) (host_answer w es din 0)
     else None)"
proof -
  have din: "\<not> din" and n: "rq_length rq = length (rq_data rq)" "rq_length rq \<noteq> 0"
    using assms(2,3) by (auto simp: request_wf_def split: if_splits)
  have "awaiting 0 (rq_data rq) (set_up din rq s)"
    using assms(1) n by (simp add: awaiting_def usb_ready_def)
  from host_write_data [OF this assms(3), of w es] assms(4)
  have "host_write w es (packets (rq_data rq)) (set_up din rq s) =
      (if length (rq_data rq) \<le> 258 then call_handler w es False (received 0 (rq_data rq) (set_up din rq s)) else None)"
    by simp
  then show ?thesis
    unfolding host_control_def handle_setup_request [OF assms(1,2)] using din n by simp
qed

lemma transfer_in:
  assumes "usb_ready s" and "fw_inv (us_fw s)" and "rq_request rq \<noteq> us_bMsVendorIndex s"
    and "request_wf din rq" and "rq_data rq = []"
    and h: "vendor_request_handler w (rq_request rq) (rq_value rq) (rq_index rq)
      (abVendorReqData (us_fw s)) (rq_length rq) (us_fw s) = (rv, data, n, f)"
  shows "map_option (apsnd us_fw) (host_control w es din rq s)
       = (if rv \<noteq> 1 then Some (None, set_buf data f)
          else if min n (rq_length rq) \<le> 258 then Some (Some (take (min n (rq_length rq)) data), set_buf data f)
          else None) \<and> length data = 258"
proof -
  have dir: "rq_length rq = 0 \<or> din" using assms(4,5) by (auto simp: request_wf_def split: if_splits)
  let ?s = "set_up din rq s"
  have "usb_ready ?s" using assms(1) by simp
  from HandleRequest_vendor [OF this, of "us_Setup ?s" w "us_iLen ?s" rv data n f es] h assms(2,3)
  have H: "HandleRequest w es (us_Setup ?s) (us_iLen ?s) (us_pbData ?s) ?s
      = Some (rv = 1, int n, (Vendor_store, 0), ?s\<lparr>us_fw := set_buf data f\<rparr>)" and "length data = 258"
    by simp_all
  moreover have "min n (rq_length rq) = (if True then min n (unat (wLength (us_Setup ?s))) else 0)"
    using unat_request_length [OF assms(4)] by simp
  moreover have "min n (rq_length rq) \<le> (if din then rq_length rq else 0)" using dir by auto
  ultimately have "map_option (apsnd us_fw) (Option.bind (call_handler w es True ?s)
      (host_answer w es din (if din then rq_length rq else 0)))
    = (if \<not> rv = 1 then Some (None, set_buf data f)
       else if min n (rq_length rq) \<le> 258 then Some (Some (take (min n (rq_length rq)) data), set_buf data f) else None)"
    by (intro answer_of_handler) simp_all
  with \<open>length data = 258\<close> show ?thesis
    unfolding host_control_in [OF assms(1,4,5)] by simp
qed

lemma transfer_out:
  assumes "usb_ready s" and "fw_inv (us_fw s)" and "rq_request rq \<noteq> us_bMsVendorIndex s"
    and "request_wf din rq" and "rq_data rq \<noteq> []" and "length (rq_data rq) \<le> 258"
    and h: "vendor_request_handler w (rq_request rq) (rq_value rq) (rq_index rq)
      (put_at 0 (rq_data rq) (abVendorReqData (us_fw s))) (rq_length rq) (us_fw s) = (rv, data, n, f)"
  shows "map_option (apsnd us_fw) (host_control w es din rq s)
       = (if rv \<noteq> 1 then Some (None, set_buf data f) else Some (Some [], set_buf data f))"
proof -
  let ?B = "put_at 0 (rq_data rq) (abVendorReqData (us_fw s))"
  let ?r = "received 0 (rq_data rq) (set_up din rq s)"
  have B: "length (abVendorReqData (us_fw s)) = 258" using assms(2) by (simp add: fw_inv_def)
  have fwr: "us_fw ?r = set_buf ?B (us_fw s)" by (simp add: received_def)
  have buf: "abVendorReqData (us_fw ?r) = ?B" by (simp add: fwr set_buf_def)
  have inv: "fw_inv (us_fw ?r)"
    using assms(2,6) B unfolding fwr by (simp add: fw_inv_def) (simp add: set_buf_def)
  have hr: "vendor_request_handler w (rq_request rq) (rq_value rq) (rq_index rq)
      (abVendorReqData (us_fw ?r)) (rq_length rq) (us_fw ?r) = (rv, data, n, set_buf ?B f)"
    unfolding buf unfolding fwr vendor_request_buf h by (simp add: reply_buf_def)
  have r: "us_Setup ?r = setup_of_request din rq" "us_iLen ?r = int (rq_length rq)" "us_pbData ?r = (Vendor_store, 0)"
    "us_iResidue ?r = 0" "us_bMsVendorIndex ?r = us_bMsVendorIndex s" "usb_ready ?r"
    using assms(1) by (simp_all add: received_def usb_ready_def) (simp_all add: set_up_def)
  have "set_buf data (set_buf ?B f) = set_buf data f" by (simp add: set_buf_def)
  with HandleRequest_vendor [OF r(6), of "us_Setup ?r" w "us_iLen ?r" rv data n "set_buf ?B f" es] hr inv assms(3) r
  have H: "HandleRequest w es (us_Setup ?r) (us_iLen ?r) (us_pbData ?r) ?r
      = Some (rv = 1, int n, (Vendor_store, 0), ?r\<lparr>us_fw := set_buf data f\<rparr>)" and "length data = 258"
    by simp_all
  then have "map_option (apsnd us_fw) (Option.bind (call_handler w es False ?r) (host_answer w es din 0))
    = (if \<not> rv = 1 then Some (None, set_buf data f)
       else if 0 \<le> (258::nat) then Some (Some (take 0 data), set_buf data f) else None)"
    using r(4) by (intro answer_of_handler) simp_all
  then show ?thesis
    unfolding host_control_out [OF assms(1,4,5) B] using assms(6) by simp
qed

text \<open>C2: The control endpoint of the USB stack implements vendor requests: whatever request the host
  makes, cutting the transfer into a setup packet, packets of 64 bytes and a status packet gives the
  host the same answer, and leaves the firmware in the same state, as \<open>usb_vendor_request\<close> does on
  the whole request; it stalls, and it makes an access outside the control buffer, on the same
  requests.\<close>

theorem control_transfer_refines:
  assumes "usb_ready s" and "fw_inv (us_fw s)" and "rq_request rq \<noteq> us_bMsVendorIndex s"
    and "request_wf din rq"
  shows "map_option (apsnd us_fw) (host_control w es din rq s)
       = map_option (\<lambda>t. (control_reply t, t\<lparr>hist := butlast (hist t)\<rparr>))
           (usb_vendor_request w rq (us_fw s))"
proof -
  let ?B = "abVendorReqData (us_fw s)"
  have B: "length ?B = 258" using assms(2) by (simp add: fw_inv_def)
  obtain rv data n f where h: "vendor_request_handler w (rq_request rq) (rq_value rq) (rq_index rq)
      (put_at 0 (rq_data rq) ?B) (rq_length rq) (us_fw s) = (rv, data, n, f)"
    by (metis prod_cases4)
  show ?thesis
  proof (cases "rq_data rq = []")
    case True
    with h have "vendor_request_handler w (rq_request rq) (rq_value rq) (rq_index rq) ?B (rq_length rq) (us_fw s)
        = (rv, data, n, f)" by (simp add: put_at_def)
    from transfer_in [OF assms True this, of es] show ?thesis
      unfolding usb_vendor_request_def h Let_def prod.case using True
      by (auto simp: control_reply_def set_buf_def)
  next
    case False
    show ?thesis
    proof (cases "length (rq_data rq) \<le> 258")
      case short: True
      from transfer_out [OF assms False short h, of es] show ?thesis
        unfolding usb_vendor_request_def h Let_def prod.case using False short B
        by (simp add: control_reply_def set_buf_def)
    next
      case long: False
      then show ?thesis
        unfolding host_control_out [OF assms(1,4) False B] by (simp add: usb_vendor_request_def B)
    qed
  qed
qed

lemma control_transfer_refines_witness:
  "map_option (\<lambda>(r, s). (r, channel (us_fw s))) (host_control lab_world (\<lambda>h e. 0) True
     \<lparr>rq_request = 35, rq_value = 0, rq_index = 0, rq_length = 1, rq_data = []\<rparr>
     (ubertooth_usb_init (usbdev_initial fw_initial))) = Some (Some [1], 2441)"
proof -
  let ?s = "ubertooth_usb_init (usbdev_initial fw_initial)"
  let ?rq = "\<lparr>rq_request = 35, rq_value = 0, rq_index = 0, rq_length = 1, rq_data = []\<rparr>"
  have s: "us_fw ?s = fw_initial" "us_bMsVendorIndex ?s = 0xFF"
    by (simp_all add: ubertooth_usb_init_def USBInit_def USBRegisterRequestHandler_def
      USBRegisterWinusbInterface_def hw_do_def usbdev_initial_def Let_def)
  have c: "cmd_of 35 = Some UBERTOOTH_GET_BOARD_ID" by code_simp
  have u: "usb_vendor_request lab_world ?rq fw_initial
      = Some (fw_initial\<lparr>abVendorReqData := put_at 0 [1] (replicate 258 0), hist := [Reply True [1]]\<rparr>)"
    by (simp add: usb_vendor_request_def vendor_request_groups [OF c] vendor_groups_def vendor_leds_def
      vendor_ids_def vendor_amplifier_def vendor_transmit_def vendor_channel_def vendor_system_def
      reply_bytes_def fw_initial_def put_at_def)
  have "map_option (apsnd us_fw) (host_control lab_world (\<lambda>h e. 0) True ?rq ?s)
      = map_option (\<lambda>t. (control_reply t, t\<lparr>hist := butlast (hist t)\<rparr>)) (usb_vendor_request lab_world ?rq (us_fw ?s))"
    by (rule control_transfer_refines) (simp_all add: s usb_ready_init fw_inv_initial request_wf_def)
  then show ?thesis
    unfolding s u by (auto simp: control_reply_def fw_initial_def)
qed

subsection \<open>Enumeration\<close>

text \<open>The host asks for a descriptor by type and index, \<open>v\<close>, and language.\<close>

definition descriptor_request :: "u16 \<Rightarrow> u16 \<Rightarrow> u16 \<Rightarrow> setup_packet" where
  "descriptor_request v lang n =
     \<lparr>bmRequestType = 0x80, bRequest = 6, wValue = v, wIndex = lang, wLength = n\<rparr>"

definition host_get_descriptor ::
  "world \<Rightarrow> (usb_hw list \<Rightarrow> u8 \<Rightarrow> u8) \<Rightarrow> u16 \<Rightarrow> u16 \<Rightarrow> u16 \<Rightarrow> usbdev \<Rightarrow> (u8 list option \<times> usbdev) option"
where
  "host_get_descriptor w es v lang n s = do {
     s \<leftarrow> USBHandleControlTransfer w es (Setup_packet (Some (setup_bytes (descriptor_request v lang n)))) s;
     host_answer w es True (unat n) s }"

lemma descriptor_request_simps [simp]:
  "REQTYPE_GET_TYPE (bmRequestType (descriptor_request v lang n)) = 0"
  "REQTYPE_GET_DIR (bmRequestType (descriptor_request v lang n)) = 1"
  "REQTYPE_GET_RECIP (bmRequestType (descriptor_request v lang n)) = 0"
  "bRequest (descriptor_request v lang n) = 6" "wValue (descriptor_request v lang n) = v"
  "wLength (descriptor_request v lang n) = n"
  by (simp_all add: descriptor_request_def REQTYPE_GET_TYPE_def REQTYPE_GET_DIR_def REQTYPE_GET_RECIP_def)

text \<open>C29: Enumeration: asked for a descriptor of the device by type and index, the stack finds it in the
  descriptor block, and the host receives the first bytes of exactly that descriptor, as many as it
  asked for and the descriptor has, cut into packets of 64 bytes and without an access outside the
  block; a descriptor that does not exist stalls. For a configuration the size is that of the
  configuration with its interface and endpoints.\<close>

theorem descriptor_transfer:
  assumes "usb_ready s" and "\<not> is_os_string v" and "desc_offsets abDescriptors 0 = Some offs"
  shows "map_option (apsnd us_fw) (host_get_descriptor w es v lang n s) = Some
    (case nth_descriptor abDescriptors offs (ucast (drop_bit 8 v AND 0xFF)) (unat (ucast (v AND 0xFF) :: u8)) of
       None \<Rightarrow> None
     | Some off \<Rightarrow> Some (take (unat n) (take (nat (the (desc_size abDescriptors off))) (drop off abDescriptors))),
     us_fw s)"
proof -
  define k where "k = nth_descriptor abDescriptors offs (ucast (drop_bit 8 v AND 0xFF)) (unat (ucast (v AND 0xFF) :: u8))"
  let ?su = "descriptor_request v lang n"
  let ?s = "s\<lparr>us_Setup := ?su, us_pbData := (Std_store, 0), us_iResidue := uint n, us_iLen := uint n\<rparr>"
  have st: "us_stores s ! 0 = (Std_store, 0)" "us_handlers s ! 0 = Some Standard_handler"
    using assms(1) by (simp_all add: usb_ready_def)
  have hc: "host_get_descriptor w es v lang n s
      = Option.bind (call_handler w es True ?s) (host_answer w es True (unat n))"
    unfolding host_get_descriptor_def handle_setup Let_def descriptor_request_simps by (simp add: st)
  have H: "HandleRequest w es ?su (uint n) (Std_store, 0) ?s = USBGetDescriptor v (uint n) (Std_store, 0) ?s"
    by (simp add: HandleRequest_def USBHandleStandardRequest_def HandleStdDeviceReq_def st)
  note find = USBGetDescriptor_nth [OF assms(3,2), of "uint n" "(Std_store, 0)" ?s, folded k_def]
  show ?thesis
    unfolding k_def [symmetric]
  proof (cases k)
    case None
    then have "HandleRequest w es ?su (uint n) (Std_store, 0) ?s = Some (False, uint n, (Std_store, 0), ?s)"
      using find by (simp add: H)
    then obtain t where "call_handler w es True ?s = Some t" "sent_packet t = None" "us_fw t = us_fw s"
      by (simp add: call_handler_def StallControlPipe_def hw_do_def sent_packet_def)
    with None show "map_option (apsnd us_fw) (host_get_descriptor w es v lang n s) = Some
        (case k of None \<Rightarrow> None | Some off \<Rightarrow>
           Some (take (unat n) (take (nat (the (desc_size abDescriptors off))) (drop off abDescriptors))), us_fw s)"
      by (simp add: hc host_answer_def)
  next
    case (Some off)
    with find obtain m where m: "HandleRequest w es ?su (uint n) (Std_store, 0) ?s = Some (True, int m, (Desc, off), ?s)"
      "desc_size abDescriptors off = Some (int m)" "off + m \<le> length abDescriptors"
      by (auto simp: H)
    have "map_option (apsnd us_fw) (Option.bind (call_handler w es True ?s) (host_answer w es True (unat n)))
        = (if off + min m (unat n) \<le> length (mem_get Desc ?s)
           then Some (Some (take (min m (unat n)) (drop off (mem_get Desc ?s))), us_fw ?s) else None)"
      by (rule answer_sent [where len = m]) (use m in simp_all)
    with m Some show "map_option (apsnd us_fw) (host_get_descriptor w es v lang n s) = Some
        (case k of None \<Rightarrow> None | Some off \<Rightarrow>
           Some (take (unat n) (take (nat (the (desc_size abDescriptors off))) (drop off abDescriptors))), us_fw s)"
      by (simp add: hc min.commute)
  qed
qed

lemma descriptor_transfer_witness:
  "map_option fst (host_get_descriptor lab_world (\<lambda>h e. 0) 0x0100 0 18 (ubertooth_usb_init (usbdev_initial fw_initial)))
   = Some (Some (take 18 abDescriptors))"
proof -
  let ?s = "ubertooth_usb_init (usbdev_initial fw_initial)"
  have "\<not> is_os_string 0x0100" by code_simp
  moreover have "nth_descriptor abDescriptors [0, 18, 27, 36, 43, 50, 54, 146, 176]
      (ucast (drop_bit 8 (0x0100 :: u16) AND 0xFF)) (unat (ucast ((0x0100 :: u16) AND 0xFF) :: u8)) = Some 0"
    by code_simp
  moreover have "nat (the (desc_size abDescriptors 0)) = 18" using device_sizes by simp
  moreover have "map_option (apsnd us_fw) (host_get_descriptor lab_world (\<lambda>h e. 0) 0x0100 0 18 ?s) = Some
    (case nth_descriptor abDescriptors [0, 18, 27, 36, 43, 50, 54, 146, 176]
        (ucast (drop_bit 8 (0x0100 :: u16) AND 0xFF)) (unat (ucast ((0x0100 :: u16) AND 0xFF) :: u8)) of
       None \<Rightarrow> None
     | Some off \<Rightarrow> Some (take (unat (18 :: u16)) (take (nat (the (desc_size abDescriptors off))) (drop off abDescriptors))),
     us_fw ?s)"
    by (rule descriptor_transfer [OF usb_ready_init _ device_offsets]) code_simp
  ultimately show ?thesis by auto
qed

subsection \<open>Requests of a type without a handler\<close>

text \<open>No data store is registered for class requests, so the data of one goes through a null
  pointer: the first packet is dropped, but the pointer is advanced over it, and a second packet
  with data is written to memory behind the null pointer.\<close>

theorem class_request_null_write:
  assumes "us_stores s ! 1 = (Null, 0)" and "REQTYPE_GET_TYPE (bmRequestType su) = 1"
    and "REQTYPE_GET_DIR (bmRequestType su) \<noteq> 1" and "64 < wLength su"
    and "length p1 = 64" and "p2 \<noteq> []"
  shows "Option.bind (USBHandleControlTransfer w es (Setup_packet (Some (setup_bytes su))) s)
           (host_write w es [p1, p2]) = None"
proof -
  have n: "64 < uint (wLength su)" "wLength su \<noteq> 0" using assms(4) by (auto simp: word_less_def)
  have t: "take (nat (uint (wLength su) - 64)) p2 \<noteq> []" using assms(6) n(1) by simp
  show ?thesis
    unfolding handle_setup Let_def using assms n t by (simp add: ep0_out_def ep_read_def)
qed

lemma class_request_null_write_witness:
  "Option.bind (USBHandleControlTransfer lab_world (\<lambda>h e. 0) (Setup_packet (Some (setup_bytes
       \<lparr>bmRequestType = 0x21, bRequest = 0x20, wValue = 0, wIndex = 0, wLength = 128\<rparr>)))
       (ubertooth_usb_init (usbdev_initial fw_initial)))
     (host_write lab_world (\<lambda>h e. 0) [replicate 64 0, replicate 64 0]) = None"
  by (rule class_request_null_write)
    (simp_all add: ubertooth_usb_init_def USBInit_def USBRegisterRequestHandler_def
      USBRegisterWinusbInterface_def hw_do_def usbdev_initial_def Let_def REQTYPE_GET_TYPE_def REQTYPE_GET_DIR_def)

end
