(* ===== verification/Host_Device.thy ===== *)
theory Host_Device
  imports Host_Control Usb_Transfer
begin

text \<open>
  The host library on the device: the contract that libusb and a device give the commands together,
  its interpretation on the USB stack and the firmware of this development, and what a command of
  the host makes of the firmware when every transfer passes through the stack packet by packet.
\<close>

subsection \<open>What a control transfer leaves of the stack\<close>

text \<open>A transfer may store, send, stall and run the firmware; the tables of the stack stay.\<close>

definition same_tables :: "usbdev \<Rightarrow> usbdev \<Rightarrow> bool" where
  "same_tables s t \<longleftrightarrow> us_handlers t = us_handlers s \<and> us_stores t = us_stores s
     \<and> us_bMsVendorIndex t = us_bMsVendorIndex s"

lemma same_tables_refl [simp]: "same_tables s s"
  by (simp add: same_tables_def)

lemma same_tables_trans: "same_tables s t \<Longrightarrow> same_tables t u \<Longrightarrow> same_tables s u"
  by (simp add: same_tables_def)

lemma same_tables_simps [simp]:
  "same_tables s (hw_do x t) = same_tables s t"
  "same_tables s (t\<lparr>us_Setup := a\<rparr>) = same_tables s t" "same_tables s (t\<lparr>us_pbData := b\<rparr>) = same_tables s t"
  "same_tables s (t\<lparr>us_iResidue := c\<rparr>) = same_tables s t" "same_tables s (t\<lparr>us_iLen := d\<rparr>) = same_tables s t"
  "same_tables s (t\<lparr>us_bConfiguration := e\<rparr>) = same_tables s t" "same_tables s (t\<lparr>us_log := l\<rparr>) = same_tables s t"
  "same_tables s (t\<lparr>us_os_string := o1\<rparr>) = same_tables s t" "same_tables s (t\<lparr>us_fw := f\<rparr>) = same_tables s t"
  "same_tables s (StallControlPipe t) = same_tables s t"
  by (simp_all add: same_tables_def hw_do_def StallControlPipe_def)

lemma same_tables_left [simp]:
  "same_tables (s\<lparr>us_pbData := b\<rparr>) t = same_tables s t" "same_tables (s\<lparr>us_iResidue := c\<rparr>) t = same_tables s t"
  "same_tables (s\<lparr>us_iLen := d\<rparr>) t = same_tables s t"
  by (simp_all add: same_tables_def)

lemma mem_set_tables: "mem_set m bs s = Some t \<Longrightarrow> same_tables s t"
  by (cases m) (auto simp: same_tables_def)

lemma store_at_tables: "store_at p bs s = Some t \<Longrightarrow> same_tables s t"
  by (cases p) (auto split: if_splits dest: mem_set_tables)

lemma answer_tables: "answer bs p s = Some (ok, n, q, t) \<Longrightarrow> same_tables s t"
  by (auto simp: answer_def dest: store_at_tables)

lemma USBGetDescriptor_tables: "USBGetDescriptor v n p s = Some (ok, m, q, t) \<Longrightarrow> same_tables s t"
  by (auto simp: USBGetDescriptor_def USBGetOsStringDescriptor_def Let_def split: if_splits option.splits)

lemma USBSetConfiguration_tables: "USBSetConfiguration c a s = Some t \<Longrightarrow> same_tables s t"
  by (auto simp: USBSetConfiguration_def split: if_splits)

lemma standard_tables: "USBHandleStandardRequest es su n p s = Some (ok, m, q, t) \<Longrightarrow> same_tables s t"
  by (auto simp: USBHandleStandardRequest_def HandleStdDeviceReq_def HandleStdInterfaceReq_def
      HandleStdEndPointReq_def Let_def split: if_splits
      dest: answer_tables USBGetDescriptor_tables USBSetConfiguration_tables)

lemma vendor_tables:
  assumes "usb_vendor_request_handler w su n p s = Some (ok, m, q, t)"
  shows "same_tables s t"
proof -
  obtain rv data len f where "vendor_request_handler w (bRequest su) (wValue su) (wIndex su)
      (drop (snd p) (mem_get (fst p) s)) (nat n) (us_fw s) = (rv, data, len, f)" by (metis prod_cases4)
  then have "store_at p data (s\<lparr>us_fw := f\<rparr>) = Some t"
    using assms by (auto simp: usb_vendor_request_handler_def)
  then show ?thesis using store_at_tables same_tables_trans same_tables_simps(9) same_tables_refl by blast
qed

lemma HandleRequest_tables: "HandleRequest w es su n p s = Some (ok, m, q, t) \<Longrightarrow> same_tables s t"
  by (auto simp: HandleRequest_def Let_def split: option.splits req_handler.splits
      dest: standard_tables vendor_tables)

lemma DataIn_tables: "DataIn s = Some t \<Longrightarrow> same_tables s t"
  by (auto simp: DataIn_def Let_def split: if_splits)

lemma call_handler_tables:
  assumes "call_handler w es clip s = Some t"
  shows "same_tables s t"
proof -
  obtain ok n q u where u: "HandleRequest w es (us_Setup s) (us_iLen s) (us_pbData s) s = Some (ok, n, q, u)"
    using assms by (auto simp: call_handler_def split: option.splits)
  have "same_tables u t"
    using assms by (auto simp: call_handler_def u Let_def split: if_splits dest!: DataIn_tables)
  with HandleRequest_tables [OF u] show ?thesis by (rule same_tables_trans)
qed

lemma ep_read_tables: "ep_read pkt p n s = Some (k, t) \<Longrightarrow> same_tables s t"
  by (auto simp: ep_read_def split: option.splits if_splits dest: store_at_tables)

lemma ep0_out_tables:
  assumes "ep0_out w es pkt s = Some t"
  shows "same_tables s t"
proof (cases "us_iResidue s > 0")
  case True
  then obtain k u where u: "ep_read pkt (us_pbData s) (us_iResidue s) s = Some (k, u)"
    using assms by (auto simp: ep0_out_def split: option.splits)
  have "same_tables u t"
    using assms True by (auto simp: ep0_out_def u Let_def split: if_splits dest!: call_handler_tables)
  with ep_read_tables [OF u] show ?thesis by (rule same_tables_trans)
next
  case False
  then show ?thesis using assms by (auto simp: ep0_out_def)
qed

lemma ep0_setup_tables: "ep0_setup w es pkt s = Some t \<Longrightarrow> same_tables s t"
  by (auto simp: ep0_setup_def Let_def same_tables_def split: if_splits option.splits dest!: call_handler_tables)

lemma control_event_tables: "USBHandleControlTransfer w es ev s = Some t \<Longrightarrow> same_tables s t"
  by (cases ev) (auto dest: ep0_setup_tables ep0_out_tables DataIn_tables)

lemma host_write_tables: "host_write w es ps s = Some t \<Longrightarrow> same_tables s t"
  by (induction ps arbitrary: s)
    (auto split: option.splits dest: ep0_out_tables intro: same_tables_trans)

lemma host_read_tables: "host_read w es n s = Some (bs, t) \<Longrightarrow> same_tables s t"
proof (induction n arbitrary: s bs rule: less_induct)
  case (less n)
  show ?case
  proof (cases "sent_packet s")
    case None
    then show ?thesis using less.prems by (subst (asm) host_read.simps) auto
  next
    case (Some p)
    then obtain u where u: "DataIn s = Some u"
      using less.prems by (subst (asm) host_read.simps) (auto split: option.splits)
    note tu = DataIn_tables [OF u]
    show ?thesis
    proof (cases "length p < 64 \<or> n \<le> length p")
      case True
      then show ?thesis using less.prems Some u tu by (subst (asm) host_read.simps) auto
    next
      case False
      then obtain bs' where "host_read w es (n - length p) u = Some (bs', t)" "n - length p < n"
        using less.prems Some u by (subst (asm) host_read.simps) auto
      then have "same_tables u t" using less.IH by blast
      with tu show ?thesis by (rule same_tables_trans)
    qed
  qed
qed

lemma host_answer_tables: "host_answer w es din n s = Some (r, t) \<Longrightarrow> same_tables s t"
  by (auto simp: host_answer_def split: option.splits if_splits
      dest!: host_read_tables ep0_out_tables intro: same_tables_trans)

lemma host_control_tables: "host_control w es din rq s = Some (r, t) \<Longrightarrow> same_tables s t"
  unfolding host_control_def
  by (auto split: bind_splits dest!: ep0_setup_tables host_write_tables host_answer_tables intro: same_tables_trans)

subsection \<open>The contract of a device\<close>

text \<open>A command reaches the vendor handler of the firmware \<open>fw_of d\<close>: a refused request is a stall
  (\<open>LIBUSB_ERROR_PIPE\<close>), otherwise the data of the reply come back. A submitted transfer is the same
  transfer, of which the host does not see the result.\<close>

locale vendor_device =
  fixes u :: "'d libusb"
    and inv :: "'d \<Rightarrow> bool"
    and fw_of :: "'d \<Rightarrow> fw"
    and w :: world
  assumes inv_fw: "inv d \<Longrightarrow> fw_inv (fw_of d)"
    and control: "inv d \<Longrightarrow> request_wf din rq \<Longrightarrow> rq_length rq \<le> 258 \<Longrightarrow> rq_request rq \<noteq> 0xFF \<Longrightarrow>
      vendor_request_handler w (rq_request rq) (rq_value rq) (rq_index rq)
        (put_at 0 (rq_data rq) (abVendorReqData (fw_of d))) (rq_length rq) (fw_of d) = (rv, data, len, f) \<Longrightarrow>
      \<exists>d'. lu_control u din rq d =
          (if rv \<noteq> 1 then (LIBUSB_ERROR_PIPE, [], d')
           else if din then (int (min len (rq_length rq)), take (min len (rq_length rq)) data, d')
           else (int (rq_length rq), [], d'))
        \<and> inv d' \<and> fw_of d' = set_buf data f"
    and submit: "inv d \<Longrightarrow> length bs = unat n \<Longrightarrow>
      lu_submit u (control_setup False c n @ bs) d
        = (0, snd (snd (lu_control u False \<lparr>rq_request = cmd_code c, rq_value = 0, rq_index = 0,
             rq_length = unat n, rq_data = bs\<rparr> d)))"
begin

lemma buf_258: "inv d \<Longrightarrow> length (abVendorReqData (fw_of d)) = 258"
  using inv_fw [of d] by (simp add: fw_inv_def)

lemma code_not_FF: "cmd_code c \<noteq> 0xFF"
  by (cases c) simp_all

text \<open>A command without data stage towards the host.\<close>

lemma out_ok:
  assumes "inv d" and "length bs \<le> 258"
    and "vendor_request_handler w (cmd_code c) v i (put_at 0 bs (abVendorReqData (fw_of d))) (length bs) (fw_of d)
      = (1, data, len, f)"
  shows "\<exists>d'. control_out u c v i bs d = (int (length bs), [], d') \<and> inv d' \<and> fw_of d' = set_buf data f"
  using control [of d False "\<lparr>rq_request = cmd_code c, rq_value = v, rq_index = i, rq_length = length bs, rq_data = bs\<rparr>"
      1 data len f] assms code_not_FF
  by (simp add: control_out_def request_wf_def)

lemma out_refused:
  assumes "inv d" and "length bs \<le> 258"
    and "vendor_request_handler w (cmd_code c) v i (put_at 0 bs (abVendorReqData (fw_of d))) (length bs) (fw_of d)
      = (0, data, len, f)"
  shows "\<exists>d'. control_out u c v i bs d = (LIBUSB_ERROR_PIPE, [], d') \<and> inv d' \<and> fw_of d' = set_buf data f"
  using control [of d False "\<lparr>rq_request = cmd_code c, rq_value = v, rq_index = i, rq_length = length bs, rq_data = bs\<rparr>"
      0 data len f] assms code_not_FF
  by (simp add: control_out_def request_wf_def)

lemma in_ok:
  assumes "inv d" and "n \<le> 258"
    and "vendor_request_handler w (cmd_code c) v 0 (abVendorReqData (fw_of d)) n (fw_of d) = (1, data, len, f)"
  shows "\<exists>d'. control_in u c v n d = (int (min len n), take (min len n) data, d') \<and> inv d' \<and> fw_of d' = set_buf data f"
  using control [of d True "\<lparr>rq_request = cmd_code c, rq_value = v, rq_index = 0, rq_length = n, rq_data = []\<rparr>"
      1 data len f] assms code_not_FF
  by (simp add: control_in_def request_wf_def put_at_def)

lemma submit_ok:
  assumes "inv d" and "length bs = unat n" and "length bs \<le> 258"
    and "vendor_request_handler w (cmd_code c) 0 0 (put_at 0 bs (abVendorReqData (fw_of d))) (length bs) (fw_of d)
      = (1, data, len, f)"
  shows "\<exists>d'. lu_submit u (control_setup False c n @ bs) d = (0, d') \<and> inv d' \<and> fw_of d' = set_buf data f"
  using control [of d False "\<lparr>rq_request = cmd_code c, rq_value = 0, rq_index = 0, rq_length = unat n, rq_data = bs\<rparr>"
      1 data len f] assms code_not_FF submit [OF assms(1,2)]
  by (auto simp: request_wf_def)

end

subsection \<open>The USB stack with the firmware is a device\<close>

definition stack_control ::
  "world \<Rightarrow> (usb_hw list \<Rightarrow> u8 \<Rightarrow> u8) \<Rightarrow> bool \<Rightarrow> usb_request \<Rightarrow> usbdev \<Rightarrow> int \<times> u8 list \<times> usbdev"
where
  "stack_control w es din rq s =
     (case host_control w es din rq s of
        None \<Rightarrow> (LIBUSB_ERROR_NO_DEVICE, [], s)
      | Some (None, t) \<Rightarrow> (LIBUSB_ERROR_PIPE, [], t)
      | Some (Some bs, t) \<Rightarrow> (int (if din then length bs else length (rq_data rq)), bs, t))"

definition request_of_setup :: "u8 list \<Rightarrow> bool \<times> usb_request" where
  "request_of_setup buf =
     (let su = setup_of_bytes (take 8 buf); din = (REQTYPE_GET_DIR (bmRequestType su) = 1)
      in (din, \<lparr>rq_request = bRequest su, rq_value = wValue su, rq_index = wIndex su,
                rq_length = unat (wLength su), rq_data = (if din then [] else drop 8 buf)\<rparr>))"

definition stack_libusb :: "world \<Rightarrow> (usb_hw list \<Rightarrow> u8 \<Rightarrow> u8) \<Rightarrow> usbdev libusb" where
  "stack_libusb w es = \<lparr>lu_control = stack_control w es,
     lu_submit = (\<lambda>buf s. let (din, rq) = request_of_setup buf in (0, snd (snd (stack_control w es din rq s))))\<rparr>"

definition stack_ok :: "usbdev \<Rightarrow> bool" where
  "stack_ok s \<longleftrightarrow> usb_ready s \<and> us_bMsVendorIndex s = 0xFF \<and> fw_inv (us_fw s)"

lemma stack_ok_init: "fw_inv f \<Longrightarrow> stack_ok (ubertooth_usb_init (usbdev_initial f))"
  by (simp add: stack_ok_def usb_ready_init)
    (simp add: ubertooth_usb_init_def USBInit_def USBRegisterRequestHandler_def
      USBRegisterWinusbInterface_def hw_do_def usbdev_initial_def Let_def)

lemma stack_control_handler:
  assumes "stack_ok s" and "request_wf din rq" and "rq_length rq \<le> 258" and "rq_request rq \<noteq> 0xFF"
    and h: "vendor_request_handler w (rq_request rq) (rq_value rq) (rq_index rq)
        (put_at 0 (rq_data rq) (abVendorReqData (us_fw s))) (rq_length rq) (us_fw s) = (rv, data, len, f)"
  shows "\<exists>t. stack_control w es din rq s =
          (if rv \<noteq> 1 then (LIBUSB_ERROR_PIPE, [], t)
           else if din then (int (min len (rq_length rq)), take (min len (rq_length rq)) data, t)
           else (int (rq_length rq), [], t))
        \<and> stack_ok t \<and> us_fw t = set_buf data f"
proof -
  have ready: "usb_ready s" "fw_inv (us_fw s)" "rq_request rq \<noteq> us_bMsVendorIndex s"
    using assms(1,4) by (simp_all add: stack_ok_def)
  have B: "length (abVendorReqData (us_fw s)) = 258" using ready(2) by (simp add: fw_inv_def)
  have lr: "length (rq_data rq) \<le> 258" using assms(2,3) by (auto simp: request_wf_def split: if_splits)
  have "reply_ok (rq_length rq) (rv, data, len, f)"
    using vendor_request_keeps [of _ "us_fw s"] ready(2) h B lr by (metis add_0 length_put_at)
  then have data: "length data = 258" and inv: "fw_inv (set_buf data f)"
    by (simp_all add: reply_ok_def fw_inv_def) (simp_all add: set_buf_def)
  let ?n = "min len (rq_length rq)"
  have "map_option (apsnd us_fw) (host_control w es din rq s)
      = Some (if rv \<noteq> 1 then None else if din then Some (take ?n data) else Some [], set_buf data f)"
  proof (cases "rq_data rq = []")
    case True
    then have "vendor_request_handler w (rq_request rq) (rq_value rq) (rq_index rq)
        (abVendorReqData (us_fw s)) (rq_length rq) (us_fw s) = (rv, data, len, f)"
      using h by (simp add: put_at_def)
    from transfer_in [OF ready assms(2) True this, of es] show ?thesis
      using assms(2,3) True by (auto simp: request_wf_def split: if_splits)
  next
    case False
    from transfer_out [OF ready assms(2) False lr h, of es] show ?thesis
      using assms(2) False by (auto simp: request_wf_def split: if_splits)
  qed
  then obtain t where t: "host_control w es din rq s
      = Some (if rv \<noteq> 1 then None else if din then Some (take ?n data) else Some [], t)" "us_fw t = set_buf data f"
    by auto
  have "stack_ok t"
    using host_control_tables [OF t(1)] assms(1) t(2) inv by (simp add: stack_ok_def same_tables_def usb_ready_def)
  with t show ?thesis
    using assms(2,3) data by (auto simp: stack_control_def request_wf_def split: if_splits)
qed

interpretation stack: vendor_device "stack_libusb w es" stack_ok us_fw w for w es
proof unfold_locales
  show "fw_inv (us_fw d)" if "stack_ok d" for d using that by (simp add: stack_ok_def)
next
  fix d din rq rv data len f
  assume "stack_ok d" "request_wf din rq" "rq_length rq \<le> 258" "rq_request rq \<noteq> 0xFF"
    "vendor_request_handler w (rq_request rq) (rq_value rq) (rq_index rq)
        (put_at 0 (rq_data rq) (abVendorReqData (us_fw d))) (rq_length rq) (us_fw d) = (rv, data, len, f)"
  from stack_control_handler [OF this, of es]
  show "\<exists>d'. lu_control (stack_libusb w es) din rq d =
          (if rv \<noteq> 1 then (LIBUSB_ERROR_PIPE, [], d')
           else if din then (int (min len (rq_length rq)), take (min len (rq_length rq)) data, d')
           else (int (rq_length rq), [], d'))
        \<and> stack_ok d' \<and> us_fw d' = set_buf data f"
    by (simp add: stack_libusb_def)
next
  fix d :: usbdev and bs :: "u8 list" and n :: u16 and c
  assume "length bs = unat n"
  have "control_setup False c n = setup_bytes \<lparr>bmRequestType = 0x40, bRequest = cmd_code c, wValue = 0, wIndex = 0, wLength = n\<rparr>"
    by (simp add: control_setup_def setup_bytes_def)
  then have "request_of_setup (control_setup False c n @ bs)
      = (False, \<lparr>rq_request = cmd_code c, rq_value = 0, rq_index = 0, rq_length = unat n, rq_data = bs\<rparr>)"
    by (simp add: request_of_setup_def Let_def REQTYPE_GET_DIR_def)
  then show "lu_submit (stack_libusb w es) (control_setup False c n @ bs) d
      = (0, snd (snd (lu_control (stack_libusb w es) False \<lparr>rq_request = cmd_code c, rq_value = 0, rq_index = 0,
           rq_length = unat n, rq_data = bs\<rparr> d)))"
    by (simp add: stack_libusb_def)
qed

end
