(* ===== verification/Host_Commands.thy ===== *)
theory Host_Commands
  imports Host_Device
begin

text \<open>
  What the commands of the host do to the firmware, proved once for every device that keeps the
  contract \<open>vendor_device\<close> and then used on the USB stack: settings are read back, the parameters of
  hopping and the addresses arrive byte for byte, refused settings are reported.
\<close>

text \<open>The handler, by command instead of by number.\<close>

definition vendor_command :: "world \<Rightarrow> usb_cmd \<Rightarrow> u16 \<Rightarrow> u16 \<Rightarrow> u8 list \<Rightarrow> nat \<Rightarrow> fw \<Rightarrow> reply" where
  "vendor_command w c v i data n s = vendor_request_handler w (cmd_code c) v i data n s"

lemma vendor_command_groups:
  "vendor_command w c v i data n s = first_reply (vendor_groups w c v i data n s) (reply_stall data n s)"
  by (simp only: vendor_command_def vendor_request_groups [OF cmd_of_code])

lemmas vendor_eval = vendor_command_groups vendor_groups_def
  vendor_leds_def vendor_ids_def vendor_amplifier_def vendor_transmit_def vendor_channel_def
  vendor_system_def vendor_hopping_def vendor_le_def vendor_modes_def
  reply_bytes_def reply_none_def reply_stall_def

lemma take_put_at_0: "n \<le> length src \<Longrightarrow> take n (put_at 0 src dst) = take n src"
  by (simp add: put_at_def)

lemma nth_put_at_0: "i < length src \<Longrightarrow> put_at 0 src dst ! i = src ! i"
  by (simp add: put_at_def nth_append)

lemma uint_bytes_2: "uint (byte_at 0 v) OR push_bit 8 (uint (byte_at 1 v)) = uint (v::u16)"
proof (rule bit_eqI)
  fix n
  show "bit (uint (byte_at 0 v) OR push_bit 8 (uint (byte_at 1 v))) n = bit (uint v) n"
    using bit_imp_le_length [of v n] by (auto simp: bit_simps byte_at_def bit_uint_iff not_less)
qed

lemma s8_mod: "s8 x mod 256 = x mod 256"
  using take_bit_signed_take_bit [of 8 7 x] by (simp add: s8_def take_bit_eq_mod)

lemma s32_mod: "s32 x mod 4294967296 = x mod 4294967296"
  using take_bit_signed_take_bit [of 32 31 x] by (simp add: s32_def take_bit_eq_mod)

lemma int32_bytes: "length bs = 4 \<Longrightarrow> uint (word_of_int (int32_val bs) :: u32) = uint (from_le bs :: u32)"
  using unsigned_less [of "from_le bs :: u32", where 'a = int]
  by (simp add: int32_val_def uint_word_of_int s32_mod)

context vendor_device
begin

lemma data_out:
  assumes "inv d" and "length bs \<le> 258"
    and "vendor_command w c v i (put_at 0 bs (abVendorReqData (fw_of d))) (length bs) (fw_of d) = (1, data, len, f)"
  shows "\<exists>d'. control_out u c v i bs d = (int (length bs), [], d') \<and> inv d' \<and> fw_of d' = set_buf data f"
  using out_ok [OF assms(1,2)] assms(3) by (simp add: vendor_command_def)

lemma set_out:
  assumes "inv d" and "vendor_command w c v i (abVendorReqData (fw_of d)) 0 (fw_of d) = (1, data, len, f)"
  shows "\<exists>d'. control_out u c v i [] d = (0, [], d') \<and> inv d' \<and> fw_of d' = set_buf data f"
  using data_out [OF assms(1), of "[]" c v i data len f] assms(2) by (simp add: put_at_def)

lemma get_in:
  assumes "inv d" and "n \<le> 258"
    and "vendor_command w c v 0 (abVendorReqData (fw_of d)) n (fw_of d) = (1, put_at 0 bs (abVendorReqData (fw_of d)), length bs, f)"
  shows "\<exists>d'. control_in u c v n d = (int (min (length bs) n), take n bs, d') \<and> inv d'
    \<and> fw_of d' = set_buf (put_at 0 bs (abVendorReqData (fw_of d))) f"
  using in_ok [OF assms(1,2)] assms(3) by (fastforce simp: vendor_command_def put_at_def min_def)

lemma submit_out:
  assumes "inv d" and "length bs = unat n" and "length bs \<le> 258"
    and "vendor_command w c 0 0 (put_at 0 bs (abVendorReqData (fw_of d))) (length bs) (fw_of d) = (1, data, len, f)"
  shows "\<exists>d'. lu_submit u (control_setup False c n @ bs) d = (0, d') \<and> inv d' \<and> fw_of d' = set_buf data f"
  using submit_ok [OF assms(1,2,3)] assms(4) by (simp add: vendor_command_def)

lemma led_read_back:
  assumes "inv d"
  shows "\<exists>d1 d2. cmd_set_rxled u state d = Some (0, [], d1) \<and> cmd_get_rxled u d1 = Some (if state \<noteq> 0 then 1 else 0, [], d2)
    \<and> inv d2"
proof -
  obtain d1 where d1: "control_out u UBERTOOTH_SET_RXLED state 0 [] d = (0, [], d1)" "inv d1"
    "fw_of d1 = set_buf (abVendorReqData (fw_of d)) (pin_write RXLED state (fw_of d))"
    using set_out [OF assms, of UBERTOOTH_SET_RXLED state 0] by (auto simp: vendor_eval)
  moreover obtain d2 where "control_in u UBERTOOTH_GET_RXLED 0 1 d1 = (1, [pin_byte RXLED (fw_of d1)], d2)" "inv d2"
    using get_in [OF d1(2), of 1 UBERTOOTH_GET_RXLED 0 "[pin_byte RXLED (fw_of d1)]"] by (auto simp: vendor_eval)
  moreover have "pin_byte RXLED (fw_of d1) = (if state \<noteq> 0 then 1 else 0)"
    by (simp add: d1(3)) (simp add: pin_write_def pin_byte_def pin_set_def pin_clr_def)
  ultimately show ?thesis
    by (auto simp: cmd_set_rxled_def cmd_get_rxled_def plain_status_def fetched_def byte_val_def)
qed

lemma channel_read_back:
  assumes "inv d" and "mode (fw_of d) \<noteq> MODE_BT_FOLLOW_LE"
  shows "\<exists>d1 d2. cmd_set_channel u ch d = Some (0, [], d1)
    \<and> cmd_get_channel u d1 = Some (if ch > MAX_FREQ then 2402 else uint (max ch MIN_FREQ), [], d2) \<and> inv d2
    \<and> hop_mode (fw_of d2) = (if ch > MAX_FREQ then HOP_SWEEP else HOP_NONE)"
proof -
  obtain d1 where d1: "control_out u UBERTOOTH_SET_CHANNEL ch 0 [] d = (0, [], d1)" "inv d1"
    "fw_of d1 = set_buf (abVendorReqData (fw_of d)) (set_channel w ch (fw_of d))"
    using set_out [OF assms(1), of UBERTOOTH_SET_CHANNEL ch 0] by (auto simp: vendor_eval)
  let ?v = "channel (fw_of d1)"
  obtain d2 where d2: "control_in u UBERTOOTH_GET_CHANNEL 0 2 d1 = (2, le_bytes 2 ?v, d2)" "inv d2"
    "fw_of d2 = set_buf (put_at 0 (le_bytes 2 ?v) (abVendorReqData (fw_of d1))) (fw_of d1)"
    using get_in [OF d1(2), of 2 UBERTOOTH_GET_CHANNEL 0 "le_bytes 2 ?v"] by (auto simp: vendor_eval)
  have cs: "channel (cs_threshold_calc_and_set w s) = channel s" "hop_mode (cs_threshold_calc_and_set w s) = hop_mode s" for s
    by (rule cs_threshold_calc_obtain [of w s]; simp)+
  have ch: "?v = (if ch > MAX_FREQ then 2402 else max ch MIN_FREQ)"
    and hm: "hop_mode (fw_of d1) = (if ch > MAX_FREQ then HOP_SWEEP else HOP_NONE)"
    using assms(2) by (auto simp: d1(3) set_channel_def Let_def cs min_def max_def)
  have "uint (le_bytes 2 ?v ! 0) OR push_bit 8 (uint (le_bytes 2 ?v ! 1)) = uint ?v"
    by (simp add: uint_bytes_2 del: One_nat_def)
  then show ?thesis
    using d1 d2 ch hm
    by (auto simp: cmd_set_channel_def cmd_get_channel_def pipe_status_def fetched_def)
qed

lemma clock_read_back:
  assumes "inv d"
  shows "\<exists>d1 d2. cmd_set_clock u v d = Some (0, [], d1) \<and> cmd_get_clock u d1 = Some (uint v, [], d2) \<and> inv d2
    \<and> clkn (fw_of d2) = v"
proof -
  let ?B = "put_at 0 (le_bytes 4 v) (abVendorReqData (fw_of d))"
  have B: "take 4 ?B = le_bytes 4 v" by (simp add: take_put_at_0)
  obtain d1 where d1: "control_out u UBERTOOTH_SET_CLOCK 0 0 (le_bytes 4 v) d = (4, [], d1)" "inv d1"
    "fw_of d1 = set_buf ?B (cs_threshold_calc_and_set w (fw_of d\<lparr>clkn := v\<rparr>))"
    using data_out [OF assms, of "le_bytes 4 v" UBERTOOTH_SET_CLOCK 0 0]
    by (auto simp: vendor_eval B from_le_le_bytes)
  have cs: "clkn (cs_threshold_calc_and_set w s) = clkn s" for s
    by (rule cs_threshold_calc_obtain [of w s]; simp)
  have v: "clkn (fw_of d1) = v" by (simp add: d1(3) cs)
  obtain d2 where d2: "control_in u UBERTOOTH_GET_CLOCK 0 4 d1 = (4, le_bytes 4 v, d2)" "inv d2"
    "fw_of d2 = set_buf (put_at 0 (le_bytes 4 v) (abVendorReqData (fw_of d1))) (fw_of d1)"
    using get_in [OF d1(2), of 4 UBERTOOTH_GET_CLOCK 0 "le_bytes 4 v"] by (auto simp: vendor_eval v)
  then show ?thesis
    using d1 v by (auto simp: cmd_set_clock_def cmd_get_clock_def pipe_status_def fetched_def unsigned32_def
      int32_bytes from_le_le_bytes)
qed

lemma access_address_read_back:
  assumes "inv d"
  shows "\<exists>d1 d2. cmd_set_access_address u v d = Some (0, [], d1)
    \<and> cmd_get_access_address u d1 = Some (uint v, [], d2) \<and> inv d2 \<and> target_set (le (fw_of d2))"
proof -
  let ?B = "put_at 0 (le_bytes 4 v) (abVendorReqData (fw_of d))"
  have B: "take 4 ?B = le_bytes 4 v" by (simp add: take_put_at_0)
  obtain d1 where d1: "control_out u UBERTOOTH_SET_ACCESS_ADDRESS 0 0 (le_bytes 4 v) d = (4, [], d1)" "inv d1"
    "access_address (le (fw_of d1)) = v" "target_set (le (fw_of d1))"
    using data_out [OF assms, of "le_bytes 4 v" UBERTOOTH_SET_ACCESS_ADDRESS 0 0]
    by (auto simp: vendor_eval B from_le_le_bytes le_set_access_address_def Let_def)
  obtain d2 where "control_in u UBERTOOTH_GET_ACCESS_ADDRESS 0 4 d1 = (4, le_bytes 4 v, d2)" "inv d2"
    "fw_of d2 = set_buf (put_at 0 (le_bytes 4 v) (abVendorReqData (fw_of d1))) (fw_of d1)"
    using get_in [OF d1(2), of 4 UBERTOOTH_GET_ACCESS_ADDRESS 0 "le_bytes 4 v"] by (auto simp: vendor_eval d1(3))
  then show ?thesis
    using d1 by (auto simp: cmd_set_access_address_def cmd_get_access_address_def pipe_status_def fetched_def
      unsigned32_def int32_bytes from_le_le_bytes)
qed

text \<open>The squelch level is signed in the firmware and comes back as the unsigned byte.\<close>

lemma squelch_read_back:
  assumes "inv d"
  shows "\<exists>d1 d2. cmd_set_squelch u v d = Some (0, [], d1)
    \<and> cmd_get_squelch u d1 = Some (uint v mod 256, [], d2) \<and> inv d2"
proof -
  have cs: "cs_threshold_req (cs_threshold_calc_and_set w s) = cs_threshold_req s" for s
    by (rule cs_threshold_calc_obtain [of w s]; simp)
  obtain d1 where d1: "control_out u UBERTOOTH_SET_SQUELCH v 0 [] d = (0, [], d1)" "inv d1"
    "cs_threshold_req (fw_of d1) = s8 (uint v)"
    using set_out [OF assms, of UBERTOOTH_SET_SQUELCH v 0] by (auto simp: vendor_eval cs)
  obtain d2 where d2: "control_in u UBERTOOTH_GET_SQUELCH 0 1 d1 = (1, [word_of_int (s8 (uint v))], d2)" "inv d2"
    using get_in [OF d1(2), of 1 UBERTOOTH_GET_SQUELCH 0 "[word_of_int (s8 (uint v))]"]
    by (auto simp: vendor_eval d1(3))
  have "uint (word_of_int (s8 (uint v)) :: u8) = uint v mod 256"
    by (simp add: uint_word_of_int s8_mod)
  then show ?thesis
    using d1 d2 by (auto simp: cmd_set_squelch_def cmd_get_squelch_def strict_status_def fetched_def byte_val_def)
qed

text \<open>Parameters sent without waiting for the transfer.\<close>

lemma hopping_parameters:
  assumes "inv d"
  shows "\<exists>d1. cmd_start_hopping u offset offset_ns d = Some (0, [], d1) \<and> inv d1
    \<and> clkn_offset (fw_of d1) = offset \<and> clk100ns_offset (fw_of d1) = ucast offset_ns
    \<and> hop_mode (fw_of d1) = HOP_BLUETOOTH \<and> requested_mode (fw_of d1) = MODE_BT_FOLLOW \<and> dma_discard (fw_of d1)"
proof -
  let ?bs = "rev (le_bytes 4 offset) @ [byte_at 1 offset_ns, byte_at 0 offset_ns]"
  let ?B = "put_at 0 ?bs (abVendorReqData (fw_of d))"
  have B: "take 4 ?B = rev (le_bytes 4 offset)" "?B ! 4 = byte_at 1 offset_ns" "?B ! 5 = byte_at 0 offset_ns"
    by (simp_all add: put_at_def nth_append)
  have low: "push_bit 8 (ucast (byte_at 1 offset_ns)) OR ucast (byte_at 0 offset_ns) = (ucast offset_ns :: u16)"
    by (rule bit_word_eqI) (auto simp: bit_simps byte_at_def)
  obtain d1 where d1: "lu_submit u (control_setup False UBERTOOTH_START_HOPPING 6 @ ?bs) d = (0, d1)" "inv d1"
    "clkn_offset (fw_of d1) = offset" "clk100ns_offset (fw_of d1) = ucast offset_ns"
    "hop_mode (fw_of d1) = HOP_BLUETOOTH" "requested_mode (fw_of d1) = MODE_BT_FOLLOW" "dma_discard (fw_of d1)"
    using submit_out [OF assms, of ?bs 6 UBERTOOTH_START_HOPPING]
    by (auto simp: vendor_eval B [unfolded One_nat_def] from_le_le_bytes low [unfolded One_nat_def] Let_def pin_set_def)
  then show ?thesis by (simp add: cmd_start_hopping_def ubertooth_cmd_async_def)
qed

lemma trim_parameter:
  assumes "inv d"
  shows "\<exists>d1. cmd_trim_clock u offset d = Some (0, [], d1) \<and> inv d1 \<and> clk100ns_offset (fw_of d1) = offset"
proof -
  let ?bs = "[byte_at 1 offset, byte_at 0 offset]"
  let ?B = "put_at 0 ?bs (abVendorReqData (fw_of d))"
  have B: "?B ! 0 = byte_at 1 offset" "?B ! Suc 0 = byte_at 0 offset" by (simp_all add: put_at_def nth_append)
  have low: "push_bit 8 (ucast (byte_at 1 offset)) OR ucast (byte_at 0 offset) = offset"
  proof (rule bit_word_eqI)
    fix n assume "n < LENGTH(16)"
    then show "bit (push_bit 8 (ucast (byte_at 1 offset)) OR ucast (byte_at 0 offset) :: u16) n = bit offset n"
      by (auto simp: bit_simps byte_at_def)
  qed
  obtain d1 where "lu_submit u (control_setup False UBERTOOTH_TRIM_CLOCK 2 @ ?bs) d = (0, d1)" "inv d1"
    "clk100ns_offset (fw_of d1) = offset"
    using submit_out [OF assms, of ?bs 2 UBERTOOTH_TRIM_CLOCK]
    by (auto simp: vendor_eval B [unfolded One_nat_def] low [unfolded One_nat_def])
  then show ?thesis by (simp add: cmd_trim_clock_def ubertooth_cmd_async_def)
qed

lemma afh_map_parameter:
  assumes "inv d" and "length m = 10"
  shows "\<exists>d1. cmd_set_afh_map u m d = Some (0, [], d1) \<and> inv d1 \<and> afh_map (bt (fw_of d1)) = m \<and> afh_enabled (bt (fw_of d1))"
proof -
  let ?B = "put_at 0 m (abVendorReqData (fw_of d))"
  have B: "take 10 ?B = m" using assms(2) by (simp add: take_put_at_0)
  obtain d1 where "lu_submit u (control_setup False UBERTOOTH_SET_AFHMAP 10 @ m) d = (0, d1)" "inv d1"
    "afh_map (bt (fw_of d1)) = m" "afh_enabled (bt (fw_of d1))"
    using submit_out [OF assms(1), of m 10 UBERTOOTH_SET_AFHMAP] assms(2)
    by (auto simp: vendor_eval B)
  then show ?thesis using assms(2) by (simp add: cmd_set_afh_map_def)
qed

text \<open>The address of a piconet, with its access code.\<close>

lemma bdaddr_parameter:
  assumes "inv d"
  shows "\<exists>d1. cmd_set_bdaddr gen u a d = Some (0, [], d1) \<and> inv d1
    \<and> bt (fw_of d1) = precalc ((bt (fw_of d))\<lparr>bt_address := a, bt_access_code := gen (a AND 0xffffff)\<rparr>)"
proof -
  let ?bs = "le_bytes 8 a @ le_bytes 8 (gen (a AND 0xffffff))"
  let ?B = "put_at 0 ?bs (abVendorReqData (fw_of d))"
  have B: "take 8 ?B = le_bytes 8 a" "take 8 (drop 8 ?B) = le_bytes 8 (gen (a AND 0xffffff))"
    by (simp_all add: put_at_def)
  obtain d1 where "control_out u UBERTOOTH_SET_BDADDR 0 0 ?bs d = (16, [], d1)" "inv d1"
    "bt (fw_of d1) = precalc ((bt (fw_of d))\<lparr>bt_address := a, bt_access_code := gen (a AND 0xffffff)\<rparr>)"
    using data_out [OF assms, of ?bs UBERTOOTH_SET_BDADDR 0 0] by (auto simp: vendor_eval B from_le_le_bytes)
  then show ?thesis by (simp add: cmd_set_bdaddr_def Let_def)
qed

text \<open>The revision of the firmware, cut to the buffer of the host.\<close>

lemma revision_string:
  assumes "inv d" and "length (w_git_revision w) \<le> 255" and "1 \<le> len"
  shows "\<exists>d1. cmd_get_rev_num u len d = Some (take (len - 1) (w_git_revision w), [], d1) \<and> inv d1"
proof -
  let ?rev = "w_git_revision w"
  let ?n = "of_nat (length ?rev) :: u8"
  have n: "unat ?n = length ?rev" using assms(2) by (simp add: unat_of_nat take_bit_nat_eq_self)
  let ?bs = "[0, 0, ?n] @ ?rev"
  obtain d1 where "control_in u UBERTOOTH_GET_REV_NUM 0 258 d = (int (min (length ?bs) 258), take 258 ?bs, d1)" "inv d1"
    using get_in [OF assms(1), of 258 UBERTOOTH_GET_REV_NUM 0 ?bs] n by (auto simp: vendor_eval)
  then show ?thesis
    using assms(2,3) n by (auto simp: cmd_get_rev_num_def nth_append min_def)
qed

text \<open>Requests that the firmware refuses.\<close>

lemma refused_out:
  assumes "inv d" and "vendor_command w c v i (abVendorReqData (fw_of d)) 0 (fw_of d) = (0, data, len, f)"
  shows "\<exists>d'. control_out u c v i [] d = (LIBUSB_ERROR_PIPE, [], d') \<and> inv d' \<and> fw_of d' = set_buf data f"
  using out_refused [OF assms(1), of "[]" c v i data len f] assms(2) by (simp add: vendor_command_def put_at_def)

lemma palevel_result:
  assumes "inv d"
  shows "\<exists>d1. cmd_set_palevel u v d = Some (if v < 8 then (0, [], d1) else (LIBUSB_ERROR_PIPE, [unsupported], d1)) \<and> inv d1
    \<and> (8 \<le> v \<longrightarrow> fw_of d1 = fw_of d)"
proof (cases "v < 8")
  case True
  then obtain d1 where "control_out u UBERTOOTH_SET_PALEVEL v 0 [] d = (0, [], d1)" "inv d1"
    using set_out [OF assms, of UBERTOOTH_SET_PALEVEL v 0] by (auto simp: vendor_eval)
  with True show ?thesis by (auto simp: cmd_set_palevel_def strict_status_def not_less [symmetric])
next
  case False
  then obtain d1 where "control_out u UBERTOOTH_SET_PALEVEL v 0 [] d = (LIBUSB_ERROR_PIPE, [], d1)" "inv d1"
    "fw_of d1 = set_buf (abVendorReqData (fw_of d)) (fw_of d)"
    using refused_out [OF assms, of UBERTOOTH_SET_PALEVEL v 0] by (auto simp: vendor_eval)
  with False show ?thesis by (auto simp: cmd_set_palevel_def strict_status_def report_def set_buf_def)
qed

text \<open>A spectrum range that the firmware refuses is reported as a command error.\<close>

lemma specan_result:
  assumes "inv d"
  shows "\<exists>d1. cmd_specan u lo hi d =
      Some (if 2049 \<le> lo \<and> lo \<le> hi \<and> hi \<le> 3072 then (0, [], d1)
            else (LIBUSB_ERROR_PIPE, [show_libusb_error LIBUSB_ERROR_PIPE], d1)) \<and> inv d1
    \<and> (if 2049 \<le> lo \<and> lo \<le> hi \<and> hi \<le> 3072
       then low_freq (fw_of d1) = lo \<and> high_freq (fw_of d1) = hi \<and> requested_mode (fw_of d1) = MODE_SPECAN
       else fw_of d1 = fw_of d)"
proof (cases "2049 \<le> lo \<and> lo \<le> hi \<and> hi \<le> 3072")
  case True
  then have ok: "\<not> (lo < 2049 \<or> 3072 < lo \<or> hi < 2049 \<or> 3072 < hi \<or> hi < lo)" by auto
  obtain d1 where "control_out u UBERTOOTH_SPECAN lo hi [] d = (0, [], d1)" "inv d1"
    "low_freq (fw_of d1) = lo" "high_freq (fw_of d1) = hi" "requested_mode (fw_of d1) = MODE_SPECAN"
    using set_out [OF assms, of UBERTOOTH_SPECAN lo hi] ok by (auto simp: vendor_eval)
  with True show ?thesis by (auto simp: cmd_specan_def plain_status_def)
next
  case False
  then have bad: "lo < 2049 \<or> 3072 < lo \<or> hi < 2049 \<or> 3072 < hi \<or> hi < lo" by auto
  obtain d1 where "control_out u UBERTOOTH_SPECAN lo hi [] d = (LIBUSB_ERROR_PIPE, [], d1)" "inv d1"
    "fw_of d1 = set_buf (abVendorReqData (fw_of d)) (fw_of d)"
    using refused_out [OF assms, of UBERTOOTH_SPECAN lo hi] bad by (auto simp: vendor_eval)
  with False show ?thesis by (auto simp: cmd_specan_def plain_status_def set_buf_def)
qed

end

subsection \<open>On the USB stack of the firmware\<close>





text \<open>C27: What the firmware refuses, the host reports: a power level above 7 and a spectrum range that
  is out of bounds or reversed give \<open>LIBUSB_ERROR_PIPE\<close> and leave the firmware unchanged; the first is
  printed as an unsupported message, the second as a command error. Everything else is accepted.\<close>

theorem host_refusals:
  assumes "stack_ok s"
  shows "(\<exists>s1. cmd_set_palevel (stack_libusb w es) v s
         = Some (if v < 8 then (0, [], s1) else (LIBUSB_ERROR_PIPE, [''control message unsupported''], s1))
       \<and> stack_ok s1 \<and> (8 \<le> v \<longrightarrow> us_fw s1 = us_fw s))
    \<and> (\<exists>s1. cmd_specan (stack_libusb w es) lo hi s
         = Some (if 2049 \<le> lo \<and> lo \<le> hi \<and> hi \<le> 3072 then (0, [], s1)
                 else (LIBUSB_ERROR_PIPE, [''libUSB Error: Command Error:  (-9)''], s1))
       \<and> stack_ok s1
       \<and> (if 2049 \<le> lo \<and> lo \<le> hi \<and> hi \<le> 3072
          then low_freq (us_fw s1) = lo \<and> high_freq (us_fw s1) = hi \<and> requested_mode (us_fw s1) = MODE_SPECAN
          else us_fw s1 = us_fw s))"
proof -
  have err: "show_libusb_error LIBUSB_ERROR_PIPE = ''libUSB Error: Command Error:  (-9)''"
    by code_simp
  from stack.palevel_result [OF assms, where w = w and es = es and v = v, unfolded unsupported_def]
    stack.specan_result [OF assms, where w = w and es = es and lo = lo and hi = hi, unfolded err]
  show ?thesis by (rule conjI)
qed

lemma host_refusals_witness:
  "\<exists>s1. cmd_set_palevel (stack_libusb lab_world (\<lambda>h e. 0)) 9 (ubertooth_usb_init (usbdev_initial fw_initial))
     = Some (-9, [''control message unsupported''], s1)"
  using host_refusals [OF stack_ok_init [OF fw_inv_initial], where w = lab_world and es = "\<lambda>h e. 0" and v = 9]
  by auto

end
