(* ===== verification/Host_Signals.thy ===== *)
theory Host_Signals
  imports Host_Callback Host_Delivery Host_Commands Rxtx_Irq
begin

text \<open>
  What the callbacks of \<^verbatim>\<open>host/libubertooth/src/ubertooth_callback.c\<close> compute from a packet: signal
  strengths from the history of each channel (which interprets \<open>sliding_window\<close>), the host's time of a
  packet, the time between two packets and the trim of the device's clock.
\<close>

subsection \<open>Decibels\<close>

lemma dbm_eq: "cc2400_rssi_to_dbm r =
    (if r < -48 then -120 else if r \<le> -45 then 6 * (r + 28)
     else if r \<le> 30 then - ((99 * (62 - r)) div 110) else if r \<le> 35 then - ((60 * (35 - r)) div 11) else 0)"
proof -
  have mid: "s8 ((99 * (r - 62)) sdiv 110) = - ((99 * (62 - r)) div 110)" if "-45 < r" "r \<le> 30"
  proof -
    have "(99 * (r - 62)) sdiv 110 = - ((99 * (62 - r)) div 110)" using that by (simp add: sdiv_pos algebra_simps)
    moreover have "0 \<le> (99 * (62 - r)) div 110" "(99 * (62 - r)) div 110 \<le> 100" using that by simp_all
    ultimately show ?thesis by (simp add: s8_id)
  qed
  have hi: "s8 ((60 * (r - 35)) sdiv 11) = - ((60 * (35 - r)) div 11)" if "30 < r" "r \<le> 35"
  proof -
    have "(60 * (r - 35)) sdiv 11 = - ((60 * (35 - r)) div 11)"
      using that by (cases "r = 35") (simp_all add: sdiv_pos algebra_simps)
    moreover have "0 \<le> (60 * (35 - r)) div 11" "(60 * (35 - r)) div 11 \<le> 100" using that by simp_all
    ultimately show ?thesis by (simp add: s8_id)
  qed
  show ?thesis using mid hi by (simp add: cc2400_rssi_to_dbm_def s8_id)
qed

lemma dbm_bounds: "-120 \<le> cc2400_rssi_to_dbm r" "cc2400_rssi_to_dbm r \<le> 0"
  by (auto simp: dbm_eq)

lemma dbm_mono: "r \<le> r' \<Longrightarrow> cc2400_rssi_to_dbm r \<le> cc2400_rssi_to_dbm r'"
proof -
  assume le: "r \<le> r'"
  have "(99 * (62 - r')) div 110 \<le> (99 * (62 - r)) div 110" "(60 * (35 - r')) div 11 \<le> (60 * (35 - r)) div 11"
    using le by (simp_all add: zdiv_mono1)
  with le show ?thesis unfolding dbm_eq by auto
qed

subsection \<open>The history of a channel\<close>

interpretation rssi: sliding_window "\<lambda>h. h" "\<lambda>h. length h = RSSI_HISTORY_LEN" "\<lambda>_. True" push_rssi
    "sint \<circ> pkt_rssi_max" RSSI_HISTORY_LEN
proof unfold_locales
  fix h :: "int list" and rx
  assume h: "length h = RSSI_HISTORY_LEN"
  then show "length (push_rssi rx h) = RSSI_HISTORY_LEN" by (simp add: push_rssi_def)
  show "push_rssi rx h = tl (h @ [(sint \<circ> pkt_rssi_max) rx])"
    using h by (cases h) (simp_all add: push_rssi_def)
qed simp

definition history_wf :: "('d, 'p, 'n, 'l) rx_state \<Rightarrow> bool" where
  "history_wf ut \<longleftrightarrow> length (cb_rssi_history ut) = NUM_BREDR_CHANNELS
     \<and> list_all (\<lambda>h. length h = RSSI_HISTORY_LEN) (cb_rssi_history ut)"

text \<open>The state after the signal strengths of some packets have been determined.\<close>

definition noted :: "usb_pkt_rx list \<Rightarrow> ('d, 'p, 'n, 'l) rx_state \<Rightarrow> ('d, 'p, 'n, 'l) rx_state" where
  "noted rxs ut = fold (\<lambda>rx ut. snd (snd (the (determine_signal_and_noise rx ut)))) rxs ut"

definition on_channel :: "nat \<Rightarrow> usb_pkt_rx list \<Rightarrow> usb_pkt_rx list" where
  "on_channel c rxs = filter (\<lambda>rx. unat (pkt_channel rx) = c) rxs"

lemma noted_history:
  assumes "history_wf ut" and "list_all (\<lambda>rx. unat (pkt_channel rx) < NUM_BREDR_CHANNELS) rxs" and "c < NUM_BREDR_CHANNELS"
  shows "history_wf (noted rxs ut) \<and> cb_rssi_history (noted rxs ut) ! c = fold push_rssi (on_channel c rxs) (cb_rssi_history ut ! c)"
  using assms
proof (induction rxs arbitrary: ut)
  case Nil
  then show ?case by (simp add: noted_def on_channel_def)
next
  case (Cons rx rxs)
  let ?k = "unat (pkt_channel rx)"
  let ?u = "ut\<lparr>cb_rssi_history := (cb_rssi_history ut)[?k := push_rssi rx (cb_rssi_history ut ! ?k)]\<rparr>"
  have k: "?k < NUM_BREDR_CHANNELS" using Cons.prems(2) by simp
  then have step: "noted (rx # rxs) ut = noted rxs ?u"
    by (simp add: noted_def determine_signal_and_noise_def Let_def)
  have "history_wf ?u"
    using Cons.prems(1) k by (auto simp: history_wf_def list_all_length nth_list_update push_rssi_def)
  then show ?case
    unfolding step using Cons k by (auto simp: on_channel_def history_wf_def nth_list_update)
qed

lemma fold_max_Max: "h \<noteq> [] \<Longrightarrow> fold max (drop 1 h) (h ! 0) = Max (set h)"
  using Max.set_eq_fold [of "hd h" "tl h"] by (cases h) simp_all

lemma determine_eq:
  assumes "history_wf ut" and "unat (pkt_channel rx) < NUM_BREDR_CHANNELS"
  shows "\<exists>ut'. determine_signal_and_noise rx ut
    = Some (cc2400_rssi_to_dbm (Max (set (push_rssi rx (cb_rssi_history ut ! unat (pkt_channel rx))))),
            cc2400_rssi_to_dbm (sint (pkt_rssi_avg rx)), ut')"
  using assms fold_max_Max [of "push_rssi rx (cb_rssi_history ut ! unat (pkt_channel rx))"]
  by (simp add: determine_signal_and_noise_def push_rssi_def Let_def)

text \<open>C38: The signal strength of a packet is the strongest one of the last ten packets on its channel, in
  decibels, whatever arrived on other channels in between and whatever the history held at the start,
  once ten packets have arrived there; the noise is the average of the packet itself; both are within
  -120..0 and their difference fits the signed byte it is stored in.\<close>

theorem signal_is_peak:
  assumes "history_wf ut" and "list_all (\<lambda>rx. unat (pkt_channel rx) < NUM_BREDR_CHANNELS) (rxs @ [rx])"
    and c: "c = unat (pkt_channel rx)" and last10: "peak = drop (length (on_channel c rxs) - 9) (on_channel c rxs) @ [rx]"
    and "9 \<le> length (on_channel c rxs)"
  shows "\<exists>ut' sig noise. determine_signal_and_noise rx (noted rxs ut) = Some (sig, noise, ut')
     \<and> sig = cc2400_rssi_to_dbm (Max (set (map (sint \<circ> pkt_rssi_max) peak)))
     \<and> noise = cc2400_rssi_to_dbm (sint (pkt_rssi_avg rx))
     \<and> sig \<in> {-120..0} \<and> noise \<in> {-120..0} \<and> s8 (sig - noise) = sig - noise"
proof -
  have lt: "c < NUM_BREDR_CHANNELS" using assms(2) c by simp
  have n: "history_wf (noted rxs ut)"
      "cb_rssi_history (noted rxs ut) ! c = fold push_rssi (on_channel c rxs) (cb_rssi_history ut ! c)"
    using noted_history [of ut rxs c] assms(1,2) lt by simp_all
  have "length (cb_rssi_history ut ! c) = RSSI_HISTORY_LEN"
    using assms(1) lt by (simp add: history_wf_def list_all_length)
  from rssi.fold_full [OF this, of "on_channel c rxs @ [rx]"]
  have h: "push_rssi rx (cb_rssi_history (noted rxs ut) ! c) = map (sint \<circ> pkt_rssi_max) peak"
    using assms(5) by (simp add: n(2) last10 list_all_length)
  obtain ut' where "determine_signal_and_noise rx (noted rxs ut) = Some
      (cc2400_rssi_to_dbm (Max (set (map (sint \<circ> pkt_rssi_max) peak))), cc2400_rssi_to_dbm (sint (pkt_rssi_avg rx)), ut')"
    using determine_eq [OF n(1), of rx] lt h c by auto
  then show ?thesis
    using dbm_bounds [of "Max (set (map (sint \<circ> pkt_rssi_max) peak))"] dbm_bounds [of "sint (pkt_rssi_avg rx)"]
    by (auto intro!: s8_id)
qed

text \<open>A host state at the start of a program, for the examples below.\<close>

definition rx_idle :: "(unit, unit, unit, unit) rx_state" where
  "rx_idle = ubertooth.extend host_idle
     (rx_state.fields rssi_history_initial False 0 0 0 (replicate 79 0) 0 (replicate 79 0) 0 None [] [] [])"

lemma rx_idle_history [simp]: "cb_rssi_history rx_idle = rssi_history_initial"
  by (simp add: rx_idle_def ubertooth.defs rx_state.defs)

lemma history_wf_initial: "cb_rssi_history ut = rssi_history_initial \<Longrightarrow> history_wf ut"
  by (simp add: history_wf_def rssi_history_initial_def list_all_length nth_Cons split: nat.split)

lemma signal_is_peak_witness:
  "\<exists>ut' sig noise. determine_signal_and_noise (pkt_zero\<lparr>pkt_rssi_max := 0xF6\<rparr>)
      (noted (replicate 9 (pkt_zero\<lparr>pkt_rssi_max := 0xE2\<rparr>)) rx_idle) = Some (sig, noise, ut') \<and> sig = -64"
proof -
  let ?p = "pkt_zero\<lparr>pkt_rssi_max := 0xE2\<rparr>" and ?q = "pkt_zero\<lparr>pkt_rssi_max := 0xF6\<rparr>"
  have [simp]: "pkt_channel pkt_zero = 0" by (simp add: pkt_zero_def)
  have oc: "on_channel 0 (replicate 9 ?p) = replicate 9 ?p" by (simp add: on_channel_def)
  have ok: "list_all (\<lambda>rx. unat (pkt_channel rx) < NUM_BREDR_CHANNELS) (replicate 9 ?p @ [?q])"
    by (simp add: list.pred_set)
  have "Max (set (map (sint \<circ> pkt_rssi_max) (replicate 9 ?p @ [?q]))) = -10" by code_simp
  moreover have "cc2400_rssi_to_dbm (-10) = -64" by (simp add: dbm_eq)
  ultimately show ?thesis
    using signal_is_peak [OF history_wf_initial [OF rx_idle_history] ok, of 0 "replicate 9 ?p @ [?q]"] oc by auto
qed

text \<open>The initialiser of the history sets one entry to the least value and all others to zero, which
  is a strong signal: until ten packets have arrived on a channel its signal strength is never below
  -55, however weak the packets are.\<close>

theorem early_signals_strong:
  assumes "cb_rssi_history ut = rssi_history_initial"
    and "list_all (\<lambda>rx. unat (pkt_channel rx) < NUM_BREDR_CHANNELS) (rxs @ [rx])"
    and "length (on_channel (unat (pkt_channel rx)) rxs) < 9"
    and "determine_signal_and_noise rx (noted rxs ut) = Some (sig, noise, ut')"
  shows "-55 \<le> sig"
proof -
  let ?c = "unat (pkt_channel rx)" and ?old = "cb_rssi_history ut ! unat (pkt_channel rx)"
  let ?qs = "on_channel (unat (pkt_channel rx)) rxs"
  have lt: "?c < NUM_BREDR_CHANNELS" using assms(2) by simp
  have wf: "history_wf ut" using assms(1) by (rule history_wf_initial)
  have n: "history_wf (noted rxs ut)" "cb_rssi_history (noted rxs ut) ! ?c = fold push_rssi ?qs ?old"
    using noted_history [OF wf, of rxs ?c] assms(2) lt by simp_all
  have h0: "length ?old = RSSI_HISTORY_LEN" "?old ! 9 = 0"
    using lt unfolding assms(1) rssi_history_initial_def by (simp_all add: nth_Cons split: nat.split)
  let ?h = "push_rssi rx (fold push_rssi ?qs ?old)"
  have h: "?h = drop (length (?qs @ [rx])) (?old @ map (sint \<circ> pkt_rssi_max) (?qs @ [rx]))"
    using rssi.fold_view [OF h0(1), of "?qs @ [rx]"] by (simp only: fold_append fold.simps comp_apply id_apply list.pred_True TrueI simp_thms)
  have "?h ! (9 - length (?qs @ [rx])) = (?old @ map (sint \<circ> pkt_rssi_max) (?qs @ [rx])) ! 9"
    unfolding h using assms(3) h0(1) by (subst nth_drop) simp_all
  then have "0 = ?h ! (9 - length (?qs @ [rx]))" using h0 by (simp add: nth_append)
  moreover have "9 - length (?qs @ [rx]) < length ?h"
    unfolding h using assms(3) h0(1) by simp
  ultimately have "0 \<in> set ?h" by (metis nth_mem)
  then have "0 \<le> Max (set ?h)" by (intro Max_ge) simp_all
  moreover have "sig = cc2400_rssi_to_dbm (Max (set ?h))"
    using determine_eq [OF n(1) lt] assms(4) n(2) by simp
  ultimately have "cc2400_rssi_to_dbm 0 \<le> sig" using dbm_mono by blast
  then show ?thesis by (simp add: dbm_eq)
qed

lemma early_signals_strong_witness:
  "-55 \<le> fst (the (determine_signal_and_noise (pkt_zero\<lparr>pkt_rssi_max := 0x80\<rparr>) (noted [] rx_idle)))"
proof -
  let ?rx = "pkt_zero\<lparr>pkt_rssi_max := 0x80\<rparr>"
  obtain ut' where "determine_signal_and_noise ?rx (noted [] rx_idle) =
      Some (cc2400_rssi_to_dbm (Max (set (push_rssi ?rx (cb_rssi_history (noted [] rx_idle) ! 0)))),
            cc2400_rssi_to_dbm (sint (pkt_rssi_avg ?rx)), ut')"
    using determine_eq [of "noted [] rx_idle" ?rx] history_wf_initial [OF rx_idle_history]
    by (auto simp: noted_def pkt_zero_def)
  with early_signals_strong [OF rx_idle_history _ _ this] show ?thesis
    by (simp add: pkt_zero_def on_channel_def)
qed

subsection \<open>Time\<close>

text \<open>The times that consecutive packets get.\<close>

fun host_times :: "(nat \<Rightarrow> u64) \<Rightarrow> usb_pkt_rx list \<Rightarrow> ('d, 'm) ubertooth_scheme \<Rightarrow> u64 list" where
  "host_times now [] ut = []"
| "host_times now (rx # rxs) ut = (let (t, ut) = now_ns_from_clk100ns now rx ut in t # host_times now rxs ut)"

lemma unat_lt2p: "unat (w::u32) < 2 ^ 32"
  by (rule order_less_le_trans [OF unsigned_less]) simp

lemma unat_u64: "unat (ucast (a::u32) :: u64) = unat a"
  using unat_lt2p [of a] by (simp add: unsigned_ucast_eq take_bit_nat_eq_self)

lemma u32_less_u64: "(ucast (a::u32) < (ucast b :: u64)) = (a < b)"
  by (simp add: word_less_nat_alt unat_u64)

lemma now_ns_later:
  assumes "ut_start_clk100ns ut \<noteq> 0" and "ut_last_clk100ns ut = ucast (c::u32)"
  shows "now_ns_from_clk100ns now rx ut =
    (let k = ut_clk100ns_upper ut + (if pkt_clk100ns rx < c then 1 else 0)
     in (ut_abs_start_ns ut + 100 * ucast (pkt_clk100ns rx - ut_start_clk100ns ut) + push_bit 32 (100 * k),
         ut\<lparr>ut_clk100ns_upper := k, ut_last_clk100ns := ucast (pkt_clk100ns rx)\<rparr>))"
proof -
  have "(0xffffffff :: u32) = -1" by simp
  then have [simp]: "x AND 0xffffffff = x" for x :: u32 by (metis and.right_neutral)
  show ?thesis
    using assms by (simp add: now_ns_from_clk100ns_def track_clk100ns_def Let_def u32_less_u64)
qed

lemma now_ns_first:
  assumes "ut_start_clk100ns ut = 0"
  shows "now_ns_from_clk100ns now rx ut =
    (now (ut_clock ut) + push_bit 32 (100 * ut_clk100ns_upper ut),
     ut\<lparr>ut_start_clk100ns := pkt_clk100ns rx, ut_last_clk100ns := ucast (pkt_clk100ns rx),
        ut_abs_start_ns := now (ut_clock ut), ut_clock := Suc (ut_clock ut)\<rparr>)"
  using assms by (simp add: now_ns_from_clk100ns_def track_clk100ns_def Let_def)

lemma host_times_sorted:
  assumes "ut_start_clk100ns ut \<noteq> 0" and "ut_last_clk100ns ut = ucast (c::u32)" and "ut_clk100ns_upper ut = 0"
    and "sorted (c # map pkt_clk100ns rxs)"
  shows "host_times now rxs ut
    = map (\<lambda>rx. ut_abs_start_ns ut + 100 * ucast (pkt_clk100ns rx - ut_start_clk100ns ut)) rxs"
  using assms
proof (induction rxs arbitrary: ut c)
  case (Cons rx rxs)
  then have "\<not> pkt_clk100ns rx < c" by (simp add: not_less)
  then show ?case
    using Cons.prems Cons.IH [of "ut\<lparr>ut_last_clk100ns := ucast (pkt_clk100ns rx)\<rparr>" "pkt_clk100ns rx"]
    using now_ns_later [OF Cons.prems(1,2), of now rx] by (cases ut) simp
qed simp

text \<open>Differences of ticks, and ticks as nanoseconds.\<close>

lemma tick_diff: "a \<le> b \<Longrightarrow> ucast (b - a :: u32) = (of_nat (unat b - unat a) :: u64)"
  by (metis of_nat_unat unat_sub unat_u64)

lemma tick_wrap:
  assumes "b < (a::u32)"
  shows "ucast (b - a) + 2 ^ 32 = (of_nat (2 ^ 33 + unat b - unat a) :: u64)"
proof -
  have "unat (b - a) = 2 ^ 32 + unat b - unat a"
    using assms by (simp add: unat_sub_if_size word_less_nat_alt word_size)
  then have e: "unat (b - a) + 2 ^ 32 = 2 ^ 33 + unat b - unat a" using assms unat_lt2p [of a]  by (simp add: word_less_nat_alt)
  have "ucast (b - a) + 2 ^ 32 = (of_nat (unat (b - a) + 2 ^ 32) :: u64)" 
    unfolding of_nat_add of_nat_power of_nat_numeral by (metis of_nat_unat unat_u64)
  then show ?thesis unfolding e .
qed

lemma tick_sum:
  assumes "b < (a::u32)" and "a \<le> d"
  shows "of_nat (2 ^ 33 + unat b - unat a) + of_nat (unat d - unat b) = (ucast (d - a) + 2 ^ 33 :: u64)"
proof -
  have "(2 ^ 33 + unat b - unat a) + (unat d - unat b) = (unat d - unat a) + 2 ^ 33"
    using assms unat_lt2p [of a] by (simp add: word_less_nat_alt word_le_nat_alt)
  then have "of_nat (2 ^ 33 + unat b - unat a) + of_nat (unat d - unat b) = (of_nat (unat d - unat a) + of_nat (2 ^ 33) :: u64)"
    by (metis of_nat_add)
  then show ?thesis unfolding tick_diff [OF assms(2)] of_nat_power of_nat_numeral .
qed

lemma tick_ns: "x + 2 ^ 32 = y \<Longrightarrow> A + 100 * x + push_bit 32 100 = A + 100 * (y::u64)"
  by (drule sym) (simp add: push_bit_eq_mult algebra_simps)

lemma tick_ns_wrapped:
  assumes "y + z = x + 2 ^ 33"
  shows "A + 100 * x + push_bit 32 100 = A + 100 * y + 100 * (z::u64) - 100 * 2 ^ 32"
proof -
  have "100 * (y + z) = 100 * (x + 2 ^ 33)" using assms by (rule arg_cong)
  then show ?thesis by (simp add: push_bit_eq_mult algebra_simps)
qed

text \<open>C39: Until the clock of the device rolls over, the host's time of a packet is exact: the time of the
  first packet and 100 ns for each tick since then. The firmware's clock rolls over after 3276800000
  ticks, but the host adds \<open>2^32\<close> ticks, and once more while the clock is still below its first value:
  the time of a packet after the roll-over is far ahead, and when the clock passes its first value the
  time jumps back by 429.5 s.\<close>

theorem host_time:
  assumes "ut_start_clk100ns ut = 0" and "ut_clk100ns_upper ut = 0" and "pkt_clk100ns p \<noteq> 0"
    and "sorted (map pkt_clk100ns (p # rxs))"
    and "pkt_clk100ns q < pkt_clk100ns p" and "pkt_clk100ns p \<le> pkt_clk100ns r"
  shows "host_times now (p # rxs) ut
      = map (\<lambda>rx. now (ut_clock ut) + 100 * of_nat (unat (pkt_clk100ns rx) - unat (pkt_clk100ns p))) (p # rxs)
    \<and> (\<exists>t. host_times now [p, q, r] ut = [now (ut_clock ut), t,
          t + 100 * of_nat (unat (pkt_clk100ns r) - unat (pkt_clk100ns q)) - 100 * 2 ^ 32]
        \<and> t = now (ut_clock ut) + 100 * of_nat (2 ^ 33 + unat (pkt_clk100ns q) - unat (pkt_clk100ns p)))"
proof -
  let ?c = "pkt_clk100ns p" and ?A = "now (ut_clock ut)"
  let ?u = "ut\<lparr>ut_start_clk100ns := ?c, ut_last_clk100ns := ucast ?c, ut_abs_start_ns := ?A, ut_clock := Suc (ut_clock ut)\<rparr>"
  let ?v = "?u\<lparr>ut_clk100ns_upper := 1, ut_last_clk100ns := ucast (pkt_clk100ns q)\<rparr>"
  let ?t = "?A + 100 * of_nat (2 ^ 33 + unat (pkt_clk100ns q) - unat ?c)"
  have first: "now_ns_from_clk100ns now p ut = (?A, ?u)" using now_ns_first [OF assms(1)] assms(2) by simp
  have "host_times now rxs ?u = map (\<lambda>rx. ?A + 100 * ucast (pkt_clk100ns rx - ?c)) rxs"
    using host_times_sorted [of ?u ?c rxs] assms(2,3,4) by simp
  then have "host_times now (p # rxs) ut = map (\<lambda>rx. ?A + 100 * of_nat (unat (pkt_clk100ns rx) - unat ?c)) (p # rxs)"
    using assms(4) tick_diff [of ?c] by (simp add: first)
  moreover have "now_ns_from_clk100ns now q ?u = (?t, ?v)"
    using now_ns_later [of ?u ?c now q] assms(2,3,5) tick_ns [OF tick_wrap [OF assms(5)], of ?A] by simp
  moreover have "\<not> pkt_clk100ns r < pkt_clk100ns q" using assms(5,6) by simp
  then have "fst (now_ns_from_clk100ns now r ?v)
      = ?t + 100 * of_nat (unat (pkt_clk100ns r) - unat (pkt_clk100ns q)) - 100 * 2 ^ 32"
    using now_ns_later [of ?v "pkt_clk100ns q" now r] assms(3) tick_ns_wrapped [OF tick_sum [OF assms(5,6)], of ?A]
    by simp
  ultimately show ?thesis by (intro conjI exI [of _ ?t]) (simp_all only: host_times.simps first split_beta Let_def fst_conv snd_conv)
qed

lemma host_time_witness:
  "host_times (\<lambda>_. 1000) [pkt_zero\<lparr>pkt_clk100ns := 10\<rparr>, pkt_zero\<lparr>pkt_clk100ns := 20\<rparr>] host_idle = [1000, 2000]"
proof -
  have e: "unat (20 :: u32) - unat (10 :: u32) = 10" by simp
  have idle: "ut_start_clk100ns host_idle = 0" "ut_clk100ns_upper host_idle = 0"
    by (simp_all add: host_idle_def)
  show ?thesis
    using host_time [OF idle, of "pkt_zero\<lparr>pkt_clk100ns := 10\<rparr>" "[pkt_zero\<lparr>pkt_clk100ns := 20\<rparr>]"
        "pkt_zero\<lparr>pkt_clk100ns := 5\<rparr>" "pkt_zero\<lparr>pkt_clk100ns := 12\<rparr>" "\<lambda>_. 1000"] e
    by (simp del: host_times.simps)
qed

text \<open>The clock of the firmware stays below the value at which it rolls over.\<close>

lemma CLK100NS_less:
  assumes "unat (w_t0tc w (hist s)) < 3125"
  shows "unat (CLK100NS w s) = 3125 * unat (clkn s AND 0xfffff) + unat (w_t0tc w (hist s))"
    and "unat (CLK100NS w s) < 3276800000"
proof -
  let ?k = "clkn s AND 0xfffff" and ?t = "w_t0tc w (hist s)"
  have "unat ?k \<le> unat (0xfffff :: u32)" by (rule word_and_le1 [THEN word_le_nat_alt [THEN iffD1]])
  then have k: "unat ?k \<le> 1048575" by simp
  then have "unat (3125 * ?k) = 3125 * unat ?k" by (subst unat_mult_lem [THEN iffD1]) simp_all
  moreover have "unat (3125 * ?k + ?t) = unat (3125 * ?k) + unat ?t"
    using k calculation assms by (subst unat_add_lem [THEN iffD1]) simp_all
  ultimately show e: "unat (CLK100NS w s) = 3125 * unat ?k + unat ?t" by (simp add: CLK100NS_def)
  show "unat (CLK100NS w s) < 3276800000" unfolding e using k assms by simp
qed

text \<open>The time printed between two packets is exact across one roll-over: for time stamps that the
  firmware takes, it is their difference modulo the period of the firmware's clock, although the
  correction wraps around in 32 bits.\<close>

theorem packet_spacing:
  assumes "unat (w_t0tc w (hist s)) < 3125" and "unat (w_t0tc w (hist s')) < 3125"
  shows "unat (ts_difference (CLK100NS w s) (CLK100NS w s'))
    = (unat (CLK100NS w s') + 3276800000 - unat (CLK100NS w s)) mod 3276800000"
proof -
  let ?a = "CLK100NS w s" and ?b = "CLK100NS w s'"
  have lt: "unat ?a < 3276800000" "unat ?b < 3276800000"
    using CLK100NS_less(2) assms by blast+
  show ?thesis
  proof (cases "?b < ?a")
    case True
    have d: "unat (?a - ?b) = unat ?a - unat ?b" using True by (intro unat_sub) simp
    then have "?a - ?b \<le> ROLLOVER" using lt by (simp add: word_le_nat_alt)
    then have "unat (ROLLOVER - (?a - ?b)) = unat ROLLOVER - unat (?a - ?b)" by (rule unat_sub)
    moreover have "?b + ROLLOVER - ?a = ROLLOVER - (?a - ?b)" by (simp only: diff_diff_eq2 add.commute)
    ultimately have "unat (?b + ROLLOVER - ?a) = unat ROLLOVER - unat (?a - ?b)" by (simp only:)
    then show ?thesis using True lt d by (simp add: ts_difference_def word_less_nat_alt)
  next
    case False
    then have "unat (?b - ?a) = unat ?b - unat ?a" by (intro unat_sub) simp
    then show ?thesis using False lt by (simp add: ts_difference_def word_less_nat_alt mod_if)
  qed
qed

lemma packet_spacing_witness:
  "unat (ts_difference (CLK100NS lab_world fw_initial) (CLK100NS lab_world fw_initial)) = 0"
proof -
  have "unat (w_t0tc lab_world (hist fw_initial)) < 3125" by (simp add: lab_world_def)
  from packet_spacing [OF this this] show ?thesis by simp
qed

subsection \<open>The trim of the device's clock\<close>

lemma timer_trim:
  "regs (TIMER0_IRQHandler True f) T0MR0 = 3124 + ucast (clk100ns_offset f)
   \<and> clk100ns_offset (TIMER0_IRQHandler True f) = 0"
proof -
  have "clk100ns_offset (hop_trigger g) = clk100ns_offset g" for g
    by (simp add: hop_trigger_def pin_clr_def Let_def)
  then show ?thesis by (simp add: TIMER0_IRQHandler_def reg_write_def Let_def)
qed

lemma clk_trim_aligns:
  assumes "unat k < 6250" and "clk_trim k = Some t"
  shows "0 < t \<and> t < 6250 \<and> (int (unat k) - t) mod 6250 = CLK_TUNE_TIME"
  using assms by (auto simp: clk_trim_def simp del: of_nat_unat split: if_splits)


definition rx_on :: "'d \<Rightarrow> ('d, unit, unit, unit) rx_state" where
  "rx_on d = \<lparr>ut_packets = ut_packets host_idle, ut_devh = Some d, ut_rx_xfer = None, ut_bufs = ut_bufs host_idle,
     ut_empty_usb_buf = None, ut_full_usb_buf = None, ut_usb_really_full = False, ut_stop_ubertooth = False,
     ut_abs_start_ns = 0, ut_start_clk100ns = 0, ut_last_clk100ns = 0, ut_clk100ns_upper = 0,
     ut_pcapng_bredr = False, ut_pcapng_le = False, ut_timeout_dev = False, ut_systime = 0, ut_infile = False,
     ut_dumpfile = None, ut_stdout = [], ut_stderr = [], ut_events = 0, ut_clock = 0,
     cb_rssi_history = rssi_history_initial, cb_calibrated = False, cb_btle_prev_ts = 0, cb_ego_prev_ts = 0,
     cb_packet_counter_max = 0, cb_last_seen = replicate 79 0, cb_counter = 0, cb_last_seen_r = replicate 79 0,
     cb_counter_r = 0, cb_pn = None, cb_pcap_bredr = [], cb_pcap_le = [], cb_lines = []\<rparr>"


end
