(* ===== verification/Host_Packets.thy ===== *)
theory Host_Packets
  imports Host_Signals
begin

text \<open>
  The callbacks of \<^verbatim>\<open>host/libubertooth/src/ubertooth_callback.c\<close> as clients of the receive loop, the and the symbols
  they hand to libbtbb.
\<close>

subsection \<open>Every callback keeps the contract of the receive loop\<close>

lemma transport_updates [simp]:
  "transport (ut\<lparr>cb_rssi_history := a\<rparr>) = transport ut" "transport (ut\<lparr>cb_calibrated := b\<rparr>) = transport ut"
  "transport (ut\<lparr>cb_btle_prev_ts := c\<rparr>) = transport ut" "transport (ut\<lparr>cb_ego_prev_ts := d\<rparr>) = transport ut"
  "transport (ut\<lparr>cb_last_seen := e\<rparr>) = transport ut" "transport (ut\<lparr>cb_counter := f\<rparr>) = transport ut"
  "transport (ut\<lparr>cb_last_seen_r := g\<rparr>) = transport ut" "transport (ut\<lparr>cb_counter_r := h\<rparr>) = transport ut"
  "transport (ut\<lparr>cb_pn := i\<rparr>) = transport ut" "transport (ut\<lparr>cb_pcap_bredr := j\<rparr>) = transport ut"
  "transport (ut\<lparr>cb_pcap_le := k\<rparr>) = transport ut" "transport (ut\<lparr>cb_lines := l\<rparr>) = transport ut"
  by (simp_all add: transport_def)

lemma transport_base [simp]:
  "transport (v\<lparr>ut_clock := m\<rparr>) = transport v" "transport (v\<lparr>ut_systime := n\<rparr>) = transport v"
  "transport (v\<lparr>ut_start_clk100ns := q\<rparr>) = transport v" "transport (v\<lparr>ut_last_clk100ns := r\<rparr>) = transport v"
  "transport (v\<lparr>ut_clk100ns_upper := s\<rparr>) = transport v" "transport (v\<lparr>ut_abs_start_ns := t\<rparr>) = transport v"
  "transport (v\<lparr>ut_stop_ubertooth := x\<rparr>) = transport v" "transport (v\<lparr>ut_devh := y\<rparr>) = transport v"
  "transport (v\<lparr>ut_stderr := z\<rparr>) = transport v"
  by (simp_all add: transport_def)

lemma transport_steps [simp]:
  "transport (print_line l ut) = transport ut" "transport (take_time time v) = transport v"
  "transport (dump_packet rx v) = transport v" "transport (append_bredr ns sg no lap uap pkt ut) = transport ut"
  "transport (snd (now_ns_from_clk100ns now rx v)) = transport v"
  by (simp_all add: print_line_def take_time_def dump_packet_def append_bredr_def now_ns_from_clk100ns_def
    track_clk100ns_def Let_def)

lemma transport_determine:
  "determine_signal_and_noise rx ut = Some (sg, no, ut') \<Longrightarrow> transport ut' = transport ut"
  by (auto simp: determine_signal_and_noise_def Let_def split: if_splits)

lemma transport_device: "on_device cmd v = Some (r, v') \<Longrightarrow> transport v' = transport v"
  by (auto simp: on_device_def split: option.splits)

lemma transport_hop_on: "hop_on u v = Some v' \<Longrightarrow> transport v' = transport v"
  by (auto simp: hop_on_def dest: transport_device)

lemma transport_calibrate: "calibrate u k ut = Some ut' \<Longrightarrow> transport ut' = transport ut"
  by (auto simp: calibrate_def split: bind_splits option.splits dest!: transport_device)

lemma now_transport: "now_ns_from_clk100ns now rx v = (t, v') \<Longrightarrow> transport v' = transport v"
  using transport_steps(5) [of now rx v] by simp

lemma br_rx_transport: "cb_br_rx bb time now ut = Some ut' \<Longrightarrow> transport ut' = transport ut"
  unfolding cb_br_rx_def Let_def
  by (auto simp: split_beta split: bind_splits if_splits option.splits prod.splits
    dest!: transport_determine now_transport)

lemma rx_found_transport:
  "rx_found bb u time rx ns sg no offset pkt ut = Some ut' \<Longrightarrow> transport ut' = transport ut"
  unfolding rx_found_def Let_def
  by (auto simp: split_beta split: if_splits option.splits dest!: transport_calibrate transport_device)

lemma rx_transport: "cb_rx bb u time now ut = Some ut' \<Longrightarrow> transport ut' = transport ut"
  unfolding cb_rx_def Let_def
  by (auto simp: split_beta split: bind_splits if_splits option.splits prod.splits
    dest!: transport_determine now_transport rx_found_transport)

lemma btle_transport: "cb_btle bb time now allowed ut = Some ut' \<Longrightarrow> transport ut' = transport ut"
  unfolding cb_btle_def Let_def
  by (auto simp: split_beta split: bind_splits if_splits option.splits prod.splits
    dest!: transport_determine now_transport)

lemma ego_transport: "cb_ego ut = Some ut' \<Longrightarrow> transport ut' = transport ut"
  by (auto simp: cb_ego_def Let_def)

lemma afh_fill_transport [simp]: "transport (snd (afh_fill bb near far shown nu)) = transport (snd nu)"
  by (simp add: afh_fill_def split_beta)

lemma afh_forget_transport [simp]: "transport (snd (afh_forget bb say seen k i nu)) = transport (snd nu)"
  by (simp add: afh_forget_def split_beta)

lemma afh_loop_transport [simp]: "transport (snd (fold (afh_forget bb say seen k) is nu)) = transport (snd nu)"
  by (induction "is" arbitrary: nu) simp_all

lemma afh_initial_transport: "cb_afh_initial bb u ut = Some ut' \<Longrightarrow> transport ut' = transport ut"
  unfolding cb_afh_initial_def Let_def
  by (auto simp: split_beta split: bind_splits if_splits option.splits dest!: transport_device transport_hop_on)

lemma afh_monitor_transport: "cb_afh_monitor bb u ut = Some ut' \<Longrightarrow> transport ut' = transport ut"
  unfolding cb_afh_monitor_def Let_def
  by (auto simp: split_beta split: bind_splits if_splits option.splits dest!: transport_hop_on)

lemma afh_r_transport: "cb_afh_r bb u ut = Some ut' \<Longrightarrow> transport ut' = transport ut"
  unfolding cb_afh_r_def Let_def
  by (auto simp: split_beta split: bind_splits if_splits option.splits dest!: transport_hop_on)

interpretation br_rx: rx_client "cb_br_rx bb time now" for bb time now
  by unfold_locales (rule br_rx_transport)

interpretation rx_cb: rx_client "cb_rx bb u time now" for bb u time now
  by unfold_locales (rule rx_transport)

interpretation btle: rx_client "cb_btle bb time now allowed" for bb time now allowed
  by unfold_locales (rule btle_transport)

interpretation ego_cb: rx_client cb_ego
  by unfold_locales (rule ego_transport)

interpretation afh_initial: rx_client "cb_afh_initial bb u" for bb u
  by unfold_locales (rule afh_initial_transport)

interpretation afh_monitor: rx_client "cb_afh_monitor bb u" for bb u
  by unfold_locales (rule afh_monitor_transport)

interpretation afh_r: rx_client "cb_afh_r bb u" for bb u
  by unfold_locales (rule afh_r_transport)

text \<open>The callbacks that the programs of the repository pass to the receive loop.\<close>

definition callbacks ::
  "('p, 'n, 'l) btbb \<Rightarrow> 'd libusb \<Rightarrow> (nat \<Rightarrow> u32) \<Rightarrow> (nat \<Rightarrow> u64) \<Rightarrow> u32 option
     \<Rightarrow> (('d, 'p, 'n, 'l) rx_state \<Rightarrow> ('d, 'p, 'n, 'l) rx_state option) list"
where
  "callbacks bb u time now allowed =
     [cb_br_rx bb time now, cb_rx bb u time now, cb_btle bb time now allowed, cb_ego,
      cb_afh_initial bb u, cb_afh_monitor bb u, cb_afh_r bb u, cb_dump_bitstream, cb_dump_full time]"


lemma rx_idle_sim [simp]: "ut_events rx_idle = 0" "receiving rx_idle" "bulk_inv rx_idle"
  by (simp_all add: rx_idle_def ubertooth.defs rx_state.defs host_idle_def receiving_def bulk_inv_def rb_wf_def list_all_length)


subsection \<open>The symbols of classic Bluetooth\<close>

lemma all_symbols_eq: "rb_wf rb \<Longrightarrow> all_symbols rb = concat (rb_symbols rb)"
proof -
  assume wf: "rb_wf rb"
  have "take BANK_LEN (ringbuffer_get_bt rb (of_nat i)) = ringbuffer_get_bt rb (of_nat i)" for i
    using wf bank_index_less [of rb "of_nat i"] by (simp add: rb_wf_def ringbuffer_get_bt_def list_all_length)
  then show ?thesis by (simp add: all_symbols_def rb_symbols_def comp_def)
qed

lemma all_symbols_history:
  assumes "rb_wf rb" and "list_all pkt_wf ps" and "NUM_BANKS \<le> length ps"
  shows "all_symbols (fold ringbuffer_add ps rb) = symbols (concat (map pkt_data (drop (length ps - NUM_BANKS) ps)))"
proof -
  have "concat (map (symbols \<circ> pkt_data) qs) = symbols (concat (map pkt_data qs))" for qs
    by (induction qs) (simp_all add: symbols_def)
  then show ?thesis
    using all_symbols_eq [OF rb_usb.fold_inv [OF assms(1,2)]] rb_bt.fold_full [OF assms] by simp
qed

lemma length_concat_banks: "list_all (\<lambda>b. length b = n) bs \<Longrightarrow> length (concat bs) = n * length bs"
  by (induction bs) simp_all

lemma length_top_symbols:
  assumes "rb_wf rb"
  shows "length (top_symbols rb) = NUM_BANKS * BANK_LEN - unat (current_bank rb) * BANK_LEN"
  using assms length_concat_banks [of BANK_LEN "rb_bt rb"] by (simp add: top_symbols_def rb_wf_def bank_index_def)

lemma track_frame:
  "ut_packets (track_clk100ns now rx v) = ut_packets v" "ut_infile (track_clk100ns now rx v) = ut_infile v"
  "cb_pn (track_clk100ns now rx ut) = cb_pn ut" "cb_lines (track_clk100ns now rx ut) = cb_lines ut"
  "cb_rssi_history (track_clk100ns now rx ut) = cb_rssi_history ut"
  by (simp_all add: track_clk100ns_def Let_def split: if_split)

lemma now_ns_frame:
  assumes "now_ns_from_clk100ns now rx ut = (t, ut')"
  shows "ut_packets ut' = ut_packets ut \<and> cb_pn ut' = cb_pn ut \<and> cb_lines ut' = cb_lines ut
    \<and> cb_rssi_history ut' = cb_rssi_history ut \<and> ut_infile ut' = ut_infile ut"
proof -
  have "ut' = track_clk100ns now rx ut" using assms by (simp add: now_ns_from_clk100ns_def Let_def)
  then show ?thesis by (simp add: track_frame)
qed

lemma determine_frame:
  assumes "determine_signal_and_noise rx ut = Some (sg, no, ut')"
  shows "ut_packets ut' = ut_packets ut \<and> cb_pn ut' = cb_pn ut \<and> cb_lines ut' = cb_lines ut \<and> ut_infile ut' = ut_infile ut"
  using assms by (auto simp: determine_signal_and_noise_def Let_def split: if_splits)

lemma output_frame:
  "cb_lines (take_time time ut) = cb_lines ut" "cb_lines (dump_packet rx ut) = cb_lines ut"
  "cb_lines (append_bredr ns sg no lap uap pkt ut) = cb_lines ut"
  "ut_packets (take_time time ut) = ut_packets ut" "cb_pn (take_time time ut) = cb_pn ut"
  by (simp_all add: take_time_def dump_packet_def dump_write_def append_bredr_def split: option.split)

text \<open>\<open>cb_br_rx\<close> tells libbtbb that all ten banks follow the packet it found, but passes a pointer into
  the newest bank: the length exceeds what is left of the array by all the banks before this one, and
  behind the newest bank come the oldest ones. Only when the newest bank is the first is the length
  right.\<close>

theorem br_rx_overread:
  assumes "rb_wf (ut_packets ut)" and "history_wf ut"
    and rx: "rx = ringbuffer_top_usb (ut_packets ut)" and "unat (pkt_channel rx) < NUM_BREDR_CHANNELS"
    and found: "bb_find_ac bb (top_symbols (ut_packets ut)) (int BANK_LEN - 64) (search_lap bb (cb_pn ut)) 2 = (offset, Some pkt)"
    and "0 \<le> offset" and "offset < int BANK_LEN - 64"
  shows "\<exists>ut' syms len clkn systime sig noise snr. cb_br_rx bb time now ut = Some ut'
     \<and> cb_lines ut' = cb_lines ut @ [Br_line systime
           (bb_set_data bb syms len (pkt_channel rx) clkn (bb_set_transport bb (bb_set_modulation bb pkt)))
           (pkt_clk100ns rx) sig noise snr]
     \<and> len = int (length syms) + int (unat (current_bank (ut_packets ut))) * int BANK_LEN
     \<and> syms = drop (nat offset) (top_symbols (ut_packets ut))"
proof -
  let ?rb = "ut_packets ut"
  obtain nowns u where u: "now_ns_from_clk100ns now rx ut = (nowns, u)" by (cases "now_ns_from_clk100ns now rx ut")
  note fu = now_ns_frame [OF u]
  have "history_wf u" using assms(2) fu by (simp add: history_wf_def)
  then obtain sig noise v where v: "determine_signal_and_noise rx u = Some (sig, noise, v)"
    using determine_eq [of u rx] assms(4) by auto
  note fv = determine_frame [OF v]
  have len: "int NUM_BANKS * int BANK_LEN - offset
      = int (length (drop (nat offset) (top_symbols ?rb))) + int (unat (current_bank ?rb)) * int BANK_LEN"
  proof -
    have "unat (current_bank ?rb) * BANK_LEN + nat offset \<le> NUM_BANKS * BANK_LEN"
    proof -
      have "unat (current_bank ?rb) < NUM_BANKS" "nat offset < BANK_LEN" using assms(1,6,7) by (simp_all add: rb_wf_def)
      then show ?thesis by linarith
    qed
    then show ?thesis
      using length_top_symbols [OF assms(1)] assms(6) by (simp add: of_nat_diff)
  qed
  show ?thesis
    unfolding cb_br_rx_def
    using assms(4,6) found fu fv len
    by (simp add: rx [symmetric] u v Let_def split_beta print_line_def output_frame) (rule exI, rule refl)
qed

text \<open>A libbtbb that finds a packet at the start of any symbols, and whose packets are the symbols it was
  given.\<close>

definition demo_btbb :: "(u8 list \<times> int, unit, unit) btbb" where
  "demo_btbb = \<lparr>bb_LAP_ANY = 0xffffffff, bb_UAP_ANY = 0xff, bb_init = (\<lambda>_. 0),
     bb_find_ac = (\<lambda>syms n lap errs. (0, Some (syms, n))), bb_set_modulation = id, bb_set_transport = id,
     bb_set_data = (\<lambda>syms len ch clk p. (syms, len)), bb_process_packet = (\<lambda>p n. (0, p, n)),
     bb_get_flag = (\<lambda>f n. False), bb_get_lap = (\<lambda>n. 0), bb_get_uap = (\<lambda>n. 0), bb_get_clk_offset = (\<lambda>n. 0),
     bb_get_bdaddr = (\<lambda>n. 0), bb_set_channel_seen = (\<lambda>c n. (False, n)), bb_clear_channel_seen = (\<lambda>c n. (False, n)),
     bb_get_channel_seen = (\<lambda>c n. False), bb_get_afh_map = (\<lambda>n. []), ll_decode = (\<lambda>d f t. ()),
     ll_offenses = (\<lambda>l. 0), ll_is_data = (\<lambda>l. False), ll_access_address = (\<lambda>l. 0)\<rparr>"

definition demo_state :: "u8 \<Rightarrow> (unit, u8 list \<times> int, unit, unit) rx_state" where
  "demo_state cur = ubertooth.extend (host_idle\<lparr>ut_packets := (ut_packets host_idle)\<lparr>current_bank := cur\<rparr>\<rparr>)
     (rx_state.fields rssi_history_initial True 0 0 0 (replicate 79 0) 0 (replicate 79 0) 0 None [] [] [])"

lemma demo_state_simps:
  "cb_rssi_history (demo_state b) = rssi_history_initial" "cb_lines (demo_state b) = []"
  "ut_packets (demo_state b) = \<lparr>current_bank = b, rb_usb = replicate NUM_BANKS pkt_zero,
     rb_bt = replicate NUM_BANKS (replicate BANK_LEN 0)\<rparr>"
  by (simp_all add: demo_state_def ubertooth.defs rx_state.defs host_idle_def)

lemma br_rx_overread_witness:
  "\<exists>ut' syms len systime clk sig noise snr. cb_br_rx demo_btbb (\<lambda>_. 7) (\<lambda>_. 0) (demo_state 3) = Some ut'
     \<and> cb_lines ut' = [Br_line systime (syms, len) clk sig noise snr] \<and> len = int (length syms) + 1200"
proof -
  let ?ut = "demo_state 3"
  have wf: "rb_wf (ut_packets ?ut)" by (simp add: demo_state_simps rb_wf_def list_all_length)
  have ch: "unat (pkt_channel (ringbuffer_top_usb (ut_packets ?ut))) < NUM_BREDR_CHANNELS"
    by (simp add: demo_state_simps ringbuffer_top_usb_def ringbuffer_get_usb_def bank_index_def pkt_zero_def)
  have found: "bb_find_ac demo_btbb (top_symbols (ut_packets ?ut)) (int BANK_LEN - 64) (search_lap demo_btbb (cb_pn ?ut)) 2
      = (0, Some (top_symbols (ut_packets ?ut), int BANK_LEN - 64))"
    by (simp add: demo_btbb_def)
  show ?thesis
    using br_rx_overread [where time = "\<lambda>_. 7" and now = "\<lambda>_. 0", OF wf history_wf_initial [OF demo_state_simps(1)] refl ch found]
    by (auto simp: demo_btbb_def demo_state_simps)
qed

lemma device_lines: "on_device cmd ut = Some (r, ut') \<Longrightarrow> cb_lines ut' = cb_lines ut"
  by (auto simp: on_device_def split: option.splits)

lemma calibrate_lines: "calibrate u k ut = Some ut' \<Longrightarrow> \<exists>rest. cb_lines ut' = cb_lines ut @ rest"
  by (auto simp: calibrate_def print_line_def split: bind_splits option.splits dest!: device_lines)

lemma rx_found_lines:
  assumes "rx_found bb u time rx ns sig noise offset pkt ut = Some ut'"
  shows "\<exists>systime clk_offset snr rest. cb_lines ut' = cb_lines ut @ Rx_line systime
        (bb_set_data bb (drop (nat offset) (all_symbols (ut_packets ut))) (int NUM_BANKS * int BANK_LEN - offset)
          (pkt_channel rx) (push_bit 20 (ucast (pkt_clkn_high rx)) + (pkt_clk100ns rx + of_int (offset * 10) - 4000) div 3125)
          (bb_set_transport bb (bb_set_modulation bb pkt)))
        (push_bit 20 (ucast (pkt_clkn_high rx)) + (pkt_clk100ns rx + of_int (offset * 10) - 4000) div 3125)
        clk_offset sig noise snr # rest"
  using assms unfolding rx_found_def Let_def
  by (auto simp: split_beta output_frame print_line_def split: if_splits option.splits
    dest!: calibrate_lines device_lines)

text \<open>C24: \<open>cb_rx\<close> hands libbtbb the unbroken stream of the symbols of the last ten packets, from the first
  bit of the access code it found in the oldest of them, with exactly the number of symbols that are
  left, and the clock at that bit.\<close>

theorem rx_hands_stream:
  assumes "rb_wf rb" and "ut_packets ut = fold ringbuffer_add ps rb" and "list_all pkt_wf ps"
    and "NUM_BANKS \<le> length ps" and "history_wf ut"
    and rx: "rx = ps ! (length ps - NUM_BANKS)" and "\<not> bit (pkt_status rx) 5" and "unat (pkt_channel rx) < NUM_BREDR_CHANNELS"
    and syms: "syms = symbols (concat (map pkt_data (drop (length ps - NUM_BANKS) ps)))"
    and "bb_find_ac bb syms (int BANK_LEN) (search_lap bb (cb_pn ut)) 2 = (offset, Some pkt)"
    and "0 \<le> offset" and "offset \<le> int BANK_LEN"
    and run: "cb_rx bb u time now ut = Some ut'"
  shows "\<exists>systime clk_offset sig noise snr rest clkn. cb_lines ut' = cb_lines ut @ Rx_line systime
        (bb_set_data bb (drop (nat offset) syms) (int (length (drop (nat offset) syms))) (pkt_channel rx) clkn
          (bb_set_transport bb (bb_set_modulation bb pkt)))
        clkn clk_offset sig noise snr # rest
     \<and> clkn = push_bit 20 (ucast (pkt_clkn_high rx)) + (pkt_clk100ns rx + of_int (offset * 10) - 4000) div 3125"
proof -
  let ?rb = "ut_packets ut"
  have wf: "rb_wf ?rb" unfolding assms(2) using assms(1,3) by (rule rb_usb.fold_inv)
  have sy: "all_symbols ?rb = syms" unfolding assms(2) syms using assms(1,3,4) by (rule all_symbols_history)
  have "rb_packets ?rb = drop (length ps - NUM_BANKS) ps"
    unfolding assms(2) using rb_usb.fold_full [OF assms(1,3,4)] by simp
  then have bot: "ringbuffer_bottom_usb ?rb = rx"
    using assms(4) by (simp add: bottom_is_first rx hd_drop_conv_nth)
  obtain nowns v where v: "now_ns_from_clk100ns now rx ut = (nowns, v)" by (cases "now_ns_from_clk100ns now rx ut")
  note fv = now_ns_frame [OF v]
  have "history_wf v" using assms(5) fv by (simp add: history_wf_def)
  then obtain sig noise x where x: "determine_signal_and_noise rx v = Some (sig, noise, x)"
    using determine_eq [of v rx] assms(8) by auto
  note fx = determine_frame [OF x]
  have "rx_found bb u time rx nowns sig noise offset pkt x = Some ut'"
    using run assms(7,8,10,11) fv fx sy unfolding cb_rx_def by (simp add: bot v x)
  from rx_found_lines [OF this] have "\<exists>systime clk_offset snr rest. cb_lines ut' = cb_lines ut @ Rx_line systime
        (bb_set_data bb (drop (nat offset) syms) (int NUM_BANKS * int BANK_LEN - offset)
          (pkt_channel rx) (push_bit 20 (ucast (pkt_clkn_high rx)) + (pkt_clk100ns rx + of_int (offset * 10) - 4000) div 3125)
          (bb_set_transport bb (bb_set_modulation bb pkt)))
        (push_bit 20 (ucast (pkt_clkn_high rx)) + (pkt_clk100ns rx + of_int (offset * 10) - 4000) div 3125)
        clk_offset sig noise snr # rest"
    using fv fx sy by simp
  moreover have "int NUM_BANKS * int BANK_LEN - offset = int (length (drop (nat offset) syms))"
  proof -
    have "length (concat (map pkt_data qs)) = SYM_LEN * length qs" if "list_all pkt_wf qs" for qs
      using that by (induction qs) (simp_all add: pkt_wf_def)
    moreover have "list_all pkt_wf (drop (length ps - NUM_BANKS) ps)"
      using assms(3) by (simp add: list_all_length)
    ultimately have "length syms = NUM_BANKS * BANK_LEN" using assms(4) by (simp add: syms)
    then show ?thesis using assms(11,12) by (simp add: of_nat_diff nat_le_iff)
  qed
  ultimately show ?thesis by (simp only:) blast
qed

lemma rx_hands_stream_witness:
  "\<exists>ut' systime clkn clk_offset sig noise snr.
     cb_rx demo_btbb undefined (\<lambda>_. 7) (\<lambda>_. 0)
       ((demo_state 0)\<lparr>ut_packets := fold ringbuffer_add (replicate 10 pkt_zero) (ut_packets host_idle)\<rparr>) = Some ut'
     \<and> hd (cb_lines ut') = Rx_line systime (symbols (replicate 500 0), 4000) clkn clk_offset sig noise snr"
proof -
  let ?ut = "(demo_state 0)\<lparr>ut_packets := fold ringbuffer_add (replicate 10 pkt_zero) (ut_packets host_idle)\<rparr>"
  have wf: "rb_wf (ut_packets host_idle)" by (simp add: host_idle_def rb_wf_def list_all_length)
  have ps: "list_all pkt_wf (replicate 10 pkt_zero)" by (simp add: list_all_length)
  have h: "history_wf ?ut" by (rule history_wf_initial) (simp add: demo_state_simps)
  have data: "concat (replicate 10 (replicate 50 (0 :: u8))) = replicate 500 0"
    by code_simp
  have "ringbuffer_bottom_usb (ut_packets ?ut) = pkt_zero"
    using rb_usb.fold_full [OF wf ps] by (simp add: bottom_is_first)
  moreover obtain ns v where v: "now_ns_from_clk100ns (\<lambda>_. 0) pkt_zero ?ut = (ns, v)"
    by (cases "now_ns_from_clk100ns (\<lambda>_. 0) pkt_zero ?ut")
  moreover obtain sg no x where x: "determine_signal_and_noise pkt_zero v = Some (sg, no, x)"
    using determine_eq [of v pkt_zero] h now_ns_frame [OF v] by (auto simp: history_wf_def pkt_zero_def)
  moreover have "cb_calibrated x"
    using v x by (auto simp: now_ns_from_clk100ns_def track_clk100ns_def determine_signal_and_noise_def Let_def
      demo_state_def ubertooth.defs rx_state.defs host_idle_def split: if_splits)
  moreover have "cb_calibrated (take_time t y) = cb_calibrated y" for t and y :: "(unit, u8 list \<times> int, unit, unit) rx_state"
    by (simp add: take_time_def)
  ultimately obtain ut' where run: "cb_rx demo_btbb undefined (\<lambda>_. 7) (\<lambda>_. 0) ?ut = Some ut'"
    by (auto simp: cb_rx_def rx_found_def demo_btbb_def print_line_def pkt_zero_def Let_def)
  show ?thesis
    using rx_hands_stream [OF wf _ ps _ h refl _ _ refl _ _ _ run] run
    by (auto simp: data demo_btbb_def demo_state_simps pkt_zero_def)
qed

end
