(* ===== verification/Host_Promisc.thy ===== *)
theory Host_Promisc
  imports Host_Packets Rxtx_LE
begin

text \<open>
  The reports of promiscuous mode, from \<open>le_promisc_state\<close> of \<^verbatim>\<open>firmware/bluetooth_rxtx/bluetooth_rxtx.c\<close> to
  the line that \<open>cb_btle\<close> of \<^verbatim>\<open>host/libubertooth/src/ubertooth_callback.c\<close> prints.
\<close>

subsection \<open>Reports of promiscuous mode\<close>

lemma promisc_packet:
  assumes "usbq_wf (uq s)" and "length (usbq_list (uq s)) < 127"
  shows "\<exists>p. usbq_list (uq (le_promisc_state w k data s)) = usbq_list (uq s) @ [p]
     \<and> pkt_type p = pkt_type_code LE_PROMISC \<and> pkt_data p = take 50 (put_at 1 (take 49 data) ((replicate 50 0)[0 := k]))"
  using enqueue_appends [OF assms, of w LE_PROMISC "put_at 1 (take 49 data) ((replicate 50 0)[0 := k])"]
  by (auto simp: le_promisc_state_def)

lemma promisc_data:
  "length data \<le> 49 \<Longrightarrow> take 50 (put_at 1 (take 49 data) ((replicate 50 0)[0 := k])) = k # data @ replicate (49 - length data) 0"
proof -
  have "(replicate 50 0)[0 := k] = k # replicate 49 0" by (simp add: replicate_Suc [of 49, simplified])
  then show "length data \<le> 49 \<Longrightarrow> ?thesis" by (simp add: put_at_def)
qed

lemma btle_promisc:
  assumes "ringbuffer_top_usb (ut_packets ut) = p" and "pkt_type p = pkt_type_code LE_PROMISC"
  shows "cb_btle bb time now allowed ut = Some (print_line (promisc_line (pkt_data p)) ut)"
  using assms by (simp add: cb_btle_def)

lemma from_le_3: "from_le (le_bytes 3 v @ [0]) = (v :: u32) AND 0xffffff"
proof -
  have "from_le (le_bytes 3 v @ [0]) = take_bit 24 v"
  proof (rule bit_word_eqI)
    fix n assume "n < LENGTH(32)"
    then show "bit (from_le (le_bytes 3 v @ [0]) :: u32) n = bit (take_bit 24 v) n"
      by (auto simp: bit_from_le bit_take_bit_iff nth_append bit_byte_at)
  qed
  moreover have "(0xffffff :: u32) = mask 24" by (simp add: mask_eq_exp_minus_1)
  ultimately show ?thesis by (simp only: take_bit_eq_mask)
qed

text \<open>C26: What promiscuous mode finds out reaches the screen. For each of the four reports of the firmware,
  the packet that \<open>le_promisc_state\<close> queues makes the host print the value found: an access address,
  a CRCInit of 24 bits, a hop interval or a hop increment.\<close>

theorem promisc_reports_arrive:
  assumes "usbq_wf (uq s)" and "length (usbq_list (uq s)) < 127"
    and report: "(k, data, line) \<in> {(0, le_bytes 4 aa, Promisc_access_address aa),
        (1, le_bytes 3 crc, Promisc_crc_init (crc AND 0xffffff)),
        (2, le_bytes 2 interval, Promisc_hop_interval (interval :: u16)), (3, [inc], Promisc_hop_increment inc)}"
  shows "\<exists>p. usbq_list (uq (le_promisc_state w k data s)) = usbq_list (uq s) @ [p]
     \<and> (\<forall>ut. ringbuffer_top_usb (ut_packets ut) = p \<longrightarrow>
          cb_btle bb time now allowed ut = Some (ut\<lparr>cb_lines := cb_lines ut @ [line]\<rparr>))"
proof -
  obtain p where p: "usbq_list (uq (le_promisc_state w k data s)) = usbq_list (uq s) @ [p]"
    "pkt_type p = pkt_type_code LE_PROMISC" "pkt_data p = take 50 (put_at 1 (take 49 data) ((replicate 50 0)[0 := k]))"
    using promisc_packet [OF assms(1,2)] by blast
  have data: "pkt_data p = k # data @ replicate (49 - length data) 0"
    unfolding p(3) using report by (intro promisc_data) auto
  have "promisc_line (pkt_data p) = line"
    unfolding data using report
    by (auto simp: promisc_line_def from_le_le_bytes from_le_3 Let_def take_Cons replicate_Suc [of 45, simplified])
  then have "cb_btle bb time now allowed ut = Some (ut\<lparr>cb_lines := cb_lines ut @ [line]\<rparr>)"
    if "ringbuffer_top_usb (ut_packets ut) = p" for ut
    using btle_promisc [OF that p(2), of bb time now allowed] by (simp add: print_line_def)
  then show ?thesis using p(1) by blast
qed

lemma promisc_reports_arrive_witness:
  "\<exists>p. usbq_list (uq (le_promisc_state lab_world 1 (le_bytes 3 (0x123456 :: u32)) fw_initial)) = [p]
     \<and> (\<forall>ut :: (unit, u8 list \<times> int, unit, unit) rx_state. ringbuffer_top_usb (ut_packets ut) = p \<longrightarrow>
          cb_btle demo_btbb (\<lambda>_. 7) (\<lambda>_. 0) None ut = Some (ut\<lparr>cb_lines := cb_lines ut @ [Promisc_crc_init 0x123456]\<rparr>))"
proof -
  have q: "usbq_wf (uq fw_initial)" "usbq_list (uq fw_initial) = []"
    using usbq_wf_initial usbq_list_initial by (simp_all add: fw_initial_def)
  show ?thesis
    using promisc_reports_arrive [OF q(1), where k = "1" and data = "le_bytes 3 (0x123456 :: u32)" and crc = "0x123456"
        and line = "Promisc_crc_init 0x123456" and w = lab_world and bb = demo_btbb and time = "\<lambda>_. 7"
        and now = "\<lambda>_. 0" and allowed = None] q(2) by simp
qed

end
