(* ===== verification/Host_Live.thy ===== *)
theory Host_Live
  imports Host_Callback
begin

text \<open>
  The entry points of the host library, \<^verbatim>\<open>host/libubertooth/src/ubertooth.c\<close>: finding and opening a
  device, starting and stopping it, and the programs \<open>rx_live\<close>, \<open>rx_afh\<close>, \<open>rx_afh_r\<close>, \<open>rx_file\<close> and
  \<open>rx_btle_file\<close> that run a stream with a callback.
\<close>

subsection \<open>Finding a device\<close>

text \<open>An entry of libusb's list of devices: vendor and product, if its descriptor can be read, and what
  opening it returns.\<close>

record 'd usb_entry =
  ue_descriptor :: "(u16 \<times> u16) option"
  ue_open :: "int \<times> 'd"

definition is_ubertooth :: "u16 \<times> u16 \<Rightarrow> bool" where
  "is_ubertooth desc \<longleftrightarrow> desc \<in> {(0xffff, 0x0004), (0x1d50, 0x6000), (0x1d50, 0x6002)}"

text \<open>The indices of the Ubertooths. A descriptor that cannot be read leaves the last one in \<open>desc\<close>.\<close>

fun scan_devices :: "u16 \<times> u16 \<Rightarrow> nat \<Rightarrow> 'd usb_entry list \<Rightarrow> nat list \<times> string list" where
  "scan_devices desc i [] = ([], [])"
| "scan_devices desc i (e # es) =
     (let (desc, out) = (case ue_descriptor e of
            Some d \<Rightarrow> (d, []) | None \<Rightarrow> (desc, [''couldn't get usb descriptor for dev #'' @ dec_nat i @ ''!'']));
          (devs, outs) = scan_devices desc (Suc i) es
      in (if is_ubertooth desc then i # devs else devs, out @ outs))"

text \<open>The serial numbers of all of them; the result of \<open>cmd_get_serial\<close> is kept in a byte.\<close>

fun list_serials :: "'d libusb \<Rightarrow> 'd usb_entry list \<Rightarrow> nat \<Rightarrow> nat list \<Rightarrow> string list option" where
  "list_serials u entries i [] = Some []"
| "list_serials u entries i (j # js) =
     (let (ret, d) = ue_open (entries ! j); device = ''  Device '' @ dec_nat i @ '': ''
      in do {
        out \<leftarrow> (if ret \<noteq> 0 then Some [device, show_libusb_error ret]
               else (case cmd_get_serial u d of
                       None \<Rightarrow> None
                     | Some (r, bs, err, d) \<Rightarrow> Some (err @ (if r mod 256 = 0 then [device, print_serial bs] else []))));
        outs \<leftarrow> list_serials u entries (Suc i) js;
        Some (out @ outs) })"

text \<open>\<open>libusb_open\<close>, with the error message of the callers.\<close>

definition open_entry :: "'d usb_entry \<Rightarrow> 'd option \<times> string list" where
  "open_entry e = (case ue_open e of (ret, d) \<Rightarrow> if ret \<noteq> 0 then (None, [show_libusb_error ret]) else (Some d, []))"

text \<open>The array \<open>ubertooth_devs\<close> has eight elements, all zero at first.\<close>

definition find_ubertooth_device ::
  "'d libusb \<Rightarrow> u16 \<times> u16 \<Rightarrow> 'd usb_entry list \<Rightarrow> int \<Rightarrow> ('d option \<times> string list) option"
where
  "find_ubertooth_device u desc entries ubertooth_device =
     (let (devs, out) = scan_devices desc 0 entries;
          ubertooth_devs = devs @ replicate (8 - length devs) 0
      in if length devs > 8 then None
         else if length devs = 1 then Some (apsnd (append out) (open_entry (entries ! (ubertooth_devs ! 0))))
         else if length devs = 0 then Some (None, out)
         else if ubertooth_device < 0
         then map_option (\<lambda>lines. (None, out @ ''multiple Ubertooth devices found! Use '-U' to specify device number'' # lines))
                (list_serials u entries 0 devs)
         else if ubertooth_device \<ge> 8 then None
         else Some (apsnd (append out) (open_entry (entries ! (ubertooth_devs ! nat ubertooth_device)))))"

subsection \<open>Starting and stopping\<close>

text \<open>The result is the pointer: \<open>Some None\<close> is \<open>NULL\<close>. \<open>malloc\<close> of the structure may fail; the ring buffer
  is written to before its pointer is tested.\<close>

definition ubertooth_init_host ::
  "bool \<Rightarrow> ringbuffer option \<Rightarrow> ('d, 'm) ubertooth_scheme \<Rightarrow> ('d, 'm) ubertooth_scheme option option"
where
  "ubertooth_init_host ok malloc ut =
     (if \<not> ok then Some None
      else (case ringbuffer_init malloc of
              None \<Rightarrow> None
            | Some rb \<Rightarrow> Some (Some (ut\<lparr>ut_packets := rb, ut_devh := None, ut_rx_xfer := None,
                ut_empty_usb_buf := None, ut_full_usb_buf := None, ut_usb_really_full := False,
                ut_stop_ubertooth := False, ut_abs_start_ns := 0, ut_start_clk100ns := 0,
                ut_last_clk100ns := 0, ut_clk100ns_upper := 0,
                ut_pcapng_bredr := False, ut_pcapng_le := False\<rparr>))))"

text \<open>A cancelled transfer completes in a later event; releasing and closing the device leaves nothing.\<close>

definition ubertooth_stop :: "'d libusb \<Rightarrow> ('d, 'm) rx_callback" where
  "ubertooth_stop u ut = do {
     ut \<leftarrow> (if ut_devh ut = None then Some ut else map_option snd (on_device (cmd_stop u) ut));
     Some (ut\<lparr>ut_pcapng_bredr := False, ut_pcapng_le := False\<rparr>) }"

definition ubertooth_connect ::
  "'d libusb \<Rightarrow> int \<Rightarrow> u16 \<times> u16 \<Rightarrow> 'd usb_entry list \<Rightarrow> ('d \<Rightarrow> int) \<Rightarrow> int
     \<Rightarrow> ('d, 'm) ubertooth_scheme \<Rightarrow> (int \<times> ('d, 'm) ubertooth_scheme) option"
where
  "ubertooth_connect u init desc entries claim ubertooth_device ut =
     (if init < 0 then Some (-1, err_line ''libusb_init failed (got 1.0?)'' ut)
      else (case find_ubertooth_device u desc entries ubertooth_device of
              None \<Rightarrow> None
            | Some (devh, out) \<Rightarrow>
                (let ut = ut\<lparr>ut_devh := devh, ut_stderr := ut_stderr ut @ out\<rparr>
                 in case devh of
                      None \<Rightarrow> map_option (Pair (-1)) (ubertooth_stop u (err_line ''could not open Ubertooth device'' ut))
                    | Some d \<Rightarrow>
                        if claim d < 0
                        then map_option (Pair (-1))
                               (ubertooth_stop u (err_line (''usb_claim_interface error '' @ dec (claim d)) ut))
                        else Some (1, ut))))"

text \<open>A failed allocation is not tested for.\<close>

definition ubertooth_start ::
  "bool \<Rightarrow> ringbuffer option \<Rightarrow> 'd libusb \<Rightarrow> int \<Rightarrow> u16 \<times> u16 \<Rightarrow> 'd usb_entry list \<Rightarrow> ('d \<Rightarrow> int) \<Rightarrow> int
     \<Rightarrow> ('d, 'm) ubertooth_scheme \<Rightarrow> ('d, 'm) ubertooth_scheme option option"
where
  "ubertooth_start ok malloc u init desc entries claim ubertooth_device ut =
     (case ubertooth_init_host ok malloc ut of
        None \<Rightarrow> None
      | Some None \<Rightarrow> None
      | Some (Some ut) \<Rightarrow>
          map_option (\<lambda>(r, ut). if r < 0 then None else Some ut)
            (ubertooth_connect u init desc entries claim ubertooth_device ut))"

subsection \<open>Programs\<close>

text \<open>What a program runs on: libbtbb, libusb with its events, the arrays of each \<open>ubertooth_bulk_init\<close> and
  the result of its first submission, the clocks, and the access code of a LAP.\<close>

record ('d, 'p, 'n, 'l) host =
  ho_btbb :: "('p, 'n, 'l) btbb"
  ho_usb :: "'d libusb"
  ho_events :: "nat \<Rightarrow> bulk_event"
  ho_buffers :: "nat \<Rightarrow> usb_buf \<Rightarrow> u8 list"
  ho_submit :: "nat \<Rightarrow> int"
  ho_time :: "nat \<Rightarrow> u32"
  ho_now :: "nat \<Rightarrow> u64"
  ho_syncword :: "u64 \<Rightarrow> u64"

definition run_stream ::
  "('d, 'p, 'n, 'l) host \<Rightarrow> (('d, 'p, 'n, 'l) rx_state \<Rightarrow> ('d, 'p, 'n, 'l) rx_state option)
     \<Rightarrow> ('d, 'p, 'n, 'l) rx_state \<Rightarrow> ('d, 'p, 'n, 'l) rx_state option"
where
  "run_stream h cb ut =
     map_option snd (stream_rx_usb (ho_usb h) (ho_events h) (ho_buffers h (ut_events ut)) (ho_submit h (ut_events ut)) cb ut)"

definition run_cmd :: "('d \<Rightarrow> 'd outcome) \<Rightarrow> ('d, 'm) rx_callback" where
  "run_cmd cmd ut = map_option snd (on_device cmd ut)"

definition clock_known :: "('p, 'n, 'l) btbb \<Rightarrow> 'n option \<Rightarrow> bool" where
  "clock_known bb pn = (case pn of None \<Rightarrow> False | Some n \<Rightarrow> bb_get_flag bb BTBB_CLK27_VALID n)"

definition rx_live ::
  "('d, 'p, 'n, 'l) host \<Rightarrow> bool \<Rightarrow> ('d, 'p, 'n, 'l) rx_state \<Rightarrow> ('d, 'p, 'n, 'l) rx_state option"
where
  "rx_live h timeout ut =
     (let bb = ho_btbb h; u = ho_usb h; cb = cb_br_rx bb (ho_time h) (ho_now h)
      in if bb_init bb max_ac_errors < 0 then Some ut
         else
           let ut = (if timeout then ubertooth_set_timeout ut else ut)
           in do {
             ut \<leftarrow> (if clock_known bb (cb_pn ut) then run_cmd (cmd_set_clock u 0) ut else run_stream h cb ut);
             (case cb_pn ut of
                None \<Rightarrow> Some ut
              | Some n \<Rightarrow>
                  if \<not> clock_known bb (Some n) then Some ut
                  else do {
                    let ut = ut\<lparr>ut_stop_ubertooth := False, ut_usb_really_full := False\<rparr>;
                    ut \<leftarrow> run_cmd (cmd_set_bdaddr (ho_syncword h) u (bb_get_bdaddr bb n)) ut;
                    ut \<leftarrow> run_cmd (cmd_start_hopping u (bb_get_clk_offset bb n) 0) ut;
                    run_stream h cb ut }) })"

definition print_afh_map ::
  "('p, 'n, 'l) btbb \<Rightarrow> ('d, 'p, 'n, 'l) rx_state \<Rightarrow> ('d, 'p, 'n, 'l) rx_state option"
where
  "print_afh_map bb ut = map_option (\<lambda>n. print_line (Afh_map (bb_get_afh_map bb n)) ut) (cb_pn ut)"

definition rx_afh ::
  "('d, 'p, 'n, 'l) host \<Rightarrow> bool \<Rightarrow> ('d, 'p, 'n, 'l) rx_state \<Rightarrow> ('d, 'p, 'n, 'l) rx_state option"
where
  "rx_afh h timeout ut =
     (let bb = ho_btbb h; u = ho_usb h
      in if bb_init bb max_ac_errors < 0 then Some ut
         else do {
           ut \<leftarrow> run_cmd (cmd_set_channel u 9999) ut;
           ut \<leftarrow> (if timeout then do {
                    let ut = ubertooth_set_timeout ut;
                    ut \<leftarrow> run_cmd (cmd_afh u) ut;
                    ut \<leftarrow> run_stream h (cb_afh_initial bb u) ut;
                    ut \<leftarrow> run_cmd (cmd_stop u) ut;
                    print_afh_map bb ut }
                  else Some ut);
           ut \<leftarrow> run_cmd (cmd_clear_afh_map u) ut;
           ut \<leftarrow> run_cmd (cmd_afh u) ut;
           run_stream h (cb_afh_monitor bb u) ut })"

text \<open>The map is printed, channel by channel, when the second has changed.\<close>

definition afh_bits :: "u8 list \<Rightarrow> bool list" where
  "afh_bits m = concat (map (\<lambda>i. map (\<lambda>j. bit (m ! i) j) [0..<8]) [0..<10])"

definition afh_r_print ::
  "('d, 'p, 'n, 'l) host \<Rightarrow> u32 \<times> ('d, 'p, 'n, 'l) rx_state \<Rightarrow> (u32 \<times> ('d, 'p, 'n, 'l) rx_state) option"
where
  "afh_r_print h = (\<lambda>(lasttime, ut).
     (let t = ho_time h; k = ut_clock ut; ut = ut\<lparr>ut_clock := k + 1\<rparr>
      in if lasttime < t k
         then (case cb_pn ut of
                 None \<Rightarrow> None
               | Some n \<Rightarrow> Some (t (k + 1),
                   print_line (Afh_bits (t (k + 2)) (afh_bits (bb_get_afh_map (ho_btbb h) n))) (ut\<lparr>ut_clock := k + 3\<rparr>)))
         else Some (lasttime, ut)))"

definition afh_r_round ::
  "('d, 'p, 'n, 'l) host \<Rightarrow> u32 \<times> ('d, 'p, 'n, 'l) rx_state \<Rightarrow> (u32 \<times> ('d, 'p, 'n, 'l) rx_state) step option"
where
  "afh_r_round h = (\<lambda>(lasttime, ut). do {
     ut \<leftarrow> ubertooth_bulk_wait (ho_events h) ut;
     (r, ut) \<leftarrow> ubertooth_bulk_receive (ho_events h) (cb_afh_r (ho_btbb h) (ho_usb h)) ut;
     st \<leftarrow> afh_r_print h (lasttime, ut);
     Some (if r = 1 then Leave st else Again st) })"

definition rx_afh_r ::
  "('d, 'p, 'n, 'l) host \<Rightarrow> u32 \<Rightarrow> ('d, 'p, 'n, 'l) rx_state \<Rightarrow> (u32 \<times> ('d, 'p, 'n, 'l) rx_state) option"
where
  "rx_afh_r h lasttime ut =
     (let u = ho_usb h
      in if bb_init (ho_btbb h) max_ac_errors < 0 then Some (lasttime, ut)
         else do {
           ut \<leftarrow> run_cmd (cmd_set_channel u 9999) ut;
           ut \<leftarrow> run_cmd (cmd_afh u) ut;
           (case ubertooth_bulk_init (ho_buffers h (ut_events ut)) (ho_submit h (ut_events ut)) ut of
              (r, ut) \<Rightarrow>
                if r < 0 then Some (lasttime, ut)
                else do {
                  (r, ut) \<leftarrow> on_device (cmd_rx_syms u) ut;
                  if r < 0 then Some (lasttime, ut) else loop_opt (afh_r_round h) (lasttime, ut) }) })"

definition rx_file ::
  "('d, 'p, 'n, 'l) host \<Rightarrow> bool \<Rightarrow> ringbuffer option \<Rightarrow> u8 list
     \<Rightarrow> ('d, 'p, 'n, 'l) rx_state \<Rightarrow> ('d, 'p, 'n, 'l) rx_state option"
where
  "rx_file h ok malloc fp ut =
     (if bb_init (ho_btbb h) max_ac_errors < 0 then Some ut
      else (case ubertooth_init_host ok malloc ut of
              None \<Rightarrow> None
            | Some None \<Rightarrow> Some ut
            | Some (Some ut) \<Rightarrow> stream_rx_file (cb_br_rx (ho_btbb h) (ho_time h) (ho_now h)) fp ut))"

definition rx_btle_file ::
  "('d, 'p, 'n, 'l) host \<Rightarrow> bool \<Rightarrow> ringbuffer option \<Rightarrow> u8 list
     \<Rightarrow> ('d, 'p, 'n, 'l) rx_state \<Rightarrow> ('d, 'p, 'n, 'l) rx_state option"
where
  "rx_btle_file h ok malloc fp ut =
     (case ubertooth_init_host ok malloc ut of
        None \<Rightarrow> None
      | Some None \<Rightarrow> Some ut
      | Some (Some ut) \<Rightarrow> stream_rx_file (cb_btle (ho_btbb h) (ho_time h) (ho_now h) None) fp ut)"

end
