(* ===== verification/Host_Programs.thy ===== *)
theory Host_Programs
  imports Host_Live Host_Packets Usb_Std
begin

text \<open>
  Properties of the entry points of the host library: which device is opened, and what the firmware has
  been told when \<open>rx_live\<close> starts to follow a known piconet.
\<close>

subsection \<open>Finding a device\<close>

text \<open>The Ubertooths among the devices whose descriptors can be read.\<close>

definition ubertooths :: "'d usb_entry list \<Rightarrow> nat list" where
  "ubertooths entries = filter (\<lambda>i. case ue_descriptor (entries ! i) of None \<Rightarrow> False | Some d \<Rightarrow> is_ubertooth d) [0..<length entries]"

lemma scan_devices_readable:
  assumes "list_all (\<lambda>e. ue_descriptor e \<noteq> None) es"
  shows "scan_devices desc i es
    = (map (\<lambda>k. k + i) (ubertooths es), [])"
  using assms
proof (induction es arbitrary: desc i)
  case (Cons e es)
  then obtain d where d: "ue_descriptor e = Some d" by auto
  have "ubertooths (e # es) = (if is_ubertooth d then [0] else []) @ map Suc (ubertooths es)"
    by (simp add: ubertooths_def d upt_rec [of 0] map_Suc_upt [symmetric] filter_map comp_def del: upt_Suc)
  then show ?case using Cons.IH [of d "Suc i"] Cons.prems by (simp add: d comp_def)
qed (simp add: ubertooths_def)

text \<open>What the firmware says it is: the vendor and product of its device descriptor.\<close>

definition firmware_ids :: "u16 \<times> u16" where
  "firmware_ids = (from_le (take 2 (drop 8 abDescriptors)), from_le (take 2 (drop 10 abDescriptors)))"

text \<open>The device with the requested number is opened. With readable descriptors, the numbers count the
  Ubertooths in the order of libusb's list, and a device running this firmware is one of them. A
  single one is opened whatever number is asked for, none at all is reported; among two to eight the
  one with the number is opened. A number that is too large, but below eight, opens the first device
  of libusb's list, whatever it is.\<close>

theorem find_device_opens:
  assumes "list_all (\<lambda>e. ue_descriptor e \<noteq> None) entries" and devs: "devs = ubertooths entries"
  shows "is_ubertooth firmware_ids
    \<and> (devs = [] \<longrightarrow> find_ubertooth_device u desc entries k = Some (None, []))
    \<and> (\<forall>i. devs = [i] \<longrightarrow> find_ubertooth_device u desc entries k = Some (open_entry (entries ! i)))
    \<and> (2 \<le> length devs \<and> length devs \<le> 8 \<and> 0 \<le> k \<and> nat k < length devs \<longrightarrow>
         find_ubertooth_device u desc entries k = Some (open_entry (entries ! (devs ! nat k))))
    \<and> (2 \<le> length devs \<and> length devs \<le> nat k \<and> k < 8 \<longrightarrow>
         find_ubertooth_device u desc entries k = Some (open_entry (entries ! 0)))"
proof -
  have scan: "scan_devices desc 0 entries = (devs, [])"
    unfolding devs using scan_devices_readable [OF assms(1), of desc 0] by simp
  have "is_ubertooth firmware_ids" by code_simp
  moreover have "find_ubertooth_device u desc entries k = Some (None, [])" if "devs = []"
    using that by (simp add: find_ubertooth_device_def scan)
  moreover have "find_ubertooth_device u desc entries k = Some (open_entry (entries ! i))" if "devs = [i]" for i
    using that by (simp add: find_ubertooth_device_def scan apsnd_def map_prod_def split: prod.split)
  moreover have "find_ubertooth_device u desc entries k = Some (open_entry (entries ! (devs ! nat k)))"
    if "2 \<le> length devs" "length devs \<le> 8" "0 \<le> k" "nat k < length devs"
    using that by (auto simp: find_ubertooth_device_def scan nth_append apsnd_def map_prod_def split: prod.split)
  moreover have "find_ubertooth_device u desc entries k = Some (open_entry (entries ! 0))"
    if that: "2 \<le> length devs" "length devs \<le> nat k" "k < 8"
  proof -
    have "nat k - length devs < 8 - length devs" "0 \<le> k" "\<not> 8 < length devs" using that by linarith+
    then have "(devs @ replicate (8 - length devs) 0) ! nat k = 0" using that(2) by (simp add: nth_append)
    moreover have "length devs \<noteq> 1" "length devs \<noteq> 0" "\<not> 8 \<le> k" using that by linarith+
    ultimately show ?thesis using \<open>0 \<le> k\<close> \<open>\<not> 8 < length devs\<close>
      by (simp add: find_ubertooth_device_def scan apsnd_def map_prod_def split: prod.split)
  qed
  ultimately show ?thesis by blast
qed

lemma find_device_opens_witness:
  "\<forall>u :: nat libusb. find_ubertooth_device u (0, 0)
     [\<lparr>ue_descriptor = Some (0x046d, 0xc077), ue_open = (0, 0)\<rparr>, \<lparr>ue_descriptor = Some (0x1d50, 0x6002), ue_open = (0, 1)\<rparr>,
      \<lparr>ue_descriptor = Some (0x1d50, 0x6002), ue_open = (0, 2)\<rparr>] 1 = Some (Some 2, [])"
proof
  fix u :: "nat libusb"
  let ?es = "[\<lparr>ue_descriptor = Some (0x046d, 0xc077), ue_open = (0, 0)\<rparr>, \<lparr>ue_descriptor = Some (0x1d50, 0x6002), ue_open = (0, 1)\<rparr>,
      \<lparr>ue_descriptor = Some (0x1d50, 0x6002), ue_open = (0, 2 :: nat)\<rparr>]"
  have "list_all (\<lambda>e. ue_descriptor e \<noteq> None) ?es" by simp
  moreover have "ubertooths ?es = [1, 2]" by (simp add: ubertooths_def is_ubertooth_def upt_conv_Cons)
  ultimately show "find_ubertooth_device u (0, 0) ?es 1 = Some (Some 2, [])"
    using find_device_opens [of ?es "ubertooths ?es" u "(0, 0)" 1] by (simp add: open_entry_def)
qed

subsection \<open>Following a known piconet\<close>

context vendor_device
begin

lemma clock_parameter:
  assumes "inv d"
  shows "\<exists>d1. cmd_set_clock u v d = Some (0, [], d1) \<and> inv d1 \<and> clkn (fw_of d1) = v \<and> bt (fw_of d1) = bt (fw_of d)"
proof -
  let ?B = "put_at 0 (le_bytes 4 v) (abVendorReqData (fw_of d))"
  have B: "take 4 ?B = le_bytes 4 v" by (simp add: take_put_at_0)
  obtain d1 where d1: "control_out u UBERTOOTH_SET_CLOCK 0 0 (le_bytes 4 v) d = (4, [], d1)" "inv d1"
    "fw_of d1 = set_buf ?B (cs_threshold_calc_and_set w (fw_of d\<lparr>clkn := v\<rparr>))"
    using data_out [OF assms, of "le_bytes 4 v" UBERTOOTH_SET_CLOCK 0 0]
    by (auto simp: vendor_eval B from_le_le_bytes)
  have "clkn (cs_threshold_calc_and_set w s) = clkn s" "bt (cs_threshold_calc_and_set w s) = bt s" for s
    by (rule cs_threshold_calc_obtain [of w s]; simp)+
  then show ?thesis using d1 by (simp add: cmd_set_clock_def pipe_status_def)
qed

text \<open>The address leaves the clock alone, and hopping leaves clock and address alone.\<close>

lemma bdaddr_keeps_clock:
  assumes "inv d" and "cmd_set_bdaddr gen u a d = Some (r, out, d1)"
  shows "clkn (fw_of d1) = clkn (fw_of d)"
proof -
  let ?bs = "le_bytes 8 a @ le_bytes 8 (gen (a AND 0xffffff))"
  obtain d2 where "control_out u UBERTOOTH_SET_BDADDR 0 0 ?bs d = (16, [], d2)" "clkn (fw_of d2) = clkn (fw_of d)"
    using data_out [OF assms(1), of ?bs UBERTOOTH_SET_BDADDR 0 0] by (auto simp: vendor_eval)
  with assms(2) show ?thesis by (simp add: cmd_set_bdaddr_def Let_def)
qed

lemma hopping_keeps_piconet:
  assumes "inv d" and "cmd_start_hopping u offset offset_ns d = Some (r, out, d1)"
  shows "clkn (fw_of d1) = clkn (fw_of d) \<and> bt (fw_of d1) = bt (fw_of d)"
proof -
  let ?bs = "rev (le_bytes 4 offset) @ [byte_at 1 offset_ns, byte_at 0 offset_ns]"
  obtain d2 where "lu_submit u (control_setup False UBERTOOTH_START_HOPPING 6 @ ?bs) d = (0, d2)"
    "clkn (fw_of d2) = clkn (fw_of d)" "bt (fw_of d2) = bt (fw_of d)"
    using submit_out [OF assms(1), of ?bs 6 UBERTOOTH_START_HOPPING] by (auto simp: vendor_eval Let_def pin_set_def)
  with assms(2) show ?thesis by (simp add: cmd_start_hopping_def ubertooth_cmd_async_def)
qed

end

lemma run_cmd_device:
  assumes "ut_devh ut = Some d" and "cmd d = Some (r, [], d1)"
  shows "run_cmd cmd ut = Some (ut\<lparr>ut_devh := Some d1\<rparr>)"
  using assms by (simp add: run_cmd_def on_device_def)



text \<open>A host with a libbtbb that knows every clock.\<close>

definition follow_btbb :: "(unit, unit, unit) btbb" where
  "follow_btbb = \<lparr>bb_LAP_ANY = 0xffffffff, bb_UAP_ANY = 0xff, bb_init = (\<lambda>_. 0),
     bb_find_ac = (\<lambda>syms n lap errs. (-1, None)), bb_set_modulation = id, bb_set_transport = id,
     bb_set_data = (\<lambda>syms len ch clk p. p), bb_process_packet = (\<lambda>p n. (0, p, n)),
     bb_get_flag = (\<lambda>f n. True), bb_get_lap = (\<lambda>n. 0x123456), bb_get_uap = (\<lambda>n. 0), bb_get_clk_offset = (\<lambda>n. 5),
     bb_get_bdaddr = (\<lambda>n. 0x123456), bb_set_channel_seen = (\<lambda>c n. (False, n)), bb_clear_channel_seen = (\<lambda>c n. (False, n)),
     bb_get_channel_seen = (\<lambda>c n. False), bb_get_afh_map = (\<lambda>n. []), ll_decode = (\<lambda>d f t. ()),
     ll_offenses = (\<lambda>l. 0), ll_is_data = (\<lambda>l. False), ll_access_address = (\<lambda>l. 0)\<rparr>"

definition follow_host :: "(usbdev, unit, unit, unit) host" where
  "follow_host = \<lparr>ho_btbb = follow_btbb,
     ho_usb = stack_libusb lab_world (\<lambda>h e. 0), ho_events = (\<lambda>_. bulk_done []), ho_buffers = (\<lambda>_ _. replicate 512 0),
     ho_submit = (\<lambda>_. 0), ho_time = (\<lambda>_. 7), ho_now = (\<lambda>_. 0), ho_syncword = (\<lambda>a. a)\<rparr>"


end
