(* ===== verification/Dfu_Boot.thy ===== *)
theory Dfu_Boot
  imports Loops Usb_Std
begin

text \<open>
  The bootloader, \<^verbatim>\<open>firmware/bootloader\<close>: the in-application programming calls of \<^verbatim>\<open>iap.cpp\<close>, the writing
  of flash memory in \<^verbatim>\<open>flash.h\<close>, the device firmware upgrade state machine of \<^verbatim>\<open>dfu.cpp\<close>, and the main loop
  of \<^verbatim>\<open>bootloader.cpp\<close>. The memory of the microcontroller is one function from addresses to bytes, flash
  and RAM alike. The ROM code behind the in-application programming calls is a parameter \<open>iap\<close>;
  \<open>iap_documented\<close> states what the LPC17xx manual says of it. The lemmas show which memory a request can
  change and what a block that is written leaves in the flash memory.
\<close>

subsection \<open>Memory and in-application programming\<close>

record 'r chip =
  mem :: "u32 \<Rightarrow> u8"
  rom :: 'r

definition store_mem :: "u32 \<Rightarrow> u8 list \<Rightarrow> (u32 \<Rightarrow> u8) \<Rightarrow> u32 \<Rightarrow> u8" where
  "store_mem dst bs m = (\<lambda>a. if unat (a - dst) < length bs then bs ! unat (a - dst) else m a)"

definition load_mem :: "u32 \<Rightarrow> nat \<Rightarrow> (u32 \<Rightarrow> u8) \<Rightarrow> u8 list" where
  "load_mem src n m = map (\<lambda>i. m (src + of_nat i)) [0..<n]"

text \<open>The entry point in ROM works on the arrays \<open>input\<close> and \<open>output\<close>; a result code is \<open>output[0]\<close>.\<close>

type_synonym 'r iap_entry = "u32 list \<Rightarrow> u32 list \<Rightarrow> 'r chip \<Rightarrow> u32 list \<times> 'r chip"

abbreviation (input) CMD_SUCCESS :: u32 where "CMD_SUCCESS \<equiv> 0"
abbreviation (input) INVALID_COMMAND :: u32 where "INVALID_COMMAND \<equiv> 1"

definition prepare_sectors_for_write_operation ::
  "'r iap_entry \<Rightarrow> u32 \<Rightarrow> u32 \<Rightarrow> 'r chip \<Rightarrow> u32 \<times> 'r chip"
where
  "prepare_sectors_for_write_operation iap start_sector end_sector c =
     apfst (\<lambda>output. output ! 0) (iap [50, start_sector, end_sector] [INVALID_COMMAND] c)"

definition copy_ram_to_flash :: "'r iap_entry \<Rightarrow> u32 \<Rightarrow> u32 \<Rightarrow> u32 \<Rightarrow> u32 \<Rightarrow> 'r chip \<Rightarrow> u32 \<times> 'r chip" where
  "copy_ram_to_flash iap dst src n khz c =
     apfst (\<lambda>output. output ! 0) (iap [51, dst, src, n, khz] [INVALID_COMMAND] c)"

definition erase_sectors :: "'r iap_entry \<Rightarrow> u32 \<Rightarrow> u32 \<Rightarrow> u32 \<Rightarrow> 'r chip \<Rightarrow> u32 \<times> 'r chip" where
  "erase_sectors iap start_sector end_sector khz c =
     apfst (\<lambda>output. output ! 0) (iap [52, start_sector, end_sector, khz] [INVALID_COMMAND] c)"

definition blank_check_sectors :: "'r iap_entry \<Rightarrow> u32 \<Rightarrow> u32 \<Rightarrow> 'r chip \<Rightarrow> u32 \<times> 'r chip" where
  "blank_check_sectors iap start_sector end_sector c =
     apfst (\<lambda>output. output ! 0) (iap [53, start_sector, end_sector] [INVALID_COMMAND, 0, 0] c)"

definition iap_compare :: "'r iap_entry \<Rightarrow> u32 \<Rightarrow> u32 \<Rightarrow> u32 \<Rightarrow> 'r chip \<Rightarrow> u32 \<times> 'r chip" where
  "iap_compare iap dst src n c =
     apfst (\<lambda>output. output ! 0) (iap [56, dst, src, n] [INVALID_COMMAND, 0] c)"

subsection \<open>Flash memory\<close>

abbreviation (input) cclk_khz :: u32 where "cclk_khz \<equiv> 100000"

definition sector_size :: "u32 \<Rightarrow> u32" where
  "sector_size address = (if address < 0x10000 then 4096 else 32768)"

definition at_sector_boundary :: "u32 \<Rightarrow> bool" where
  "at_sector_boundary address \<longleftrightarrow> address AND (sector_size address - 1) = 0"

definition sector_number :: "u32 \<Rightarrow> u32" where
  "sector_number address = (if address < 0x10000 then drop_bit 12 address else 14 + drop_bit 15 address)"

definition valid_address :: "u32 \<Rightarrow> bool" where
  "valid_address address \<longleftrightarrow> address < 0x80000"

definition flash_write :: "'r iap_entry \<Rightarrow> u32 \<Rightarrow> u32 \<Rightarrow> u32 \<Rightarrow> 'r chip \<Rightarrow> bool \<times> 'r chip" where
  "flash_write iap flash_address source_address len c =
     (let sector = sector_number flash_address;
          (result, c) =
            (if at_sector_boundary flash_address then
               (let (result, c) = prepare_sectors_for_write_operation iap sector sector c
                in if result = CMD_SUCCESS then erase_sectors iap sector sector cclk_khz c else (result, c))
             else (CMD_SUCCESS, c));
          (result, c) =
            (if result = CMD_SUCCESS then prepare_sectors_for_write_operation iap sector sector c else (result, c));
          c = (if result = CMD_SUCCESS
               then snd (copy_ram_to_flash iap flash_address source_address len cclk_khz c) else c)
      in (result = CMD_SUCCESS, c))"

subsection \<open>The state machine\<close>

datatype dfu_status = OK | ERRTARGET | ERRFILE | ERRWRITE | ERRERASE | ERRCHECK_ERASED | ERRPROG | ERRVERIFY
  | ERRADDRESS | ERRNOTDONE | ERRFIRMWARE | ERRVENDOR | ERRUSBR | ERRPOR | ERRUNKNOWN | ERRSTALLEDPKT

datatype dfu_state = APPIDLE | APPDETACH | DFUIDLE | DFUDNLOAD_SYNC | DFUDNBUSY | DFUDNLOAD_IDLE
  | DFUMANIFEST_SYNC | DFUMANIFEST | DFUMANIFEST_WAIT_RESET | DFUUPLOAD_IDLE | DFUERROR

fun status_code :: "dfu_status \<Rightarrow> u8" where
  "status_code OK = 0x00" | "status_code ERRTARGET = 0x01" | "status_code ERRFILE = 0x02"
| "status_code ERRWRITE = 0x03" | "status_code ERRERASE = 0x04" | "status_code ERRCHECK_ERASED = 0x05"
| "status_code ERRPROG = 0x06" | "status_code ERRVERIFY = 0x07" | "status_code ERRADDRESS = 0x08"
| "status_code ERRNOTDONE = 0x09" | "status_code ERRFIRMWARE = 0x0A" | "status_code ERRVENDOR = 0x0B"
| "status_code ERRUSBR = 0x0C" | "status_code ERRPOR = 0x0D" | "status_code ERRUNKNOWN = 0x0E"
| "status_code ERRSTALLEDPKT = 0x0F"

fun state_code :: "dfu_state \<Rightarrow> u8" where
  "state_code APPIDLE = 0x00" | "state_code APPDETACH = 0x01" | "state_code DFUIDLE = 0x02"
| "state_code DFUDNLOAD_SYNC = 0x03" | "state_code DFUDNBUSY = 0x04" | "state_code DFUDNLOAD_IDLE = 0x05"
| "state_code DFUMANIFEST_SYNC = 0x06" | "state_code DFUMANIFEST = 0x07"
| "state_code DFUMANIFEST_WAIT_RESET = 0x08" | "state_code DFUUPLOAD_IDLE = 0x09" | "state_code DFUERROR = 0x0A"

abbreviation (input) detach_timeout_ms :: u16 where "detach_timeout_ms \<equiv> 15000"
abbreviation (input) transfer_size :: u32 where "transfer_size \<equiv> 0x100"

record 'r dfu =
  df_status :: dfu_status
  df_state :: dfu_state
  virginity :: bool
  df_chip :: "'r chip"

definition DFU_init :: "'r chip \<Rightarrow> 'r dfu" where
  "DFU_init c = \<lparr>df_status = OK, df_state = DFUIDLE, virginity = True, df_chip = c\<rparr>"

definition in_dfu_mode :: "'r dfu \<Rightarrow> bool" where
  "in_dfu_mode d \<longleftrightarrow> state_code (df_state d) \<ge> state_code DFUIDLE"

definition set_state :: "dfu_state \<Rightarrow> 'r dfu \<Rightarrow> 'r dfu" where
  "set_state new_state d = d\<lparr>df_state := new_state, virginity := False\<rparr>"

definition set_status :: "dfu_status \<Rightarrow> 'r dfu \<Rightarrow> 'r dfu" where
  "set_status new_status d = d\<lparr>df_status := new_status\<rparr>"

definition dfu_mem :: "((u32 \<Rightarrow> u8) \<Rightarrow> u32 \<Rightarrow> u8) \<Rightarrow> 'r dfu \<Rightarrow> 'r dfu" where
  "dfu_mem g d = d\<lparr>df_chip := (df_chip d)\<lparr>mem := g (mem (df_chip d))\<rparr>\<rparr>"

text \<open>A request returns whether it was accepted, the length of the reply, which is the requested length
  unless the request sets it, and the new state.\<close>

type_synonym 'r dfu_result = "bool \<times> u32 \<times> 'r dfu"

definition dfu_error :: "dfu_status \<Rightarrow> u32 \<Rightarrow> 'r dfu \<Rightarrow> 'r dfu_result" where
  "dfu_error new_status n d =
     (let d = (if df_state d \<noteq> APPIDLE \<and> df_state d \<noteq> APPDETACH then set_state DFUERROR d else d)
      in (False, n, set_status new_status d))"

definition get_poll_timeout :: u32 where
  "get_poll_timeout = 20"

definition write_permitted :: "u32 \<Rightarrow> bool" where
  "write_permitted flash_address \<longleftrightarrow> flash_address \<ge> 0x4000"

definition request_detach :: "setup_packet \<Rightarrow> u32 \<Rightarrow> 'r dfu \<Rightarrow> 'r dfu_result" where
  "request_detach su n d =
     (if wLength su = 0 \<and> wValue su \<le> detach_timeout_ms then (True, n, set_state APPDETACH d)
      else dfu_error ERRUNKNOWN n d)"

definition request_dnload :: "'r iap_entry \<Rightarrow> setup_packet \<Rightarrow> u32 \<Rightarrow> u32 \<Rightarrow> 'r dfu \<Rightarrow> 'r dfu_result" where
  "request_dnload iap su n pbData d =
     (if wLength su = 0 then
        if df_state d \<noteq> DFUDNLOAD_IDLE then dfu_error ERRSTALLEDPKT n d
        else (True, n, set_state DFUMANIFEST_SYNC d)
      else if ucast (wLength su) = transfer_size then
        if df_state d \<noteq> DFUIDLE \<and> df_state d \<noteq> DFUDNLOAD_IDLE then dfu_error ERRSTALLEDPKT n d
        else
          (let flash_address = ucast (wValue su) * transfer_size
           in if write_permitted flash_address then
                (let (ok, c) = flash_write iap flash_address pbData (ucast (wLength su)) (df_chip d);
                     d = d\<lparr>df_chip := c\<rparr>
                 in if ok then (True, n, set_state DFUDNLOAD_SYNC d) else dfu_error ERRPROG n d)
              else dfu_error ERRWRITE n d)
      else dfu_error ERRUNKNOWN n d)"

definition request_upload :: "setup_packet \<Rightarrow> u32 \<Rightarrow> u32 \<Rightarrow> 'r dfu \<Rightarrow> 'r dfu_result" where
  "request_upload su n pbData d =
     (if ucast (wLength su) = transfer_size then
        if df_state d \<noteq> DFUIDLE \<and> df_state d \<noteq> DFUUPLOAD_IDLE then dfu_error ERRSTALLEDPKT n d
        else
          (let len = ucast (wLength su);
               flash_address_start = ucast (wValue su) * transfer_size;
               flash_address_end = flash_address_start + len
           in if valid_address flash_address_start \<and> valid_address (flash_address_end - 1)
              then (True, len, set_state DFUIDLE
                (dfu_mem (\<lambda>m. store_mem pbData (load_mem flash_address_start (unat len) m) m) d))
              else dfu_error ERRADDRESS n d)
      else dfu_error ERRUNKNOWN n d)"

definition request_getstatus :: "setup_packet \<Rightarrow> u32 \<Rightarrow> u32 \<Rightarrow> 'r dfu \<Rightarrow> 'r dfu_result" where
  "request_getstatus su n pbData d =
     (if wValue su = 0 \<and> wLength su = 6 then
        (let d = (case df_state d of
                    DFUDNLOAD_SYNC \<Rightarrow> set_state DFUDNLOAD_IDLE d
                  | DFUMANIFEST_SYNC \<Rightarrow> set_state DFUIDLE d
                  | _ \<Rightarrow> d)
         in (True, 6, dfu_mem (store_mem pbData
              ([status_code (df_status d)] @ le_bytes 3 get_poll_timeout @ [state_code (df_state d), 0])) d))
      else (False, n, d))"

definition request_clrstatus :: "setup_packet \<Rightarrow> u32 \<Rightarrow> 'r dfu \<Rightarrow> 'r dfu_result" where
  "request_clrstatus su n d =
     (if wValue su = 0 \<and> wLength su = 0 \<and> df_state d = DFUERROR
      then (True, n, set_state DFUIDLE (set_status OK d))
      else dfu_error ERRUNKNOWN n d)"

definition request_getstate :: "setup_packet \<Rightarrow> u32 \<Rightarrow> u32 \<Rightarrow> 'r dfu \<Rightarrow> 'r dfu_result" where
  "request_getstate su n pbData d =
     (if wValue su = 0 \<and> wLength su = 1
      then (True, 1, dfu_mem (store_mem pbData [state_code (df_state d)]) d)
      else dfu_error ERRUNKNOWN n d)"

definition request_abort :: "setup_packet \<Rightarrow> u32 \<Rightarrow> 'r dfu \<Rightarrow> 'r dfu_result" where
  "request_abort su n d =
     (if wValue su = 0 \<and> wLength su = 0 \<and> df_state d \<noteq> DFUERROR
      then (True, n, set_state DFUIDLE d)
      else dfu_error ERRUNKNOWN n d)"

definition request_handler :: "'r iap_entry \<Rightarrow> setup_packet \<Rightarrow> u32 \<Rightarrow> u32 \<Rightarrow> 'r dfu \<Rightarrow> 'r dfu_result" where
  "request_handler iap su n pbData d =
     (if bRequest su = 0 then request_detach su n d
      else if bRequest su = 1 then request_dnload iap su n pbData d
      else if bRequest su = 2 then request_upload su n pbData d
      else if bRequest su = 3 then request_getstatus su n pbData d
      else if bRequest su = 4 then request_clrstatus su n d
      else if bRequest su = 5 then request_getstate su n pbData d
      else if bRequest su = 6 then request_abort su n d
      else (False, n, d))"

subsection \<open>Class requests\<close>

text \<open>The requests of the firmware tool, all with index 0.\<close>

definition dfu_request :: "u8 \<Rightarrow> u16 \<Rightarrow> nat \<Rightarrow> u8 list \<Rightarrow> usb_request" where
  "dfu_request r v n bs = \<lparr>rq_request = r, rq_value = v, rq_index = 0, rq_length = n, rq_data = bs\<rparr>"

text \<open>
  What the USB stack makes of a class request (\<^verbatim>\<open>usbcontrol.c\<close>, modelled packet by packet in
  \<open>Usb_Control\<close>): the data of the host are stored in \<open>dfu_buffer\<close>, at address \<open>buf\<close>, then the handler is
  called with the requested length, and the answer is a stall (\<open>None\<close>) or the start of the buffer, at
  most as much as was asked for. More than 256 bytes from the host overrun the buffer; the stack does
  not check, so there the model has no result.
\<close>

definition class_setup :: "bool \<Rightarrow> usb_request \<Rightarrow> setup_packet" where
  "class_setup din rq = \<lparr>bmRequestType = (if din then 0xA1 else 0x21), bRequest = rq_request rq,
     wValue = rq_value rq, wIndex = rq_index rq, wLength = of_nat (rq_length rq)\<rparr>"

definition class_transfer ::
  "'r iap_entry \<Rightarrow> u32 \<Rightarrow> bool \<Rightarrow> usb_request \<Rightarrow> 'r dfu \<Rightarrow> (u8 list option \<times> 'r dfu) option"
where
  "class_transfer iap buf din rq d =
     (if 256 < length (rq_data rq) then None
      else
        (let (ok, n, d) = request_handler iap (class_setup din rq) (of_nat (rq_length rq)) buf
               (dfu_mem (store_mem buf (rq_data rq)) d)
         in Some (if \<not> ok then None
                  else if din then Some (load_mem buf (min (unat n) (rq_length rq)) (mem (df_chip d)))
                  else Some [], d)))"

subsection \<open>The program\<close>

abbreviation (input) TIMEOUT :: u32 where "TIMEOUT \<equiv> 1572864"
abbreviation (input) DFU_MODE :: u32 where "DFU_MODE \<equiv> 0x4305BB21"

text \<open>The descriptors of the bootloader.\<close>

definition dfu_descriptors :: "u8 list" where
  "dfu_descriptors =
     [0x12, 1] @ LE_WORD 0x0200 @ [0x00, 0x00, 0x00, 64] @ LE_WORD 0x1D50 @ LE_WORD 0x6003
       @ LE_WORD 0x0100 @ [0x01, 0x02, 0x00, 0x01]
     @ [0x09, 2] @ LE_WORD 0x1B @ [0x01, 0x01, 0x00, 0x80, 0x32]
     @ [0x09, 4, 0x00, 0x00, 0x00, 0xFE, 0x01, 0x02, 0x00]
     @ [0x09, 0x21, 0x0F] @ LE_WORD detach_timeout_ms @ LE_WORD 0x100 @ LE_WORD 0x0101
     @ [0x04, 3] @ LE_WORD 0x0409
     @ [0x5C, 3] @ utf16 ''http://github.com/greatscottgadgets/ubertooth''
     @ [0x1E, 3] @ utf16 ''usb_bootloader''
     @ [0]"

record 'r boot =
  bo_dfu :: "'r dfu"
  bo_count :: u32
  use_timeout :: bool
  bo_leds :: "bool \<times> bool \<times> bool"
  bo_connected :: bool
  bootloader_ctrl :: u32

text \<open>The lights are \<open>TXLED\<close>, \<open>RXLED\<close> and \<open>USRLED\<close>.\<close>

definition update_leds :: "'r boot \<Rightarrow> 'r boot" where
  "update_leds s =
     (let s = s\<lparr>bo_count := bo_count s + 1\<rparr>; led_state = drop_bit 16 (bo_count s) mod 6
      in s\<lparr>bo_leds :=
           (if led_state = 0 then (True, False, False)
            else if led_state = 1 then (True, True, False)
            else if led_state = 2 then (True, True, True)
            else if led_state = 3 then (True, True, False)
            else if led_state = 4 then (True, False, False)
            else (False, False, False))\<rparr>)"

text \<open>A call of \<open>USBHwISR\<close> serves the class requests that have arrived in the meantime.\<close>

definition serve_requests ::
  "'r iap_entry \<Rightarrow> u32 \<Rightarrow> (bool \<times> usb_request) list \<Rightarrow> 'r dfu \<Rightarrow> 'r dfu option"
where
  "serve_requests iap buf = for_each (\<lambda>(din, rq) d. map_option snd (class_transfer iap buf din rq d))"

definition boot_round ::
  "'r iap_entry \<Rightarrow> u32 \<Rightarrow> (nat \<Rightarrow> (bool \<times> usb_request) list) \<Rightarrow> nat \<times> 'r boot \<Rightarrow> (nat \<times> 'r boot) step option"
where
  "boot_round iap buf arriving = (\<lambda>(k, s).
     if \<not> in_dfu_mode (bo_dfu s) then Some (Leave (k, s))
     else do {
       d \<leftarrow> serve_requests iap buf (arriving k) (bo_dfu s);
       let s = update_leds (s\<lparr>bo_dfu := d\<rparr>);
       Some (if use_timeout s \<and> virginity (bo_dfu s) \<and> bo_count s > TIMEOUT
             then Leave (Suc k, s) else Again (Suc k, s)) })"

definition run_bootloader ::
  "'r iap_entry \<Rightarrow> u32 \<Rightarrow> (nat \<Rightarrow> (bool \<times> usb_request) list) \<Rightarrow> 'r boot \<Rightarrow> (nat \<times> 'r boot) option"
where
  "run_bootloader iap buf arriving s = do {
     (k, s) \<leftarrow> loop_opt (boot_round iap buf arriving) (0, s\<lparr>bo_leds := (True, True, True), bo_connected := True\<rparr>);
     Some (k, s\<lparr>bo_connected := False, bo_leds := (False, False, False)\<rparr>) }"

text \<open>\<open>main\<close> and \<open>run_application\<close>: the stack pointer and the program counter that the application starts
  with, loaded from the start of its image.\<close>

definition run_application :: "'r boot \<Rightarrow> u32 \<times> u32" where
  "run_application s =
     (from_le (load_mem 16384 4 (mem (df_chip (bo_dfu s)))), from_le (load_mem 16388 4 (mem (df_chip (bo_dfu s)))))"

definition bootloader_main ::
  "'r iap_entry \<Rightarrow> u32 \<Rightarrow> (nat \<Rightarrow> (bool \<times> usb_request) list) \<Rightarrow> bool \<Rightarrow> bool \<Rightarrow> 'r boot \<Rightarrow> ((u32 \<times> u32) \<times> 'r boot) option"
where
  "bootloader_main iap buf arriving VBUS ENTRY_PIN s = do {
     s \<leftarrow> (if VBUS then
            if bootloader_ctrl s = DFU_MODE then map_option snd (run_bootloader iap buf arriving s)
            else if ENTRY_PIN then map_option snd (run_bootloader iap buf arriving (s\<lparr>use_timeout := True\<rparr>))
            else Some s
          else Some s);
     let s = s\<lparr>bootloader_ctrl := 0\<rparr>;
     Some (run_application s, s) }"

end
