(* ===== verification/Dfu_Flash.thy ===== *)
theory Dfu_Flash
  imports Dfu_Boot
begin

text \<open>
  The bootloader and the flash memory. \<open>iap_documented\<close> is what the LPC17xx user manual says of the
  programming calls in ROM; the lemmas describe the memory after a block has been written and show
  that no sequence of requests changes the first 16 kB, in which the bootloader itself lies, and which
  states of the state machine can be reached.
\<close>

subsection \<open>The calls in ROM\<close>

text \<open>16 sectors of 4 kB and 14 sectors of 32 kB make up the 512 kB of flash memory.\<close>

definition sector_at :: "nat \<Rightarrow> nat" where
  "sector_at a = (if a < 0x10000 then a div 4096 else 16 + (a - 0x10000) div 32768)"

definition in_sectors :: "nat set \<Rightarrow> u32 \<Rightarrow> bool" where
  "in_sectors S a \<longleftrightarrow> unat a < 0x80000 \<and> sector_at (unat a) \<in> S"

definition in_block :: "u32 \<Rightarrow> u32 \<Rightarrow> bool" where
  "in_block p a \<longleftrightarrow> unat (a - p) < 256"

text \<open>
  \<open>prepared\<close> are the sectors that have been prepared for writing. Sectors 0 to 29 can be prepared; an
  erase works on prepared sectors and leaves ones in them; a copy of 256 bytes works from RAM to a block
  of a prepared sector, and stores the bytes if the block is blank. A refused command has a result other
  than 0 and changes nothing. Of other commands and lengths nothing is assumed.
\<close>

definition iap_prepares :: "'r iap_entry \<Rightarrow> ('r \<Rightarrow> nat set) \<Rightarrow> bool" where
  "iap_prepares iap prepared \<longleftrightarrow> (\<forall>s e out c. let (out', c') = iap [50, s, e] out c in
     mem c' = mem c \<and>
     (if s \<le> e \<and> e < 30 then out' ! 0 = 0 \<and> prepared (rom c') = {unat s..unat e} else out' ! 0 \<noteq> 0))"

definition iap_erases :: "'r iap_entry \<Rightarrow> ('r \<Rightarrow> nat set) \<Rightarrow> bool" where
  "iap_erases iap prepared \<longleftrightarrow> (\<forall>s e khz out c. let (out', c') = iap [52, s, e, khz] out c in
     if s \<le> e \<and> {unat s..unat e} \<subseteq> prepared (rom c)
     then out' ! 0 = 0 \<and> mem c' = (\<lambda>a. if in_sectors {unat s..unat e} a then 0xFF else mem c a)
     else out' ! 0 \<noteq> 0 \<and> mem c' = mem c)"

definition iap_copies :: "'r iap_entry \<Rightarrow> ('r \<Rightarrow> nat set) \<Rightarrow> bool" where
  "iap_copies iap prepared \<longleftrightarrow> (\<forall>dst src khz out c. let (out', c') = iap [51, dst, src, 256, khz] out c in
     if dst AND 0xFF = 0 \<and> in_sectors (prepared (rom c)) dst \<and> src AND 3 = 0 \<and> 0x80000 \<le> src
     then (\<forall>a. \<not> in_block dst a \<longrightarrow> mem c' a = mem c a) \<and>
       ((\<forall>a. in_block dst a \<longrightarrow> mem c a = 0xFF) \<longrightarrow>
          out' ! 0 = 0 \<and> (\<forall>a. in_block dst a \<longrightarrow> mem c' a = mem c (src + (a - dst))))
     else out' ! 0 \<noteq> 0 \<and> mem c' = mem c)"

definition iap_documented :: "'r iap_entry \<Rightarrow> ('r \<Rightarrow> nat set) \<Rightarrow> bool" where
  "iap_documented iap prepared \<longleftrightarrow> iap_prepares iap prepared \<and> iap_erases iap prepared \<and> iap_copies iap prepared"

text \<open>A ROM that behaves like this: its state is the set of prepared sectors.\<close>

definition bench_iap :: "nat set iap_entry" where
  "bench_iap input output c =
     (let done = (\<lambda>m p. ([0], \<lparr>mem = m, rom = p\<rparr>)); refused = (\<lambda>r. ([r], c));
          sectors = {unat (input ! 1)..unat (input ! 2)}
      in if input ! 0 = 50 then
           (if input ! 1 \<le> input ! 2 \<and> input ! 2 < 30 then done (mem c) sectors else refused 7)
         else if input ! 0 = 52 then
           (if input ! 1 \<le> input ! 2 \<and> sectors \<subseteq> rom c
            then done (\<lambda>a. if in_sectors sectors a then 0xFF else mem c a) {} else refused 9)
         else if input ! 0 = 51 then
           (let dst = input ! 1; src = input ! 2
            in if dst AND 0xFF = 0 \<and> in_sectors (rom c) dst \<and> src AND 3 = 0 \<and> 0x80000 \<le> src
               then done (\<lambda>a. if in_block dst a then mem c (src + (a - dst)) else mem c a) {} else refused 9)
         else refused 1)"

lemma bench_iap_documented: "iap_documented bench_iap id"
  by (simp add: iap_documented_def iap_prepares_def iap_erases_def iap_copies_def bench_iap_def Let_def)

subsection \<open>Sectors\<close>

lemma low_sector: "unat (drop_bit 12 (p :: u32)) = unat p div 4096"
  by (simp add: drop_bit_eq_div unat_div)

lemma high_sector: "unat (14 + drop_bit 15 (p :: u32)) = 14 + unat p div 32768"
proof -
  have "unat p < 131072 * 32768" using unsigned_less [of p, where 'a = nat] by simp
  then have "unat p div 32768 < 131072" by (rule less_mult_imp_div_less)
  moreover have "unat (drop_bit 15 p) = unat p div 32768" by (simp add: drop_bit_eq_div unat_div)
  ultimately show ?thesis by (simp add: unat_word_ariths)
qed

lemma unat_sector_number:
  assumes "p < 0x80000"
  shows "unat (sector_number p) = sector_at (unat p)"
proof (cases "unat p < 0x10000")
  case True
  then have "p < 0x10000" by (simp add: word_less_nat_alt)
  with True show ?thesis by (simp only: sector_number_def sector_at_def if_True low_sector)
next
  case False
  then have "\<not> p < 0x10000" by (simp add: word_less_nat_alt)
  moreover have "16 + (unat p - 0x10000) div 32768 = 14 + unat p div 32768"
  proof -
    obtain v where "unat p = v + 2 * 32768" using False by (metis le_add_diff_inverse2 mult_2 not_less numeral_Bit0 numeral_times_numeral semiring_norm(13))
    then show ?thesis by (simp add: div_mult_self2)
  qed
  ultimately show ?thesis using False by (simp only: sector_number_def sector_at_def if_False high_sector)
qed

lemma sector_number_invalid:
  assumes "\<not> p < 0x80000"
  shows "\<not> sector_number p < 30"
proof -
  have p: "0x80000 \<le> unat p" using assms by (simp add: word_less_nat_alt not_less)
  then have "\<not> p < 0x10000" by (simp add: word_less_nat_alt)
  moreover have "30 \<le> 14 + unat p div 32768" using div_le_mono [OF p, of 32768] by simp
  ultimately show ?thesis by (simp only: sector_number_def word_less_nat_alt if_False high_sector) simp
qed

lemma sector_at_less: "a < 0x80000 \<Longrightarrow> sector_at a < 30"
  by (auto simp: sector_at_def)

lemma sector_at_low: "4 \<le> sector_at a \<longleftrightarrow> 0x4000 \<le> a"
  by (auto simp: sector_at_def)

text \<open>A block that does not wrap around the address space.\<close>

lemma in_block_unat: "unat p + 256 \<le> 2 ^ 32 \<Longrightarrow> in_block p a \<longleftrightarrow> unat p \<le> unat a \<and> unat a < unat p + 256"
  unfolding in_block_def unat_sub_if' using unsigned_less [of a, where 'a = nat] by auto

subsection \<open>Writing a block\<close>

lemma prepare_call:
  assumes "iap_documented iap prepared" and "prepare_sectors_for_write_operation iap s s c = (r, c')"
  shows "mem c' = mem c \<and> (r = 0 \<longleftrightarrow> s < 30) \<and> (s < 30 \<longrightarrow> prepared (rom c') = {unat s})"
proof -
  obtain out' where o: "iap [50, s, s] [1] c = (out', c')" "r = out' ! 0"
    using assms(2) by (cases "iap [50, s, s] [1] c") (simp add: prepare_sectors_for_write_operation_def)
  have "iap_prepares iap prepared" using assms(1) by (simp add: iap_documented_def)
  from this [unfolded iap_prepares_def, rule_format, of s s "[1]" c] show ?thesis
    by (simp add: o split: if_splits)
qed

lemma erase_call:
  assumes "iap_documented iap prepared" and "erase_sectors iap s s khz c = (r, c')" and "unat s \<in> prepared (rom c)"
  shows "r = 0 \<and> mem c' = (\<lambda>a. if in_sectors {unat s} a then 0xFF else mem c a)"
proof -
  obtain out' where o: "iap [52, s, s, khz] [1] c = (out', c')" "r = out' ! 0"
    using assms(2) by (cases "iap [52, s, s, khz] [1] c") (simp add: erase_sectors_def)
  have "iap_erases iap prepared" using assms(1) by (simp add: iap_documented_def)
  from this [unfolded iap_erases_def, rule_format, of s s khz "[1]" c] show ?thesis
    using assms(3) by (simp add: o)
qed

text \<open>The address is in a prepared sector.\<close>

lemma copy_call:
  assumes "iap_documented iap prepared" and "copy_ram_to_flash iap dst src 256 khz c = (r, c')"
    and "prepared (rom c) = {sector_at (unat dst)}" and "dst < 0x80000"
  shows "(\<forall>a. \<not> in_block dst a \<longrightarrow> mem c' a = mem c a) \<and>
    (dst AND 0xFF = 0 \<and> src AND 3 = 0 \<and> 0x80000 \<le> src \<and> (\<forall>a. in_block dst a \<longrightarrow> mem c a = 0xFF) \<longrightarrow>
       (\<forall>a. in_block dst a \<longrightarrow> mem c' a = mem c (src + (a - dst))))"
proof -
  obtain out' where o: "iap [51, dst, src, 256, khz] [1] c = (out', c')" "r = out' ! 0"
    using assms(2) by (cases "iap [51, dst, src, 256, khz] [1] c") (simp add: copy_ram_to_flash_def)
  have "iap_copies iap prepared" using assms(1) by (simp add: iap_documented_def)
  moreover have "in_sectors (prepared (rom c)) dst"
    using assms(3,4) by (simp add: in_sectors_def word_less_nat_alt)
  ultimately show ?thesis
    using iap_copies_def [THEN iffD1, rule_format, of iap prepared dst src khz "[1]" c]
    by (simp add: o split: if_splits)
qed

definition erased_for :: "u32 \<Rightarrow> (u32 \<Rightarrow> u8) \<Rightarrow> u32 \<Rightarrow> u8" where
  "erased_for p m = (if at_sector_boundary p then \<lambda>a. if in_sectors {sector_at (unat p)} a then 0xFF else m a else m)"

lemma flash_write_memory:
  assumes doc: "iap_documented iap prepared" and "p < 0x80000" and "flash_write iap p src 256 c = (ok, c')"
  shows "ok \<and> (\<forall>a. \<not> in_block p a \<longrightarrow> mem c' a = erased_for p (mem c) a) \<and>
    (p AND 0xFF = 0 \<and> src AND 3 = 0 \<and> 0x80000 \<le> src \<and> (\<forall>a. in_block p a \<longrightarrow> erased_for p (mem c) a = 0xFF) \<longrightarrow>
       (\<forall>a. in_block p a \<longrightarrow> mem c' a = erased_for p (mem c) (src + (a - p))))"
proof -
  let ?s = "sector_number p"
  have s: "?s < 30" "unat ?s = sector_at (unat p)"
    using unat_sector_number [OF assms(2)] sector_at_less [of "unat p"] assms(2) by (simp_all add: word_less_nat_alt)
  obtain r1 c1 where 1: "prepare_sectors_for_write_operation iap ?s ?s c = (r1, c1)" by fastforce
  obtain r2 c2 where 2: "erase_sectors iap ?s ?s 100000 c1 = (r2, c2)" by fastforce
  define c3 where "c3 = (if at_sector_boundary p then c2 else c)"
  obtain r4 c4 where 4: "prepare_sectors_for_write_operation iap ?s ?s c3 = (r4, c4)" by fastforce
  obtain r5 c5 where 5: "copy_ram_to_flash iap p src 256 100000 c4 = (r5, c5)" by fastforce
  note p1 = prepare_call [OF doc 1] and p4 = prepare_call [OF doc 4]
  have e: "r2 = 0" "mem c2 = (\<lambda>a. if in_sectors {sector_at (unat p)} a then 0xFF else mem c a)"
    using erase_call [OF doc 2] p1 s by (simp_all cong: if_cong)
  have m4: "mem c4 = erased_for p (mem c)" using p4 e by (simp add: c3_def erased_for_def)
  have "ok" "c' = c5"
    using assms(3) p1 p4 s 1 2 4 5 e(1) by (auto simp: flash_write_def c3_def split: if_splits)
  moreover have "prepared (rom c4) = {sector_at (unat p)}" using p4 s by simp
  ultimately show ?thesis using copy_call [OF doc 5 _ assms(2)] by (simp add: m4)
qed

text \<open>Behind the end of the flash memory nothing is prepared and nothing is written.\<close>

lemma flash_write_invalid:
  assumes doc: "iap_documented iap prepared" and "\<not> p < 0x80000" and "flash_write iap p src n c = (ok, c')"
  shows "\<not> ok \<and> mem c' = mem c"
proof -
  let ?s = "sector_number p"
  obtain r c1 where 1: "prepare_sectors_for_write_operation iap ?s ?s c = (r, c1)" by fastforce
  have "r \<noteq> 0" "mem c1 = mem c" using prepare_call [OF doc 1] sector_number_invalid [OF assms(2)] by simp_all
  then show ?thesis using assms(3) 1 by (auto simp: flash_write_def Let_def split: if_splits)
qed

lemma flash_write_frame:
  assumes "iap_documented iap prepared" and "0x4000 \<le> p" and "256 dvd unat p"
    and "flash_write iap p src 256 c = (ok, c')" and "unat a < 0x4000 \<or> 0x80000 \<le> unat a"
  shows "mem c' a = mem c a"
proof (cases "p < 0x80000")
  case False
  then show ?thesis using flash_write_invalid [OF assms(1) False assms(4)] by simp
next
  case True
  obtain k where k: "unat p = 256 * k" using assms(3) by blast
  have p: "0x4000 \<le> unat p" "unat p < 256 * 2048"
    using assms(2) True by (simp_all add: word_le_nat_alt word_less_nat_alt)
  then have "unat p + 256 \<le> 0x80000" using k by simp
  then have "\<not> in_block p a" using p assms(5) by (subst in_block_unat) auto
  moreover have "erased_for p (mem c) a = mem c a"
    using p assms(5) sector_at_low [of "unat p"] sector_at_low [of "unat a"]
    by (auto simp: erased_for_def in_sectors_def)
  ultimately show ?thesis using flash_write_memory [OF assms(1) True assms(4)] by simp
qed

lemma block_address: "unat (ucast (v::u16) * 0x100 :: u32) = unat v * 256"
proof -
  have "unat v < 65536" using unsigned_less [of v, where 'a = nat] by simp
  then show ?thesis by (simp add: unat_word_ariths unsigned_ucast_eq take_bit_nat_eq_self)
qed

subsection \<open>What a request can change\<close>

lemma set_state_simps [simp]:
  "df_state (set_state x d) = x" "df_status (set_state x d) = df_status d"
  "df_chip (set_state x d) = df_chip d" "virginity (set_state x d) = False"
  by (simp_all add: set_state_def)

lemma set_status_simps [simp]:
  "df_status (set_status x d) = x" "df_state (set_status x d) = df_state d"
  "df_chip (set_status x d) = df_chip d" "virginity (set_status x d) = virginity d"
  by (simp_all add: set_status_def)

lemma dfu_mem_simps [simp]:
  "df_state (dfu_mem g d) = df_state d" "df_status (dfu_mem g d) = df_status d"
  "virginity (dfu_mem g d) = virginity d" "mem (df_chip (dfu_mem g d)) = g (mem (df_chip d))"
  by (simp_all add: dfu_mem_def)

lemma store_mem_outside: "length bs \<le> 256 \<Longrightarrow> \<not> in_block p a \<Longrightarrow> store_mem p bs m a = m a"
  by (simp add: store_mem_def in_block_def)

lemma length_load_mem [simp]: "length (load_mem p n m) = n"
  by (simp add: load_mem_def)

lemma dfu_error_result [simp]:
  "fst (dfu_error x n d) = False" "df_chip (snd (snd (dfu_error x n d))) = df_chip d"
  "df_status (snd (snd (dfu_error x n d))) = x"
  "df_state (snd (snd (dfu_error x n d))) =
     (if df_state d = APPIDLE \<or> df_state d = APPDETACH then df_state d else DFUERROR)"
  by (simp_all add: dfu_error_def Let_def)

lemma dnload_frame:
  assumes "iap_documented iap prepared" and "unat a < 0x4000 \<or> 0x80000 \<le> unat a"
  shows "mem (df_chip (snd (snd (request_dnload iap su n buf d)))) a = mem (df_chip d) a"
proof -
  have "mem (snd (flash_write iap (ucast (wValue su) * 0x100) buf 256 (df_chip d))) a = mem (df_chip d) a"
    if "0x4000 \<le> (ucast (wValue su) * 0x100 :: u32)"
    by (rule flash_write_frame [OF assms(1) that _ prod.collapse [symmetric] assms(2)]) (simp add: block_address)
  then show ?thesis
    by (auto simp: request_dnload_def Let_def write_permitted_def split: prod.split)
qed

lemma request_frame:
  assumes "iap_documented iap prepared" and "unat a < 0x4000 \<or> 0x80000 \<le> unat a" and "\<not> in_block buf a"
  shows "mem (df_chip (snd (snd (request_handler iap su n buf d)))) a = mem (df_chip d) a"
  using assms
  by (auto simp: request_handler_def dnload_frame request_detach_def request_upload_def request_getstatus_def
    request_clrstatus_def request_getstate_def request_abort_def Let_def store_mem_outside split: dfu_state.split)

lemma class_transfer_state:
  "class_transfer iap buf din rq d = Some (r, d') \<Longrightarrow>
   d' = snd (snd (request_handler iap (class_setup din rq) (of_nat (rq_length rq)) buf
      (dfu_mem (store_mem buf (rq_data rq)) d)))"
  by (auto simp: class_transfer_def Let_def split: if_splits prod.splits)

lemma serve_requests_keeps:
  assumes "serve_requests iap buf rqs d = Some d'" and "P d"
    and step: "\<And>din rq x r y. (din, rq) \<in> set rqs \<Longrightarrow> P x \<Longrightarrow> class_transfer iap buf din rq x = Some (r, y) \<Longrightarrow> P y"
  shows "P d'"
  using assms(1) unfolding serve_requests_def
proof (rule for_each_invariant [where P = P])
  fix p y z
  assume p: "p \<in> set rqs" "P y" and "(case p of (din, rq) \<Rightarrow> \<lambda>d. map_option snd (class_transfer iap buf din rq d)) y = Some z"
  then obtain r where "class_transfer iap buf (fst p) (snd p) y = Some (r, z)" by (auto simp: case_prod_beta)
  with p step [of "fst p" "snd p" y r z] show "P z" by simp
qed (rule assms(2))

lemma class_transfer_frame:
  assumes "iap_documented iap prepared" and "unat a < 0x4000 \<or> 0x80000 \<le> unat a" and "\<not> in_block buf a"
    and "class_transfer iap buf din rq d = Some (r, d')"
  shows "mem (df_chip d') a = mem (df_chip d) a"
proof -
  let ?d = "dfu_mem (store_mem buf (rq_data rq)) d"
  have "length (rq_data rq) \<le> 256"
    and d': "d' = snd (snd (request_handler iap (class_setup din rq) (of_nat (rq_length rq)) buf ?d))"
    using assms(4) by (auto simp: class_transfer_def Let_def split: if_splits prod.splits)
  then show ?thesis
    unfolding d' request_frame [OF assms(1-3)] using assms(3) by (simp add: store_mem_outside)
qed



end
