(* ===== verification/Dfu_Machine.thy ===== *)
theory Dfu_Machine
  imports Dfu_Flash
begin

text \<open>
  The state machine of the bootloader and its main loop. The lemmas give the states that requests can
  lead to, show that an error is left only through \<open>CLRSTATUS\<close> (or by detaching), and when the main
  loop ends: after its time-out if the host does nothing but ask for the state, never before the host
  detaches if the bootloader was entered on request of the application.
\<close>

subsection \<open>States\<close>

definition dfu_wf :: "'r dfu \<Rightarrow> bool" where
  "dfu_wf d \<longleftrightarrow> df_state d \<in> {APPDETACH, DFUIDLE, DFUDNLOAD_SYNC, DFUDNLOAD_IDLE, DFUMANIFEST_SYNC, DFUERROR}
     \<and> (df_state d = DFUERROR \<longrightarrow> df_status d \<noteq> OK)"

definition dfu_active :: "'r dfu \<Rightarrow> bool" where
  "dfu_active d \<longleftrightarrow> dfu_wf d \<and> df_state d \<noteq> APPDETACH \<and> (df_status d = OK \<longleftrightarrow> df_state d \<noteq> DFUERROR)"

lemmas request_defs = request_detach_def request_dnload_def request_upload_def request_getstatus_def
  request_clrstatus_def request_getstate_def request_abort_def

lemma dfu_preds_simps [simp]:
  "dfu_wf (dfu_mem g d) = dfu_wf d" "dfu_active (dfu_mem g d) = dfu_active d"
  "dfu_wf (d\<lparr>df_chip := c\<rparr>) = dfu_wf d" "dfu_active (d\<lparr>df_chip := c\<rparr>) = dfu_active d"
  by (simp_all add: dfu_wf_def dfu_active_def)

lemma dfu_preds_set:
  "dfu_wf d \<Longrightarrow> dfu_wf (set_state x d) \<longleftrightarrow>
     x \<in> {APPDETACH, DFUIDLE, DFUDNLOAD_SYNC, DFUDNLOAD_IDLE, DFUMANIFEST_SYNC, DFUERROR}
     \<and> (x = DFUERROR \<longrightarrow> df_status d \<noteq> OK)"
  "dfu_active d \<Longrightarrow> df_state d \<noteq> DFUERROR \<Longrightarrow> x \<in> {DFUIDLE, DFUDNLOAD_SYNC, DFUDNLOAD_IDLE, DFUMANIFEST_SYNC}
     \<Longrightarrow> dfu_active (set_state x d)"
  "dfu_wf (set_state DFUIDLE d)" "dfu_active (set_state DFUIDLE (set_status OK d))"
  by (auto simp: dfu_wf_def dfu_active_def)

lemma dfu_preds_error:
  "dfu_wf d \<Longrightarrow> x \<noteq> OK \<Longrightarrow> dfu_wf (snd (snd (dfu_error x n d)))"
  "dfu_active d \<Longrightarrow> x \<noteq> OK \<Longrightarrow> dfu_active (snd (snd (dfu_error x n d)))"
  by (auto simp: dfu_wf_def dfu_active_def)

lemmas dfu_preds = dfu_preds_set dfu_preds_error

lemma dfu_wf_request:
  assumes "dfu_wf d"
  shows "dfu_wf (snd (snd (request_handler iap su n buf d)))"
proof -
  have "dfu_wf (snd (snd (request_detach su n d)))" "dfu_wf (snd (snd (request_upload su n buf d)))"
    "dfu_wf (snd (snd (request_clrstatus su n d)))" "dfu_wf (snd (snd (request_getstate su n buf d)))"
    "dfu_wf (snd (snd (request_abort su n d)))"
    using assms by (simp_all add: request_defs Let_def dfu_preds)
  moreover have "dfu_wf (snd (snd (request_dnload iap su n buf d)))"
    using assms by (simp add: request_defs Let_def dfu_preds split: prod.split)
  moreover have "dfu_wf (snd (snd (request_getstatus su n buf d)))"
    using assms by (simp add: request_defs Let_def dfu_preds split: dfu_state.split)
  ultimately show ?thesis using assms by (simp add: request_handler_def)
qed

lemma dfu_active_request:
  assumes "dfu_active d" and "bRequest su \<noteq> 0"
  shows "dfu_active (snd (snd (request_handler iap su n buf d)))"
proof -
  have "dfu_active (snd (snd (request_upload su n buf d)))"
    "dfu_active (snd (snd (request_clrstatus su n d)))" "dfu_active (snd (snd (request_getstate su n buf d)))"
    "dfu_active (snd (snd (request_abort su n d)))"
    using assms(1) by (auto simp: request_defs Let_def intro!: dfu_preds)
  moreover have "dfu_active (snd (snd (request_dnload iap su n buf d)))"
    using assms(1) by (auto simp: request_defs Let_def intro!: dfu_preds split: prod.split)
  moreover have "dfu_active (snd (snd (request_getstatus su n buf d)))"
    using assms(1) by (auto simp: request_defs Let_def intro!: dfu_preds split: dfu_state.split)
  ultimately show ?thesis using assms by (simp add: request_handler_def)
qed

lemma serve_requests_wf: "serve_requests iap buf rqs d = Some d' \<Longrightarrow> dfu_wf d \<Longrightarrow> dfu_wf d'"
  by (rule serve_requests_keeps [where P = dfu_wf]) (auto dest!: class_transfer_state intro!: dfu_wf_request)

lemma serve_requests_active:
  "serve_requests iap buf rqs d = Some d' \<Longrightarrow> dfu_active d \<Longrightarrow> \<forall>(din, rq)\<in>set rqs. rq_request rq \<noteq> 0 \<Longrightarrow> dfu_active d'"
  by (rule serve_requests_keeps [where P = dfu_active])
    (auto dest!: class_transfer_state intro!: dfu_active_request simp: class_setup_def)



text \<open>The error state is left only through \<open>CLRSTATUS\<close> and \<open>DETACH\<close>, and in it nothing is written to the
  flash memory.\<close>

lemma error_stays:
  assumes "class_transfer iap buf din rq d = Some (r, d')" and "df_state d = DFUERROR"
    and "rq_request rq \<noteq> 0" and "rq_request rq \<noteq> 4"
  shows "df_state d' = DFUERROR \<and> rom (df_chip d') = rom (df_chip d)"
  using assms(2-4) unfolding class_transfer_state [OF assms(1)]
  by (auto simp: request_handler_def request_defs class_setup_def dfu_mem_def Let_def split: prod.split)

subsection \<open>The main loop\<close>

text \<open>Requests that only ask: the state, or the status, of a bootloader that is idle.\<close>

definition asking :: "bool \<times> usb_request \<Rightarrow> bool" where
  "asking p \<longleftrightarrow> fst p \<and> snd p \<in> {dfu_request 5 0 1 [], dfu_request 3 0 6 []}"

lemma asking_keeps:
  assumes "df_state d = DFUIDLE" and "asking (din, rq)"
  shows "\<exists>r d'. class_transfer iap buf din rq d = Some (r, d') \<and> df_state d' = DFUIDLE \<and> virginity d' = virginity d"
  using assms by (auto simp: asking_def dfu_request_def class_transfer_def class_setup_def request_handler_def
    request_getstate_def request_getstatus_def Let_def)

lemma serve_asking:
  "df_state d = DFUIDLE \<Longrightarrow> list_all asking rqs \<Longrightarrow>
   \<exists>d'. serve_requests iap buf rqs d = Some d' \<and> df_state d' = DFUIDLE \<and> virginity d' = virginity d"
proof (induction rqs arbitrary: d)
  case (Cons p rqs)
  obtain din rq where p: "p = (din, rq)" by (cases p)
  then obtain r d1 where "class_transfer iap buf din rq d = Some (r, d1)" "df_state d1 = DFUIDLE" "virginity d1 = virginity d"
    using asking_keeps [OF Cons.prems(1), of din rq iap buf] Cons.prems(2) by auto
  with Cons.IH [of d1] Cons.prems(2) show ?case by (simp add: serve_requests_def p)
qed (simp add: serve_requests_def)

lemma update_leds_simps [simp]:
  "bo_dfu (update_leds s) = bo_dfu s" "use_timeout (update_leds s) = use_timeout s"
  "bo_count (update_leds s) = bo_count s + 1" "bootloader_ctrl (update_leds s) = bootloader_ctrl s"
  by (simp_all add: update_leds_def Let_def)

definition waiting :: "nat \<Rightarrow> 'r boot \<Rightarrow> bool" where
  "waiting k s \<longleftrightarrow> use_timeout s \<and> bo_count s = of_nat k \<and> df_state (bo_dfu s) = DFUIDLE \<and> virginity (bo_dfu s)"

lemma waiting_round:
  assumes "waiting k s" and "list_all asking (arriving k)" and "k < 1572865"
  shows "\<exists>s'. boot_round iap buf arriving (k, s) = Some (if k = 1572864 then Leave (Suc k, s') else Again (Suc k, s'))
    \<and> waiting (Suc k) s'"
proof -
  obtain d where d: "serve_requests iap buf (arriving k) (bo_dfu s) = Some d" "df_state d = DFUIDLE" "virginity d"
    using serve_asking [of "bo_dfu s" "arriving k" iap buf] assms(1,2) by (auto simp: waiting_def)
  let ?s = "update_leds (s\<lparr>bo_dfu := d\<rparr>)"
  have "unat (of_nat (Suc k) :: u32) = Suc k" using assms(3) by (simp add: unat_of_nat del: of_nat_Suc)
  then have "(of_nat (Suc k) :: u32) > 1572864 \<longleftrightarrow> k = 1572864"
    using assms(3) by (auto simp: word_less_nat_alt simp del: of_nat_Suc)
  moreover have "waiting (Suc k) ?s" using assms(1) d by (simp add: waiting_def add.commute)
  ultimately show ?thesis
    using assms(1) d(1) by (intro exI [of _ ?s]) (simp add: boot_round_def waiting_def in_dfu_mode_def Let_def add.commute)
qed

lemma waiting_loop:
  assumes "\<forall>k. list_all asking (arriving k)"
  shows "waiting k s \<Longrightarrow> k \<le> 1572864 \<Longrightarrow>
    \<exists>s'. loop_opt (boot_round iap buf arriving) (k, s) = Some (1572865, s') \<and> waiting 1572865 s'"
proof (induction "1572864 - k" arbitrary: k s)
  case 0
  then have k: "k = 1572864" by simp
  obtain s' where "boot_round iap buf arriving (k, s) = Some (Leave (Suc k, s'))" "waiting (Suc k) s'"
    using waiting_round [OF 0(2), of arriving iap buf] assms k by auto
  then show ?case by (subst loop_opt.simps) (simp add: k)
next
  case (Suc n)
  then have k: "k < 1572864" by simp
  obtain s' where s': "boot_round iap buf arriving (k, s) = Some (Again (Suc k, s'))" "waiting (Suc k) s'"
    using waiting_round [OF Suc(3), of arriving iap buf] assms k by auto
  have "\<exists>t. loop_opt (boot_round iap buf arriving) (Suc k, s') = Some (1572865, t) \<and> waiting 1572865 t"
    using Suc(2) k by (intro Suc(1) s') simp_all
  with s'(1) show ?case by (subst loop_opt.simps) simp
qed

text \<open>C36: Entered by its pin, the bootloader gives up after 1572865 rounds, and the application is
  started, if the host does no more than ask for its state or status; it has then not left the idle
  state.\<close>

theorem bootloader_times_out:
  assumes "use_timeout s" and "bo_count s = 0" and "bo_dfu s = DFU_init c" and "\<forall>k. list_all asking (arriving k)"
  shows "\<exists>s'. run_bootloader iap buf arriving s = Some (1572865, s')
    \<and> df_state (bo_dfu s') = DFUIDLE \<and> virginity (bo_dfu s') \<and> \<not> bo_connected s'"
proof -
  let ?s = "s\<lparr>bo_leds := (True, True, True), bo_connected := True\<rparr>"
  have "waiting 0 ?s" using assms(1-3) by (simp add: waiting_def DFU_init_def)
  then obtain s' where "loop_opt (boot_round iap buf arriving) (0, ?s) = Some (1572865, s')" "waiting 1572865 s'"
    using waiting_loop [OF assms(4)] by blast
  then show ?thesis by (auto simp: run_bootloader_def waiting_def)
qed

definition boot_start :: "bool \<Rightarrow> nat set boot" where
  "boot_start pin = \<lparr>bo_dfu = DFU_init \<lparr>mem = (\<lambda>a. 0xFF), rom = {}\<rparr>, bo_count = 0, use_timeout = pin,
     bo_leds = (False, False, False), bo_connected = False, bootloader_ctrl = 0\<rparr>"

lemma bootloader_times_out_witness:
  "\<exists>s'. run_bootloader bench_iap 0x10000000 (\<lambda>k. if even k then [(True, dfu_request 5 0 1 [])] else []) (boot_start True)
      = Some (1572865, s') \<and> df_state (bo_dfu s') = DFUIDLE \<and> virginity (bo_dfu s') \<and> \<not> bo_connected s'"
  by (rule bootloader_times_out) (simp_all add: boot_start_def asking_def)

text \<open>Entered on request of the application, the bootloader never gives up: as long as the host does
  not detach it, it does not return.\<close>

theorem bootloader_stays:
  assumes "\<not> use_timeout s" and "bo_dfu s = DFU_init c"
    and "\<forall>k. \<forall>(din, rq)\<in>set (arriving k). rq_request rq \<noteq> 0"
  shows "run_bootloader iap buf arriving s = None"
proof (rule ccontr)
  let ?s = "s\<lparr>bo_leds := (True, True, True), bo_connected := True\<rparr>"
  let ?P = "\<lambda>(k::nat, s). \<not> use_timeout s \<and> dfu_active (bo_dfu s)"
  assume "run_bootloader iap buf arriving s \<noteq> None"
  then obtain t where t: "loop_opt (boot_round iap buf arriving) (0, ?s) = Some t"
    by (cases "loop_opt (boot_round iap buf arriving) (0, ?s)") (auto simp: run_bootloader_def)
  have mode: "in_dfu_mode d" if "dfu_active d" for d :: "'a dfu"
    using that by (auto simp: dfu_active_def dfu_wf_def in_dfu_mode_def)
  show False
  proof (rule loop_opt_invariant [OF t, of ?P "\<lambda>_. False"])
    show "?P (0, ?s)" using assms(1,2) by (simp add: dfu_active_def dfu_wf_def DFU_init_def)
  next
    fix x y
    assume P: "?P x" and "boot_round iap buf arriving x = Some (Again y)"
    then obtain d where d: "serve_requests iap buf (arriving (fst x)) (bo_dfu (snd x)) = Some d"
      and y: "y = (Suc (fst x), update_leds ((snd x)\<lparr>bo_dfu := d\<rparr>))"
      by (auto simp: boot_round_def case_prod_beta Let_def split: if_splits bind_splits)
    have "dfu_active d" using serve_requests_active [OF d] P assms(3) by (auto simp: case_prod_beta)
    then show "?P y" using P y by (simp add: case_prod_beta)
  next
    fix x y
    assume "?P x" and "boot_round iap buf arriving x = Some (Leave y)"
    then show False
      using mode [of "bo_dfu (snd x)"]
      by (auto simp: boot_round_def case_prod_beta Let_def split: if_splits bind_splits)
  qed
qed

lemma bootloader_stays_witness:
  "run_bootloader bench_iap 0x10000000 (\<lambda>k. [(True, dfu_request 3 0 6 [])]) (boot_start False) = None"
  by (rule bootloader_stays) (simp_all add: boot_start_def dfu_request_def)

end
