(* ===== verification/Dfu_File.thy ===== *)
theory Dfu_File
  imports Crc_Table Host_Control
begin

text \<open>
  Firmware files: the first part of \<^verbatim>\<open>host/ubertooth-tools/src/ubertooth-dfu.c\<close> with \<^verbatim>\<open>dfu.h\<close>. A file
  ends with a suffix of 16 bytes that names the device and carries a checksum of all that precedes it.
  A file is the list of its bytes; whether \<open>malloc\<close> gives a buffer of some size is a parameter. The
  lemmas show that a signed file is accepted with the fields it was signed with, and that a file in
  which one byte has been changed is not.
\<close>

subsection \<open>Checksum\<close>

definition crc_table :: "u32 list" where
  "crc_table = [
    0x00000000, 0x77073096, 0xee0e612c, 0x990951ba, 0x076dc419, 0x706af48f, 0xe963a535, 0x9e6495a3,
    0x0edb8832, 0x79dcb8a4, 0xe0d5e91e, 0x97d2d988, 0x09b64c2b, 0x7eb17cbd, 0xe7b82d07, 0x90bf1d91,
    0x1db71064, 0x6ab020f2, 0xf3b97148, 0x84be41de, 0x1adad47d, 0x6ddde4eb, 0xf4d4b551, 0x83d385c7,
    0x136c9856, 0x646ba8c0, 0xfd62f97a, 0x8a65c9ec, 0x14015c4f, 0x63066cd9, 0xfa0f3d63, 0x8d080df5,
    0x3b6e20c8, 0x4c69105e, 0xd56041e4, 0xa2677172, 0x3c03e4d1, 0x4b04d447, 0xd20d85fd, 0xa50ab56b,
    0x35b5a8fa, 0x42b2986c, 0xdbbbc9d6, 0xacbcf940, 0x32d86ce3, 0x45df5c75, 0xdcd60dcf, 0xabd13d59,
    0x26d930ac, 0x51de003a, 0xc8d75180, 0xbfd06116, 0x21b4f4b5, 0x56b3c423, 0xcfba9599, 0xb8bda50f,
    0x2802b89e, 0x5f058808, 0xc60cd9b2, 0xb10be924, 0x2f6f7c87, 0x58684c11, 0xc1611dab, 0xb6662d3d,
    0x76dc4190, 0x01db7106, 0x98d220bc, 0xefd5102a, 0x71b18589, 0x06b6b51f, 0x9fbfe4a5, 0xe8b8d433,
    0x7807c9a2, 0x0f00f934, 0x9609a88e, 0xe10e9818, 0x7f6a0dbb, 0x086d3d2d, 0x91646c97, 0xe6635c01,
    0x6b6b51f4, 0x1c6c6162, 0x856530d8, 0xf262004e, 0x6c0695ed, 0x1b01a57b, 0x8208f4c1, 0xf50fc457,
    0x65b0d9c6, 0x12b7e950, 0x8bbeb8ea, 0xfcb9887c, 0x62dd1ddf, 0x15da2d49, 0x8cd37cf3, 0xfbd44c65,
    0x4db26158, 0x3ab551ce, 0xa3bc0074, 0xd4bb30e2, 0x4adfa541, 0x3dd895d7, 0xa4d1c46d, 0xd3d6f4fb,
    0x4369e96a, 0x346ed9fc, 0xad678846, 0xda60b8d0, 0x44042d73, 0x33031de5, 0xaa0a4c5f, 0xdd0d7cc9,
    0x5005713c, 0x270241aa, 0xbe0b1010, 0xc90c2086, 0x5768b525, 0x206f85b3, 0xb966d409, 0xce61e49f,
    0x5edef90e, 0x29d9c998, 0xb0d09822, 0xc7d7a8b4, 0x59b33d17, 0x2eb40d81, 0xb7bd5c3b, 0xc0ba6cad,
    0xedb88320, 0x9abfb3b6, 0x03b6e20c, 0x74b1d29a, 0xead54739, 0x9dd277af, 0x04db2615, 0x73dc1683,
    0xe3630b12, 0x94643b84, 0x0d6d6a3e, 0x7a6a5aa8, 0xe40ecf0b, 0x9309ff9d, 0x0a00ae27, 0x7d079eb1,
    0xf00f9344, 0x8708a3d2, 0x1e01f268, 0x6906c2fe, 0xf762575d, 0x806567cb, 0x196c3671, 0x6e6b06e7,
    0xfed41b76, 0x89d32be0, 0x10da7a5a, 0x67dd4acc, 0xf9b9df6f, 0x8ebeeff9, 0x17b7be43, 0x60b08ed5,
    0xd6d6a3e8, 0xa1d1937e, 0x38d8c2c4, 0x4fdff252, 0xd1bb67f1, 0xa6bc5767, 0x3fb506dd, 0x48b2364b,
    0xd80d2bda, 0xaf0a1b4c, 0x36034af6, 0x41047a60, 0xdf60efc3, 0xa867df55, 0x316e8eef, 0x4669be79,
    0xcb61b38c, 0xbc66831a, 0x256fd2a0, 0x5268e236, 0xcc0c7795, 0xbb0b4703, 0x220216b9, 0x5505262f,
    0xc5ba3bbe, 0xb2bd0b28, 0x2bb45a92, 0x5cb36a04, 0xc2d7ffa7, 0xb5d0cf31, 0x2cd99e8b, 0x5bdeae1d,
    0x9b64c2b0, 0xec63f226, 0x756aa39c, 0x026d930a, 0x9c0906a9, 0xeb0e363f, 0x72076785, 0x05005713,
    0x95bf4a82, 0xe2b87a14, 0x7bb12bae, 0x0cb61b38, 0x92d28e9b, 0xe5d5be0d, 0x7cdcefb7, 0x0bdbdf21,
    0x86d3d2d4, 0xf1d4e242, 0x68ddb3f8, 0x1fda836e, 0x81be16cd, 0xf6b9265b, 0x6fb077e1, 0x18b74777,
    0x88085ae6, 0xff0f6a70, 0x66063bca, 0x11010b5c, 0x8f659eff, 0xf862ae69, 0x616bffd3, 0x166ccf45,
    0xa00ae278, 0xd70dd2ee, 0x4e048354, 0x3903b3c2, 0xa7672661, 0xd06016f7, 0x4969474d, 0x3e6e77db,
    0xaed16a4a, 0xd9d65adc, 0x40df0b66, 0x37d83bf0, 0xa9bcae53, 0xdebb9ec5, 0x47b2cf7f, 0x30b5ffe9,
    0xbdbdf21c, 0xcabac28a, 0x53b39330, 0x24b4a3a6, 0xbad03605, 0xcdd70693, 0x54de5729, 0x23d967bf,
    0xb3667a2e, 0xc4614ab8, 0x5d681b02, 0x2a6f2b94, 0xb40bbe37, 0xc30c8ea1, 0x5a05df1b, 0x2d02ef8d]"

definition crc32 :: "u8 list \<Rightarrow> u32" where
  "crc32 data = foldl (\<lambda>crc d. drop_bit 8 crc XOR crc_table ! unat ((crc XOR ucast d) AND 0xff)) 0xffffffff data"

text \<open>The table is the one of the reflected polynomial \<open>0xEDB88320\<close>.\<close>

interpretation crc32: table_crc 32 "0xEDB88320" crc_table
proof unfold_locales
  show "crc_table ! 1 = (lfsr_step 0xEDB88320 ^^ 8) 1" by code_simp
  show "map (lfsr_step 0xEDB88320) (evens crc_table) = take 128 crc_table"
    by (simp add: crc_table_def lfsr_step_def)
qed (simp_all add: list_all_iff crc_table_def bit_numeral_rec)

lemma crc32_absorb: "crc32 data = foldl (crc_absorb 0xEDB88320) 0xffffffff data"
  by (simp add: crc32_def crc32.absorb_table [abs_def])

text \<open>The checksum of firmware files, computed with the table of \<open>dfu.h\<close>, is the CRC-32 of the DFU
  specification bit by bit: every bit of every byte, lowest first, is shifted into a register with the
  reflected polynomial \<open>0xEDB88320\<close> that starts with all ones.\<close>

theorem crc32_bitwise:
  "crc32 data = foldl (crc_shift 0xEDB88320) 0xffffffff (concat (map (\<lambda>d. map (bit d) [0..<8]) data))"
  unfolding crc32_absorb crc_absorb_bits by (induction data rule: rev_induct) simp_all

subsection \<open>Suffix\<close>

record dfu_suffix =
  bcdDevice :: u16
  idProduct :: u16
  idVendor :: u16
  bcdDFU :: u16
  ucDfuSig :: "u8 list"
  bLength :: u8
  dwCRC :: u32

text \<open>The layout of the structure in memory, which is that of the end of the file.\<close>

definition suffix_head :: "dfu_suffix \<Rightarrow> u8 list" where
  "suffix_head x = le_bytes 2 (bcdDevice x) @ le_bytes 2 (idProduct x) @ le_bytes 2 (idVendor x)
     @ le_bytes 2 (bcdDFU x) @ ucDfuSig x @ [bLength x]"

definition suffix_of_bytes :: "u8 list \<Rightarrow> dfu_suffix" where
  "suffix_of_bytes bs = \<lparr>bcdDevice = from_le (take 2 bs), idProduct = from_le (take 2 (drop 2 bs)),
     idVendor = from_le (take 2 (drop 4 bs)), bcdDFU = from_le (take 2 (drop 6 bs)),
     ucDfuSig = take 3 (drop 8 bs), bLength = bs ! 11, dwCRC = from_le (take 4 (drop 12 bs))\<rparr>"

text \<open>\<open>%04x\<close> of a 16 bit value and \<open>%x\<close>.\<close>

definition hex4 :: "u16 \<Rightarrow> string" where
  "hex4 w = map (\<lambda>i. digit (unat (drop_bit (4 * i) w AND 0xF))) (rev [0..<4])"

definition hex :: "u32 \<Rightarrow> string" where
  "hex w = (let s = dropWhile (\<lambda>c. c = CHR ''0'') (hex8 w) in if s = [] then ''0'' else s)"

text \<open>
  \<open>check_suffix\<close>: the result, the error messages and the suffix. In a file of less than 16 bytes the
  seek to the start of the suffix fails and nothing is read, so the fields keep what the caller's
  variable \<open>suffix\<close> held. The length is that of the file without the checksum, as a 32 bit number.
\<close>

definition check_suffix :: "(nat \<Rightarrow> bool) \<Rightarrow> u8 list \<Rightarrow> dfu_suffix \<Rightarrow> int \<times> string list \<times> dfu_suffix" where
  "check_suffix malloc signedfile suffix =
     (let data_length = of_nat (length signedfile) - 4 :: u32;
          suffix = (if length signedfile < 16 then suffix
                    else suffix_of_bytes (drop (length signedfile - 16) signedfile))
      in if bLength suffix \<noteq> 16 then (1, [''Unknown DFU suffix length: '' @ dec (uint (bLength suffix))], suffix)
         else if bcdDFU suffix \<noteq> 0x0100 \<and> bcdDFU suffix \<noteq> 0x0101
           then (1, [''Unknown DFU version: '' @ hex4 (bcdDFU suffix)], suffix)
         else if \<not> (ucDfuSig suffix ! 0 = 0x55 \<and> ucDfuSig suffix ! 1 = 0x46 \<and> ucDfuSig suffix ! 2 = 0x44)
           then (1, [''DFU Signature mismatch: not a DFU file''], suffix)
         else if \<not> malloc (unat data_length) then (1, [''Cannot allocate buffer for CRC check''], suffix)
         else
           (let crc = crc32 (take (unat data_length) signedfile)
            in if crc \<noteq> dwCRC suffix
               then (1, [''CRC mismatch: calculated: 0x'' @ hex crc @ '', found: 0x'' @ hex (dwCRC suffix)], suffix)
               else (0, [], suffix)))"

text \<open>\<open>sign\<close>: the result, the error messages and what is written to the output file. For an input of
  nearly 4 GB the size of the buffer wraps around and the buffer is overrun.\<close>

definition sign ::
  "(nat \<Rightarrow> bool) \<Rightarrow> u8 list \<Rightarrow> u16 \<Rightarrow> u16 \<Rightarrow> (int \<times> string list \<times> u8 list) option"
where
  "sign malloc infile vendor product =
     (let data_length = of_nat (length infile) :: u32; buffer_length = data_length + 16
      in if \<not> malloc (unat buffer_length) then Some (1, [''Cannot allocate buffer to calculate CRC''], [])
         else if unat buffer_length < unat data_length + 16 then None
         else
           (let suffix = \<lparr>bcdDevice = 0, idProduct = product, idVendor = vendor, bcdDFU = 0x0100,
                  ucDfuSig = [0x55, 0x46, 0x44], bLength = 16, dwCRC = 0\<rparr>;
                buffer = take (unat data_length) infile @ suffix_head suffix
            in Some (0, [], buffer @ le_bytes 4 (crc32 buffer))))"

subsection \<open>Signed files are accepted, changed ones are not\<close>

lemma length_suffix_head [simp]: "length (ucDfuSig x) = 3 \<Longrightarrow> length (suffix_head x) = 12"
  by (simp add: suffix_head_def)

lemma from_le_16: "from_le [byte_at 0 v, byte_at (Suc 0) v] = (v::u16)"
  using from_le_le_bytes [of 2 v] by (simp add: le_bytes_def numeral_2_eq_2)

lemma suffix_of_bytes_head:
  assumes "length (ucDfuSig x) = 3"
  shows "suffix_of_bytes (suffix_head x @ le_bytes 4 c) = x\<lparr>dwCRC := c\<rparr>"
proof -
  have two: "le_bytes 2 v = [byte_at 0 v, byte_at (Suc 0) v]" for v :: u16
    by (simp add: le_bytes_def numeral_2_eq_2)
  obtain a b d where sig: "ucDfuSig x = [a, b, d]"
    using assms by (auto simp: length_Suc_conv numeral_3_eq_3)
  have c: "from_le (le_bytes 4 c) = c" by (rule from_le_le_bytes) simp
  show ?thesis
    by (simp add: suffix_of_bytes_def suffix_head_def two sig from_le_16 c del: from_le.simps)
qed

lemma file_length: "n < 2 ^ 32 \<Longrightarrow> unat (of_nat n :: u32) = n"
  by (simp add: unat_of_nat)

lemma checked_length: "4 \<le> n \<Longrightarrow> n < 2 ^ 32 \<Longrightarrow> unat (of_nat n - 4 :: u32) = n - 4"
proof -
  assume "4 \<le> n" and "n < 2 ^ 32"
  then show ?thesis using of_nat_diff [of 4 n, where 'a = u32] file_length [of "n - 4"] by simp
qed

lemma check_suffix_signed:
  assumes x: "bLength x = 16" "bcdDFU x = 0x0100" "ucDfuSig x = [0x55, 0x46, 0x44]"
    and b: "b = f @ suffix_head x" and "length f + 16 < 2 ^ 32" and "malloc (length f + 12)"
  shows "check_suffix malloc (b @ le_bytes 4 (crc32 b)) sfx = (0, [], x\<lparr>dwCRC := crc32 b\<rparr>)"
proof -
  let ?out = "b @ le_bytes 4 (crc32 b)"
  have len: "length b = length f + 12" "length ?out = length f + 16" using x b by simp_all
  have data: "unat (of_nat (length ?out) - 4 :: u32) = length b"
    using checked_length [of "length ?out"] assms(5) unfolding len by simp
  have "drop (length ?out - 16) ?out = suffix_head x @ le_bytes 4 (crc32 b)" using x by (simp add: b)
  then have suffix: "suffix_of_bytes (drop (length ?out - 16) ?out) = x\<lparr>dwCRC := crc32 b\<rparr>"
    using x by (simp only: suffix_of_bytes_head list.size)
  show ?thesis
    unfolding check_suffix_def Let_def data suffix using assms(6) x len by simp
qed

text \<open>C34: Signing a firmware file and checking the result: the file is accepted, the suffix read from it
  names vendor and product, and the firmware itself is unchanged in front of it.\<close>

theorem sign_check_round_trip:
  assumes "length f + 16 < 2 ^ 32" and "malloc (length f + 16)" and "malloc (length f + 12)"
  shows "\<exists>out sfx'. sign malloc f vendor product = Some (0, [], out) \<and> check_suffix malloc out sfx = (0, [], sfx')
     \<and> idVendor sfx' = vendor \<and> idProduct sfx' = product \<and> length out = length f + 16 \<and> take (length f) out = f"
proof -
  let ?x = "\<lparr>bcdDevice = 0, idProduct = product, idVendor = vendor, bcdDFU = 0x0100,
     ucDfuSig = [0x55, 0x46, 0x44], bLength = 16, dwCRC = 0\<rparr>"
  let ?b = "f @ suffix_head ?x"
  let ?out = "?b @ le_bytes 4 (crc32 ?b)"
  have buf: "unat (of_nat (length f) + 16 :: u32) = length f + 16"
    using file_length [of "length f + 16"] assms(1) by simp
  have sign: "sign malloc f vendor product = Some (0, [], ?out)"
    using assms by (simp add: sign_def Let_def buf file_length)
  have "check_suffix malloc ?out sfx = (0, [], ?x\<lparr>dwCRC := crc32 ?b\<rparr>)"
    using assms by (intro check_suffix_signed) simp_all
  with sign show ?thesis by (intro exI [of _ ?out] exI [of _ "?x\<lparr>dwCRC := crc32 ?b\<rparr>"]) simp
qed

lemma sign_check_round_trip_witness:
  "\<exists>out sfx'. sign (\<lambda>n. n \<le> 1000) [1, 2, 3] 0x1d50 0x6003 = Some (0, [], out)
     \<and> check_suffix (\<lambda>n. n \<le> 1000) out (suffix_of_bytes []) = (0, [], sfx')
     \<and> idVendor sfx' = 0x1d50 \<and> idProduct sfx' = 0x6003 \<and> length out = length [1, 2, 3 :: u8] + 16
     \<and> take (length [1, 2, 3 :: u8]) out = [1, 2, 3]"
  by (rule sign_check_round_trip) simp_all

lemma from_le_32_inj:
  assumes "length a = 4" and "length b = 4" and "(from_le a :: u32) = from_le b"
  shows "a = b"
proof (rule nth_equalityI)
  fix i assume "i < length a"
  then have i: "i < 4" using assms(1) by simp
  show "a ! i = b ! i"
  proof (rule bit_word_eqI)
    fix k assume k: "k < LENGTH(8)"
    then show "bit (a ! i) k = bit (b ! i) k"
      using arg_cong [OF assms(3), of "\<lambda>w. bit w (8 * i + k)"] i assms(1,2) by (simp add: bit_from_le)
  qed
qed (use assms in simp)

text \<open>C33: A file that the check accepts is refused with an error after any one of its bytes has been
  changed, be it in the firmware, in the suffix or in the checksum.\<close>

theorem suffix_detects_change:
  assumes "check_suffix malloc f sfx = (0, msgs, sfx')" and "16 \<le> length f" and "length f < 2 ^ 32"
    and "i < length f" and "b \<noteq> f ! i"
  shows "fst (check_suffix malloc (f[i := b]) sfx) = 1"
proof (rule ccontr)
  assume "fst (check_suffix malloc (f[i := b]) sfx) \<noteq> 1"
  let ?n = "length f - 4"
  have ok: "crc32 (take ?n g) = from_le (drop ?n g)"
    if "fst (check_suffix malloc g sfx) \<noteq> 1" and "length g = length f" for g
    using that assms(2,3) checked_length [of "length f"]
    by (auto simp: check_suffix_def Let_def suffix_of_bytes_def split: if_splits)
  have old: "crc32 (take ?n f) = from_le (drop ?n f)" using ok [of f] assms(1) by simp
  have new: "crc32 (take ?n (f[i := b])) = from_le (drop ?n (f[i := b]))"
    using ok [of "f[i := b]"] \<open>fst _ \<noteq> 1\<close> by simp
  show False
  proof (cases "i < ?n")
    case True
    then have "crc32 ((take ?n f)[i := b]) = crc32 (take ?n f)"
      using old new by (simp add: drop_update_cancel take_update_swap)
    then have "b = take ?n f ! i"
      using True unfolding crc32_absorb by (intro crc32.fold_update) simp_all
    then show False using True assms(5) by simp
  next
    case False
    then have "(from_le (drop ?n (f[i := b])) :: u32) = from_le (drop ?n f)"
      using old new by simp
    then have "drop ?n (f[i := b]) = drop ?n f"
      using assms(2) by (intro from_le_32_inj) simp_all
    then have "drop ?n (f[i := b]) ! (i - ?n) = drop ?n f ! (i - ?n)" by simp
    then show False using False assms(2,4,5) by simp
  qed
qed

text \<open>A file without firmware, only a suffix.\<close>

definition empty_suffix :: dfu_suffix where
  "empty_suffix = \<lparr>bcdDevice = 0, idProduct = 0x6003, idVendor = 0x1d50, bcdDFU = 0x0100,
     ucDfuSig = [0x55, 0x46, 0x44], bLength = 16, dwCRC = 0\<rparr>"

definition empty_signed :: "u8 list" where
  "empty_signed = suffix_head empty_suffix @ le_bytes 4 (crc32 (suffix_head empty_suffix))"

lemma suffix_detects_change_witness:
  "fst (check_suffix (\<lambda>n. True) (empty_signed[5 := 0x1e]) empty_suffix) = 1"
proof (rule suffix_detects_change)
  show "check_suffix (\<lambda>n. True) empty_signed empty_suffix
      = (0, [], empty_suffix\<lparr>dwCRC := crc32 (suffix_head empty_suffix)\<rparr>)"
    unfolding empty_signed_def
    by (rule check_suffix_signed [where f = "[]"]) (simp_all add: empty_suffix_def)
  have "suffix_head empty_suffix ! 5 = 0x1d" by code_simp
  then show "0x1e \<noteq> empty_signed ! 5" by (simp add: empty_signed_def empty_suffix_def nth_append)
qed (simp_all add: empty_signed_def empty_suffix_def)

end
