(* ===== verification/Dfu_Tool.thy ===== *)
theory Dfu_Tool
  imports Dfu_File Dfu_Boot Host_Live
begin

text \<open>
  The firmware tool, \<^verbatim>\<open>host/ubertooth-tools/src/ubertooth-dfu.c\<close>: finding the device, the requests of the
  device firmware upgrade class, reading the flash memory (\<open>upload\<close>), writing it (\<open>download\<close>), and what
  \<open>main\<close> does after the options have been read. \<open>libusb_control_transfer\<close> for class requests is a
  parameter: it gets the direction and the request and returns a negative error code or the number of
  bytes, with the bytes received. Error messages are collected; progress dots are left out.
\<close>

type_synonym 'd dfu_control = "bool \<Rightarrow> usb_request \<Rightarrow> 'd \<Rightarrow> int \<times> u8 list \<times> 'd"

abbreviation (input) REQ_DETACH :: u8 where "REQ_DETACH \<equiv> 0"
abbreviation (input) REQ_DNLOAD :: u8 where "REQ_DNLOAD \<equiv> 1"
abbreviation (input) REQ_UPLOAD :: u8 where "REQ_UPLOAD \<equiv> 2"
abbreviation (input) REQ_GETSTATUS :: u8 where "REQ_GETSTATUS \<equiv> 3"
abbreviation (input) REQ_CLRSTATUS :: u8 where "REQ_CLRSTATUS \<equiv> 4"
abbreviation (input) REQ_GETSTATE :: u8 where "REQ_GETSTATE \<equiv> 5"
abbreviation (input) REQ_ABORT :: u8 where "REQ_ABORT \<equiv> 6"

abbreviation (input) BLOCK_SIZE :: nat where "BLOCK_SIZE \<equiv> 256"
abbreviation (input) SECTOR_SIZE :: int where "SECTOR_SIZE \<equiv> 4096"
abbreviation (input) BOOTLOADER_OFFSET :: int where "BOOTLOADER_OFFSET \<equiv> 0"
abbreviation (input) BOOTLOADER_SIZE :: int where "BOOTLOADER_SIZE \<equiv> 0x4000"

definition dfu_in :: "'d dfu_control \<Rightarrow> u8 \<Rightarrow> u16 \<Rightarrow> nat \<Rightarrow> 'd \<Rightarrow> int \<times> u8 list \<times> 'd" where
  "dfu_in ctl r v n = ctl True (dfu_request r v n [])"

definition dfu_out :: "'d dfu_control \<Rightarrow> u8 \<Rightarrow> u16 \<Rightarrow> u8 list \<Rightarrow> 'd \<Rightarrow> int \<times> u8 list \<times> 'd" where
  "dfu_out ctl r v bs = ctl False (dfu_request r v (length bs) bs)"

subsection \<open>Finding the device\<close>

definition is_dfu_device :: "u16 \<times> u16 \<Rightarrow> bool" where
  "is_dfu_device desc \<longleftrightarrow> desc \<in> {(0xffff, 0x0004), (0x1d50, 0x6003)}"

text \<open>The first device that can be opened. A descriptor that cannot be read leaves the last one in
  \<open>desc\<close>.\<close>

fun find_ubertooth_dfu_device :: "u16 \<times> u16 \<Rightarrow> nat \<Rightarrow> 'd usb_entry list \<Rightarrow> 'd option \<times> string list" where
  "find_ubertooth_dfu_device desc i [] = (None, [])"
| "find_ubertooth_dfu_device desc i (e # es) =
     (let (desc, out) = (case ue_descriptor e of
            Some d \<Rightarrow> (d, []) | None \<Rightarrow> (desc, [''couldn't get usb descriptor for dev #'' @ dec_nat i @ ''!'']));
          rest = apsnd (append out) (find_ubertooth_dfu_device desc (Suc i) es)
      in if \<not> is_dfu_device desc then rest
         else (case open_entry e of
                 (Some d, _) \<Rightarrow> (Some d, out)
               | (None, err) \<Rightarrow> apsnd (append (out @ err)) (find_ubertooth_dfu_device desc (Suc i) es)))"

subsection \<open>Requests\<close>

definition dfu_get_state :: "'d dfu_control \<Rightarrow> 'd \<Rightarrow> 'd outcome" where
  "dfu_get_state ctl d = fetched report 1 byte_val (dfu_in ctl REQ_GETSTATE 0 1 d)"

definition dfu_clear_status :: "'d dfu_control \<Rightarrow> 'd \<Rightarrow> 'd outcome" where
  "dfu_clear_status ctl d = pipe_status (dfu_out ctl REQ_CLRSTATUS 0 [] d)"

definition dfu_abort :: "'d dfu_control \<Rightarrow> 'd \<Rightarrow> 'd outcome" where
  "dfu_abort ctl d = pipe_status (dfu_out ctl REQ_ABORT 0 [] d)"

text \<open>One round of \<open>enter_dfu_mode\<close>; the result of \<open>dfu_get_state\<close>, an error code too, is kept in a byte.\<close>

definition enter_round :: "'d dfu_control \<Rightarrow> int \<times> string list \<times> 'd \<Rightarrow> (int \<times> string list \<times> 'd) step option" where
  "enter_round ctl = (\<lambda>(rv, errs, d). do {
     (r, e, d) \<leftarrow> dfu_get_state ctl d;
     let (state, errs) = (word_of_int r :: u8, errs @ e);
     if state = 2 then Some (Leave (0, errs, d))
     else if state \<in> {3, 5, 6, 9, 7} then do {
       (rv, e, d) \<leftarrow> dfu_abort ctl d;
       Some (if rv < 0
             then Leave (rv, errs @ e @ [''Unable to abort transaction from state:'' @ dec (uint state)], d)
             else Again (rv, errs @ e, d)) }
     else if state = 10 then do {
       (_, e, d) \<leftarrow> dfu_clear_status ctl d;
       Some (Again (rv, errs @ e, d)) }
     else Some (Again (rv, errs, d)) })"

definition enter_dfu_mode :: "'d dfu_control \<Rightarrow> 'd \<Rightarrow> 'd outcome" where
  "enter_dfu_mode ctl d = loop_opt (enter_round ctl) (0, [], d)"

definition detach :: "'d dfu_control \<Rightarrow> 'd \<Rightarrow> 'd outcome" where
  "detach ctl d = do {
     (rv, errs, d) \<leftarrow> enter_dfu_mode ctl d;
     if rv < 0 then Some (rv, errs @ [''Detach failed: could not enter DFU mode''], d)
     else do {
       (state, e, d) \<leftarrow> dfu_get_state ctl d;
       if state = 2 then
         (let (rv, bs, d) = dfu_out ctl REQ_DETACH 0 [] d
          in Some (if rv \<noteq> LIBUSB_SUCCESS then (rv, errs @ e @ report rv, d) else (0, errs @ e, d)))
       else Some (1, errs @ e @ [''In unexpected state: '' @ dec state], d) } }"

text \<open>The status that the device sends is not looked at.\<close>

definition dfu_get_status :: "'d dfu_control \<Rightarrow> 'd \<Rightarrow> int \<times> string list \<times> 'd" where
  "dfu_get_status ctl d =
     (let (rv, bs, d) = dfu_in ctl REQ_GETSTATUS 0 6 d
      in if rv < 0 then
           if rv = LIBUSB_ERROR_PIPE then (0, [unsupported], d) else (rv, [show_libusb_error rv], d)
         else (0, [], d))"

subsection \<open>Reading\<close>

text \<open>One round of \<open>upload\<close>, on the result, the messages, the number of the block, the bytes still to
  read and the file.\<close>

type_synonym 'd upload_state = "int \<times> string list \<times> int \<times> int \<times> u8 list \<times> 'd"

definition upload_round :: "'d dfu_control \<Rightarrow> 'd upload_state \<Rightarrow> 'd upload_state step option" where
  "upload_round ctl = (\<lambda>(rv, errs, block, len, upfile, d).
     if \<not> len > 0 then Some (Leave (0, errs, block, len, upfile, d))
     else
       (let (rv, buffer, d) = dfu_in ctl REQ_UPLOAD (word_of_int block) BLOCK_SIZE d
        in if rv < 0 \<and> rv \<noteq> LIBUSB_ERROR_PIPE
           then Some (Leave (rv, errs @ [show_libusb_error rv], block, len, upfile, d))
           else
             (let errs = (if rv < 0 then errs @ [unsupported] else errs)
              in if rv = int BLOCK_SIZE
                 then if length buffer < BLOCK_SIZE then None
                      else Some (Again (rv, errs, block + 1, len - rv, upfile @ take BLOCK_SIZE buffer, d))
                 else Some (Leave (-1, errs @ [''Upload failed: did not read full block''], block, len, upfile, d)))))"

definition upload :: "'d dfu_control \<Rightarrow> 'd \<Rightarrow> (int \<times> string list \<times> u8 list \<times> 'd) option" where
  "upload ctl d =
     (let address = BOOTLOADER_OFFSET + BOOTLOADER_SIZE; len = 256 * 1024 - address;
          block = address div int BLOCK_SIZE
      in if address mod int BLOCK_SIZE \<noteq> 0
         then Some (-1, [''Upload failed: must start at block boundary''], [], d)
         else do {
           (rv, errs, d) \<leftarrow> enter_dfu_mode ctl d;
           if rv < 0 then Some (rv, errs @ [''Upload failed: could not enter DFU mode''], [], d)
           else map_option (\<lambda>(rv, errs, _, _, upfile, d). (rv, errs, upfile, d))
                  (loop_opt (upload_round ctl) (rv, errs, block, len, [], d)) })"

subsection \<open>Writing\<close>

text \<open>The blocks of the file, the last one filled up. A stall is reported and the next block is sent.\<close>

definition padded :: "u8 list \<Rightarrow> u8 list" where
  "padded buffer = buffer @ replicate (BLOCK_SIZE - length buffer) 0xFF"

function download_blocks ::
  "'d dfu_control \<Rightarrow> int \<Rightarrow> u8 list \<Rightarrow> 'd \<Rightarrow> int \<times> string list \<times> 'd"
where
  "download_blocks ctl block downfile d =
     (if downfile = [] then (0, [], d)
      else
        (let (rv, bs, d) = dfu_out ctl REQ_DNLOAD (word_of_int block) (padded (take BLOCK_SIZE downfile)) d
         in if rv < 0 \<and> rv \<noteq> LIBUSB_ERROR_PIPE then (rv, [show_libusb_error rv], d)
            else
              (let e1 = (if rv < 0 then [unsupported] else []);
                   (_, e2, d) = dfu_get_status ctl d;
                   (rv, e3, d) = download_blocks ctl (block + 1) (drop BLOCK_SIZE downfile) d
               in (rv, e1 @ e2 @ e3, d))))"
  by pat_completeness auto

termination download_blocks
  by (relation "measure (\<lambda>(ctl, block, downfile, d). length downfile)") auto

declare download_blocks.simps [simp del]

definition download :: "'d dfu_control \<Rightarrow> u8 list \<Rightarrow> 'd \<Rightarrow> 'd outcome" where
  "download ctl downfile d =
     (let address = BOOTLOADER_OFFSET + BOOTLOADER_SIZE; block = address div int BLOCK_SIZE
      in if address mod SECTOR_SIZE \<noteq> 0
         then Some (-1, [''Download failed: must start at sector boundary''], d)
         else do {
           (rv, errs, d) \<leftarrow> enter_dfu_mode ctl d;
           Some (if rv < 0 then (rv, errs @ [''Download failed: could not enter DFU mode''], d)
                 else apsnd (apfst (append errs)) (download_blocks ctl block downfile d)) })"

subsection \<open>The program\<close>

text \<open>
  What surrounds the program: libusb's list of devices at each search, the device that
  \<open>ubertooth_start\<close> opens, the result of claiming the interface, \<open>malloc\<close>, and what the variables \<open>desc\<close>
  and \<open>suffix\<close> hold before they are set.
\<close>

record 'd dfu_world =
  dw_control :: "'d dfu_control"
  dw_libusb :: "'d libusb"
  dw_entries :: "nat \<Rightarrow> 'd usb_entry list"
  dw_start :: "'d option"
  dw_claim :: "'d \<Rightarrow> int"
  dw_malloc :: "nat \<Rightarrow> bool"
  dw_desc :: "u16 \<times> u16"
  dw_suffix :: dfu_suffix

text \<open>After the switch the device is searched for at most six times.\<close>

function await_dfu_device :: "'d dfu_world \<Rightarrow> nat \<Rightarrow> 'd option \<times> string list" where
  "await_dfu_device w count =
     (case find_ubertooth_dfu_device (dw_desc w) 0 (dw_entries w (Suc count)) of
        (Some d, e) \<Rightarrow> (Some d, e)
      | (None, e) \<Rightarrow> if count < 5 then apsnd (append e) (await_dfu_device w (Suc count)) else (None, e))"
  by pat_completeness auto

termination await_dfu_device
  by (relation "measure (\<lambda>(w, count). 5 - count)") auto

declare await_dfu_device.simps [simp del]

definition open_dfu_device :: "'d dfu_world \<Rightarrow> ('d option \<times> string list) option" where
  "open_dfu_device w =
     (case find_ubertooth_dfu_device (dw_desc w) 0 (dw_entries w 0) of
        (Some d, e) \<Rightarrow> Some (Some d, e)
      | (None, e) \<Rightarrow> do {
          d \<leftarrow> dw_start w;
          (_, e1, _) \<leftarrow> cmd_flash (dw_libusb w) d;
          Some (apsnd (append (e @ e1)) (await_dfu_device w 0)) })"

text \<open>Reading, writing and resetting; the file is written only if its suffix is right.\<close>

definition dfu_functions ::
  "'d dfu_world \<Rightarrow> bool \<Rightarrow> u8 list option \<Rightarrow> bool \<Rightarrow> 'd \<Rightarrow> (int \<times> string list \<times> u8 list \<times> 'd) option"
where
  "dfu_functions w func_upload downfile func_reset d = do {
     (rv, errs, upfile, d) \<leftarrow> (if func_upload then upload (dw_control w) d else Some (0, [], [], d));
     if rv \<noteq> 0 then Some (rv, errs @ [''Firmware update failed''], upfile, d)
     else do {
       (rv, errs, d) \<leftarrow> (case downfile of
          None \<Rightarrow> Some (0, errs, d)
        | Some f \<Rightarrow>
            (let (rv, e, _) = check_suffix (dw_malloc w) f (dw_suffix w)
             in if rv \<noteq> 0
                then Some (rv, errs @ e @ [''Signature check failed, firmware will not be update''], d)
                else map_option (\<lambda>(rv, e1, d).
                       (rv, errs @ e @ e1 @ (if rv \<noteq> 0 then [''Firmware update failed''] else []), d))
                     (download (dw_control w) f d)));
       if rv \<noteq> 0 then Some (rv, errs, upfile, d)
       else if func_reset
         then map_option (\<lambda>(_, e, d). (0, errs @ e, upfile, d)) (detach (dw_control w) d)
         else Some (0, errs, upfile, d) } }"

text \<open>\<open>main\<close> after the options have been read: the result, the error messages, and what is written to the
  signed file and to the file read from the device.\<close>

definition dfu_main ::
  "'d dfu_world \<Rightarrow> u8 list option \<Rightarrow> bool \<Rightarrow> u8 list option \<Rightarrow> bool \<Rightarrow>
   (int \<times> string list \<times> u8 list \<times> u8 list) option"
where
  "dfu_main w infile func_upload downfile func_reset = do {
     (errs, outfile) \<leftarrow> (case infile of
        None \<Rightarrow> Some ([], [])
      | Some f \<Rightarrow> map_option snd (sign (dw_malloc w) f 0x1d50 0x6003));
     if \<not> (func_upload \<or> downfile \<noteq> None \<or> func_reset) then Some (0, errs, outfile, [])
     else do {
       (devh, e) \<leftarrow> open_dfu_device w;
       (case devh of
          None \<Rightarrow> Some (1, errs @ e @ [''Unable to find Ubertooth''], outfile, [])
        | Some d \<Rightarrow>
            if dw_claim w d < 0
            then Some (1, errs @ e @ [''usb_claim_interface error '' @ dec (dw_claim w d),
                   ''Correct permissions to access Ubertooth?''], outfile, [])
            else map_option (\<lambda>(rv, e1, upfile, _). (rv, errs @ e @ e1, outfile, upfile))
                   (dfu_functions w func_upload downfile func_reset d)) } }"

end
