(* ===== verification/Dfu_Update.thy ===== *)
theory Dfu_Update
  imports Dfu_Machine Dfu_Tool
begin

text \<open>
  The firmware tool talking to the bootloader. \<open>dfu_usb\<close> puts the bootloader in the place of libusb:
  a class request is \<open>class_transfer\<close>, a stall is \<open>LIBUSB_ERROR_PIPE\<close>, and a bootloader that has left
  upgrade mode is gone from the bus. The lemmas follow an update from the file on the host into the
  flash memory and back.
\<close>

definition dfu_usb :: "'r iap_entry \<Rightarrow> u32 \<Rightarrow> 'r dfu dfu_control" where
  "dfu_usb iap buf din rq d =
     (if \<not> in_dfu_mode d then (LIBUSB_ERROR_NO_DEVICE, [], d)
      else (case class_transfer iap buf din rq d of
              None \<Rightarrow> (LIBUSB_ERROR_NO_DEVICE, [], d)
            | Some (None, d) \<Rightarrow> (LIBUSB_ERROR_PIPE, [], d)
            | Some (Some bs, d) \<Rightarrow> (int (if din then length bs else length (rq_data rq)), bs, d)))"

text \<open>The buffer lies in RAM, aligned to words.\<close>

definition buffer_ok :: "u32 \<Rightarrow> bool" where
  "buffer_ok buf \<longleftrightarrow> buf AND 3 = 0 \<and> 0x80000 \<le> unat buf \<and> unat buf + 256 \<le> 2 ^ 32"

lemma buffer_outside: "buffer_ok buf \<Longrightarrow> unat a < 0x80000 \<Longrightarrow> \<not> in_block buf a"
  by (simp add: buffer_ok_def in_block_unat)

lemma active_mode: "dfu_active d \<Longrightarrow> in_dfu_mode d"
  by (auto simp: dfu_active_def dfu_wf_def in_dfu_mode_def)

lemma load_store: "length bs \<le> 2 ^ 32 \<Longrightarrow> n \<le> length bs \<Longrightarrow> load_mem p n (store_mem p bs m) = take n bs"
  by (rule nth_equalityI) (simp_all add: load_mem_def store_mem_def unat_of_nat)

lemma store_mem_flash: "buffer_ok buf \<Longrightarrow> length bs \<le> 256 \<Longrightarrow> unat a < 0x80000 \<Longrightarrow> store_mem buf bs m a = m a"
  by (simp add: store_mem_outside buffer_outside)

text \<open>What an exchange leaves as it is: the flash memory.\<close>

definition same_flash :: "'r dfu \<Rightarrow> 'r dfu \<Rightarrow> bool" where
  "same_flash d d' \<longleftrightarrow> (\<forall>a. unat a < 0x80000 \<longrightarrow> mem (df_chip d') a = mem (df_chip d) a)"

lemma same_flash_trans: "same_flash a b \<Longrightarrow> same_flash b c \<Longrightarrow> same_flash a c"
  by (simp add: same_flash_def)

lemma same_flash_refl [simp]: "same_flash d d"
  by (simp add: same_flash_def)

subsection \<open>Entering upgrade mode\<close>

lemma get_state_boot:
  assumes "dfu_active d" and "buffer_ok buf"
  shows "\<exists>d'. dfu_get_state (dfu_usb iap buf) d = Some (uint (state_code (df_state d)), [], d')
    \<and> df_state d' = df_state d \<and> dfu_active d' \<and> same_flash d d'"
  using assms
  by (simp add: dfu_get_state_def fetched_def dfu_in_def dfu_usb_def active_mode class_transfer_def class_setup_def
    dfu_request_def request_handler_def request_getstate_def load_store byte_val_def same_flash_def store_mem_flash)

lemma abort_boot:
  assumes "dfu_active d" and "df_state d \<noteq> DFUERROR" and "buffer_ok buf"
  shows "\<exists>d'. dfu_abort (dfu_usb iap buf) d = Some (0, [], d') \<and> df_state d' = DFUIDLE \<and> dfu_active d' \<and> same_flash d d'"
  using assms
  by (simp add: dfu_abort_def pipe_status_def dfu_out_def dfu_usb_def active_mode class_transfer_def class_setup_def
    dfu_request_def request_handler_def request_abort_def same_flash_def store_mem_flash dfu_preds)

lemma clear_boot:
  assumes "dfu_active d" and "df_state d = DFUERROR" and "buffer_ok buf"
  shows "\<exists>d'. dfu_clear_status (dfu_usb iap buf) d = Some (0, [], d') \<and> df_state d' = DFUIDLE \<and> dfu_active d' \<and> same_flash d d'"
  using assms
  by (simp add: dfu_clear_status_def pipe_status_def dfu_out_def dfu_usb_def active_mode class_transfer_def class_setup_def
    dfu_request_def request_handler_def request_clrstatus_def same_flash_def store_mem_flash dfu_preds)

lemma enter_idle:
  assumes "dfu_active d" and "df_state d = DFUIDLE" and "buffer_ok buf"
  shows "\<exists>d'. loop_opt (enter_round (dfu_usb iap buf)) (rv, errs, d) = Some (0, errs, d') \<and> df_state d' = DFUIDLE
    \<and> dfu_active d' \<and> same_flash d d'"
  using get_state_boot [OF assms(1,3), of iap] assms(2)
  by (subst loop_opt.simps) (auto simp: enter_round_def)

lemma enter_boot:
  assumes "dfu_active d" and "buffer_ok buf"
  shows "\<exists>d'. enter_dfu_mode (dfu_usb iap buf) d = Some (0, [], d') \<and> df_state d' = DFUIDLE \<and> dfu_active d' \<and> same_flash d d'"
proof (cases "df_state d = DFUIDLE")
  case True
  then show ?thesis using enter_idle [OF assms(1) _ assms(2), of iap 0 "[]"] by (simp add: enter_dfu_mode_def)
next
  case False
  obtain d1 where d1: "dfu_get_state (dfu_usb iap buf) d = Some (uint (state_code (df_state d)), [], d1)"
    "df_state d1 = df_state d" "dfu_active d1" "same_flash d d1"
    using get_state_boot [OF assms, of iap] by blast
  have "\<exists>d2. enter_round (dfu_usb iap buf) (0, [], d) = Some (Again (0, [], d2)) \<and> df_state d2 = DFUIDLE
      \<and> dfu_active d2 \<and> same_flash d1 d2"
  proof (cases "df_state d = DFUERROR")
    case True
    then show ?thesis using clear_boot [OF d1(3) _ assms(2), of iap] d1 by (auto simp: enter_round_def)
  next
    case False
    then show ?thesis
      using abort_boot [OF d1(3) _ assms(2), of iap] d1 \<open>df_state d \<noteq> DFUIDLE\<close> assms(1)
      by (auto simp: enter_round_def dfu_active_def dfu_wf_def)
  qed
  then obtain d2 where d2: "enter_round (dfu_usb iap buf) (0, [], d) = Some (Again (0, [], d2))"
    "df_state d2 = DFUIDLE" "dfu_active d2" "same_flash d1 d2" by blast
  obtain d3 where "loop_opt (enter_round (dfu_usb iap buf)) (0, [], d2) = Some (0, [], d3)" "df_state d3 = DFUIDLE"
    "dfu_active d3" "same_flash d2 d3"
    using enter_idle [OF d2(3,2) assms(2), of iap 0 "[]"] by blast
  with d1 d2 show ?thesis
    unfolding enter_dfu_mode_def by (subst loop_opt.simps) (auto intro: same_flash_trans)
qed

subsection \<open>Blocks and sectors\<close>

definition block_sector :: "nat \<Rightarrow> nat" where
  "block_sector k = (if k < 256 then k div 16 else 16 + (k - 256) div 128)"

definition first_block :: "nat \<Rightarrow> bool" where
  "first_block k \<longleftrightarrow> k mod (if k < 256 then 16 else 128) = 0"

lemma sector_at_block: "sector_at a = block_sector (a div 256)"
proof -
  have "a < 0x10000 \<longleftrightarrow> a div 256 < 256" by (simp add: less_mult_imp_div_less div_less_iff_less_mult)
  moreover have "a div 4096 = a div 256 div 16" by (simp add: div_mult2_eq [symmetric])
  moreover have "(a - 0x10000) div 32768 = (a div 256 - 256) div 128"
  proof (cases "a < 0x10000")
    case True
    then have "a div 256 < 256" by (simp add: less_mult_imp_div_less)
    with True show ?thesis by simp
  next
    case False
    then obtain b where "a = 256 * 256 + b" using le_Suc_ex [of "256 * 256" a] by auto
    then show ?thesis by (simp add: div_mult2_eq [symmetric])
  qed
  ultimately show ?thesis by (simp add: sector_at_def block_sector_def)
qed

lemma block_of_address: "k < 2048 \<Longrightarrow> unat (of_nat k * 0x100 :: u32) = k * 256"
  by (simp add: unat_word_ariths unat_of_nat)

lemma in_block_address: "k < 2048 \<Longrightarrow> in_block (of_nat k * 0x100) a \<longleftrightarrow> unat a div 256 = k"
  by (subst in_block_unat) (auto simp: block_of_address div_eq_dividend_iff dividend_less_times_div intro: div_nat_eqI)

lemma block_offset:
  assumes "k < 2048" and "unat (a :: u32) div 256 = k"
  shows "unat (a - of_nat k * 0x100) = unat a mod 256"
proof -
  have "k * 256 \<le> unat a" using assms(2) by (metis mult.commute times_div_less_eq_dividend)
  then show ?thesis
    using assms by (simp add: unat_sub word_le_nat_alt block_of_address minus_div_mult_eq_mod [symmetric])
qed

lemma and_ones_zero: "(p :: u32) AND (2 ^ n - 1) = 0 \<longleftrightarrow> 2 ^ n dvd unat p"
proof -
  have "p AND (2 ^ n - 1) = take_bit n p" by (simp add: take_bit_eq_mask mask_eq_exp_minus_1)
  moreover have "unat (take_bit n p) = unat p mod 2 ^ n" by (subst unsigned_take_bit_eq) (rule take_bit_eq_mod)
  ultimately show ?thesis by (metis mod_eq_0_iff_dvd unat_eq_zero)
qed

lemma at_sector_first:
  assumes "k < 2048"
  shows "at_sector_boundary (of_nat k * 0x100) \<longleftrightarrow> first_block k"
proof (cases "k < 256")
  case True
  then have "(of_nat k * 0x100 :: u32) < 0x10000" using assms by (simp add: word_less_nat_alt block_of_address)
  moreover have "4096 dvd k * 256 \<longleftrightarrow> 16 dvd k" using dvd_times_right_cancel_iff [of 256 16 k] by simp
  ultimately show ?thesis
    using True and_ones_zero [of "of_nat k * 0x100" 12] assms
    by (simp add: at_sector_boundary_def sector_size_def first_block_def block_of_address mod_eq_0_iff_dvd)
next
  case False
  then have "\<not> (of_nat k * 0x100 :: u32) < 0x10000" using assms by (simp add: word_less_nat_alt block_of_address)
  moreover have "32768 dvd k * 256 \<longleftrightarrow> 128 dvd k" using dvd_times_right_cancel_iff [of 256 128 k] by simp
  ultimately show ?thesis
    using False and_ones_zero [of "of_nat k * 0x100" 15] assms
    by (simp add: at_sector_boundary_def sector_size_def first_block_def block_of_address mod_eq_0_iff_dvd)
qed

lemma first_block_least:
  assumes "first_block k" and "block_sector j = block_sector k"
  shows "k \<le> j"
proof (cases "k < 256")
  case True
  then obtain q where "k = 16 * q" using assms(1) by (auto simp: first_block_def)
  then show ?thesis using assms(2) True by (auto simp: block_sector_def split: if_splits)
next
  case False
  then obtain m where k: "k = 256 + m" using le_Suc_ex [of 256 k] by auto
  have "128 dvd 256 + m" using assms(1) False by (simp add: first_block_def k mod_eq_0_iff_dvd)
  then have "128 dvd m" using dvd_add_right_iff [of 128 256 m] by simp
  then obtain r where "m = 128 * r" by blast
  then show ?thesis using assms(2) False by (auto simp: block_sector_def k split: if_splits)
qed

lemma next_block_sector:
  assumes "\<not> first_block (Suc k)"
  shows "block_sector (Suc k) = block_sector k"
proof -
  consider "k < 255" | "k = 255" | m where "k = 256 + m" using le_Suc_ex [of 256 k] by force
  then show ?thesis
  proof cases
    case 3
    then have "\<not> 128 dvd 256 + Suc m" using assms by (simp add: first_block_def mod_eq_0_iff_dvd)
    then have "\<not> 128 dvd Suc m" using dvd_add_right_iff [of 128 256 "Suc m"] by simp
    then show ?thesis by (simp add: block_sector_def 3 div_Suc mod_eq_0_iff_dvd)
  qed (use assms in \<open>simp_all add: first_block_def block_sector_def div_Suc\<close>)
qed

subsection \<open>Writing a block\<close>

text \<open>The flash memory byte by byte.\<close>

definition flash_at :: "'r dfu \<Rightarrow> nat \<Rightarrow> u8" where
  "flash_at d n = mem (df_chip d) (of_nat n)"

text \<open>What \<open>flash_at\<close> is after block \<open>k\<close> has been written: the rest of its sector is blank.\<close>

definition with_block :: "nat \<Rightarrow> u8 list \<Rightarrow> (nat \<Rightarrow> u8) \<Rightarrow> nat \<Rightarrow> u8" where
  "with_block k bs g n =
     (if n div 256 = k then bs ! (n mod 256)
      else if k < n div 256 \<and> block_sector (n div 256) = block_sector k then 0xFF else g n)"

definition blank_from :: "nat \<Rightarrow> (nat \<Rightarrow> u8) \<Rightarrow> bool" where
  "blank_from k g \<longleftrightarrow> first_block k \<or> (\<forall>n<0x80000. k \<le> n div 256 \<and> block_sector (n div 256) = block_sector k \<longrightarrow> g n = 0xFF)"

lemma flash_address: "n < 0x80000 \<Longrightarrow> unat (of_nat n :: u32) = n"
  by (simp add: unat_of_nat)

lemma erased_flash:
  assumes "k < 2048" and "n < 0x80000"
  shows "erased_for (of_nat k * 0x100) m (of_nat n) =
    (if first_block k \<and> block_sector (n div 256) = block_sector k then 0xFF else m (of_nat n))"
  using assms
  by (simp add: erased_for_def at_sector_first in_sectors_def flash_address sector_at_block block_of_address)

lemma erased_ram: "0x80000 \<le> unat a \<Longrightarrow> erased_for p m a = m a"
  by (simp add: erased_for_def in_sectors_def)

lemma write_block:
  assumes doc: "iap_documented iap prepared" and buf: "buffer_ok buf" and k: "k < 2048" and bs: "length bs = 256"
    and blank: "blank_from k (\<lambda>n. mem c (of_nat n))"
    and w: "flash_write iap (of_nat k * 0x100) buf 256 (c\<lparr>mem := store_mem buf bs (mem c)\<rparr>) = (ok, c')"
  shows "ok \<and> (\<forall>n<0x80000. mem c' (of_nat n) = with_block k bs (\<lambda>n. mem c (of_nat n)) n)"
proof -
  let ?p = "of_nat k * 0x100 :: u32" and ?m = "store_mem buf bs (mem c)"
  have p: "?p < 0x80000" using k by (simp add: word_less_nat_alt block_of_address)
  note W = flash_write_memory [OF doc p w]
  have flash: "?m (of_nat n) = mem c (of_nat n)" if "n < 0x80000" for n
    using buf bs that by (intro store_mem_flash) (simp_all add: flash_address)
  have "256 dvd unat ?p" using k by (simp add: block_of_address)
  then have aligned: "?p AND 0xFF = 0" using and_ones_zero [of ?p 8] by simp
  have block_blank: "erased_for ?p ?m a = 0xFF" if "in_block ?p a" for a
  proof -
    have a: "unat a div 256 = k" "unat a < 0x80000" using that k by (auto simp: in_block_address)
    then have "erased_for ?p ?m (of_nat (unat a)) = 0xFF"
      using k blank erased_flash [OF k a(2)] flash [OF a(2)] by (auto simp: blank_from_def)
    then show ?thesis by simp
  qed
  have new: "mem c' (of_nat n) = bs ! (n mod 256)" if n: "n < 0x80000" "n div 256 = k" for n
  proof -
    let ?a = "of_nat n :: u32"
    have a: "in_block ?p ?a" using k n by (simp add: in_block_address flash_address)
    have off: "unat (?a - ?p) = n mod 256" using block_offset [OF k, of ?a] n by (simp add: flash_address)
    have "mem c' ?a = erased_for ?p ?m (buf + (?a - ?p))"
      using W aligned block_blank a buf by (simp add: buffer_ok_def word_le_nat_alt)
    also have "\<dots> = ?m (buf + (?a - ?p))"
    proof (rule erased_ram)
      have "n mod 256 < 256" by simp
      then have "unat buf + unat (?a - ?p) < 2 ^ 32" unfolding off using buf unfolding buffer_ok_def by linarith
      then have "unat (buf + (?a - ?p)) = unat buf + n mod 256" using off by (simp add: unat_word_ariths)
      then show "0x80000 \<le> unat (buf + (?a - ?p))" using buf by (simp add: buffer_ok_def)
    qed
    also have "\<dots> = bs ! (n mod 256)" by (simp add: store_mem_def off bs)
    finally show ?thesis .
  qed
  have old: "mem c' (of_nat n) = erased_for ?p ?m (of_nat n)" if "n < 0x80000" "n div 256 \<noteq> k" for n
    using W that k by (simp add: in_block_address flash_address)
  have "mem c' (of_nat n) = with_block k bs (\<lambda>n. mem c (of_nat n)) n" if "n < 0x80000" for n
    using that new [of n] old [of n] flash [of n] k blank first_block_least [of k "n div 256"]
    by (auto simp: with_block_def erased_flash blank_from_def)
  then show ?thesis using W by simp
qed

lemma dnload_boot:
  assumes doc: "iap_documented iap prepared" and buf: "buffer_ok buf" and k: "64 \<le> k" "k < 2048"
    and bs: "length bs = 256" and d: "dfu_active d" "df_state d = DFUIDLE \<or> df_state d = DFUDNLOAD_IDLE"
    and blank: "blank_from k (flash_at d)"
  shows "\<exists>d'. dfu_out (dfu_usb iap buf) REQ_DNLOAD (of_nat k) bs d = (256, [], d') \<and> dfu_active d'
    \<and> df_state d' = DFUDNLOAD_SYNC \<and> (\<forall>n<0x80000. flash_at d' n = with_block k bs (flash_at d) n)"
proof -
  let ?c = "df_chip (dfu_mem (store_mem buf bs) d)"
  obtain ok c' where w: "flash_write iap (of_nat k * 0x100) buf 256 ?c = (ok, c')" by fastforce
  have addr: "ucast (of_nat k :: u16) * 0x100 = (of_nat k * 0x100 :: u32)"
    using k block_address [of "of_nat k"] by (simp add: word_unat_eq_iff block_of_address unat_of_nat)
  have W: "ok" "\<forall>n<0x80000. mem c' (of_nat n) = with_block k bs (flash_at d) n"
    using write_block [OF doc buf k(2) bs, of "df_chip d"] w blank by (simp_all add: dfu_mem_def flash_at_def [abs_def])
  have permitted: "write_permitted (of_nat k * 0x100)"
    using k by (simp add: write_permitted_def word_le_nat_alt block_of_address)
  let ?d = "set_state DFUDNLOAD_SYNC ((dfu_mem (store_mem buf bs) d)\<lparr>df_chip := c'\<rparr>)"
  have "class_transfer iap buf False (dfu_request 1 (of_nat k) 256 bs) d = Some (Some [], ?d)"
    using d(2) W(1) w permitted bs
    by (auto simp: class_transfer_def dfu_request_def class_setup_def request_handler_def request_dnload_def addr)
  then have "dfu_out (dfu_usb iap buf) REQ_DNLOAD (of_nat k) bs d = (256, [], ?d)"
    using d(1) bs by (simp add: dfu_out_def dfu_usb_def active_mode) (simp add: dfu_request_def)
  moreover have "dfu_active ?d" using d by (auto intro!: dfu_preds)
  ultimately show ?thesis using W(2) by (auto simp: flash_at_def)
qed

lemma get_status_boot:
  assumes "dfu_active d" and "buffer_ok buf"
  shows "\<exists>d'. dfu_get_status (dfu_usb iap buf) d = (0, [], d') \<and> dfu_active d' \<and> same_flash d d'
    \<and> df_state d' = (case df_state d of DFUDNLOAD_SYNC \<Rightarrow> DFUDNLOAD_IDLE | DFUMANIFEST_SYNC \<Rightarrow> DFUIDLE | x \<Rightarrow> x)"
  using assms
  by (auto simp: dfu_get_status_def dfu_in_def dfu_usb_def active_mode class_transfer_def class_setup_def
    dfu_request_def request_handler_def request_getstatus_def same_flash_def store_mem_flash Let_def
    intro!: dfu_preds split: dfu_state.split)

lemma same_flash_at: "same_flash d d' \<Longrightarrow> n < 0x80000 \<Longrightarrow> flash_at d' n = flash_at d n"
  by (simp add: same_flash_def flash_at_def flash_address)

lemma blank_next:
  assumes "\<forall>n<0x80000. g' n = with_block k bs g n" and "blank_from k g"
  shows "blank_from (Suc k) g'"
proof (cases "first_block (Suc k)")
  case False
  then show ?thesis
    using assms next_block_sector [OF False] by (auto simp: blank_from_def with_block_def)
qed (simp add: blank_from_def)

text \<open>The file ends up in the blocks from \<open>k\<close> on, and what is below them stays.\<close>

lemma download_boot:
  assumes doc: "iap_documented iap prepared" and buf: "buffer_ok buf"
  shows "64 \<le> k \<Longrightarrow> k * 256 + length f \<le> 0x80000 \<Longrightarrow> dfu_active d \<Longrightarrow>
    df_state d = DFUIDLE \<or> df_state d = DFUDNLOAD_IDLE \<Longrightarrow> blank_from k (flash_at d) \<Longrightarrow>
    \<exists>d'. download_blocks (dfu_usb iap buf) (int k) f d = (0, [], d') \<and> dfu_active d'
      \<and> (df_state d' = DFUIDLE \<or> df_state d' = DFUDNLOAD_IDLE)
      \<and> (\<forall>n<k * 256. flash_at d' n = flash_at d n)
      \<and> (\<forall>i<length f. flash_at d' (k * 256 + i) = f ! i)"
proof (induction "length f" arbitrary: f k d rule: less_induct)
  case less
  show ?case
  proof (cases "f = []")
    case True
    then show ?thesis using less.prems by (subst download_blocks.simps) auto
  next
    case False
    let ?bs = "padded (take 256 f)"
    have k: "64 \<le> k" "k < 2048" using less.prems(1,2) False by (auto simp: Suc_le_eq length_greater_0_conv [symmetric] simp del: length_greater_0_conv)
    have bs: "length ?bs = 256" by (simp add: padded_def)
    obtain d1 where d1: "dfu_out (dfu_usb iap buf) REQ_DNLOAD (of_nat k) ?bs d = (256, [], d1)" "dfu_active d1"
      "df_state d1 = DFUDNLOAD_SYNC" "\<forall>n<0x80000. flash_at d1 n = with_block k ?bs (flash_at d) n"
      using dnload_boot [OF doc buf k bs less.prems(3-5)] by blast
    obtain d2 where d2: "dfu_get_status (dfu_usb iap buf) d1 = (0, [], d2)" "dfu_active d2" "same_flash d1 d2"
      "df_state d2 = DFUDNLOAD_IDLE"
      using get_status_boot [OF d1(2) buf, of iap] d1(3) by auto
    have at2: "\<forall>n<0x80000. flash_at d2 n = with_block k ?bs (flash_at d) n"
      using same_flash_at [OF d2(3)] d1(4) by simp
    have "length (drop 256 f) < length f" using False by simp
    moreover have "Suc k * 256 + length (drop 256 f) \<le> 0x80000"
      using less.prems(2) k by (cases "length f < 256") simp_all
    ultimately obtain d3 where d3: "download_blocks (dfu_usb iap buf) (int (Suc k)) (drop 256 f) d2 = (0, [], d3)"
      "dfu_active d3" "df_state d3 = DFUIDLE \<or> df_state d3 = DFUDNLOAD_IDLE"
      "\<forall>n<Suc k * 256. flash_at d3 n = flash_at d2 n"
      "\<forall>i<length (drop 256 f). flash_at d3 (Suc k * 256 + i) = drop 256 f ! i"
      using less.hyps [of "drop 256 f" "Suc k" d2] k d2 blank_next [OF at2 less.prems(5)] by auto
    have run: "download_blocks (dfu_usb iap buf) (int k) f d = (0, [], d3)"
      using False d1(1) d2(1) d3(1) by (subst download_blocks.simps) (simp add: add.commute)
    have low: "flash_at d3 n = flash_at d n" if n: "n < k * 256" for n
    proof -
      have "n div 256 < k" using n by (rule less_mult_imp_div_less)
      then show ?thesis using n d3(4) at2 k by (simp add: with_block_def)
    qed
    have new: "flash_at d3 (k * 256 + i) = f ! i" if i: "i < length f" for i
    proof (cases "i < 256")
      case True
      then have n: "(k * 256 + i) div 256 = k" "(k * 256 + i) mod 256 = i" "k * 256 + i < 0x80000" "k * 256 + i < Suc k * 256"
        using k by simp_all
      then have "flash_at d3 (k * 256 + i) = ?bs ! i" using d3(4) at2 by (simp add: with_block_def)
      then show ?thesis using True i by (simp add: padded_def nth_append)
    next
      case False
      then obtain j where j: "i = 256 + j" using le_Suc_ex [of 256 i] by auto
      then have at: "k * 256 + i = Suc k * 256 + j" by simp
      have "j < length (drop 256 f)" using i j by simp
      then have "flash_at d3 (Suc k * 256 + j) = drop 256 f ! j" using d3(5) by blast
      then show ?thesis unfolding at using i by (simp add: j)
    qed
    show ?thesis using run d3(2,3) low new by blast
  qed
qed

text \<open>A bootloader that has just been entered on a device whose flash memory holds zeros, and a tool on a
  machine with enough memory.\<close>

definition demo_boot :: "nat set dfu" where
  "demo_boot = DFU_init \<lparr>mem = (\<lambda>a. 0), rom = {}\<rparr>"

definition demo_world :: "nat set dfu dfu_world" where
  "demo_world = \<lparr>dw_control = dfu_usb bench_iap 0x10000000,
     dw_libusb = \<lparr>lu_control = dfu_usb bench_iap 0x10000000, lu_submit = (\<lambda>buf d. (0, d))\<rparr>,
     dw_entries = (\<lambda>k. []), dw_start = None, dw_claim = (\<lambda>d. 0), dw_malloc = (\<lambda>n. True),
     dw_desc = (0, 0), dw_suffix = empty_suffix\<rparr>"

lemma demo_boot_active: "dfu_active demo_boot"
  by (simp add: demo_boot_def DFU_init_def dfu_active_def dfu_wf_def)

lemma demo_buffer: "buffer_ok 0x10000000"
  by (simp add: buffer_ok_def)

text \<open>C5: A firmware update. The tool is given a file and the bootloader is in any state of upgrade mode
  (the file fits behind the bootloader). If the suffix of the file is accepted, the tool returns 0
  without a message, the flash memory from \<open>0x4000\<close> holds the file byte for byte and the bootloader is
  unchanged. If it is not, the tool returns 1 and the device has not been touched.\<close>

theorem firmware_written:
  assumes doc: "iap_documented iap prepared" and buf: "buffer_ok buf" and d: "dfu_active d"
    and w: "dw_control w = dfu_usb iap buf" and f: "length f \<le> 0x7C000"
    and check: "check_suffix (dw_malloc w) f (dw_suffix w) = (r, e, sfx)"
  shows "if r = 0
    then \<exists>d'. dfu_functions w False (Some f) False d = Some (0, [], [], d')
      \<and> (\<forall>i<length f. flash_at d' (0x4000 + i) = f ! i) \<and> (\<forall>n<0x4000. flash_at d' n = flash_at d n)
    else r = 1 \<and> dfu_functions w False (Some f) False d =
      Some (1, e @ [''Signature check failed, firmware will not be update''], [], d)"
proof (cases "r = 0")
  case True
  then have e: "e = []" using check by (auto simp: check_suffix_def Let_def split: if_splits)
  obtain d1 where d1: "enter_dfu_mode (dfu_usb iap buf) d = Some (0, [], d1)" "df_state d1 = DFUIDLE"
    "dfu_active d1" "same_flash d d1"
    using enter_boot [OF d buf, of iap] by blast
  obtain d2 where d2: "download_blocks (dfu_usb iap buf) (int 64) f d1 = (0, [], d2)"
    "\<forall>n<64 * 256. flash_at d2 n = flash_at d1 n" "\<forall>i<length f. flash_at d2 (64 * 256 + i) = f ! i"
    using download_boot [OF doc buf, of 64 f d1] d1(2,3) f by (auto simp: blank_from_def first_block_def)
  have "download (dfu_usb iap buf) f d = Some (0, [], d2)"
    using d1(1) d2(1) by (simp add: download_def)
  then have "dfu_functions w False (Some f) False d = Some (0, [], [], d2)"
    using check True by (simp add: dfu_functions_def w e)
  then show ?thesis using True d2(2,3) same_flash_at [OF d1(4)] by auto
next
  case False
  then have "r = 1" using check by (auto simp: check_suffix_def Let_def split: if_splits)
  then show ?thesis using check by (simp add: dfu_functions_def)
qed

lemma firmware_written_witness:
  "\<exists>d'. dfu_functions demo_world False (Some empty_signed) False demo_boot = Some (0, [], [], d')
     \<and> (\<forall>i<length empty_signed. flash_at d' (0x4000 + i) = empty_signed ! i)
     \<and> (\<forall>n<0x4000. flash_at d' n = flash_at demo_boot n)"
proof -
  have "check_suffix (dw_malloc demo_world) empty_signed (dw_suffix demo_world)
      = (0, [], empty_suffix\<lparr>dwCRC := crc32 (suffix_head empty_suffix)\<rparr>)"
    unfolding empty_signed_def
    by (rule check_suffix_signed [where f = "[]"]) (simp_all add: empty_suffix_def demo_world_def)
  from firmware_written [OF bench_iap_documented demo_buffer demo_boot_active _ _ this]
  show ?thesis by (simp add: demo_world_def empty_signed_def empty_suffix_def)
qed

subsection \<open>Reading back\<close>

declare upt_rec_numeral [simp del]

lemma upload_block:
  assumes buf: "buffer_ok buf" and k: "k < 2048" and d: "dfu_active d" "df_state d = DFUIDLE"
  shows "\<exists>d'. dfu_in (dfu_usb iap buf) REQ_UPLOAD (of_nat k) 256 d = (256, map (flash_at d) [k * 256..<k * 256 + 256], d')
    \<and> dfu_active d' \<and> df_state d' = DFUIDLE \<and> same_flash d d'"
proof -
  let ?p = "of_nat k * 0x100 :: u32"
  have addr: "ucast (of_nat k :: u16) * 0x100 = ?p"
    using k block_address [of "of_nat k"] by (simp add: word_unat_eq_iff block_of_address unat_of_nat)
  have valid: "valid_address ?p" "valid_address (?p + 256 - 1)"
    using k by (simp_all add: valid_address_def word_less_nat_alt block_of_address unat_word_ariths unat_of_nat)
  let ?m = "store_mem buf [] (mem (df_chip d))"
  have bytes: "load_mem ?p 256 (mem (df_chip d)) = map (flash_at d) [k * 256..<k * 256 + 256]"
    by (rule nth_equalityI) (simp_all add: load_mem_def flash_at_def add.commute)
  let ?d = "set_state DFUIDLE (dfu_mem (\<lambda>m. store_mem buf (load_mem ?p 256 m) m) (dfu_mem (store_mem buf []) d))"
  have none: "store_mem buf [] m = m" for m by (rule ext) (simp add: store_mem_def)
  have "class_transfer iap buf True (dfu_request 2 (of_nat k) 256 []) d
      = Some (Some (map (flash_at d) [k * 256..<k * 256 + 256]), ?d)"
    using d(2) valid
    by (simp add: class_transfer_def dfu_request_def class_setup_def request_handler_def request_upload_def addr
      load_store none bytes)
  then have "dfu_in (dfu_usb iap buf) REQ_UPLOAD (of_nat k) 256 d
      = (256, map (flash_at d) [k * 256..<k * 256 + 256], ?d)"
    using d(1) by (simp add: dfu_in_def dfu_usb_def active_mode)
  moreover have "dfu_active ?d" using d by (auto intro!: dfu_preds)
  moreover have "same_flash d ?d" using buf by (simp add: same_flash_def none store_mem_flash)
  ultimately show ?thesis by auto
qed

lemma upload_blocks:
  assumes buf: "buffer_ok buf"
  shows "k \<le> 1024 \<Longrightarrow> dfu_active d \<Longrightarrow> df_state d = DFUIDLE \<Longrightarrow>
    \<exists>d' block. loop_opt (upload_round (dfu_usb iap buf)) (rv, errs, int k, int ((1024 - k) * 256), out, d)
      = Some (0, errs, block, 0, out @ map (flash_at d) [k * 256..<1024 * 256], d')
      \<and> dfu_active d' \<and> same_flash d d'"
proof (induction "1024 - k" arbitrary: k rv out d)
  case 0
  then show ?case by (subst loop_opt.simps) (auto simp: upload_round_def)
next
  case (Suc n)
  then have k: "k < 1024" by simp
  obtain d1 where d1: "dfu_in (dfu_usb iap buf) REQ_UPLOAD (of_nat k) 256 d = (256, map (flash_at d) [k * 256..<k * 256 + 256], d1)"
    "dfu_active d1" "df_state d1 = DFUIDLE" "same_flash d d1"
    using upload_block [OF buf _ Suc.prems(2,3), of k iap] k by auto
  have round: "upload_round (dfu_usb iap buf) (rv, errs, int k, int ((1024 - k) * 256), out, d)
      = Some (Again (256, errs, int (Suc k), int ((1024 - Suc k) * 256), out @ map (flash_at d) [k * 256..<k * 256 + 256], d1))"
    using d1(1) k by (simp add: upload_round_def of_nat_diff)
  have n: "n = 1024 - Suc k" and Sk: "Suc k \<le> 1024" using Suc.hyps(2) k by simp_all
  obtain d2 block where "loop_opt (upload_round (dfu_usb iap buf)) (256, errs, int (Suc k), int ((1024 - Suc k) * 256),
        out @ map (flash_at d) [k * 256..<k * 256 + 256], d1)
      = Some (0, errs, block, 0, (out @ map (flash_at d) [k * 256..<k * 256 + 256]) @ map (flash_at d1) [Suc k * 256..<1024 * 256], d2)"
    "dfu_active d2" "same_flash d1 d2"
    using Suc.hyps(1) [OF n Sk d1(2,3), where rv = 256 and out = "out @ map (flash_at d) [k * 256..<k * 256 + 256]"]
    by blast
  moreover have "map (flash_at d) [k * 256..<k * 256 + 256] @ map (flash_at d1) [Suc k * 256..<1024 * 256]
      = map (flash_at d) [k * 256..<1024 * 256]"
  proof -
    have "map (flash_at d1) [Suc k * 256..<1024 * 256] = map (flash_at d) [Suc k * 256..<1024 * 256]"
      using same_flash_at [OF d1(4)] by simp
    moreover have "[k * 256..<1024 * 256] = [k * 256..<k * 256 + 256] @ [Suc k * 256..<1024 * 256]"
      using k upt_add_eq_append [of "k * 256" "k * 256 + 256" "1024 * 256 - Suc k * 256"]
      by (simp add: add.commute)
    ultimately show ?thesis by (metis map_append)
  qed
  ultimately show ?case
    using round d1(4) by (subst loop_opt.simps) (auto intro: same_flash_trans)
qed

lemma upload_boot:
  assumes "dfu_active d" and "buffer_ok buf"
  shows "\<exists>d'. upload (dfu_usb iap buf) d = Some (0, [], map (flash_at d) [0x4000..<0x40000], d') \<and> dfu_active d' \<and> same_flash d d'"
proof -
  obtain d1 where d1: "enter_dfu_mode (dfu_usb iap buf) d = Some (0, [], d1)" "df_state d1 = DFUIDLE"
    "dfu_active d1" "same_flash d d1"
    using enter_boot [OF assms, of iap] by blast
  obtain d2 block where d2: "loop_opt (upload_round (dfu_usb iap buf)) (0, [], int 64, int ((1024 - 64) * 256), [], d1)
      = Some (0, [], block, 0, [] @ map (flash_at d1) [64 * 256..<1024 * 256], d2)" "dfu_active d2" "same_flash d1 d2"
    using upload_blocks [OF assms(2), of 64 d1 iap 0 "[]" "[]"] d1(2,3) by auto
  have "map (flash_at d1) [64 * 256..<1024 * 256] = map (flash_at d) [0x4000..<0x40000]"
    using same_flash_at [OF d1(4)] by simp
  then show ?thesis
    using d1 d2 by (auto simp: upload_def intro: same_flash_trans)
qed

text \<open>C32: Firmware that has been written is read back: after the tool has written a file to the device,
  reading the device gives a file of 240 kB that starts with it.\<close>

theorem firmware_read_back:
  assumes doc: "iap_documented iap prepared" and buf: "buffer_ok buf" and d: "dfu_active d" and f: "length f \<le> 0x3C000"
  shows "\<exists>d1 d2 image. download (dfu_usb iap buf) f d = Some (0, [], d1) \<and> upload (dfu_usb iap buf) d1 = Some (0, [], image, d2)
    \<and> length image = 0x3C000 \<and> take (length f) image = f"
proof -
  obtain d0 where d0: "enter_dfu_mode (dfu_usb iap buf) d = Some (0, [], d0)" "df_state d0 = DFUIDLE" "dfu_active d0"
    using enter_boot [OF d buf, of iap] by blast
  obtain d1 where d1: "download_blocks (dfu_usb iap buf) (int 64) f d0 = (0, [], d1)" "dfu_active d1"
    "\<forall>i<length f. flash_at d1 (64 * 256 + i) = f ! i"
    using download_boot [OF doc buf, of 64 f d0] d0(2,3) f by (auto simp: blank_from_def first_block_def)
  have down: "download (dfu_usb iap buf) f d = Some (0, [], d1)"
    using d0(1) d1(1) by (simp add: download_def)
  obtain d2 where d2: "upload (dfu_usb iap buf) d1 = Some (0, [], map (flash_at d1) [0x4000..<0x40000], d2)"
    using upload_boot [OF d1(2) buf, of iap] by blast
  have "take (length f) (map (flash_at d1) [0x4000..<0x40000]) = f"
    using d1(3) f by (intro nth_equalityI) simp_all
  with down d2 show ?thesis by auto
qed

lemma firmware_read_back_witness:
  "\<exists>d1 d2 image. download (dfu_usb bench_iap 0x10000000) [1, 2, 3] demo_boot = Some (0, [], d1)
    \<and> upload (dfu_usb bench_iap 0x10000000) d1 = Some (0, [], image, d2)
    \<and> length image = 0x3C000 \<and> take (length [1, 2, 3 :: u8]) image = [1, 2, 3]"
  by (rule firmware_read_back [OF bench_iap_documented demo_buffer demo_boot_active]) simp

subsection \<open>Errors that the tool does not see\<close>

lemma length_padded: "length (padded (take 256 f)) = 256"
  by (simp add: padded_def)

text \<open>Whatever a download request does, it is no error that ends the download.\<close>

lemma dnload_result:
  assumes "dfu_active d" and "length bs = 256" and "dfu_out (dfu_usb iap buf) REQ_DNLOAD v bs d = (rv, out, d')"
  shows "(rv = LIBUSB_ERROR_PIPE \<or> rv = 256) \<and> dfu_active d'
    \<and> d' = snd (snd (request_dnload iap (class_setup False (dfu_request 1 v 256 bs)) 256 buf (dfu_mem (store_mem buf bs) d)))"
proof -
  let ?rq = "dfu_request 1 v 256 bs"
  obtain r d1 where t: "class_transfer iap buf False ?rq d = Some (r, d1)"
    using assms(2) by (simp add: class_transfer_def dfu_request_def case_prod_beta Let_def)
  have d1: "d1 = snd (snd (request_handler iap (class_setup False ?rq) 256 buf (dfu_mem (store_mem buf bs) d)))"
    using class_transfer_state [OF t] by (simp add: dfu_request_def)
  have "dfu_active d1"
    unfolding d1 using assms(1) by (intro dfu_active_request) (simp_all add: class_setup_def dfu_request_def)
  moreover have "d' = d1" "rv = LIBUSB_ERROR_PIPE \<or> rv = 256"
    using assms(1-3) t
    by (auto simp: dfu_out_def dfu_usb_def active_mode dfu_request_def split: option.splits)
  ultimately show ?thesis using d1 by (simp add: request_handler_def class_setup_def dfu_request_def)
qed

lemma download_blocks_result:
  "dfu_active d \<Longrightarrow> buffer_ok buf \<Longrightarrow>
   \<exists>errs d'. download_blocks (dfu_usb iap buf) block f d = (0, errs, d') \<and> dfu_active d'"
proof (induction "length f" arbitrary: f block d rule: less_induct)
  case less
  show ?case
  proof (cases "f = []")
    case True
    then show ?thesis using less.prems by (subst download_blocks.simps) simp
  next
    case False
    obtain rv out d1 where 1: "dfu_out (dfu_usb iap buf) REQ_DNLOAD (word_of_int block) (padded (take 256 f)) d = (rv, out, d1)"
      using prod_cases3 by blast
    have D: "rv = LIBUSB_ERROR_PIPE \<or> rv = 256" "dfu_active d1"
      using dnload_result [OF less.prems(1) length_padded 1] by blast+
    obtain d2 where 2: "dfu_get_status (dfu_usb iap buf) d1 = (0, [], d2)" "dfu_active d2"
      using get_status_boot [OF D(2) less.prems(2), of iap] by blast
    obtain errs d3 where "download_blocks (dfu_usb iap buf) (block + 1) (drop 256 f) d2 = (0, errs, d3)" "dfu_active d3"
      using less.hyps [of "drop 256 f" d2 "block + 1"] False 2(2) less.prems(2) by auto
    with False 1 2(1) D(1) show ?thesis by (subst download_blocks.simps) auto
  qed
qed

text \<open>The result of a download says nothing about the flash memory: whatever the calls in ROM do (they
  may all fail), and however long the file is, the tool returns 0.\<close>

theorem download_reports_success:
  assumes "dfu_active d" and "buffer_ok buf"
  shows "\<exists>errs d'. download (dfu_usb iap buf) f d = Some (0, errs, d')"
proof -
  obtain d1 where d1: "enter_dfu_mode (dfu_usb iap buf) d = Some (0, [], d1)" "dfu_active d1"
    using enter_boot [OF assms, of iap] by blast
  obtain errs d2 where "download_blocks (dfu_usb iap buf) 64 f d1 = (0, errs, d2)"
    using download_blocks_result [OF d1(2) assms(2), of iap 64 f] by blast
  with d1(1) show ?thesis by (simp add: download_def)
qed

lemma download_reports_success_witness:
  "\<exists>errs d'. download (dfu_usb (\<lambda>input output c. ([11], c)) 0x10000000) (replicate 1000 7) demo_boot = Some (0, errs, d')"
  by (rule download_reports_success [OF demo_boot_active demo_buffer])

text \<open>C37: A device that no longer answers is waited for for ever: \<open>enter_dfu_mode\<close> keeps the error code of
  \<open>libusb_control_transfer\<close> in a byte and takes it for a state. With every error code of libusb it does not
  return, and so neither do reading, writing and detaching; a bootloader that has been detached is one
  case.\<close>

theorem lost_device_hangs:
  assumes "\<forall>d. fst (ctl True (dfu_request REQ_GETSTATE 0 1 []) d) \<in> {-13..-1} \<union> {-99}"
  shows "enter_dfu_mode ctl d = None \<and> upload ctl d = None \<and> download ctl f d = None \<and> detach ctl d = None"
proof -
  have "enter_dfu_mode ctl d = None"
  proof (rule ccontr)
    assume "enter_dfu_mode ctl d \<noteq> None"
    then obtain t where t: "loop_opt (enter_round ctl) (0, [], d) = Some t" by (auto simp: enter_dfu_mode_def)
    have again: "enter_round ctl x \<noteq> Some (Leave y)" for x y
    proof -
      obtain rv errs d where x: "x = (rv, errs, d)" by (cases x)
      obtain r bs d' where r: "ctl True (dfu_request REQ_GETSTATE 0 1 []) d = (r, bs, d')" by (cases "ctl True (dfu_request REQ_GETSTATE 0 1 []) d")
      then have "r \<in> {-13..-1} \<union> {-99}" using assms by (metis fst_conv)
      then have neg: "r < 0" and "r \<in> {-13, -12, -11, -10, -9, -8, -7, -6, -5, -4, -3, -2, -1, -99}"
        unfolding Un_iff atLeastAtMost_iff insert_iff empty_iff by presburger+
      then have "(word_of_int r :: u8) \<notin> {2, 3, 5, 6, 9, 7, 10}" by auto
      then show ?thesis
        using r neg by (simp add: x enter_round_def dfu_get_state_def dfu_in_def fetched_def)
    qed
    show False by (rule loop_opt_invariant [OF t, of "\<lambda>_. True" "\<lambda>_. False"]) (simp_all add: again)
  qed
  then show ?thesis by (simp add: upload_def download_def detach_def)
qed

lemma lost_device_hangs_witness:
  "enter_dfu_mode (\<lambda>din rq d. (-4, [], d)) () = None \<and> upload (\<lambda>din rq d. (-4, [], d)) () = None
    \<and> download (\<lambda>din rq d. (-4, [], d)) [1] () = None \<and> detach (\<lambda>din rq d. (-4, [], d)) () = None"
  by (rule lost_device_hangs) simp

end
