(* ===== verification/Spec2Isabelle.thy ===== *)
theory Spec2Isabelle
  imports Serial_Fifo Rxtx_Air Rxtx_Hop Usb_Isr Host_Promisc Host_Programs Dfu_Update
begin

text \<open>
  Verification of Ubertooth: of the firmware \<^verbatim>\<open>firmware/bluetooth_rxtx\<close>, the program that runs on the
  LPC17xx microcontroller of an Ubertooth One and receives, follows and transmits Bluetooth and
  Bluetooth Low Energy packets with a CC2400 radio, of the USB stack it runs on, of the library
  \<^verbatim>\<open>host/libubertooth\<close> through which programs on a computer use it, and of the bootloader with the
  tool that writes firmware through it.

  The program. \<open>main\<close> (\<^verbatim>\<open>bluetooth_rxtx.c\<close>) brings the board up and then enters, again and again, the
  mode the host has requested. A mode is a loop that sets the radio up and moves data from the radio
  (through the DMA engine or the radio's own packet buffer) to a queue of packets for the host, until
  the host requests another mode. The host sends vendor requests on the USB control endpoint; they
  read and write the global variables. Four interrupts run between the steps of a mode: the 3200 Hz
  timer that keeps the Bluetooth clock and requests hops, carrier sense, DMA completion and USB. The
  host library sends the requests, receives the packets with bulk transfers into two buffers that
  change places, keeps the last ten packets in a ring buffer and calls a callback for each.

  Theories, in the order of their imports, and the code they model:

  \<^item> \<open>Ubt_Prelude\<close>: machine integers of the types \<open>u8\<close>, \<open>u16\<close> and \<open>u32\<close>, signed ones as \<open>int\<close> with the
    conversions \<open>s8\<close>, \<open>s16\<close> and \<open>s32\<close> written out; bytes of words, bit reversal, copies into arrays.
  \<^item> \<open>Loops\<close>: \<open>while\<close> loops and loops left by \<open>break\<close> as least fixed points, with their rules.
  \<^item> \<open>Crc_Table\<close>: the locale of a checksum computed with a table of 256 entries, interpreted by the tables
    of \<open>Bluetooth_LE\<close> and \<open>Dfu_File\<close>: a look-up is eight steps of the shift register, and a changed byte changes the
    checksum.
  \<^item> \<open>Le_Tables\<close>, \<open>Bluetooth_LE\<close>, \<open>Le_Whitening\<close>: \<^verbatim>\<open>bluetooth_le.h\<close> and \<^verbatim>\<open>bluetooth_le.c\<close>. The lemmas
    show that the three CRC routines agree, that the reverse one inverts the others, that the tables
    of whitening bits and words are the output of the whitening register of the Bluetooth
    specification, and that hopping visits all data channels.
  \<^item> \<open>Bluetooth\<close>: the hop selection of classic Bluetooth and the access code search, \<^verbatim>\<open>bluetooth.c\<close>.
  \<^item> \<open>Interface\<close>: \<^verbatim>\<open>ubertooth_interface.h\<close>, request numbers, packet types and packet layout.
  \<^item> \<open>Bounded_Fifo\<close>: the locale of a ring buffer that refines a bounded list. \<open>Serial_Fifo\<close>
    (\<^verbatim>\<open>serial_fifo.c\<close>) and \<open>Usb_Queue\<close> (the packet queue of \<^verbatim>\<open>ubertooth_usb.c\<close>) interpret it.
  \<^item> \<open>Cc2400\<close>: the radio driver of \<^verbatim>\<open>firmware/common/ubertooth.c\<close>, from the wires of the bit-banged
    serial interface up to transactions, busy waits and tuning.
  \<^item> \<open>Fw_State\<close>: the record \<open>fw\<close> with one field per global variable, pins, registers, and the world.
  \<^item> \<open>Board\<close>: pins, clocks and reset, also from \<^verbatim>\<open>firmware/common/ubertooth.c\<close>.
  \<^item> \<open>Rxtx_Rssi\<close>, \<open>Rxtx_Vendor\<close>, \<open>Rxtx_Irq\<close>, \<open>Rxtx_Radio\<close>, \<open>Rxtx_Stream\<close>, \<open>Rxtx_LE\<close>, \<open>Rxtx_LE_Sync\<close>:
    \<^verbatim>\<open>bluetooth_rxtx.c\<close>, section by section: statistics and squelch; vendor requests; clock, interrupts
    and DMA; radio modes and \<open>hop\<close>; streaming and spectrum analysis; the Low Energy link layer with
    its two receive loops. \<open>Rxtx_Vendor\<close> defines the invariant \<open>fw_inv\<close> of the firmware state.
  \<^item> \<open>Rxtx_Tests\<close> (\<^verbatim>\<open>cc2400_rangetest.c\<close>) and \<open>Ego\<close> (\<^verbatim>\<open>ego.c\<close>), the state machine of the follower.
  \<^item> \<open>Rxtx_Main\<close>: \<open>main\<close>; every state the loop can reach satisfies \<open>fw_inv\<close>.
  \<^item> \<open>Rxtx_Air\<close>, \<open>Rxtx_Hop\<close>: properties across components: transmission against reception, checksums
    against the recovery of CRCInit, hops against the radio, the timer against the connection
    interval, the follower's link states and the cache of access addresses.
  \<^item> \<open>Usb_Std\<close>, \<open>Usb_Control\<close>, \<open>Usb_Transfer\<close>: the LPCUSB stack, \<^verbatim>\<open>usbstdreq.c\<close>, \<^verbatim>\<open>usbcontrol.c\<close> and
    \<^verbatim>\<open>usbinit.c\<close>, with the descriptors of \<^verbatim>\<open>ubertooth_usb.c\<close>. \<open>Usb_Transfer\<close> drives the stack packet by
    packet as a host controller does, and shows that a control transfer is \<open>usb_vendor_request\<close>, that
    enumeration finds the descriptors, and what happens to requests without a handler.
  \<^item> \<open>Usb_Hw\<close>, \<open>Usb_Wire\<close>, \<open>Usb_Isr\<close>: the register layer of the stack, \<^verbatim>\<open>usbhw_lpc.c\<close>, over an arbitrary
    controller \<open>usb_chip\<close> that sees the history of register accesses. \<open>Usb_Wire\<close> says what the command
    engine of a controller makes of that history and shows that the calls of the layers above become
    the commands they mean, and that a packet read arrives byte for byte; its hypotheses
    (\<open>usb_controller\<close>, \<open>rx_controller\<close>) are behaviour documented in the LPC17xx manual, and \<open>bench_chip\<close> is a
    controller that satisfies them. \<open>Usb_Isr\<close> follows an interrupt to the handler that was registered.
  \<^item> \<open>Sliding_Window\<close>: the locale of a window over the last elements of a history, interpreted by the
    ring buffer (\<open>Host_Ring\<close>, \<^verbatim>\<open>ubertooth_ringbuffer.c\<close>) and by the signal history (\<open>Host_Signals\<close>).
  \<^item> \<open>Host_Control\<close>: the commands, \<^verbatim>\<open>ubertooth_control.c\<close>. \<open>Host_Device\<close> puts the USB stack with the
    firmware in the place of libusb, \<open>Host_Commands\<close> shows what the commands do to the firmware.
  \<^item> \<open>Host_Receive\<close>, \<open>Host_Live\<close>: \<^verbatim>\<open>ubertooth.c\<close>, bulk transfers, streams and dumps, and the programs on
    them. \<open>Host_Stream\<close> has the invariant \<open>bulk_inv\<close> of the two buffers and the locales of a callback that
    keeps it (\<open>rx_client\<close>) and of one that folds over the packets (\<open>rx_fold\<close>); \<open>Host_Delivery\<close> shows which
    packets arrive and when a stream ends.
  \<^item> \<open>Host_Callback\<close>: the callbacks, \<^verbatim>\<open>ubertooth_callback.c\<close>. \<open>Host_Signals\<close> treats signal strength, time
    stamps and calibration, \<open>Host_Packets\<close> shows that every callback is an \<open>rx_client\<close> and what reaches
    libbtbb, \<open>Host_Promisc\<close> follows the reports of promiscuous mode from the firmware to the screen,
    \<open>Host_Programs\<close> treats finding a device and the programs that follow a piconet.
  \<^item> \<open>Dfu_File\<close>, \<open>Dfu_Tool\<close>: firmware files with their checksum and the tool \<^verbatim>\<open>ubertooth-dfu.c\<close>. \<open>Dfu_Boot\<close>: the
    bootloader, \<^verbatim>\<open>firmware/bootloader\<close>: programming calls in ROM (a parameter), flash memory, the state
    machine of the upgrade class and the main loop. \<open>Dfu_Flash\<close> states what the manual says of the ROM
    (\<open>iap_documented\<close>, which \<open>bench_iap\<close> satisfies) and shows that the bootloader cannot be overwritten;
    \<open>Dfu_Machine\<close> treats the states and when the main loop ends; \<open>Dfu_Update\<close> connects tool and bootloader
    and shows that a file that is written arrives, that it is read back, and which errors go unseen.
\<close>

text \<open>
  How the state and the operations correspond. A C function that changes globals is a definition of
  the same name from \<open>fw\<close> to \<open>fw\<close>; one that may wait or index out of bounds returns \<open>fw option\<close>.
  \<open>None\<close> means that the function does not return (a busy wait that never ends) or that it has made
  an undefined access (a division by zero, a call through a null pointer, an access outside its
  array). A large loop of the source is cut into definitions for its body, its inner waits and the
  code at its labels; local variables that live across iterations are carried next to the state, and
  the labels a body jumps to are the constructors of its result.

  The outside is the record \<open>world\<close>. All the firmware does to the radio is appended to the history
  \<open>hist\<close>, and the radio answers a transaction as an arbitrary function of that history; so do timer
  value, changing registers, USB endpoint, control requests and interrupts. A theorem about all
  worlds is therefore a theorem about every behaviour of the hardware and the host. Interrupts are
  taken where the main program looks at a variable that an interrupt may change (\<open>interrupts\<close>), any
  number of them in any order; a handler runs to its end, as it does on the microcontroller. An
  interrupt that falls between two such points is seen at the next one. \<open>lab_world\<close> and
  \<open>bench_world\<close> are concrete worlds on which statements are evaluated.

  On the host, the record \<open>ubertooth\<close> is \<open>ubertooth_t\<close> with the files and the output, extended by \<open>rx_state\<close>
  with the static variables of the callbacks. libusb is a parameter: \<open>lu_control\<close> and \<open>lu_submit\<close> act on
  an arbitrary device state, and the completions of bulk transfers are an arbitrary sequence of events; the alarm
  of a time-out is taken where libusb handles events, which is where the host waits.
  libbtbb (\<open>btbb\<close>), the clocks and the memory that \<open>malloc\<close> returns are parameters as well. A line printed
  by a callback is a value of \<open>report\<close>; an error message is a string of \<open>ut_stderr\<close>. In the USB stack a
  pointer is a block of \<open>usb_mem\<close> with an offset, and what is done to the USB hardware is the list \<open>us_log\<close>.

  Loops that the source does not bound are least fixed points, so no fuel is needed: what is proved
  of their result holds whenever they return. That they return is proved where the code decides it
  (\<open>dma_waits_end\<close>, \<open>wait_status_returns\<close>, \<open>count_bits_card\<close>), and that the repeater never does.

  The model is of the build for the Ubertooth One with transmission enabled (\<^verbatim>\<open>UBERTOOTH_ONE\<close>,
  \<^verbatim>\<open>TX_ENABLE\<close>), which is the one the makefile builds.

  Not modelled: delay loops between two steps (they touch nothing; the loop of \<open>wait_us\<close> is treated in
  \<open>Cc2400\<close>); the DMA functions of \<^verbatim>\<open>usbhw_lpc.c\<close> and its branches for other
  microcontrollers; the virtual serial port, which only a test program uses; the code of other boards and other firmware
  images; the start-up code and the register addresses; the host tools other than \<^verbatim>\<open>ubertooth-dfu\<close>, and
  its reading of options; the Kismet plug-ins and the third-party option parser. Requests to the
  bootloader are modelled as whole transfers (\<open>class_transfer\<close>), not packet by packet. In the host library the code under \<^verbatim>\<open>ENABLE_PCAP\<close> and the
  signal handler that ends the process are left out, and \<open>char\<close> is signed.

  Two kinds of undefined access are not tracked. \<open>rssi_iir\<close> is indexed with a channel outside 2402 to 2480 MHz
  if the host sets one and then starts to hop; there the model reads an unspecified value and ignores
  the write. The buffers of \<open>ubertooth_bulk_init\<close> and of \<open>ubertooth_cmd_async\<close> are local arrays that are
  used after the function has returned; the model lets them live on. The bytes that
  \<open>USBHwEPWrite\<close> reads past the end of a packet are an arbitrary argument of the model.
\<close>

end
